(* ===== verification/Prelude.thy ===== *)
theory Prelude
  imports Complex_Main "HOL-Library.Sublist" "HOL-Library.Multiset"
begin

text \<open>
  What every component of the model shares: the error values that stand for the
  exceptions of the TypeScript code, the sequencing of code that may throw, the string
  operations of the language that the code uses, and a stable sort by a comparator.

  Numbers. A JavaScript number that the code uses as a count, an index or a time in
  milliseconds is an \<open>int\<close> here, and one that may be fractional is a \<open>rat\<close>; both agree
  with the double-precision value as long as the exact value is representable, which
  holds for integers below \<open>2 ^ 53\<close>. Strings are lists of characters of one code unit;
  case conversion and white space are those of the ASCII range.
\<close>

named_theorems guard_simps \<open>unfolding of guards that throw\<close>
named_theorems spec_intros \<open>introduction rules of the component invariants\<close>

section \<open>Errors as values\<close>

text \<open>
  One constructor per \<open>throw\<close> of the modelled code, named after the code that begins its
  message; the arguments are the values the message shows that a caller can act on.
  \<open>Thrown code args\<close> stands for the errors of components whose messages begin with a code.
\<close>

datatype (plugins only: code size) eos_error =
    CurrencyMismatch string string
  | DivisionByZero
  | DecimalError string
  | InvalidInterval
  | CycleDetected string string
  | StageNotFound string
  | CrossCellAllocationProhibited string string
  | InvoiceExceedsAccrued rat rat
  | InvoiceExceedsCommitment rat rat
  | CostAllocationExceedsLine rat rat
  | MixedCurrencyDiscrepancy string string
  | DuplicateSourceImport string string
  | CreditNoteExceedsActual rat rat
  | ExecutionDeniedSuperseded
  | ExecutionDeniedHashMismatch
  | ExecutionDeniedInactive
  | RuleInvalid string
  | TypeErrorThrown
  | ResourceTypeMismatch string
  | ResourceNotServiceable string
  | WriterNotAuthoritative string
  | ReservationCollision string string
  | BulkCapacityExceeded int int
  | HoldNotActive
  | AssetNotServiceable string
  | AssetProjectCollision string string
  | FrameworkCeilingExceeded rat rat
  | BankChangeNotPending
  | TwoPersonRuleViolation
  | SoleSourceRationaleRequired
  | FreelanceComplianceExpired
  | PoAlreadyReleased
  | PoNotApproved
  | PoNotInReconciliation
  | NegativeReceipt
  | ReceiptExceedsOrdered rat rat
  | NoQuotesToEvaluate string
  | RegulatoryApprovalAbsent string
  | HoursNotPositive
  | NotALumpSum string
  | LumpSumExceeded rat rat
  | JustificationRequired
  | MissingIdempotencyKey
  | IdempotencyConflict
  | OrderBeforeApproval
  | NotFound string
  | Thrown string "string list"

type_synonym 'a res = "eos_error + 'a"

section \<open>Sequencing code that may throw\<close>

definition bind_res :: "'a res \<Rightarrow> ('a \<Rightarrow> 'b res) \<Rightarrow> 'b res" where
  "bind_res m f = (case m of Inl e \<Rightarrow> Inl e | Inr x \<Rightarrow> f x)"

text \<open>\<open>throw_if b e\<close> is \<open>if (b) throw e;\<close>.\<close>

definition throw_if :: "bool \<Rightarrow> eos_error \<Rightarrow> unit res" where
  "throw_if b e = (if b then Inl e else Inr ())"

text \<open>A loop whose body updates an accumulator and may throw.\<close>

fun fold_res :: "('s \<Rightarrow> 'a \<Rightarrow> 's res) \<Rightarrow> 's \<Rightarrow> 'a list \<Rightarrow> 's res" where
  "fold_res f s [] = Inr s"
| "fold_res f s (x # xs) = bind_res (f s x) (\<lambda>s'. fold_res f s' xs)"

text \<open>A loop that only checks its elements, in order.\<close>

fun each_res :: "('a \<Rightarrow> unit res) \<Rightarrow> 'a list \<Rightarrow> unit res" where
  "each_res f [] = Inr ()"
| "each_res f (x # xs) = bind_res (f x) (\<lambda>_. each_res f xs)"

fun map_res :: "('a \<Rightarrow> 'b res) \<Rightarrow> 'a list \<Rightarrow> 'b list res" where
  "map_res f [] = Inr []"
| "map_res f (x # xs) =
     bind_res (f x) (\<lambda>y. bind_res (map_res f xs) (\<lambda>ys. Inr (y # ys)))"

text \<open>
  A caller that catches what a step throws keeps its state: \<open>attempts\<close> offers a sequence of
  inputs to a step, and the rejected ones have no effect.
\<close>

fun attempts :: "('s \<Rightarrow> 'a \<Rightarrow> 's res) \<Rightarrow> 's \<Rightarrow> 'a list \<Rightarrow> 's" where
  "attempts f s [] = s"
| "attempts f s (x # xs) = (case f s x of Inl _ \<Rightarrow> attempts f s xs | Inr s' \<Rightarrow> attempts f s' xs)"

definition returns :: "'a res \<Rightarrow> bool" where
  "returns m = (case m of Inl _ \<Rightarrow> False | Inr _ \<Rightarrow> True)"

lemma bind_res_simps [simp]:
  "bind_res (Inl e) f = Inl e"
  "bind_res (Inr x) f = f x"
  by (simp_all add: bind_res_def)

lemma bind_res_Inr_conv [simp]:
  "bind_res m f = Inr y \<longleftrightarrow> (\<exists>x. m = Inr x \<and> f x = Inr y)"
  by (simp add: bind_res_def split: sum.splits)

lemma bind_res_Inl_conv:
  "bind_res m f = Inl e \<longleftrightarrow> m = Inl e \<or> (\<exists>x. m = Inr x \<and> f x = Inl e)"
  by (simp add: bind_res_def split: sum.splits)

lemma throw_if_simps [simp]:
  "throw_if True e = Inl e"
  "throw_if False e = Inr ()"
  by (simp_all add: throw_if_def)

lemma throw_if_Inr_conv [simp]: "throw_if b e = Inr u \<longleftrightarrow> \<not> b"
  by (simp add: throw_if_def)

lemma throw_if_Inl_conv [simp]: "throw_if b e = Inl d \<longleftrightarrow> b \<and> d = e"
  by (auto simp: throw_if_def)

lemma returns_simps [simp]: "returns (Inr x)" "\<not> returns (Inl e)"
  by (simp_all add: returns_def)

lemma returns_conv: "returns m \<longleftrightarrow> (\<exists>x. m = Inr x)"
  by (cases m) auto

lemma each_res_Inr_conv: "each_res f xs = Inr u \<longleftrightarrow> (\<forall>x \<in> set xs. f x = Inr ())"
  by (induction xs) auto

lemma each_res_Inl: "each_res f xs = Inl e \<Longrightarrow> \<exists>x \<in> set xs. f x = Inl e"
  by (induction xs) (auto simp: bind_res_Inl_conv)

lemma fold_res_append:
  "fold_res f s (xs @ ys) = bind_res (fold_res f s xs) (\<lambda>s'. fold_res f s' ys)"
  by (induction xs arbitrary: s) (auto simp: bind_res_def split: sum.splits)

text \<open>An invariant of the loop body is an invariant of the loop.\<close>

lemma fold_res_invariant:
  assumes "fold_res f s xs = Inr t" and "I s"
    and "\<And>s x s'. I s \<Longrightarrow> x \<in> set xs \<Longrightarrow> f s x = Inr s' \<Longrightarrow> I s'"
  shows "I t"
  using assms
proof (induction xs arbitrary: s)
  case Nil
  then show ?case by simp
next
  case (Cons x xs)
  from Cons.prems(1) obtain s' where s': "f s x = Inr s'" and rest: "fold_res f s' xs = Inr t"
    by auto
  have "I s'" by (rule Cons.prems(3) [OF Cons.prems(2) _ s']) simp
  from rest this Cons.prems(3) show ?case by (intro Cons.IH) auto
qed

lemma map_res_Inr_length: "map_res f xs = Inr ys \<Longrightarrow> length ys = length xs"
  by (induction xs arbitrary: ys) auto

lemma map_res_Inr_all2: "map_res f xs = Inr ys \<Longrightarrow> list_all2 (\<lambda>x y. f x = Inr y) xs ys"
  by (induction xs arbitrary: ys) auto

section \<open>Strings of the language\<close>

definition lower_char :: "char \<Rightarrow> char" where
  "lower_char c = (let n = (of_char c :: nat) in
     if 65 \<le> n \<and> n \<le> 90 then char_of (n + 32) else c)"

definition upper_char :: "char \<Rightarrow> char" where
  "upper_char c = (let n = (of_char c :: nat) in
     if 97 \<le> n \<and> n \<le> 122 then char_of (n - 32) else c)"

definition to_lower :: "string \<Rightarrow> string" where
  "to_lower s = map lower_char s"

definition to_upper :: "string \<Rightarrow> string" where
  "to_upper s = map upper_char s"

definition is_space :: "char \<Rightarrow> bool" where
  "is_space c = (let n = (of_char c :: nat) in n = 32 \<or> 9 \<le> n \<and> n \<le> 13)"

text \<open>\<open>s.trim()\<close>.\<close>

definition trim :: "string \<Rightarrow> string" where
  "trim s = rev (dropWhile is_space (rev (dropWhile is_space s)))"

text \<open>\<open>s.replace(/[...]+/g, r)\<close>: each maximal run of characters of the class becomes \<open>r\<close>.\<close>

fun collapse_runs :: "(char \<Rightarrow> bool) \<Rightarrow> string \<Rightarrow> bool \<Rightarrow> string \<Rightarrow> string" where
  "collapse_runs p r in_run [] = []"
| "collapse_runs p r in_run (c # cs) =
     (if p c then (if in_run then collapse_runs p r True cs else r @ collapse_runs p r True cs)
      else c # collapse_runs p r False cs)"

definition replace_runs :: "(char \<Rightarrow> bool) \<Rightarrow> string \<Rightarrow> string \<Rightarrow> string" where
  "replace_runs p r s = collapse_runs p r False s"

text \<open>\<open>s.includes(t)\<close> and \<open>s.startsWith(t)\<close>.\<close>

definition str_includes :: "string \<Rightarrow> string \<Rightarrow> bool" where
  "str_includes s t = sublist t s"

definition starts_with :: "string \<Rightarrow> string \<Rightarrow> bool" where
  "starts_with s t = prefix t s"

text \<open>The truth of an optional text: it is there and not empty.\<close>

definition text_given :: "string option \<Rightarrow> bool" where
  "text_given s \<longleftrightarrow> (case s of Some t \<Rightarrow> t \<noteq> [] | None \<Rightarrow> False)"

lemma lower_char_idem [simp]: "lower_char (lower_char c) = lower_char c"
  by (simp add: lower_char_def Let_def)

lemma to_lower_idem [simp]: "to_lower (to_lower s) = to_lower s"
  by (simp add: to_lower_def comp_def)

lemma upper_char_idem [simp]: "upper_char (upper_char c) = upper_char c"
proof -
  have "(n - 32) mod 256 = n - 32" if "97 \<le> n" and "n \<le> 122" for n :: nat
    using that by simp
  then show ?thesis by (auto simp: upper_char_def Let_def)
qed

lemma to_upper_idem [simp]: "to_upper (to_upper s) = to_upper s"
  by (simp add: to_upper_def comp_def)

lemma length_to_upper [simp]: "length (to_upper s) = length s"
  by (simp add: to_upper_def)

section \<open>Decimal numerals\<close>

definition digit_char :: "nat \<Rightarrow> char" where
  "digit_char d = char_of (48 + d)"

definition digit_val :: "char \<Rightarrow> nat" where
  "digit_val c = of_char c - 48"

definition is_digit :: "char \<Rightarrow> bool" where
  "is_digit c \<longleftrightarrow> 48 \<le> (of_char c :: nat) \<and> (of_char c :: nat) \<le> 57"

fun nat_str :: "nat \<Rightarrow> string" where
  "nat_str n = (if n < 10 then [digit_char n] else nat_str (n div 10) @ [digit_char (n mod 10)])"

declare nat_str.simps [simp del]

definition digits_val :: "string \<Rightarrow> nat" where
  "digits_val s = foldl (\<lambda>a c. 10 * a + digit_val c) 0 s"

definition int_str :: "int \<Rightarrow> string" where
  "int_str i = (if i < 0 then CHR ''-'' # nat_str (nat (- i)) else nat_str (nat i))"

lemma digit_char_simps [simp]:
  "d < 10 \<Longrightarrow> digit_val (digit_char d) = d"
  "d < 10 \<Longrightarrow> is_digit (digit_char d)"
  by (simp_all add: digit_val_def digit_char_def is_digit_def)

lemma dot_not_digit [simp]: "\<not> is_digit (CHR ''.'')" "\<not> is_digit (CHR ''-'')"
  by (simp_all add: is_digit_def)

lemma digits_val_snoc [simp]: "digits_val (s @ [c]) = 10 * digits_val s + digit_val c"
  by (simp add: digits_val_def)

lemma nat_str_digits: "list_all is_digit (nat_str n) \<and> nat_str n \<noteq> []"
proof (induction n rule: nat_str.induct)
  case (1 n)
  then show ?case by (cases "n < 10") (simp_all add: nat_str.simps [of n])
qed

lemma digits_val_nat_str: "digits_val (nat_str n) = n"
proof (induction n rule: nat_str.induct)
  case (1 n)
  show ?case
  proof (cases "n < 10")
    case True
    then show ?thesis by (simp add: nat_str.simps [of n] digits_val_def)
  next
    case False
    with "1.IH" show ?thesis by (simp add: nat_str.simps [of n])
  qed
qed

lemma nat_str_inject [simp]: "nat_str m = nat_str n \<longleftrightarrow> m = n"
  by (metis digits_val_nat_str)

section \<open>A stable sort by a comparator\<close>

text \<open>
  \<open>Array.prototype.sort\<close> is stable; \<open>le a b\<close> is \<open>compare(a, b) <= 0\<close>. An element is
  inserted before the first one it is not after, so equal elements keep their order.
\<close>

fun insert_by :: "('a \<Rightarrow> 'a \<Rightarrow> bool) \<Rightarrow> 'a \<Rightarrow> 'a list \<Rightarrow> 'a list" where
  "insert_by le x [] = [x]"
| "insert_by le x (y # ys) = (if le x y then x # y # ys else y # insert_by le x ys)"

fun sort_by :: "('a \<Rightarrow> 'a \<Rightarrow> bool) \<Rightarrow> 'a list \<Rightarrow> 'a list" where
  "sort_by le [] = []"
| "sort_by le (x # xs) = insert_by le x (sort_by le xs)"

lemma mset_insert_by [simp]: "mset (insert_by le x xs) = add_mset x (mset xs)"
  by (induction xs) auto

lemma mset_sort_by [simp]: "mset (sort_by le xs) = mset xs"
  by (induction xs) auto

lemma set_insert_by [simp]: "set (insert_by le x xs) = insert x (set xs)"
  by (induction xs) auto

lemma set_sort_by [simp]: "set (sort_by le xs) = set xs"
  by (induction xs) auto

lemma length_sort_by [simp]: "length (sort_by le xs) = length xs"
  by (metis mset_sort_by size_mset)

lemma sort_by_eq_Nil [simp]: "sort_by le xs = [] \<longleftrightarrow> xs = []"
  by (metis length_0_conv length_sort_by)

lemma sorted_insert_by:
  assumes "\<And>a b. le a b \<or> le b a" and "\<And>a b c. le a b \<Longrightarrow> le b c \<Longrightarrow> le a c"
    and "sorted_wrt le xs"
  shows "sorted_wrt le (insert_by le x xs)"
  using assms(3)
proof (induction xs)
  case Nil
  then show ?case by simp
next
  case (Cons y ys)
  then show ?case using assms(1,2) by (auto; metis)
qed

lemma sorted_sort_by:
  assumes "\<And>a b. le a b \<or> le b a" and "\<And>a b c. le a b \<Longrightarrow> le b c \<Longrightarrow> le a c"
  shows "sorted_wrt le (sort_by le xs)"
proof (induction xs)
  case Nil
  show ?case by simp
next
  case (Cons x xs)
  from sorted_insert_by [OF assms Cons.IH] show ?case by simp
qed

text \<open>The result of a sort by an antisymmetric order does not depend on the input's order.\<close>

lemma sorted_wrt_mset_unique:
  assumes "mset xs = mset ys" and "sorted_wrt le xs" and "sorted_wrt le ys"
    and anti: "\<And>a b. a \<in> set xs \<Longrightarrow> b \<in> set xs \<Longrightarrow> le a b \<Longrightarrow> le b a \<Longrightarrow> a = b"
  shows "xs = ys"
  using assms
proof (induction xs arbitrary: ys)
  case Nil
  then show ?case by simp
next
  case (Cons x xs)
  then obtain y ys' where ys: "ys = y # ys'" by (cases ys) auto
  have eq: "set (x # xs) = set ys"
    using Cons.prems(1) by (metis set_mset_mset)
  have "x = y"
  proof (rule ccontr)
    assume "x \<noteq> y"
    then have "y \<in> set xs" and "x \<in> set ys'" using eq ys by auto
    then have "le x y" and "le y x" using Cons.prems(2,3) ys by auto
    then show False using Cons.prems(4) \<open>y \<in> set xs\<close> \<open>x \<noteq> y\<close> by auto
  qed
  moreover have "xs = ys'"
    using Cons.prems ys \<open>x = y\<close> by (intro Cons.IH) auto
  ultimately show ?case by (simp add: ys)
qed

section \<open>Insertion-ordered maps\<close>

text \<open>
  A \<open>Map\<close> keeps its keys in the order of their first insertion; \<open>set\<close> on a key that is there
  replaces the value in place.
\<close>

fun map_set :: "'k \<Rightarrow> 'v \<Rightarrow> ('k \<times> 'v) list \<Rightarrow> ('k \<times> 'v) list" where
  "map_set k v [] = [(k, v)]"
| "map_set k v ((k', v') # xs) = (if k' = k then (k', v) # xs else (k', v') # map_set k v xs)"

lemma map_of_map_set [simp]: "map_of (map_set k v xs) = (map_of xs)(k \<mapsto> v)"
  by (induction k v xs rule: map_set.induct) auto

lemma fst_map_set: "fst ` set (map_set k v xs) = insert k (fst ` set xs)"
  by (induction k v xs rule: map_set.induct) auto

lemma distinct_map_set [simp]: "distinct (map fst (map_set k v xs)) \<longleftrightarrow> distinct (map fst xs)"
  by (induction k v xs rule: map_set.induct) (auto simp: fst_map_set)

lemma set_map_set:
  "distinct (map fst xs) \<Longrightarrow> set (map_set k v xs) = insert (k, v) {p \<in> set xs. fst p \<noteq> k}"
  by (induction k v xs rule: map_set.induct) (auto simp: rev_image_eqI)

lemma sum_map_set:
  "(\<And>p. p \<in> set xs \<Longrightarrow> 0 \<le> (f p :: int)) \<Longrightarrow>
     sum_list (map f (map_set k v xs)) \<le> sum_list (map f xs) + f (k, v)"
  by (induction k v xs rule: map_set.induct) auto

section \<open>The contract of a sequence of guarded steps\<close>

text \<open>
  Several components offer an operation that checks a guard, throws when it fails and
  otherwise returns the updated state. What a client of such an operation relies on is the
  same everywhere: an accepted step keeps an invariant, so an accepted sequence of steps
  does, and where every step also keeps a total, the sequence keeps it.
\<close>

locale guarded_run =
  fixes step :: "'s \<Rightarrow> 'x \<Rightarrow> 's res"
    and inv :: "'s \<Rightarrow> bool"
    and admissible :: "'x \<Rightarrow> bool"
  assumes step_inv: "inv s \<Longrightarrow> admissible x \<Longrightarrow> step s x = Inr s' \<Longrightarrow> inv s'"
begin

lemma run_inv:
  assumes "fold_res step s xs = Inr t" and "inv s" and "\<forall>x \<in> set xs. admissible x"
  shows "inv t"
  using assms(1,2) by (rule fold_res_invariant) (use assms(3) step_inv in blast)

lemma attempts_inv: "inv s \<Longrightarrow> \<forall>x \<in> set xs. admissible x \<Longrightarrow> inv (attempts step s xs)"
  by (induction xs arbitrary: s) (auto split: sum.splits intro: step_inv)

lemma run_prefix_inv:
  assumes "fold_res step s (xs @ ys) = Inr t" and "inv s" and "\<forall>x \<in> set xs. admissible x"
  shows "\<exists>u. fold_res step s xs = Inr u \<and> inv u"
  using assms by (auto simp: fold_res_append intro: run_inv)

end

locale conserving_run = guarded_run step inv admissible
  for step :: "'s \<Rightarrow> 'x \<Rightarrow> 's res" and inv :: "'s \<Rightarrow> bool" and admissible :: "'x \<Rightarrow> bool" +
  fixes total :: "'s \<Rightarrow> 't"
  assumes step_total: "inv s \<Longrightarrow> admissible x \<Longrightarrow> step s x = Inr s' \<Longrightarrow> total s' = total s"
begin

lemma attempts_total:
  "inv s \<Longrightarrow> \<forall>x \<in> set xs. admissible x \<Longrightarrow> total (attempts step s xs) = total s"
proof (induction xs arbitrary: s)
  case Nil
  then show ?case by simp
next
  case (Cons x xs)
  show ?case
  proof (cases "step s x")
    case (Inl e)
    with Cons show ?thesis by simp
  next
    case (Inr s')
    with Cons.prems have "inv s'" and "total s' = total s"
      using step_inv [of s x s'] step_total [of s x s'] by auto
    with Inr Cons show ?thesis by simp
  qed
qed

lemma run_total:
  assumes "fold_res step s xs = Inr t" and "inv s" and "\<forall>x \<in> set xs. admissible x"
  shows "total t = total s"
proof -
  have "inv t \<and> total t = total s"
    by (rule fold_res_invariant [OF assms(1)])
      (use assms(2,3) in \<open>auto dest: step_inv step_total\<close>)
  then show ?thesis ..
qed

end

section \<open>Lists\<close>

lemma find_Some_iff_in: "List.find P xs = Some x \<Longrightarrow> x \<in> set xs \<and> P x"
  by (auto simp: find_Some_iff)

lemma sum_list_nonneg_rat: "(\<And>x. x \<in> set xs \<Longrightarrow> 0 \<le> x) \<Longrightarrow> 0 \<le> sum_list (xs :: rat list)"
  by (induction xs) auto

section \<open>Numbers\<close>

text \<open>\<open>Math.round\<close> rounds half up.\<close>

definition js_round :: "rat \<Rightarrow> int" where
  "js_round x = \<lfloor>x + 1 / 2\<rfloor>"

lemma js_round_mono: "x \<le> y \<Longrightarrow> js_round x \<le> js_round y"
  by (simp add: js_round_def floor_mono)

lemma js_round_of_int [simp]: "js_round (of_int n) = n"
  by (simp add: js_round_def floor_eq_iff)

lemma js_round_numeral [simp]: "js_round 0 = 0" "js_round 1 = 1" "js_round (numeral n) = numeral n"
  using js_round_of_int [of 0] js_round_of_int [of 1] js_round_of_int [of "numeral n"] by simp_all

end
