(* ===== verification/Time_Util.thy ===== *)
theory Time_Util
  imports Prelude
begin

text \<open>
  \<open>packages/domain/src/time.ts\<close>. A \<open>Date\<close> (or the date a string is read as) is its time in
  milliseconds, \<open>None\<close> for the invalid date, whose time is \<open>NaN\<close>: every comparison with it
  is false.
\<close>

type_synonym js_time = "int option"

definition time_lt :: "js_time \<Rightarrow> js_time \<Rightarrow> bool" where
  "time_lt s t = (case (s, t) of (Some a, Some b) \<Rightarrow> a < b | _ \<Rightarrow> False)"

definition time_le :: "js_time \<Rightarrow> js_time \<Rightarrow> bool" where
  "time_le s t = (case (s, t) of (Some a, Some b) \<Rightarrow> a \<le> b | _ \<Rightarrow> False)"

record time_window =
  w_start :: js_time
  w_end :: js_time

definition is_valid_business_date :: "string \<Rightarrow> bool" where
  "is_valid_business_date s \<longleftrightarrow>
     length s = 10 \<and> list_all is_digit (take 4 s) \<and> s ! 4 = CHR ''-'' \<and>
     list_all is_digit (take 2 (drop 5 s)) \<and> s ! 7 = CHR ''-'' \<and> list_all is_digit (drop 8 s)"

definition is_within_half_open :: "js_time \<Rightarrow> js_time \<Rightarrow> js_time \<Rightarrow> bool" where
  "is_within_half_open t s e \<longleftrightarrow> time_le s t \<and> time_lt t e"

definition intervals_overlap :: "js_time \<Rightarrow> js_time \<Rightarrow> js_time \<Rightarrow> js_time \<Rightarrow> bool res" where
  "intervals_overlap s1 e1 s2 e2 =
     bind_res (throw_if (time_le e1 s1 \<or> time_le e2 s2) InvalidInterval)
       (\<lambda>_. Inr (time_lt s1 e2 \<and> time_lt s2 e1))"

definition overlaps :: "time_window \<Rightarrow> time_window \<Rightarrow> bool res" where
  "overlaps w1 w2 = intervals_overlap (w_start w1) (w_end w1) (w_start w2) (w_end w2)"

section \<open>What the overlap test decides\<close>

text \<open>The instants of a half-open window; a window with an invalid bound has none.\<close>

definition covers :: "time_window \<Rightarrow> int \<Rightarrow> bool" where
  "covers w t = is_within_half_open (Some t) (w_start w) (w_end w)"

lemma covers_iff:
  "covers w t \<longleftrightarrow> (\<exists>s e. w_start w = Some s \<and> w_end w = Some e \<and> s \<le> t \<and> t < e)"
  by (auto simp: covers_def is_within_half_open_def time_lt_def time_le_def split: option.splits)

lemma overlaps_False_disjoint: "overlaps v w = Inr False \<Longrightarrow> \<not> (covers v t \<and> covers w t)"
  by (auto simp: overlaps_def intervals_overlap_def covers_iff time_lt_def time_le_def
      split: option.splits)

lemma overlaps_common:
  assumes "overlaps v w = Inr b"
  shows "b \<longleftrightarrow> (\<exists>t. covers v t \<and> covers w t)"
proof
  assume b
  with assms obtain s1 e1 s2 e2 where *:
    "w_start v = Some s1" "w_end v = Some e1" "w_start w = Some s2" "w_end w = Some e2"
    "s1 < e2" "s2 < e1" "s1 < e1" "s2 < e2"
    by (auto simp: overlaps_def intervals_overlap_def time_lt_def time_le_def split: option.splits)
  then have "covers v (max s1 s2) \<and> covers w (max s1 s2)" by (auto simp: covers_iff)
  then show "\<exists>t. covers v t \<and> covers w t" by blast
next
  assume "\<exists>t. covers v t \<and> covers w t"
  then show b using assms overlaps_False_disjoint [of v w] by (cases b) auto
qed

lemma overlaps_sym: "overlaps v w = overlaps w v"
  by (auto simp: overlaps_def intervals_overlap_def throw_if_def)

end
