(* ===== verification/Stage_Graph.thy ===== *)
theory Stage_Graph
  imports Prelude
begin

text \<open>
  \<open>packages/domain/src/stage-graph.ts\<close>: the schedule graph with its cycle check (a depth
  first search that keeps the visited nodes and the nodes of the current path), and the
  stage instances with their repeat and archive operations.
\<close>

section \<open>Data\<close>

record stage_instance =
  si_id :: string
  si_template :: string
  si_name :: string
  si_order :: rat
  si_archived :: bool
  si_cycle :: int
  si_previous :: "string option"

datatype dependency_type = DepFS | DepSS | DepFF

record dependency_edge =
  de_id :: string
  de_pred :: string
  de_succ :: string
  de_type :: dependency_type

section \<open>The cycle check\<close>

type_synonym adjacency = "(string \<times> string list) list"

text \<open>\<open>adj.get(p).push(s)\<close>, after \<open>adj.set(p, [])\<close> for a new key; keys in insertion order.\<close>

fun adj_push :: "string \<Rightarrow> string \<Rightarrow> adjacency \<Rightarrow> adjacency" where
  "adj_push p s [] = [(p, [s])]"
| "adj_push p s ((k, vs) # adj) =
     (if k = p then (k, vs @ [s]) # adj else (k, vs) # adj_push p s adj)"

definition build_adj :: "dependency_edge list \<Rightarrow> adjacency" where
  "build_adj es = fold (\<lambda>e adj. adj_push (de_pred e) (de_succ e) adj) es []"

definition neighbours :: "adjacency \<Rightarrow> string \<Rightarrow> string list" where
  "neighbours adj n = (case map_of adj n of None \<Rightarrow> [] | Some vs \<Rightarrow> vs)"

text \<open>
  The loop over the neighbours inside \<open>dfs\<close>, with the call of \<open>dfs\<close> on an unvisited
  neighbour unfolded; the state is the pair of \<open>visited\<close> and \<open>recStack\<close>, and the boolean
  says that a cycle was found.
\<close>

type_synonym dfs_state = "string set \<times> string set"

function dfs_loop :: "adjacency \<Rightarrow> string list \<Rightarrow> dfs_state \<Rightarrow> bool \<times> dfs_state" where
  "dfs_loop adj [] st = (False, st)"
| "dfs_loop adj (n # ns) (vis, stk) =
     (if n \<notin> vis then
        (case dfs_loop adj (neighbours adj n) (insert n vis, insert n stk) of
           (True, st) \<Rightarrow> (True, st)
         | (False, (vis', stk')) \<Rightarrow> dfs_loop adj ns (vis', stk' - {n}))
      else if n \<in> stk then (True, (vis, stk))
      else dfs_loop adj ns (vis, stk))"
  by pat_completeness auto

lemma dfs_loop_grows:
  "dfs_loop_dom (adj, ns, st) \<Longrightarrow> dfs_loop adj ns st = (b, st') \<Longrightarrow> fst st \<subseteq> fst st'"
proof (induction adj ns st arbitrary: b st' rule: dfs_loop.pinduct)
  case (1 adj st)
  then show ?case by (simp add: dfs_loop.psimps)
next
  case (2 adj n ns vis stk)
  show ?case
  proof (cases "n \<in> vis")
    case True
    note eq = dfs_loop.psimps(2) [OF "2.hyps"]
    show ?thesis
    proof (cases "n \<in> stk")
      case stk: True
      with "2.prems" True show ?thesis by (simp add: eq)
    next
      case stk: False
      with "2.prems" True have "dfs_loop adj ns (vis, stk) = (b, st')" by (simp add: eq)
      then show ?thesis using "2.IH"(3) True stk by simp
    qed
  next
    case False
    obtain c vis' stk' where inner:
      "dfs_loop adj (neighbours adj n) (insert n vis, insert n stk) = (c, (vis', stk'))"
      by (metis prod.exhaust)
    have sub: "insert n vis \<subseteq> vis'" using "2.IH"(1) [OF False inner] by simp
    show ?thesis
    proof (cases c)
      case True
      with "2.prems" False inner have "st' = (vis', stk')"
        by (simp add: dfs_loop.psimps(2) [OF "2.hyps"])
      with sub show ?thesis by auto
    next
      case c: False
      with "2.prems" False inner have "dfs_loop adj ns (vis', stk' - {n}) = (b, st')"
        by (simp add: dfs_loop.psimps(2) [OF "2.hyps"])
      then have "vis' \<subseteq> fst st'" using "2.IH"(2) [OF False inner [symmetric]] c by simp
      with sub show ?thesis by auto
    qed
  qed
qed

lemma dfs_loop_total: "All dfs_loop_dom"
proof (relation "measures [\<lambda>(adj, ns, (vis, stk)). card (fst ` set adj - vis),
    \<lambda>(adj, ns, st). length ns]", goal_cases)
  case 1
  then show ?case by simp
next
  case (2 adj n ns vis stk)
  show ?case
  proof (cases "n \<in> fst ` set adj")
    case True
    with 2 have "fst ` set adj - insert n vis \<subset> fst ` set adj - vis" by auto
    then show ?thesis by (simp add: psubset_card_mono)
  next
    case False
    then have "neighbours adj n = []"
      by (simp add: neighbours_def map_of_eq_None_iff [THEN iffD2])
    moreover have "fst ` set adj - insert n vis = fst ` set adj - vis" using False by auto
    ultimately show ?thesis by simp
  qed
next
  case (3 adj n ns vis stk st c vis' stk')
  from dfs_loop_grows [OF 3(5) 3(2) [symmetric]] 3(4) [symmetric] have "insert n vis \<subseteq> vis'"
    by simp
  then have "card (fst ` set adj - vis') \<le> card (fst ` set adj - vis)"
    by (intro card_mono) auto
  then show ?case by auto
next
  case (4 adj n ns vis stk)
  then show ?case by simp
qed

termination dfs_loop
  by (rule dfs_loop_total)

definition dfs :: "adjacency \<Rightarrow> string \<Rightarrow> dfs_state \<Rightarrow> bool \<times> dfs_state" where
  "dfs adj n st = (case st of (vis, stk) \<Rightarrow>
     (case dfs_loop adj (neighbours adj n) (insert n vis, insert n stk) of
        (True, st') \<Rightarrow> (True, st')
      | (False, (vis', stk')) \<Rightarrow> (False, (vis', stk' - {n}))))"

text \<open>The loop over \<open>adj.keys()\<close>: true when some search from an unvisited key finds a cycle.\<close>

fun search_keys :: "adjacency \<Rightarrow> string list \<Rightarrow> dfs_state \<Rightarrow> bool" where
  "search_keys adj [] st = False"
| "search_keys adj (n # ns) st =
     (if n \<notin> fst st then
        (case dfs adj n st of (True, st') \<Rightarrow> True | (False, st') \<Rightarrow> search_keys adj ns st')
      else search_keys adj ns st)"

definition assert_acyclic :: "dependency_edge list \<Rightarrow> dependency_edge \<Rightarrow> unit res" where
  "assert_acyclic es cand =
     (let adj = build_adj (es @ [cand])
      in throw_if (search_keys adj (map fst adj) ({}, {}))
           (CycleDetected (de_pred cand) (de_succ cand)))"

section \<open>The search decides acyclicity\<close>

definition adj_rel :: "adjacency \<Rightarrow> (string \<times> string) set" where
  "adj_rel adj = {(a, b). b \<in> set (neighbours adj a)}"

definition edge_rel :: "dependency_edge list \<Rightarrow> (string \<times> string) set" where
  "edge_rel es = set (map (\<lambda>e. (de_pred e, de_succ e)) es)"

lemma neighbours_adj_push:
  "neighbours (adj_push p s adj) n =
     (if n = p then neighbours adj p @ [s] else neighbours adj n)"
  by (induction p s adj rule: adj_push.induct) (auto simp: neighbours_def)

lemma adj_rel_push: "adj_rel (adj_push p s adj) = insert (p, s) (adj_rel adj)"
  by (auto simp: adj_rel_def neighbours_adj_push split: if_splits)

lemma adj_rel_build: "adj_rel (build_adj es) = edge_rel es"
proof -
  have "adj_rel (fold (\<lambda>e adj. adj_push (de_pred e) (de_succ e) adj) es adj) = edge_rel es \<union> adj_rel adj"
    for adj
    by (induction es arbitrary: adj) (auto simp: edge_rel_def adj_rel_push)
  then show ?thesis by (simp add: build_adj_def) (simp add: adj_rel_def neighbours_def)
qed

lemma adj_rel_keys:
  assumes "(a, b) \<in> adj_rel adj"
  shows "a \<in> set (map fst adj)"
proof (rule ccontr)
  assume "a \<notin> set (map fst adj)"
  then have "map_of adj a = None" by (simp add: map_of_eq_None_iff)
  with assms show False by (simp add: adj_rel_def neighbours_def)
qed

lemma dfs_loop_visited: "dfs_loop adj ns st = (b, st') \<Longrightarrow> fst st \<subseteq> fst st'"
  using dfs_loop_grows dfs_loop_total by blast

text \<open>A loop that finds no cycle gives back the path it was called with, if that path is visited.\<close>

lemma dfs_loop_stack:
  assumes "dfs_loop adj ns st = (False, st')" and "snd st \<subseteq> fst st"
  shows "snd st' = snd st"
  using assms
proof (induction adj ns st arbitrary: st' rule: dfs_loop.induct)
  case (1 adj st)
  then show ?case by simp
next
  case (2 adj n ns vis stk)
  show ?case
  proof (cases "n \<in> vis")
    case True
    with 2 show ?thesis by (simp split: if_splits)
  next
    case fresh: False
    obtain c vis' stk' where inner:
      "dfs_loop adj (neighbours adj n) (insert n vis, insert n stk) = (c, (vis', stk'))"
      by (metis prod.exhaust)
    with "2.prems" fresh have c: "\<not> c" by (cases c) auto
    from c inner "2.IH"(1) [OF fresh, of "(vis', stk')"] "2.prems"(2)
    have stk': "stk' = insert n stk" by auto
    have "insert n vis \<subseteq> vis'" using dfs_loop_visited [OF inner] by simp
    with "2.prems" fresh inner c stk' show ?thesis
      using "2.IH"(2) [OF fresh inner [symmetric] _ refl, of st'] by auto
  qed
qed

text \<open>Soundness: if every node of the current path reaches the nodes of the loop, a positive answer is a cycle.\<close>

lemma dfs_loop_sound:
  assumes "dfs_loop adj ns st = (True, st')" and "snd st \<subseteq> fst st"
    and "\<forall>s \<in> snd st. \<forall>n \<in> set ns. (s, n) \<in> (adj_rel adj)\<^sup>+"
  shows "\<exists>n. (n, n) \<in> (adj_rel adj)\<^sup>+"
  using assms
proof (induction adj ns st arbitrary: st' rule: dfs_loop.induct)
  case (1 adj st)
  then show ?case by simp
next
  case (2 adj n ns vis stk)
  show ?case
  proof (cases "n \<in> vis")
    case True
    show ?thesis
    proof (cases "n \<in> stk")
      case stk: True
      with "2.prems"(3) show ?thesis by auto
    next
      case stk: False
      with True "2.prems" show ?thesis
        by (intro "2.IH"(3)) auto
    qed
  next
    case fresh: False
    obtain c vis' stk' where inner:
      "dfs_loop adj (neighbours adj n) (insert n vis, insert n stk) = (c, (vis', stk'))"
      by (metis prod.exhaust)
    have path: "\<forall>s \<in> insert n stk. \<forall>m \<in> set (neighbours adj n). (s, m) \<in> (adj_rel adj)\<^sup>+"
      using "2.prems"(3) by (auto simp: adj_rel_def intro: trancl_into_trancl)
    show ?thesis
    proof (cases c)
      case True
      show ?thesis
        by (rule "2.IH"(1) [OF fresh, of "(vis', stk')"])
          (use inner True path "2.prems"(2) in auto)
    next
      case False
      have "stk' = insert n stk"
        using dfs_loop_stack [of adj _ "(insert n vis, insert n stk)" "(vis', stk')"] inner False
          "2.prems"(2) by auto
      moreover have "insert n vis \<subseteq> vis'" using dfs_loop_visited [OF inner] by simp
      ultimately show ?thesis
        using "2.IH"(2) [OF fresh inner [symmetric] _ refl, of st'] "2.prems" fresh inner False
        by auto
    qed
  qed
qed

text \<open>
  Completeness: the finished nodes (visited, not on the path) are closed under edges and lie
  on no cycle.
\<close>

definition finished :: "adjacency \<Rightarrow> string set \<Rightarrow> bool" where
  "finished adj F \<longleftrightarrow>
     (\<forall>a \<in> F. set (neighbours adj a) \<subseteq> F \<and> (a, a) \<notin> (adj_rel adj)\<^sup>+)"

lemma finished_closed:
  assumes "finished adj F" and "(a, b) \<in> (adj_rel adj)\<^sup>+" and "a \<in> F"
  shows "b \<in> F"
  using assms(2,3)
  by (induction rule: trancl_induct) (use assms(1) in \<open>auto simp: finished_def adj_rel_def\<close>)

lemma finished_insert:
  assumes fin: "finished adj F" and new: "n \<notin> F" and nbs: "set (neighbours adj n) \<subseteq> F"
  shows "finished adj (insert n F)"
proof -
  have "(n, n) \<notin> (adj_rel adj)\<^sup>+"
  proof
    assume "(n, n) \<in> (adj_rel adj)\<^sup>+"
    then obtain m where m: "(n, m) \<in> adj_rel adj" "(m, n) \<in> (adj_rel adj)\<^sup>*"
      by (auto dest: tranclD)
    then have "m \<in> F" using nbs by (auto simp: adj_rel_def)
    with m(2) fin new show False by (metis finished_closed rtrancl_eq_or_trancl)
  qed
  with fin nbs show ?thesis by (auto simp: finished_def)
qed

lemma dfs_loop_complete:
  assumes "dfs_loop adj ns st = (False, st')" and "snd st \<subseteq> fst st"
    and "finished adj (fst st - snd st)"
  shows "finished adj (fst st' - snd st) \<and> set ns \<subseteq> fst st' - snd st"
  using assms
proof (induction adj ns st arbitrary: st' rule: dfs_loop.induct)
  case (1 adj st)
  then show ?case by simp
next
  case (2 adj n ns vis stk)
  show ?case
  proof (cases "n \<in> vis")
    case True
    with "2.prems" have "n \<notin> stk" "dfs_loop adj ns (vis, stk) = (False, st')"
      by (auto split: if_splits)
    with True "2.IH"(3) [of st'] "2.prems"(2,3) dfs_loop_visited [of adj ns "(vis, stk)"]
    show ?thesis by auto
  next
    case fresh: False
    obtain c vis' stk' where inner:
      "dfs_loop adj (neighbours adj n) (insert n vis, insert n stk) = (c, (vis', stk'))"
      by (metis prod.exhaust)
    have c: "\<not> c" using "2.prems"(1) fresh inner by (cases c) auto
    have stk': "stk' = insert n stk"
      using dfs_loop_stack [of adj _ "(insert n vis, insert n stk)" "(vis', stk')"] inner c
        "2.prems"(2) by auto
    have new: "n \<notin> stk" and sub: "insert n vis \<subseteq> vis'"
      using fresh "2.prems"(2) dfs_loop_visited [OF inner] by auto
    have "finished adj (insert n vis - insert n stk)"
      using "2.prems"(3) fresh by (simp add: insert_Diff_if Diff_insert0)
    then have inner_fin: "finished adj (vis' - insert n stk)"
        "set (neighbours adj n) \<subseteq> vis' - insert n stk"
      using "2.IH"(1) [OF fresh, of "(vis', stk')"] inner c "2.prems"(2) by auto
    have "vis' - stk = insert n (vis' - insert n stk)" using new sub by auto
    then have fin: "finished adj (vis' - stk)"
      using finished_insert [OF inner_fin(1) _ inner_fin(2)] by simp
    have rest: "dfs_loop adj ns (vis', stk) = (False, st')"
      using "2.prems"(1) fresh inner c stk' new by simp
    with "2.IH"(2) [OF fresh inner [symmetric] _ refl, of st'] fin c stk' new sub "2.prems"(2)
    have "finished adj (fst st' - stk) \<and> set ns \<subseteq> fst st' - stk" by auto
    then show ?thesis using dfs_loop_visited [OF rest] new sub by auto
  qed
qed

lemma dfs_as_loop: "n \<notin> fst st \<Longrightarrow> dfs adj n st = dfs_loop adj [n] st"
  by (cases st) (auto simp: dfs_def split: prod.splits bool.splits)

lemma search_keys_cycle:
  assumes "finished adj vis"
  shows "search_keys adj ns (vis, {}) \<Longrightarrow> \<exists>n. (n, n) \<in> (adj_rel adj)\<^sup>+"
    and "\<not> search_keys adj ns (vis, {}) \<Longrightarrow> n \<in> set ns \<Longrightarrow> (n, n) \<notin> (adj_rel adj)\<^sup>+"
proof -
  have "(search_keys adj ns (vis, {}) \<longrightarrow> (\<exists>n. (n, n) \<in> (adj_rel adj)\<^sup>+)) \<and>
    (\<not> search_keys adj ns (vis, {}) \<longrightarrow> (\<forall>n \<in> set ns. (n, n) \<notin> (adj_rel adj)\<^sup>+))"
    using assms
  proof (induction ns arbitrary: vis)
    case Nil
    then show ?case by simp
  next
    case (Cons n ns)
    show ?case
    proof (cases "n \<in> vis")
      case True
      then have "(n, n) \<notin> (adj_rel adj)\<^sup>+" using Cons.prems by (simp add: finished_def)
      with True Cons.IH [OF Cons.prems] show ?thesis by simp
    next
      case False
      obtain c vis' stk' where d: "dfs_loop adj [n] (vis, {}) = (c, (vis', stk'))"
        by (metis prod.exhaust)
      note eq = d [folded dfs_as_loop [of n "(vis, {})" adj, simplified fst_conv, OF False]]
      show ?thesis
      proof (cases c)
        case True
        with d dfs_loop_sound [of adj "[n]" "(vis, {})"] eq False show ?thesis by simp
      next
        case c: False
        from d c dfs_loop_stack [of adj "[n]" "(vis, {})" "(vis', stk')"] have "stk' = {}" by simp
        moreover have "finished adj vis' \<and> n \<in> vis'"
          using dfs_loop_complete [of adj "[n]" "(vis, {})" "(vis', stk')"] d c Cons.prems by simp
        ultimately show ?thesis using Cons.IH [of vis'] eq False c by (auto simp: finished_def)
      qed
    qed
  qed
  then show "search_keys adj ns (vis, {}) \<Longrightarrow> \<exists>n. (n, n) \<in> (adj_rel adj)\<^sup>+"
    and "\<not> search_keys adj ns (vis, {}) \<Longrightarrow> n \<in> set ns \<Longrightarrow> (n, n) \<notin> (adj_rel adj)\<^sup>+"
    by auto
qed

lemma search_keys_acyclic: "search_keys adj (map fst adj) ({}, {}) \<longleftrightarrow> \<not> acyclic (adj_rel adj)"
proof
  assume "search_keys adj (map fst adj) ({}, {})"
  then show "\<not> acyclic (adj_rel adj)"
    using search_keys_cycle(1) [of adj "{}"] by (auto simp: acyclic_def finished_def)
next
  assume "\<not> acyclic (adj_rel adj)"
  then obtain n where n: "(n, n) \<in> (adj_rel adj)\<^sup>+" by (auto simp: acyclic_def)
  then obtain m where "(n, m) \<in> adj_rel adj" by (auto dest: tranclD)
  then have "n \<in> set (map fst adj)" by (rule adj_rel_keys)
  moreover have "finished adj {}" by (simp add: finished_def)
  ultimately show "search_keys adj (map fst adj) ({}, {})"
    using n search_keys_cycle(2) by blast
qed

section \<open>Stage instances\<close>

text \<open>\<open>repeatStage\<close>; \<open>now\<close> is \<open>Date.now()\<close>. The result is the new instance and the updated list.\<close>

definition repeat_stage ::
  "stage_instance list \<Rightarrow> string \<Rightarrow> int \<Rightarrow> (stage_instance \<times> stage_instance list) res" where
  "repeat_stage xs sid now =
     (case List.find (\<lambda>s. si_id s = sid) xs of
        None \<Rightarrow> Inl (StageNotFound sid)
      | Some target \<Rightarrow>
          (let next_cycle = si_cycle target + 1;
               new_instance = \<lparr>
                 si_id = si_template target @ ''-cycle-'' @ int_str next_cycle @ ''-'' @ int_str now,
                 si_template = si_template target,
                 si_name = si_name target @ '' (Cycle '' @ int_str next_cycle @ '')'',
                 si_order = si_order target + 1 / 10,
                 si_archived = False,
                 si_cycle = next_cycle,
                 si_previous = Some (si_id target)\<rparr>
           in Inr (new_instance, xs @ [new_instance])))"

text \<open>\<open>archiveStage\<close>: the updated list and \<open>preservedRequirementsNeedingRemap\<close>.\<close>

definition archive_stage ::
  "stage_instance list \<Rightarrow> string \<Rightarrow> string list \<Rightarrow> (stage_instance list \<times> string list) res" where
  "archive_stage xs sid reqs =
     (case List.find (\<lambda>s. si_id s = sid) xs of
        None \<Rightarrow> Inl (StageNotFound sid)
      | Some target \<Rightarrow>
          Inr (map (\<lambda>s. if si_id s = sid then s\<lparr>si_archived := True\<rparr> else s) xs, reqs))"

datatype stage_op = RepeatStage string int | ArchiveStage string "string list"

fun stage_step :: "stage_instance list \<Rightarrow> stage_op \<Rightarrow> stage_instance list res" where
  "stage_step xs (RepeatStage sid now) = bind_res (repeat_stage xs sid now) (\<lambda>r. Inr (snd r))"
| "stage_step xs (ArchiveStage sid reqs) = bind_res (archive_stage xs sid reqs) (\<lambda>r. Inr (fst r))"

text \<open>
  The lineage: the instance that a pointer names exists, is of the same template, and its
  cycle number is one less.
\<close>

definition lineage_ok :: "stage_instance list \<Rightarrow> bool" where
  "lineage_ok xs \<longleftrightarrow> (\<forall>s \<in> set xs. \<forall>p. si_previous s = Some p \<longrightarrow>
     (\<exists>t \<in> set xs. si_id t = p \<and> si_template t = si_template s \<and> si_cycle s = si_cycle t + 1))"

text \<open>The instances that were there stay, in order, with everything but the archive flag.\<close>

definition lineage_view :: "stage_instance \<Rightarrow> string \<times> string \<times> int \<times> string option" where
  "lineage_view s = (si_id s, si_template s, si_cycle s, si_previous s)"

lemma repeat_stage_Inr:
  "repeat_stage xs sid now = Inr (n, ys) \<Longrightarrow> \<exists>t \<in> set xs.
     si_id t = sid \<and> ys = xs @ [n] \<and> si_previous n = Some sid \<and>
     si_template n = si_template t \<and> si_cycle n = si_cycle t + 1 \<and> \<not> si_archived n"
  by (auto simp: repeat_stage_def Let_def split: option.splits dest!: find_Some_iff_in)

lemma archive_stage_Inr:
  "archive_stage xs sid reqs = Inr (ys, rs) \<Longrightarrow>
     rs = reqs \<and> ys = map (\<lambda>s. if si_id s = sid then s\<lparr>si_archived := True\<rparr> else s) xs"
  by (auto simp: archive_stage_def split: option.splits)

lemma lineage_ok_repeat: "lineage_ok xs \<Longrightarrow> repeat_stage xs sid now = Inr (n, ys) \<Longrightarrow> lineage_ok ys"
  by (auto simp: lineage_ok_def dest!: repeat_stage_Inr) (metis option.sel)+

lemma lineage_ok_view:
  assumes "map lineage_view ys = map lineage_view xs" and "lineage_ok xs"
  shows "lineage_ok ys"
proof -
  have eq: "lineage_view ` set ys = lineage_view ` set xs" using assms(1) by (metis set_map)
  have "\<exists>t \<in> set ys. si_id t = p \<and> si_template t = si_template s \<and> si_cycle s = si_cycle t + 1"
    if s: "s \<in> set ys" "si_previous s = Some p" for s p
  proof -
    from s eq obtain s' where s': "s' \<in> set xs" "lineage_view s' = lineage_view s"
      by (metis image_iff)
    with s assms(2) obtain t where t: "t \<in> set xs" "si_id t = p" "si_template t = si_template s"
      "si_cycle s = si_cycle t + 1"
      by (auto simp: lineage_ok_def lineage_view_def) (metis)
    from t(1) eq obtain t' where "t' \<in> set ys" "lineage_view t' = lineage_view t"
      by (metis image_iff)
    with t show ?thesis by (intro bexI [of _ t']) (auto simp: lineage_view_def)
  qed
  then show ?thesis by (simp add: lineage_ok_def)
qed

lemma archive_stage_view:
  "archive_stage xs sid reqs = Inr (ys, rs) \<Longrightarrow> map lineage_view ys = map lineage_view xs"
  by (auto simp: lineage_view_def dest!: archive_stage_Inr)

interpretation stages: guarded_run stage_step lineage_ok "\<lambda>_. True"
proof
  fix xs x ys
  assume "lineage_ok xs" and "stage_step xs x = Inr ys"
  then show "lineage_ok ys"
    by (cases x) (auto intro: lineage_ok_repeat lineage_ok_view archive_stage_view)
qed

lemma stage_step_keeps:
  "stage_step xs x = Inr ys \<Longrightarrow> \<exists>zs. map lineage_view ys = map lineage_view xs @ zs"
  by (cases x) (auto dest!: repeat_stage_Inr archive_stage_view)

lemma stage_run_keeps:
  "fold_res stage_step xs ops = Inr ys \<Longrightarrow> \<exists>zs. map lineage_view ys = map lineage_view xs @ zs"
proof (induction ops arbitrary: xs)
  case Nil
  then show ?case by simp
next
  case (Cons x ops)
  then obtain us where us: "stage_step xs x = Inr us" "fold_res stage_step us ops = Inr ys" by auto
  from Cons.IH [OF us(2)] stage_step_keeps [OF us(1)] show ?case by auto
qed

section \<open>Properties\<close>

text \<open>
  C26: the cycle check is exact. \<open>assertAcyclic\<close> returns normally exactly when the graph of
  the existing edges and the candidate has no cycle, and otherwise it throws the error that
  names the candidate edge; the search always ends.
\<close>

theorem assert_acyclic_exact:
  "assert_acyclic es cand =
     (if acyclic (edge_rel (es @ [cand])) then Inr ()
      else Inl (CycleDetected (de_pred cand) (de_succ cand)))"
  by (simp add: assert_acyclic_def Let_def throw_if_def search_keys_acyclic adj_rel_build)

text \<open>
  Reopening and archiving never lose history. After any accepted sequence of
  \<open>repeatStage\<close> and \<open>archiveStage\<close> the instances that were there are still there in order,
  with the same identifier, template, cycle number and lineage pointer, and every lineage
  pointer still names an instance of the same template one cycle earlier.
\<close>

theorem stage_history_kept:
  assumes "fold_res stage_step xs ops = Inr ys" and "lineage_ok xs"
  shows "lineage_ok ys \<and> (\<exists>zs. map lineage_view ys = map lineage_view xs @ zs)"
  using stages.run_inv [OF assms] stage_run_keeps [OF assms(1)] by simp

definition example_stage :: stage_instance where
  "example_stage = \<lparr>si_id = ''S1'', si_template = ''STAGE-04'', si_name = ''Design'', si_order = 4,
     si_archived = False, si_cycle = 1, si_previous = None\<rparr>"

theorem stage_history_kept_witness:
  "\<exists>ys. fold_res stage_step [example_stage] [RepeatStage ''S1'' 7, ArchiveStage ''S1'' []] = Inr ys
     \<and> lineage_ok ys \<and> (\<exists>zs. map lineage_view ys = map lineage_view [example_stage] @ zs)"
proof -
  obtain ys where ys:
    "fold_res stage_step [example_stage] [RepeatStage ''S1'' 7, ArchiveStage ''S1'' []] = Inr ys"
    by (simp add: repeat_stage_def archive_stage_def example_stage_def Let_def)
  moreover have "lineage_ok [example_stage]" by (simp add: lineage_ok_def example_stage_def)
  ultimately show ?thesis using stage_history_kept by blast
qed

end
