(* ===== verification/Decimals.thy ===== *)
theory Decimals
  imports Prelude
begin

text \<open>
  The interface of the package \<open>decimal.js\<close>, which is not part of the repository: a value
  of \<open>Decimal\<close> is an exact rational (the signed zero, \<open>NaN\<close> and the infinities of the
  package are outside the model), and the package is a record of the functions the code
  calls. Its documentation says what the locale \<open>decimal_arith\<close> assumes: the result of an
  arithmetic operation is the exact result rounded to the configured precision
  (\<open>Decimal.set({ precision: 24, rounding: Decimal.ROUND_HALF_UP })\<close> in \<open>money.ts\<close>), so
  that a result of at most 24 significant digits is exact and rounding keeps the sign, and
  a string made by \<open>toFixed\<close> is read back by the constructor. The theory \<open>Half_Up\<close>
  interprets the locale on half-up rounding to 24 significant digits.
\<close>

record decimal_pkg =
  dp_round :: "rat \<Rightarrow> rat"
  dp_places :: "nat \<Rightarrow> rat \<Rightarrow> rat"
  dp_fixed :: "nat \<Rightarrow> rat \<Rightarrow> string"
  dp_string :: "rat \<Rightarrow> string"
  dp_parse :: "string \<Rightarrow> rat option"

text \<open>
  \<open>on_grid x\<close>: a multiple of \<open>10 ^ -6\<close> below \<open>10 ^ 18\<close>, which has at most 24 significant
  digits. \<open>scaled k x\<close>: a multiple of \<open>10 ^ -6\<close> of magnitude at most \<open>k * 10 ^ 12\<close>; an amount
  that the business records is \<open>scaled 1\<close>, and \<open>k\<close> counts the amounts added up.
\<close>

definition whole :: "rat \<Rightarrow> bool" where
  "whole x \<longleftrightarrow> snd (quotient_of x) = 1"

definition on_grid :: "rat \<Rightarrow> bool" where
  "on_grid x \<longleftrightarrow> whole (x * 1000000) \<and> \<bar>x\<bar> < 1000000000000000000"

definition scaled :: "nat \<Rightarrow> rat \<Rightarrow> bool" where
  "scaled k x \<longleftrightarrow> whole (x * 1000000) \<and> \<bar>x\<bar> \<le> of_nat k * 1000000000000"

lemma whole_iff: "whole x \<longleftrightarrow> (\<exists>n. x = of_int n)"
proof
  assume w: "whole x"
  obtain p q where pq: "quotient_of x = (p, q)" by (cases "quotient_of x")
  with w have "x = of_int p" using quotient_of_div [OF pq] by (simp add: whole_def)
  then show "\<exists>n. x = of_int n" by blast
next
  assume "\<exists>n. x = of_int n"
  then show "whole x" by (auto simp: whole_def)
qed

lemma whole_of_int [simp]: "whole (of_int n)"
  by (auto simp: whole_iff)

lemma whole_numerals [simp]: "whole 0" "whole 1" "whole (numeral n)" "whole (- numeral n)"
  using whole_of_int [of 0] whole_of_int [of 1] whole_of_int [of "numeral n"]
    whole_of_int [of "- numeral n"] by simp_all

lemma whole_add: "whole x \<Longrightarrow> whole y \<Longrightarrow> whole (x + y)"
  by (auto simp: whole_iff simp flip: of_int_add)

lemma whole_diff: "whole x \<Longrightarrow> whole y \<Longrightarrow> whole (x - y)"
  by (auto simp: whole_iff simp flip: of_int_diff)

lemma whole_mult: "whole x \<Longrightarrow> whole y \<Longrightarrow> whole (x * y)"
  by (auto simp: whole_iff simp flip: of_int_mult)

lemma scaled_zero [simp]: "scaled k 0"
  by (simp add: scaled_def whole_iff exI [of _ 0])

lemma scaled_numeral [simp]:
  "scaled k (numeral n) \<longleftrightarrow> numeral n \<le> of_nat k * (1000000000000 :: rat)"
proof -
  have "whole (numeral n * 1000000)" by (rule whole_mult) simp_all
  then show ?thesis by (simp add: scaled_def)
qed

lemma scaled_add: "scaled j x \<Longrightarrow> scaled k y \<Longrightarrow> scaled (j + k) (x + y)"
  using whole_add [of "x * 1000000" "y * 1000000"]
  by (auto simp: scaled_def distrib_right abs_le_iff)

lemma scaled_diff: "scaled j x \<Longrightarrow> scaled k y \<Longrightarrow> scaled (j + k) (x - y)"
  using whole_diff [of "x * 1000000" "y * 1000000"]
  by (auto simp: scaled_def left_diff_distrib distrib_right abs_le_iff)

lemma scaled_mono: "scaled j x \<Longrightarrow> j \<le> k \<Longrightarrow> scaled k x"
proof -
  assume s: "scaled j x" and "j \<le> k"
  then have "of_nat j * 1000000000000 \<le> (of_nat k * 1000000000000 :: rat)" by simp
  with s show ?thesis by (auto simp: scaled_def)
qed

lemma scaled_on_grid:
  assumes "scaled k x" and "k < 1000000"
  shows "on_grid x"
proof -
  have "of_nat k < (1000000 :: rat)" using assms(2) by simp
  then show ?thesis using assms(1) by (auto simp: scaled_def on_grid_def)
qed

locale decimal_arith =
  fixes D :: decimal_pkg
  assumes round_on_grid: "on_grid x \<Longrightarrow> dp_round D x = x"
    and round_sign: "sgn (dp_round D x) = sgn x"
    and parse_fixed: "on_grid x \<Longrightarrow> dp_parse D (dp_fixed D 6 x) = Some x"
begin

lemma round_zero [simp]: "dp_round D 0 = 0"
  using round_sign [of 0] by (simp add: sgn_0_0)

lemma round_eq_zero [simp]: "dp_round D x = 0 \<longleftrightarrow> x = 0"
  using round_sign [of x] by (metis sgn_eq_0_iff)

lemma round_pos [simp]: "0 < dp_round D x \<longleftrightarrow> 0 < x"
  using round_sign [of x] by (metis sgn_greater)

lemma round_neg [simp]: "dp_round D x < 0 \<longleftrightarrow> x < 0"
  using round_sign [of x] by (metis sgn_less)

lemma round_scaled: "scaled k x \<Longrightarrow> k < 1000000 \<Longrightarrow> dp_round D x = x"
  by (blast intro: round_on_grid scaled_on_grid)

lemma plus_exact:
  "scaled j x \<Longrightarrow> scaled k y \<Longrightarrow> j + k < 1000000 \<Longrightarrow> dp_round D (x + y) = x + y"
  by (blast intro: round_scaled scaled_add)

lemma minus_exact:
  "scaled j x \<Longrightarrow> scaled k y \<Longrightarrow> j + k < 1000000 \<Longrightarrow> dp_round D (x - y) = x - y"
  by (blast intro: round_scaled scaled_diff)

end

end
