(* ===== verification/Money.thy ===== *)
theory Money
  imports Decimals
begin

text \<open>
  The class \<open>Money\<close> of \<open>packages/domain/src/money.ts\<close>: an amount of the decimal package and
  a currency code kept in upper case. Each method is one definition; the ones that throw on
  different currencies return \<open>Inl (CurrencyMismatch ...)\<close>.
\<close>

record money =
  m_amount :: rat
  m_currency :: string

text \<open>The union \<open>Money | string | number\<close> that the constructor and the calculators take.\<close>

datatype money_input = MoneyIn money | StringIn string | NumberIn rat

definition mk_money :: "rat \<Rightarrow> string \<Rightarrow> money" where
  "mk_money a c = \<lparr>m_amount = a, m_currency = to_upper c\<rparr>"

fun new_money :: "decimal_pkg \<Rightarrow> money_input \<Rightarrow> string \<Rightarrow> money res" where
  "new_money D (MoneyIn m) c = Inr m"
| "new_money D (StringIn s) c =
     (case dp_parse D s of None \<Rightarrow> Inl (DecimalError s) | Some a \<Rightarrow> Inr (mk_money a c))"
| "new_money D (NumberIn a) c = Inr (mk_money a c)"

definition from_string :: "decimal_pkg \<Rightarrow> string \<Rightarrow> string \<Rightarrow> money res" where
  "from_string D s c = new_money D (StringIn s) c"

definition money_zero :: "string \<Rightarrow> money" where
  "money_zero c = mk_money 0 c"

definition money_to_string :: "decimal_pkg \<Rightarrow> money \<Rightarrow> string" where
  "money_to_string D m = dp_fixed D 6 (m_amount m)"

definition money_to_display :: "decimal_pkg \<Rightarrow> money \<Rightarrow> string" where
  "money_to_display D m = dp_fixed D 2 (m_amount m)"

record money_json =
  mj_amount :: string
  mj_currency :: string

definition money_to_json :: "decimal_pkg \<Rightarrow> money \<Rightarrow> money_json" where
  "money_to_json D m = \<lparr>mj_amount = money_to_string D m, mj_currency = m_currency m\<rparr>"

definition assert_same_currency :: "money \<Rightarrow> money \<Rightarrow> unit res" where
  "assert_same_currency a b =
     throw_if (m_currency a \<noteq> m_currency b) (CurrencyMismatch (m_currency a) (m_currency b))"

definition money_plus :: "decimal_pkg \<Rightarrow> money \<Rightarrow> money \<Rightarrow> money res" where
  "money_plus D a b = bind_res (assert_same_currency a b)
     (\<lambda>_. Inr (mk_money (dp_round D (m_amount a + m_amount b)) (m_currency a)))"

definition money_minus :: "decimal_pkg \<Rightarrow> money \<Rightarrow> money \<Rightarrow> money res" where
  "money_minus D a b = bind_res (assert_same_currency a b)
     (\<lambda>_. Inr (mk_money (dp_round D (m_amount a - m_amount b)) (m_currency a)))"

definition money_times :: "decimal_pkg \<Rightarrow> money \<Rightarrow> rat \<Rightarrow> money" where
  "money_times D m f = mk_money (dp_round D (m_amount m * f)) (m_currency m)"

definition money_multiply :: "decimal_pkg \<Rightarrow> money \<Rightarrow> rat \<Rightarrow> money" where
  "money_multiply D m f = money_times D m f"

definition money_divided_by :: "decimal_pkg \<Rightarrow> money \<Rightarrow> rat \<Rightarrow> money res" where
  "money_divided_by D m d = bind_res (throw_if (d = 0) DivisionByZero)
     (\<lambda>_. Inr (mk_money (dp_round D (m_amount m / d)) (m_currency m)))"

definition money_equals :: "money \<Rightarrow> money \<Rightarrow> bool" where
  "money_equals a b \<longleftrightarrow> m_currency a = m_currency b \<and> m_amount a = m_amount b"

definition money_gt :: "money \<Rightarrow> money \<Rightarrow> bool res" where
  "money_gt a b = bind_res (assert_same_currency a b) (\<lambda>_. Inr (m_amount b < m_amount a))"

definition money_gte :: "money \<Rightarrow> money \<Rightarrow> bool res" where
  "money_gte a b = bind_res (assert_same_currency a b) (\<lambda>_. Inr (m_amount b \<le> m_amount a))"

definition money_lt :: "money \<Rightarrow> money \<Rightarrow> bool res" where
  "money_lt a b = bind_res (assert_same_currency a b) (\<lambda>_. Inr (m_amount a < m_amount b))"

definition money_lte :: "money \<Rightarrow> money \<Rightarrow> bool res" where
  "money_lte a b = bind_res (assert_same_currency a b) (\<lambda>_. Inr (m_amount a \<le> m_amount b))"

definition money_is_zero :: "money \<Rightarrow> bool" where
  "money_is_zero m \<longleftrightarrow> m_amount m = 0"

definition money_is_positive :: "money \<Rightarrow> bool" where
  "money_is_positive m \<longleftrightarrow> 0 \<le> m_amount m \<and> m_amount m \<noteq> 0"

definition money_is_negative :: "money \<Rightarrow> bool" where
  "money_is_negative m \<longleftrightarrow> m_amount m < 0"

section \<open>Lemmas\<close>

text \<open>The currency of a value made by the constructor is in upper case.\<close>

definition wf_money :: "money \<Rightarrow> bool" where
  "wf_money m \<longleftrightarrow> to_upper (m_currency m) = m_currency m"

lemma mk_money_simps [simp]:
  "m_amount (mk_money a c) = a"
  "m_currency (mk_money a c) = to_upper c"
  "wf_money (mk_money a c)"
  by (simp_all add: mk_money_def wf_money_def)

lemma mk_money_eq_conv:
  "wf_money m \<Longrightarrow> mk_money a (m_currency m) = n \<longleftrightarrow> m_amount n = a \<and> m_currency n = m_currency m"
  by (auto simp: mk_money_def wf_money_def)

lemma new_money_wf:
  "new_money D inp c = Inr m \<Longrightarrow> (\<And>n. inp = MoneyIn n \<Longrightarrow> wf_money n) \<Longrightarrow> wf_money m"
  by (cases inp) (auto split: option.splits)

lemma assert_same_currency_Inr [simp]:
  "assert_same_currency a b = Inr u \<longleftrightarrow> m_currency a = m_currency b"
  by (simp add: assert_same_currency_def)

lemma money_plus_Inr [guard_simps]:
  "money_plus D a b = Inr c \<longleftrightarrow>
     m_currency a = m_currency b \<and>
     c = mk_money (dp_round D (m_amount a + m_amount b)) (m_currency a)"
  by (auto simp: money_plus_def)

lemma money_minus_Inr [guard_simps]:
  "money_minus D a b = Inr c \<longleftrightarrow>
     m_currency a = m_currency b \<and>
     c = mk_money (dp_round D (m_amount a - m_amount b)) (m_currency a)"
  by (auto simp: money_minus_def)

lemma money_cmp_Inr [guard_simps]:
  "money_gt a b = Inr t \<longleftrightarrow> m_currency a = m_currency b \<and> t = (m_amount b < m_amount a)"
  "money_gte a b = Inr t \<longleftrightarrow> m_currency a = m_currency b \<and> t = (m_amount b \<le> m_amount a)"
  "money_lt a b = Inr t \<longleftrightarrow> m_currency a = m_currency b \<and> t = (m_amount a < m_amount b)"
  "money_lte a b = Inr t \<longleftrightarrow> m_currency a = m_currency b \<and> t = (m_amount a \<le> m_amount b)"
  by (auto simp: money_gt_def money_gte_def money_lt_def money_lte_def)

lemma money_eqI: "m_amount a = m_amount b \<Longrightarrow> m_currency a = m_currency b \<Longrightarrow> a = (b :: money)"
  by (cases a, cases b) simp

lemma money_equals_iff [simp]: "money_equals a b \<longleftrightarrow> a = b"
  by (auto simp: money_equals_def intro: money_eqI)

end
