(* ===== verification/Half_Up.thy ===== *)
theory Half_Up
  imports Decimals
begin

text \<open>
  A concrete instance of the decimal package's contract: rounding half up, away from zero,
  to 24 significant digits (the configuration in \<open>money.ts\<close>), fixed-point printing, and
  the reading of the strings it prints. It shows that the contract can hold, and every
  property that assumes the contract has its witness on this instance.
\<close>

section \<open>Rounding to significant digits\<close>

fun ndigits :: "nat \<Rightarrow> nat" where
  "ndigits n = (if n = 0 then 0 else Suc (ndigits (n div 10)))"

declare ndigits.simps [simp del]

text \<open>The zeros between the point and the first digit of \<open>p / q\<close>, for \<open>0 < p < q\<close>.\<close>

function lead_zeros :: "nat \<Rightarrow> nat \<Rightarrow> nat" where
  "lead_zeros p q = (if 0 < p \<and> 10 * p < q then Suc (lead_zeros (10 * p) q) else 0)"
  by pat_completeness auto
termination
  by (relation "measure (\<lambda>(p, q). q - p)") auto

declare lead_zeros.simps [simp del]

definition places24 :: "rat \<Rightarrow> int" where
  "places24 x = (let n = nat \<lfloor>\<bar>x\<bar>\<rfloor> in
     if 0 < n then 24 - int (ndigits n)
     else (case quotient_of \<bar>x\<bar> of (p, q) \<Rightarrow> 24 + int (lead_zeros (nat p) (nat q))))"

definition round_at :: "rat \<Rightarrow> rat \<Rightarrow> rat" where
  "round_at s x = sgn x * (of_int \<lfloor>\<bar>x\<bar> * s + 1 / 2\<rfloor> / s)"

definition round24 :: "rat \<Rightarrow> rat" where
  "round24 x = round_at (10 powi (places24 x)) x"

lemma ndigits_bounds: "0 < n \<Longrightarrow> 10 ^ (ndigits n - 1) \<le> n \<and> n < 10 ^ ndigits n"
proof (induction n rule: ndigits.induct)
  case (1 n)
  show ?case
  proof (cases "n div 10 = 0")
    case True
    with "1.prems" show ?thesis
      by (simp add: ndigits.simps [of n] ndigits.simps [of 0] div_eq_0_iff)
  next
    case False
    with "1.prems" have IH: "10 ^ (ndigits (n div 10) - 1) \<le> n div 10"
      "n div 10 < 10 ^ ndigits (n div 10)"
      using "1.IH" by auto
    have pos: "0 < ndigits (n div 10)" using False by (simp add: ndigits.simps [of "n div 10"])
    have "(10::nat) ^ ndigits (n div 10) = 10 * 10 ^ (ndigits (n div 10) - 1)"
      using pos by (metis Suc_diff_1 power_Suc)
    with IH have "10 ^ ndigits (n div 10) \<le> n" "n < 10 * 10 ^ ndigits (n div 10)"
      by linarith+
    with "1.prems" show ?thesis by (simp add: ndigits.simps [of n])
  qed
qed

lemma ndigits_le: "n < 10 ^ k \<Longrightarrow> ndigits n \<le> k"
proof (cases "n = 0")
  case True
  then show ?thesis by (simp add: ndigits.simps)
next
  case False
  assume "n < 10 ^ k"
  moreover have "10 ^ (ndigits n - 1) \<le> n" using ndigits_bounds [of n] False by simp
  ultimately have "(10::nat) ^ (ndigits n - 1) < 10 ^ k" by linarith
  then have "ndigits n - 1 < k" by (rule power_less_imp_less_exp [rotated]) simp
  then show ?thesis by simp
qed

lemma lead_zeros_bound: "0 < p \<Longrightarrow> q \<le> 10 ^ Suc (lead_zeros p q) * p"
proof (induction p q rule: lead_zeros.induct)
  case (1 p q)
  show ?case
  proof (cases "10 * p < q")
    case True
    with "1.prems" "1.IH" show ?thesis by (simp add: lead_zeros.simps [of p q])
  next
    case False
    then show ?thesis by (simp add: lead_zeros.simps [of p q])
  qed
qed

text \<open>The scaled value has at least 24 digits before the point.\<close>

lemma scaled_large:
  assumes "x \<noteq> 0"
  shows "1 \<le> \<bar>x\<bar> * 10 powi (places24 x)"
proof (cases "0 < nat \<lfloor>\<bar>x\<bar>\<rfloor>")
  case True
  let ?n = "nat \<lfloor>\<bar>x\<bar>\<rfloor>"
  have "10 ^ (ndigits ?n - 1) \<le> ?n" using ndigits_bounds [OF True] by simp
  then have "of_nat (10 ^ (ndigits ?n - 1)) \<le> (of_nat ?n :: rat)" by (simp only: of_nat_le_iff)
  also have "\<dots> \<le> \<bar>x\<bar>" using True by (simp add: of_nat_nat)
  finally have le: "(10::rat) powi (int (ndigits ?n) - 1) \<le> \<bar>x\<bar>"
    using ndigits_bounds [OF True] True
    by (cases "ndigits ?n") (simp_all add: ndigits.simps [of ?n] power_int_def)
  have "(1::rat) \<le> 10 powi (int (ndigits ?n) - 1) * 10 powi (24 - int (ndigits ?n))"
    by (simp flip: power_int_add)
  also have "\<dots> \<le> \<bar>x\<bar> * 10 powi (24 - int (ndigits ?n))"
    using le by (intro mult_right_mono) auto
  finally show ?thesis using True by (simp add: places24_def Let_def)
next
  case False
  obtain p q where pq: "quotient_of \<bar>x\<bar> = (p, q)" by (cases "quotient_of \<bar>x\<bar>")
  have x: "\<bar>x\<bar> = of_int p / of_int q" and q: "0 < q"
    using quotient_of_div [OF pq] quotient_of_denom_pos [OF pq] by auto
  have "0 < of_int p / (of_int q :: rat)" using assms x by (metis zero_less_abs_iff)
  then have p: "0 < p" using q by (simp add: zero_less_divide_iff)
  let ?z = "lead_zeros (nat p) (nat q)"
  have "nat q \<le> 10 ^ Suc ?z * nat p" using lead_zeros_bound p by simp
  then have "int (nat q) \<le> int (10 ^ Suc ?z * nat p)" by (simp only: of_nat_le_iff)
  then have "q \<le> 10 ^ Suc ?z * p" using p q by simp
  then have "(of_int q :: rat) \<le> of_int (10 ^ Suc ?z * p)" by (simp only: of_int_le_iff)
  then have "1 \<le> of_int (10 ^ Suc ?z * p) / (of_int q :: rat)" using q by simp
  also have "\<dots> = \<bar>x\<bar> * 10 ^ Suc ?z" by (simp add: x)
  also have "\<dots> \<le> \<bar>x\<bar> * 10 ^ (24 + ?z)" by (intro mult_left_mono power_increasing) auto
  finally show ?thesis using False by (simp add: places24_def Let_def pq power_int_def nat_add_distrib)
qed

lemma round24_sign: "sgn (round24 x) = sgn x"
proof (cases "x = 0")
  case True
  then show ?thesis by (simp add: round24_def round_at_def)
next
  case False
  let ?s = "(10::rat) powi (places24 x)"
  have "1 \<le> \<lfloor>\<bar>x\<bar> * ?s + 1 / 2\<rfloor>"
    using scaled_large [OF False] by (simp add: le_floor_iff)
  then have "sgn (of_int \<lfloor>\<bar>x\<bar> * ?s + 1 / 2\<rfloor> / ?s) = 1" by simp
  then show ?thesis by (simp only: round24_def round_at_def sgn_mult sgn_sgn mult_1_right)
qed

lemma round_at_whole:
  assumes "whole (\<bar>x\<bar> * s)" and "s \<noteq> 0"
  shows "round_at s x = x"
proof -
  obtain n where n: "\<bar>x\<bar> * s = of_int n" using assms(1) by (auto simp: whole_iff)
  have "\<lfloor>of_int n + (1 / 2 :: rat)\<rfloor> = n" by (simp add: floor_unique)
  then have "round_at s x = sgn x * (of_int n / s)" by (simp add: round_at_def n)
  also have "of_int n / s = \<bar>x\<bar>" using n assms(2) by (simp add: field_simps)
  finally show ?thesis by (simp add: sgn_mult_abs)
qed

lemma whole_abs: "whole (x * k) \<Longrightarrow> 0 \<le> k \<Longrightarrow> whole (\<bar>x\<bar> * k)"
  by (cases "0 \<le> x") (auto simp: whole_iff abs_if simp flip: of_int_minus)

lemma places24_grid: "\<bar>x\<bar> < 1000000000000000000 \<Longrightarrow> 6 \<le> places24 x"
proof -
  assume "\<bar>x\<bar> < 1000000000000000000"
  then have "\<lfloor>\<bar>x\<bar>\<rfloor> < 10 ^ 18" by (simp add: floor_less_iff)
  then have "nat \<lfloor>\<bar>x\<bar>\<rfloor> < 10 ^ 18" by (subst nat_less_iff) simp_all
  then have "ndigits (nat \<lfloor>\<bar>x\<bar>\<rfloor>) \<le> 18" by (rule ndigits_le)
  then show ?thesis by (auto simp: places24_def Let_def split: prod.splits)
qed

lemma round24_on_grid:
  assumes "on_grid x"
  shows "round24 x = x"
proof -
  have six: "6 \<le> places24 x" using assms by (auto simp: on_grid_def intro: places24_grid)
  have "(10::rat) powi (places24 x) = 1000000 * 10 ^ nat (places24 x - 6)"
    using six power_int_add [of "10::rat" 6 "places24 x - 6"] by (simp add: power_int_def)
  moreover have "whole (\<bar>x\<bar> * 1000000)" using assms by (auto simp: on_grid_def intro: whole_abs)
  moreover have "whole (10 ^ nat (places24 x - 6))"
    using whole_of_int [of "10 ^ nat (places24 x - 6)"] by simp
  ultimately show ?thesis unfolding round24_def
    by (intro round_at_whole) (simp_all only: whole_mult flip: mult.assoc, simp)
qed

section \<open>Printing and reading\<close>

fun frac_str :: "nat \<Rightarrow> nat \<Rightarrow> string" where
  "frac_str 0 k = []"
| "frac_str (Suc n) k = frac_str n (k div 10) @ [digit_char (k mod 10)]"

text \<open>\<open>toFixed(n)\<close>: the value rounded half up to \<open>n\<close> places, in normal notation.\<close>

definition fixed_str :: "nat \<Rightarrow> rat \<Rightarrow> string" where
  "fixed_str n x = (let k = nat \<lfloor>\<bar>x\<bar> * 10 ^ n + 1 / 2\<rfloor> in
     (if x < 0 then ''-'' else []) @ nat_str (k div 10 ^ n)
     @ (if n = 0 then [] else CHR ''.'' # frac_str n (k mod 10 ^ n)))"

definition strip_zeros :: "string \<Rightarrow> string" where
  "strip_zeros s = rev (dropWhile (\<lambda>c. c = CHR ''0'') (rev s))"

definition plain_str :: "rat \<Rightarrow> string" where
  "plain_str x = (if whole x then fixed_str 0 x else strip_zeros (fixed_str 24 x))"

definition parse_unsigned :: "string \<Rightarrow> rat option" where
  "parse_unsigned s = (let ip = takeWhile is_digit s; rest = dropWhile is_digit s in
     if ip = [] then None
     else (case rest of
         [] \<Rightarrow> Some (of_nat (digits_val ip))
       | c # fr \<Rightarrow>
           if c = CHR ''.'' \<and> fr \<noteq> [] \<and> list_all is_digit fr
           then Some (of_nat (digits_val ip) + of_nat (digits_val fr) / 10 ^ length fr)
           else None))"

definition parse_dec :: "string \<Rightarrow> rat option" where
  "parse_dec s = (case s of
       [] \<Rightarrow> None
     | c # t \<Rightarrow> if c = CHR ''-'' then map_option uminus (parse_unsigned t) else parse_unsigned s)"

definition decimal24 :: decimal_pkg where
  "decimal24 = \<lparr>dp_round = round24, dp_places = (\<lambda>n. round_at (10 ^ n)), dp_fixed = fixed_str,
     dp_string = plain_str, dp_parse = parse_dec\<rparr>"

lemma frac_str_digits: "list_all is_digit (frac_str n k) \<and> length (frac_str n k) = n"
  by (induction n arbitrary: k) auto

lemma digits_val_frac_str: "k < 10 ^ n \<Longrightarrow> digits_val (frac_str n k) = k"
proof (induction n arbitrary: k)
  case 0
  then show ?case by (simp add: digits_val_def)
next
  case (Suc n)
  then have "k div 10 < 10 ^ n" by (simp add: div_less_iff_less_mult mult.commute)
  then show ?case by (simp add: Suc.IH)
qed

lemma parse_unsigned_print:
  assumes "r < 1000000"
  shows "parse_unsigned (nat_str n @ CHR ''.'' # frac_str 6 r) = Some (of_nat n + of_nat r / 1000000)"
proof -
  have ds: "\<forall>c \<in> set (nat_str n). is_digit c" and ne: "nat_str n \<noteq> []"
    using nat_str_digits [of n] by (auto simp: list_all_iff)
  have fr: "list_all is_digit (frac_str 6 r)" "length (frac_str 6 r) = 6"
    using frac_str_digits [of 6 r] by auto
  then have "frac_str 6 r \<noteq> []" by auto
  moreover have "takeWhile is_digit (nat_str n @ CHR ''.'' # frac_str 6 r) = nat_str n"
    "dropWhile is_digit (nat_str n @ CHR ''.'' # frac_str 6 r) = CHR ''.'' # frac_str 6 r"
    using ds by (auto simp: takeWhile_append dropWhile_append)
  moreover have "digits_val (frac_str 6 r) = r" using assms by (intro digits_val_frac_str) simp
  ultimately show ?thesis using fr ne by (simp add: parse_unsigned_def digits_val_nat_str)
qed

lemma power_eq_10_6: "x * 10 ^ 6 = x * (1000000 :: rat)"
  by simp

lemma of_nat_div_mod_rat:
  "of_nat (k div 1000000) + of_nat (k mod 1000000) / 1000000 = (of_nat k / 1000000 :: rat)"
proof -
  have "(of_nat k :: rat) = of_nat (k div 1000000 * 1000000 + k mod 1000000)" by simp
  then show ?thesis by (simp only: of_nat_add of_nat_mult) (simp add: field_simps)
qed

lemma parse_fixed_str:
  assumes "on_grid x"
  shows "parse_dec (fixed_str 6 x) = Some x"
proof -
  obtain n where n: "\<bar>x\<bar> * 1000000 = of_int n"
    using assms whole_abs [of x 1000000] by (auto simp: on_grid_def whole_iff)
  have "0 \<le> (of_int n :: rat)" using n by (metis abs_ge_zero mult_nonneg_nonneg zero_le_numeral)
  then have n0: "0 \<le> n" by simp
  let ?k = "nat n"
  have "\<lfloor>of_int n + (1 / 2 :: rat)\<rfloor> = n" by (simp add: floor_unique)
  then have k: "nat \<lfloor>\<bar>x\<bar> * 10 ^ 6 + 1 / 2\<rfloor> = ?k" using n by (simp only: power_eq_10_6)
  let ?body = "nat_str (?k div 1000000) @ CHR ''.'' # frac_str 6 (?k mod 1000000)"
  have body: "fixed_str 6 x = (if x < 0 then ''-'' else []) @ ?body"
    by (simp only: fixed_str_def k Let_def) simp
  have "of_nat (?k div 1000000) + of_nat (?k mod 1000000) / 1000000 = (of_nat ?k / 1000000 :: rat)"
    by (metis (no_types) of_nat_div_mod_rat)
  also have "\<dots> = \<bar>x\<bar>" using n n0 by simp
  finally have val: "parse_unsigned ?body = Some \<bar>x\<bar>" by (simp add: parse_unsigned_print)
  obtain c t where ct: "nat_str (?k div 1000000) = c # t" "is_digit c"
    using nat_str_digits [of "?k div 1000000"] by (cases "nat_str (?k div 1000000)") auto
  then have "c \<noteq> CHR ''-''" by auto
  with val ct show ?thesis
    by (cases "x < 0") (auto simp: body parse_dec_def abs_if split: if_splits)
qed

interpretation d24: decimal_arith decimal24
proof unfold_locales
  show "dp_round decimal24 x = x" if "on_grid x" for x
    using that by (simp add: decimal24_def round24_on_grid)
  show "sgn (dp_round decimal24 x) = sgn x" for x
    by (simp add: decimal24_def round24_sign)
  show "dp_parse decimal24 (dp_fixed decimal24 6 x) = Some x" if "on_grid x" for x
    using that by (simp add: decimal24_def parse_fixed_str)
qed

lemma decimal24_arith: "decimal_arith decimal24"
  by (rule d24.decimal_arith_axioms)

end
