(* ===== verification/Finance.thy ===== *)
theory Finance
  imports Money Half_Up
begin

text \<open>
  \<open>packages/domain/src/finance.ts\<close>: the financial position with its estimate at completion,
  the postings that move an amount from accruals or commitments to actual cost, the cash
  position, the margin bridge, the allocation of an invoice line, the checks on currencies
  and imports, and credit notes; and of \<open>apps/api/src/finance/finance.controller.ts\<close> the import
  ledger and the endpoint that moves an accrual to the actual cost. Every calculator takes the decimal package as an argument
  and throws where an operation of \<open>Money\<close> throws.
\<close>

section \<open>Financial position\<close>

record fin_position =
  fp_currency :: string
  fp_original_budget :: money_input
  fp_budget_changes :: money_input
  fp_posted_actual :: money_input
  fp_accrued :: money_input
  fp_remaining :: money_input
  fp_uncommitted :: money_input
  fp_revenue :: "money_input option"

record fin_result =
  fr_currency :: string
  fr_current_budget :: money
  fr_cost_incurred :: money
  fr_eac :: money
  fr_variance :: money
  fr_revenue :: "money option"
  fr_contribution :: "money option"
  fr_margin :: "string option"

definition percent_of :: "decimal_pkg \<Rightarrow> money \<Rightarrow> money \<Rightarrow> string" where
  "percent_of D part base =
     dp_fixed D 2 (dp_round D (dp_round D (m_amount part / m_amount base) * 100)) @ ''%''"

text \<open>The revenue part: the basis, and the contribution and margin when the basis is positive.\<close>

definition revenue_part ::
  "decimal_pkg \<Rightarrow> string \<Rightarrow> money_input option \<Rightarrow> money \<Rightarrow> (money option \<times> money option \<times> string option) res"
  where
  "revenue_part D c basis eac = (case basis of
       None \<Rightarrow> Inr (None, None, None)
     | Some inp \<Rightarrow> bind_res (new_money D inp c) (\<lambda>rev.
         if \<not> money_is_zero rev \<and> money_is_positive rev
         then bind_res (money_minus D rev eac) (\<lambda>contribution.
                Inr (Some rev, Some contribution, Some (percent_of D contribution rev)))
         else Inr (Some rev, None, None)))"

definition calculate_position :: "decimal_pkg \<Rightarrow> fin_position \<Rightarrow> fin_result res" where
  "calculate_position D p = (let c = fp_currency p in
     bind_res (new_money D (fp_original_budget p) c) (\<lambda>orig.
     bind_res (new_money D (fp_budget_changes p) c) (\<lambda>changes.
     bind_res (new_money D (fp_posted_actual p) c) (\<lambda>posted.
     bind_res (new_money D (fp_accrued p) c) (\<lambda>accrued.
     bind_res (new_money D (fp_remaining p) c) (\<lambda>remaining.
     bind_res (new_money D (fp_uncommitted p) c) (\<lambda>uncommitted.
     bind_res (money_plus D orig changes) (\<lambda>budget.
     bind_res (money_plus D posted accrued) (\<lambda>incurred.
     bind_res (money_plus D posted accrued) (\<lambda>sum1.
     bind_res (money_plus D sum1 remaining) (\<lambda>sum2.
     bind_res (money_plus D sum2 uncommitted) (\<lambda>eac.
     bind_res (money_minus D budget eac) (\<lambda>variance.
     bind_res (revenue_part D c (fp_revenue p) eac) (\<lambda>(rev, contribution, margin).
       Inr \<lparr>fr_currency = c, fr_current_budget = budget, fr_cost_incurred = incurred,
            fr_eac = eac, fr_variance = variance, fr_revenue = rev,
            fr_contribution = contribution, fr_margin = margin\<rparr>))))))))))))))"

section \<open>Postings\<close>

definition transition_accrual_to_invoice ::
  "decimal_pkg \<Rightarrow> fin_position \<Rightarrow> money_input \<Rightarrow> fin_position res" where
  "transition_accrual_to_invoice D p inp = (let c = fp_currency p in
     bind_res (new_money D inp c) (\<lambda>inv.
     bind_res (new_money D (fp_posted_actual p) c) (\<lambda>actual.
     bind_res (new_money D (fp_accrued p) c) (\<lambda>accrued.
     bind_res (money_gt inv accrued) (\<lambda>exceeds.
     bind_res (throw_if exceeds (InvoiceExceedsAccrued (m_amount inv) (m_amount accrued))) (\<lambda>_.
     bind_res (money_plus D actual inv) (\<lambda>actual'.
     bind_res (money_minus D accrued inv) (\<lambda>accrued'.
       Inr (p\<lparr>fp_posted_actual := MoneyIn actual', fp_accrued := MoneyIn accrued'\<rparr>)))))))))"

definition transition_commitment_to_actual ::
  "decimal_pkg \<Rightarrow> fin_position \<Rightarrow> money_input \<Rightarrow> fin_position res" where
  "transition_commitment_to_actual D p inp = (let c = fp_currency p in
     bind_res (new_money D inp c) (\<lambda>inv.
     bind_res (new_money D (fp_posted_actual p) c) (\<lambda>actual.
     bind_res (new_money D (fp_remaining p) c) (\<lambda>commitment.
     bind_res (money_gt inv commitment) (\<lambda>exceeds.
     bind_res (throw_if exceeds (InvoiceExceedsCommitment (m_amount inv) (m_amount commitment))) (\<lambda>_.
     bind_res (money_plus D actual inv) (\<lambda>actual'.
     bind_res (money_minus D commitment inv) (\<lambda>commitment'.
       Inr (p\<lparr>fp_posted_actual := MoneyIn actual', fp_remaining := MoneyIn commitment'\<rparr>)))))))))"

definition apply_supplier_invoice ::
  "decimal_pkg \<Rightarrow> fin_position \<Rightarrow> money_input \<Rightarrow> fin_position res" where
  "apply_supplier_invoice D p inp = transition_commitment_to_actual D p inp"

text \<open>The two kinds of posting as events, so that a ledger can interleave them.\<close>

datatype posting = PostAccrual money_input | PostCommitment money_input

fun post :: "decimal_pkg \<Rightarrow> fin_position \<Rightarrow> posting \<Rightarrow> fin_position res" where
  "post D p (PostAccrual inp) = transition_accrual_to_invoice D p inp"
| "post D p (PostCommitment inp) = apply_supplier_invoice D p inp"

section \<open>Cash position and margin bridge\<close>

record cash_input =
  ci_currency :: string
  ci_contract :: money_input
  ci_billed :: money_input
  ci_collected :: money_input
  ci_posted :: money_input
  ci_remaining :: money_input

record cash_result =
  cr_currency :: string
  cr_contract :: money
  cr_billed :: money
  cr_collected :: money
  cr_receivables :: money
  cr_unbilled :: money
  cr_posted :: money
  cr_remaining :: money
  cr_net_flow :: money
  cr_net_exposure :: money

definition calculate_cash_position :: "decimal_pkg \<Rightarrow> cash_input \<Rightarrow> cash_result res" where
  "calculate_cash_position D i = (let c = ci_currency i in
     bind_res (new_money D (ci_contract i) c) (\<lambda>contract.
     bind_res (new_money D (ci_billed i) c) (\<lambda>billed.
     bind_res (new_money D (ci_collected i) c) (\<lambda>collected.
     bind_res (new_money D (ci_posted i) c) (\<lambda>posted.
     bind_res (new_money D (ci_remaining i) c) (\<lambda>remaining.
     bind_res (money_minus D billed collected) (\<lambda>receivables.
     bind_res (money_minus D contract billed) (\<lambda>unbilled.
     bind_res (money_minus D collected posted) (\<lambda>flow.
     bind_res (money_plus D posted remaining) (\<lambda>outgoing.
     bind_res (money_minus D collected outgoing) (\<lambda>exposure.
       Inr \<lparr>cr_currency = c, cr_contract = contract, cr_billed = billed, cr_collected = collected,
            cr_receivables = receivables, cr_unbilled = unbilled, cr_posted = posted,
            cr_remaining = remaining, cr_net_flow = flow, cr_net_exposure = exposure\<rparr>)))))))))))"

record bridge_input =
  bi_currency :: string
  bi_tender_revenue :: money_input
  bi_tender_cost :: money_input
  bi_variation_revenue :: money_input
  bi_variation_cost :: money_input
  bi_overruns :: money_input

record bridge_result =
  br_currency :: string
  br_tender_revenue :: money
  br_tender_cost :: money
  br_tender_margin :: money
  br_tender_percent :: string
  br_variation_revenue :: money
  br_variation_cost :: money
  br_variation_margin :: money
  br_budget_revenue :: money
  br_budget_cost :: money
  br_budget_margin :: money
  br_overruns :: money
  br_final_revenue :: money
  br_final_cost :: money
  br_final_margin :: money
  br_final_percent :: string

definition margin_percent :: "decimal_pkg \<Rightarrow> money \<Rightarrow> money \<Rightarrow> string" where
  "margin_percent D margin revenue =
     (if \<not> money_is_zero revenue then percent_of D margin revenue else ''0.00%'')"

definition calculate_margin_bridge :: "decimal_pkg \<Rightarrow> bridge_input \<Rightarrow> bridge_result res" where
  "calculate_margin_bridge D i = (let c = bi_currency i in
     bind_res (new_money D (bi_tender_revenue i) c) (\<lambda>t_rev.
     bind_res (new_money D (bi_tender_cost i) c) (\<lambda>t_cost.
     bind_res (money_minus D t_rev t_cost) (\<lambda>t_margin.
     bind_res (new_money D (bi_variation_revenue i) c) (\<lambda>v_rev.
     bind_res (new_money D (bi_variation_cost i) c) (\<lambda>v_cost.
     bind_res (money_minus D v_rev v_cost) (\<lambda>v_margin.
     bind_res (money_plus D t_rev v_rev) (\<lambda>b_rev.
     bind_res (money_plus D t_cost v_cost) (\<lambda>b_cost.
     bind_res (money_minus D b_rev b_cost) (\<lambda>b_margin.
     bind_res (new_money D (bi_overruns i) c) (\<lambda>over.
     bind_res (money_plus D b_cost over) (\<lambda>f_cost.
     bind_res (money_minus D b_rev f_cost) (\<lambda>f_margin.
       Inr \<lparr>br_currency = c, br_tender_revenue = t_rev, br_tender_cost = t_cost,
            br_tender_margin = t_margin, br_tender_percent = margin_percent D t_margin t_rev,
            br_variation_revenue = v_rev, br_variation_cost = v_cost, br_variation_margin = v_margin,
            br_budget_revenue = b_rev, br_budget_cost = b_cost, br_budget_margin = b_margin,
            br_overruns = over, br_final_revenue = b_rev, br_final_cost = f_cost,
            br_final_margin = f_margin, br_final_percent = margin_percent D f_margin b_rev\<rparr>)))))))))))))"

section \<open>Cost allocation, currencies, imports, credit notes\<close>

record allocation_line =
  al_package :: string
  al_amount :: money_input

record allocation_result =
  ar_total :: money
  ar_remaining :: money
  ar_valid :: bool

definition validate_allocations ::
  "decimal_pkg \<Rightarrow> money \<Rightarrow> allocation_line list \<Rightarrow> allocation_result res" where
  "validate_allocations D line allocs =
     bind_res (fold_res (\<lambda>total a.
         bind_res (new_money D (al_amount a) (m_currency line)) (\<lambda>m. money_plus D total m))
       (mk_money 0 (m_currency line)) allocs) (\<lambda>total.
     bind_res (money_gt total line) (\<lambda>exceeds.
     bind_res (throw_if exceeds (CostAllocationExceedsLine (m_amount total) (m_amount line))) (\<lambda>_.
     bind_res (money_minus D line total) (\<lambda>remaining.
       Inr \<lparr>ar_total = total, ar_remaining = remaining, ar_valid = True\<rparr>))))"

definition assert_consistent_currency :: "string \<Rightarrow> (money \<times> string) list \<Rightarrow> unit res" where
  "assert_consistent_currency base items =
     each_res (\<lambda>(m, description). throw_if (m_currency m \<noteq> base)
       (MixedCurrencyDiscrepancy (m_currency m) base)) items"

record import_batch =
  ib_batch_id :: string
  ib_source :: string
  ib_hash :: string
  ib_imported_at :: int
  ib_records :: int
  ib_total :: money

definition validate_import_uniqueness ::
  "string \<Rightarrow> string \<Rightarrow> string \<Rightarrow> import_batch list \<Rightarrow> unit res" where
  "validate_import_uniqueness source hash batch_id existing =
     (case List.find (\<lambda>b. ib_hash b = hash \<or> ib_source b = source \<and> ib_batch_id b = batch_id) existing of
        Some b \<Rightarrow> Inl (DuplicateSourceImport batch_id hash)
      | None \<Rightarrow> Inr ())"

definition apply_credit_adjustment ::
  "decimal_pkg \<Rightarrow> fin_position \<Rightarrow> money_input \<Rightarrow> fin_position res" where
  "apply_credit_adjustment D p credit = (let c = fp_currency p in
     bind_res (new_money D credit c) (\<lambda>cred.
     bind_res (new_money D (fp_posted_actual p) c) (\<lambda>actual.
     bind_res (money_gt cred actual) (\<lambda>exceeds.
     bind_res (throw_if exceeds (CreditNoteExceedsActual (m_amount cred) (m_amount actual))) (\<lambda>_.
     bind_res (money_minus D actual cred) (\<lambda>actual'.
       Inr (p\<lparr>fp_posted_actual := MoneyIn actual'\<rparr>)))))))"

section \<open>Conservation of the estimate at completion\<close>

text \<open>
  A good amount is a non-negative multiple of \<open>10 ^ -6\<close>; the books are in order when the
  four cost figures are good amounts of one currency with a sum of at most \<open>10 ^ 15\<close>, far
  inside the 24 digits of the package.
\<close>

definition good_amount :: "rat \<Rightarrow> bool" where
  "good_amount x \<longleftrightarrow> 0 \<le> x \<and> whole (x * 1000000)"

fun good_input :: "decimal_pkg \<Rightarrow> money_input \<Rightarrow> bool" where
  "good_input D (MoneyIn m) = (wf_money m \<and> good_amount (m_amount m))"
| "good_input D (StringIn s) = (case dp_parse D s of None \<Rightarrow> True | Some a \<Rightarrow> good_amount a)"
| "good_input D (NumberIn a) = good_amount a"

fun good_posting :: "decimal_pkg \<Rightarrow> posting \<Rightarrow> bool" where
  "good_posting D (PostAccrual inp) = good_input D inp"
| "good_posting D (PostCommitment inp) = good_input D inp"

definition cost_figures ::
  "decimal_pkg \<Rightarrow> fin_position \<Rightarrow> money \<Rightarrow> money \<Rightarrow> money \<Rightarrow> money \<Rightarrow> bool" where
  "cost_figures D p a b r u \<longleftrightarrow>
     new_money D (fp_posted_actual p) (fp_currency p) = Inr a \<and>
     new_money D (fp_accrued p) (fp_currency p) = Inr b \<and>
     new_money D (fp_remaining p) (fp_currency p) = Inr r \<and>
     new_money D (fp_uncommitted p) (fp_currency p) = Inr u \<and>
     (\<forall>m \<in> {a, b, r, u}. wf_money m \<and> good_amount (m_amount m) \<and> m_currency m = m_currency a) \<and>
     m_amount a + m_amount b + m_amount r + m_amount u \<le> 1000000000000000"

definition books_ok :: "decimal_pkg \<Rightarrow> fin_position \<Rightarrow> bool" where
  "books_ok D p \<longleftrightarrow> (\<exists>a b r u. cost_figures D p a b r u)"

lemma good_amount_add: "good_amount x \<Longrightarrow> good_amount y \<Longrightarrow> good_amount (x + y)"
  using whole_add [of "x * 1000000" "y * 1000000"] by (simp add: good_amount_def distrib_right)

lemma good_amount_diff: "good_amount x \<Longrightarrow> good_amount y \<Longrightarrow> y \<le> x \<Longrightarrow> good_amount (x - y)"
  using whole_diff [of "x * 1000000" "y * 1000000"] by (simp add: good_amount_def left_diff_distrib)

lemma good_input_money:
  "new_money D inp c = Inr m \<Longrightarrow> good_input D inp \<Longrightarrow> wf_money m \<and> good_amount (m_amount m)"
  by (cases inp) (auto split: option.splits)

lemma good_amount_round:
  assumes "decimal_arith D" and "good_amount x" and "x \<le> 1000000000000000"
  shows "dp_round D x = x"
proof -
  have "scaled 1000 x" using assms(2,3) by (simp add: scaled_def good_amount_def)
  then show ?thesis by (rule decimal_arith.round_scaled [OF assms(1)]) simp
qed

text \<open>What is left of the position once the costs incurred and the estimate are known.\<close>

definition position_rest ::
  "decimal_pkg \<Rightarrow> fin_position \<Rightarrow> money \<Rightarrow> money \<Rightarrow> money \<Rightarrow> fin_result res" where
  "position_rest D p budget incurred eac =
     bind_res (money_minus D budget eac) (\<lambda>variance.
     bind_res (revenue_part D (fp_currency p) (fp_revenue p) eac) (\<lambda>(rev, contribution, margin).
       Inr \<lparr>fr_currency = fp_currency p, fr_current_budget = budget, fr_cost_incurred = incurred,
            fr_eac = eac, fr_variance = variance, fr_revenue = rev,
            fr_contribution = contribution, fr_margin = margin\<rparr>))"

definition exact_eac :: "money \<Rightarrow> money \<Rightarrow> money \<Rightarrow> money \<Rightarrow> money" where
  "exact_eac a b r u = mk_money (m_amount a + m_amount b + m_amount r + m_amount u) (m_currency a)"

lemma cost_figures_sums:
  assumes D: "decimal_arith D" and "cost_figures D p a b r u"
  shows "money_plus D a b = Inr (mk_money (m_amount a + m_amount b) (m_currency a))"
    and "money_plus D (mk_money (m_amount a + m_amount b) (m_currency a)) r =
      Inr (mk_money (m_amount a + m_amount b + m_amount r) (m_currency a))"
    and "money_plus D (mk_money (m_amount a + m_amount b + m_amount r) (m_currency a)) u =
      Inr (exact_eac a b r u)"
proof -
  have good: "good_amount (m_amount a)" "good_amount (m_amount b)" "good_amount (m_amount r)"
    "good_amount (m_amount u)"
    and cur: "m_currency b = m_currency a" "m_currency r = m_currency a" "m_currency u = m_currency a"
    and up: "to_upper (m_currency a) = m_currency a"
    and le: "m_amount a + m_amount b + m_amount r + m_amount u \<le> 1000000000000000"
    using assms(2) by (auto simp: cost_figures_def wf_money_def)
  have nonneg: "0 \<le> m_amount a" "0 \<le> m_amount b" "0 \<le> m_amount r" "0 \<le> m_amount u"
    using good by (auto simp: good_amount_def)
  have "dp_round D (m_amount a + m_amount b) = m_amount a + m_amount b"
    "dp_round D (m_amount a + m_amount b + m_amount r) = m_amount a + m_amount b + m_amount r"
    "dp_round D (m_amount a + m_amount b + m_amount r + m_amount u) =
      m_amount a + m_amount b + m_amount r + m_amount u"
    using good nonneg le by (auto intro!: good_amount_round [OF D] good_amount_add)
  then show "money_plus D a b = Inr (mk_money (m_amount a + m_amount b) (m_currency a))"
    "money_plus D (mk_money (m_amount a + m_amount b) (m_currency a)) r =
      Inr (mk_money (m_amount a + m_amount b + m_amount r) (m_currency a))"
    "money_plus D (mk_money (m_amount a + m_amount b + m_amount r) (m_currency a)) u =
      Inr (exact_eac a b r u)"
    using cur up by (simp_all add: guard_simps exact_eac_def)
qed

lemma calculate_position_exact:
  assumes "decimal_arith D" and fig: "cost_figures D p a b r u"
  shows "calculate_position D p =
    bind_res (new_money D (fp_original_budget p) (fp_currency p)) (\<lambda>orig.
    bind_res (new_money D (fp_budget_changes p) (fp_currency p)) (\<lambda>changes.
    bind_res (money_plus D orig changes) (\<lambda>budget.
      position_rest D p budget (mk_money (m_amount a + m_amount b) (m_currency a))
        (exact_eac a b r u))))"
  using fig cost_figures_sums [OF assms]
  by (simp add: calculate_position_def Let_def cost_figures_def position_rest_def)

lemma position_rest_frame:
  assumes "position_rest D p budget incurred eac = Inr v"
    and "fp_currency q = fp_currency p" and "fp_revenue q = fp_revenue p"
  shows "position_rest D q budget incurred' eac = Inr (v\<lparr>fr_cost_incurred := incurred'\<rparr>)"
  using assms by (auto simp: position_rest_def)

text \<open>Any change of the cost figures that keeps their sum keeps everything but the cost incurred.\<close>

lemma same_sum_same_position:
  assumes D: "decimal_arith D"
    and p: "cost_figures D p a b r u" and q: "cost_figures D q a' b' r' u'"
    and same: "fp_currency q = fp_currency p" "fp_original_budget q = fp_original_budget p"
      "fp_budget_changes q = fp_budget_changes p" "fp_revenue q = fp_revenue p"
      "exact_eac a' b' r' u' = exact_eac a b r u"
    and calc: "calculate_position D p = Inr v"
  shows "calculate_position D q = Inr (v\<lparr>fr_cost_incurred :=
    mk_money (m_amount a' + m_amount b') (m_currency a')\<rparr>)"
  using calc same
  by (auto simp: calculate_position_exact [OF D p] calculate_position_exact [OF D q]
      intro: position_rest_frame)

lemma moved_figures:
  assumes D: "decimal_arith D"
    and p: "cost_figures D p a b r u" and q: "cost_figures D q a' b' r' u'"
    and frame: "fp_currency q = fp_currency p" "fp_original_budget q = fp_original_budget p"
      "fp_budget_changes q = fp_budget_changes p" "fp_revenue q = fp_revenue p"
    and eac: "exact_eac a' b' r' u' = exact_eac a b r u"
    and calc: "calculate_position D p = Inr v"
  shows "books_ok D q \<and> (\<exists>w. calculate_position D q = Inr w \<and>
    w\<lparr>fr_cost_incurred := fr_cost_incurred v\<rparr> = v)"
proof
  show "books_ok D q" unfolding books_ok_def using q by blast
  from same_sum_same_position [OF D p q frame eac calc]
  show "\<exists>w. calculate_position D q = Inr w \<and> w\<lparr>fr_cost_incurred := fr_cost_incurred v\<rparr> = v"
    by auto
qed

lemma transition_accrual_Inr:
  assumes "transition_accrual_to_invoice D p inp = Inr q"
  obtains i a b where "new_money D inp (fp_currency p) = Inr i"
    and "new_money D (fp_posted_actual p) (fp_currency p) = Inr a"
    and "new_money D (fp_accrued p) (fp_currency p) = Inr b"
    and "m_currency a = m_currency i" and "m_currency b = m_currency i" and "m_amount i \<le> m_amount b"
    and "q = p\<lparr>fp_posted_actual := MoneyIn (mk_money (dp_round D (m_amount a + m_amount i)) (m_currency a)),
      fp_accrued := MoneyIn (mk_money (dp_round D (m_amount b - m_amount i)) (m_currency b))\<rparr>"
  using assms by (auto simp: transition_accrual_to_invoice_def Let_def guard_simps not_less)

lemma transition_commitment_Inr:
  assumes "transition_commitment_to_actual D p inp = Inr q"
  obtains i a b where "new_money D inp (fp_currency p) = Inr i"
    and "new_money D (fp_posted_actual p) (fp_currency p) = Inr a"
    and "new_money D (fp_remaining p) (fp_currency p) = Inr b"
    and "m_currency a = m_currency i" and "m_currency b = m_currency i" and "m_amount i \<le> m_amount b"
    and "q = p\<lparr>fp_posted_actual := MoneyIn (mk_money (dp_round D (m_amount a + m_amount i)) (m_currency a)),
      fp_remaining := MoneyIn (mk_money (dp_round D (m_amount b - m_amount i)) (m_currency b))\<rparr>"
  using assms by (auto simp: transition_commitment_to_actual_def Let_def guard_simps not_less)

text \<open>The two sums of a posting are exact.\<close>

lemma posting_exact:
  assumes D: "decimal_arith D" and "good_amount x" and "good_amount y" and "good_amount i"
    and "i \<le> y" and "x + y \<le> 1000000000000000"
  shows "dp_round D (x + i) = x + i" and "dp_round D (y - i) = y - i"
    and "good_amount (x + i)" and "good_amount (y - i)"
proof -
  show g: "good_amount (x + i)" "good_amount (y - i)"
    using assms by (auto intro: good_amount_add good_amount_diff)
  have "0 \<le> x" "0 \<le> i" using assms by (auto simp: good_amount_def)
  then have "x + i \<le> 1000000000000000" "y - i \<le> 1000000000000000" using assms(5,6) by linarith+
  then show "dp_round D (x + i) = x + i" "dp_round D (y - i) = y - i"
    using g by (auto intro: good_amount_round [OF D])
qed

lemma post_keeps_position:
  assumes D: "decimal_arith D" and books: "books_ok D p" and good: "good_posting D x"
    and step: "post D p x = Inr q" and calc: "calculate_position D p = Inr v"
  shows "books_ok D q \<and> (\<exists>w. calculate_position D q = Inr w \<and>
    w\<lparr>fr_cost_incurred := fr_cost_incurred v\<rparr> = v)"
proof -
  obtain a b r u where fig: "cost_figures D p a b r u" using books by (auto simp: books_ok_def)
  have figs: "new_money D (fp_posted_actual p) (fp_currency p) = Inr a"
    "new_money D (fp_accrued p) (fp_currency p) = Inr b"
    "new_money D (fp_remaining p) (fp_currency p) = Inr r"
    "new_money D (fp_uncommitted p) (fp_currency p) = Inr u"
    and cur: "to_upper (m_currency a) = m_currency a" "m_currency b = m_currency a"
      "m_currency r = m_currency a" "m_currency u = m_currency a"
    and ok: "good_amount (m_amount a)" "good_amount (m_amount b)" "good_amount (m_amount r)"
      "good_amount (m_amount u)"
    and sum: "m_amount a + m_amount b + m_amount r + m_amount u \<le> 1000000000000000"
    using fig by (auto simp: cost_figures_def wf_money_def)
  have nonneg: "0 \<le> m_amount a" "0 \<le> m_amount b" "0 \<le> m_amount r" "0 \<le> m_amount u"
    using ok by (auto simp: good_amount_def)
  have wf: "wf_money b" "wf_money r" "wf_money u" using cur by (simp_all add: wf_money_def)
  show ?thesis
  proof (cases x)
    case (PostAccrual inp)
    then have t: "transition_accrual_to_invoice D p inp = Inr q" using step by simp
    then obtain i where i: "new_money D inp (fp_currency p) = Inr i" "m_amount i \<le> m_amount b"
      and q: "q = p\<lparr>fp_posted_actual := MoneyIn (mk_money (dp_round D (m_amount a + m_amount i)) (m_currency a)),
        fp_accrued := MoneyIn (mk_money (dp_round D (m_amount b - m_amount i)) (m_currency b))\<rparr>"
      by (rule transition_accrual_Inr) (use figs in simp)
    have gi: "good_amount (m_amount i)" using good_input_money [OF i(1)] good PostAccrual by simp
    have "m_amount a + m_amount b \<le> 1000000000000000" using sum nonneg by linarith
    note ex = posting_exact [OF D ok(1,2) gi i(2) this]
    show ?thesis
      by (rule moved_figures [OF D fig, of q "mk_money (m_amount a + m_amount i) (m_currency a)"
          "mk_money (m_amount b - m_amount i) (m_currency b)" r u])
        (use figs cur ok sum wf ex calc in \<open>simp_all add: q cost_figures_def exact_eac_def\<close>)
  next
    case (PostCommitment inp)
    then have t: "transition_commitment_to_actual D p inp = Inr q"
      using step by (simp add: apply_supplier_invoice_def)
    then obtain i where i: "new_money D inp (fp_currency p) = Inr i" "m_amount i \<le> m_amount r"
      and q: "q = p\<lparr>fp_posted_actual := MoneyIn (mk_money (dp_round D (m_amount a + m_amount i)) (m_currency a)),
        fp_remaining := MoneyIn (mk_money (dp_round D (m_amount r - m_amount i)) (m_currency r))\<rparr>"
      by (rule transition_commitment_Inr) (use figs in simp)
    have gi: "good_amount (m_amount i)" using good_input_money [OF i(1)] good PostCommitment by simp
    have "m_amount a + m_amount r \<le> 1000000000000000" using sum nonneg by linarith
    note ex = posting_exact [OF D ok(1,3) gi i(2) this]
    show ?thesis
      by (rule moved_figures [OF D fig, of q "mk_money (m_amount a + m_amount i) (m_currency a)" b
          "mk_money (m_amount r - m_amount i) (m_currency r)" u])
        (use figs cur ok sum wf ex calc in \<open>simp_all add: q cost_figures_def exact_eac_def\<close>)
  qed
qed

text \<open>Everything of a position but the cost incurred, which a commitment posting raises.\<close>

definition position_view :: "decimal_pkg \<Rightarrow> fin_position \<Rightarrow> fin_result option" where
  "position_view D p = (case calculate_position D p of
     Inl _ \<Rightarrow> None | Inr v \<Rightarrow> Some (v\<lparr>fr_cost_incurred := money_zero []\<rparr>))"

definition ledger_ok :: "decimal_pkg \<Rightarrow> fin_position \<Rightarrow> bool" where
  "ledger_ok D p \<longleftrightarrow> books_ok D p \<and> returns (calculate_position D p)"

sublocale decimal_arith \<subseteq> ledger: conserving_run "post D" "ledger_ok D" "good_posting D" "position_view D"
proof (unfold_locales, goal_cases)
  case (1 p x q)
  then show ?case
    using post_keeps_position [OF decimal_arith_axioms, of p x q]
    by (auto simp: ledger_ok_def returns_conv)
next
  case (2 p x q)
  then obtain v where v: "calculate_position D p = Inr v" and "books_ok D p"
    by (auto simp: ledger_ok_def returns_conv)
  with 2 obtain w where "calculate_position D q = Inr w" "w\<lparr>fr_cost_incurred := fr_cost_incurred v\<rparr> = v"
    using post_keeps_position [OF decimal_arith_axioms, of p x q v] by auto
  moreover from this(2) have "w\<lparr>fr_cost_incurred := money_zero []\<rparr> = v\<lparr>fr_cost_incurred := money_zero []\<rparr>"
    by (cases v, cases w) simp
  ultimately show ?case using v by (simp add: position_view_def)
qed

context decimal_arith begin

lemma ledger_run:
  "fold_res (post D) p xs = Inr q \<Longrightarrow> ledger_ok D p \<Longrightarrow> \<forall>x \<in> set xs. good_posting D x \<Longrightarrow>
    ledger_ok D q \<and> position_view D q = position_view D p"
  using ledger.run_inv ledger.run_total by simp

end

section \<open>Exact figures\<close>

fun input_amount :: "decimal_pkg \<Rightarrow> money_input \<Rightarrow> rat option" where
  "input_amount D (MoneyIn m) = Some (m_amount m)"
| "input_amount D (StringIn s) = dp_parse D s"
| "input_amount D (NumberIn a) = Some a"

text \<open>The value of an input that the constructor accepts.\<close>

definition amount_of :: "decimal_pkg \<Rightarrow> money_input \<Rightarrow> rat" where
  "amount_of D inp = (case input_amount D inp of None \<Rightarrow> 0 | Some a \<Rightarrow> a)"

definition recorded :: "decimal_pkg \<Rightarrow> money_input \<Rightarrow> bool" where
  "recorded D inp \<longleftrightarrow> scaled 1 (amount_of D inp)"

lemma new_money_amount: "new_money D inp c = Inr m \<Longrightarrow> m_amount m = amount_of D inp"
  by (cases inp) (auto simp: amount_of_def split: option.splits)

lemma exact_sum:
  "decimal_arith D \<Longrightarrow> scaled j x \<Longrightarrow> scaled k y \<Longrightarrow> j + k < 1000000 \<Longrightarrow> dp_round D (x + y) = x + y"
  by (rule decimal_arith.plus_exact)

lemma exact_difference:
  "decimal_arith D \<Longrightarrow> scaled j x \<Longrightarrow> scaled k y \<Longrightarrow> j + k < 1000000 \<Longrightarrow> dp_round D (x - y) = x - y"
  by (rule decimal_arith.minus_exact)

text \<open>A sum or difference of recorded amounts, with the bound carried along.\<close>

lemma exact_step:
  assumes "decimal_arith D" and "scaled j x" and "scaled k y" and "j + k < 1000000"
  shows "dp_round D (x + y) = x + y \<and> scaled (j + k) (x + y)"
    and "dp_round D (x - y) = x - y \<and> scaled (j + k) (x - y)"
  using exact_sum [OF assms] exact_difference [OF assms] scaled_add [OF assms(2,3)]
    scaled_diff [OF assms(2,3)] by simp_all

lemma calculate_position_Inr:
  assumes "calculate_position D p = Inr v"
  obtains orig changes posted accrued remaining uncommitted where
    "new_money D (fp_original_budget p) (fp_currency p) = Inr orig"
    "new_money D (fp_budget_changes p) (fp_currency p) = Inr changes"
    "new_money D (fp_posted_actual p) (fp_currency p) = Inr posted"
    "new_money D (fp_accrued p) (fp_currency p) = Inr accrued"
    "new_money D (fp_remaining p) (fp_currency p) = Inr remaining"
    "new_money D (fp_uncommitted p) (fp_currency p) = Inr uncommitted"
    "m_amount (fr_current_budget v) = dp_round D (m_amount orig + m_amount changes)"
    "m_amount (fr_cost_incurred v) = dp_round D (m_amount posted + m_amount accrued)"
    "m_amount (fr_eac v) = dp_round D (dp_round D (dp_round D (m_amount posted + m_amount accrued)
        + m_amount remaining) + m_amount uncommitted)"
    "m_amount (fr_variance v) = dp_round D (m_amount (fr_current_budget v) - m_amount (fr_eac v))"
    "revenue_part D (fp_currency p) (fp_revenue p) (fr_eac v) =
       Inr (fr_revenue v, fr_contribution v, fr_margin v)"
  using assms by (auto simp: calculate_position_def Let_def guard_simps)

lemma revenue_part_contribution:
  assumes "revenue_part D c basis eac = Inr (revenue, contribution, margin)"
  shows "map_option m_amount contribution =
    (case basis of
       None \<Rightarrow> None
     | Some inp \<Rightarrow> if 0 < amount_of D inp then Some (dp_round D (amount_of D inp - m_amount eac)) else None)"
  using assms
  by (auto simp: revenue_part_def money_is_zero_def money_is_positive_def guard_simps
      dest!: new_money_amount split: option.splits if_splits)

section \<open>Properties\<close>

text \<open>
  The position is the one the accounting identities define. For recorded amounts the
  current budget, the cost incurred, the estimate at completion, the variance and the
  contribution are the exact sums and differences of the inputs; there is a contribution
  exactly when a revenue basis is given and positive.
\<close>

theorem position_identities:
  assumes D: "decimal_arith D" and calc: "calculate_position D p = Inr v"
    and rec: "recorded D (fp_original_budget p)" "recorded D (fp_budget_changes p)"
      "recorded D (fp_posted_actual p)" "recorded D (fp_accrued p)" "recorded D (fp_remaining p)"
      "recorded D (fp_uncommitted p)" "\<forall>inp. fp_revenue p = Some inp \<longrightarrow> recorded D inp"
  shows "let budget = amount_of D (fp_original_budget p) + amount_of D (fp_budget_changes p);
      incurred = amount_of D (fp_posted_actual p) + amount_of D (fp_accrued p);
      eac = incurred + amount_of D (fp_remaining p) + amount_of D (fp_uncommitted p)
    in m_amount (fr_current_budget v) = budget \<and> m_amount (fr_cost_incurred v) = incurred \<and>
       m_amount (fr_eac v) = eac \<and> m_amount (fr_variance v) = budget - eac \<and>
       map_option m_amount (fr_contribution v) =
         (case fp_revenue p of
            None \<Rightarrow> None
          | Some inp \<Rightarrow> if 0 < amount_of D inp then Some (amount_of D inp - eac) else None)"
proof -
  from calc show ?thesis
  proof (rule calculate_position_Inr)
    fix orig changes posted accrued remaining uncommitted
    assume m: "new_money D (fp_original_budget p) (fp_currency p) = Inr orig"
      "new_money D (fp_budget_changes p) (fp_currency p) = Inr changes"
      "new_money D (fp_posted_actual p) (fp_currency p) = Inr posted"
      "new_money D (fp_accrued p) (fp_currency p) = Inr accrued"
      "new_money D (fp_remaining p) (fp_currency p) = Inr remaining"
      "new_money D (fp_uncommitted p) (fp_currency p) = Inr uncommitted"
      and f: "m_amount (fr_current_budget v) = dp_round D (m_amount orig + m_amount changes)"
      "m_amount (fr_cost_incurred v) = dp_round D (m_amount posted + m_amount accrued)"
      "m_amount (fr_eac v) = dp_round D (dp_round D (dp_round D (m_amount posted + m_amount accrued)
        + m_amount remaining) + m_amount uncommitted)"
      "m_amount (fr_variance v) = dp_round D (m_amount (fr_current_budget v) - m_amount (fr_eac v))"
      and rev: "revenue_part D (fp_currency p) (fp_revenue p) (fr_eac v) =
       Inr (fr_revenue v, fr_contribution v, fr_margin v)"
    note a = m [THEN new_money_amount]
    note r = rec(1-6) [unfolded recorded_def, folded a]
    note b = exact_step(1) [OF D r(1,2)]
    note s1 = exact_step(1) [OF D r(3,4)]
    note s2 = exact_step(1) [OF D s1 [simplified, THEN conjunct2] r(5)]
    note s3 = exact_step(1) [OF D s2 [simplified, THEN conjunct2] r(6)]
    note va = exact_step(2) [OF D b [simplified, THEN conjunct2] s3 [simplified, THEN conjunct2]]
    have c: "dp_round D (amount_of D inp - m_amount (fr_eac v)) = amount_of D inp - m_amount (fr_eac v)"
      if "fp_revenue p = Some inp" for inp
      using exact_step(2) [OF D _ s3 [simplified, THEN conjunct2], of 1 "amount_of D inp"] that rec(7)
        f(3) s1 s2 s3 by (simp add: recorded_def)
    from f b s1 s2 s3 va have eqs: "m_amount (fr_current_budget v) = m_amount orig + m_amount changes"
      "m_amount (fr_cost_incurred v) = m_amount posted + m_amount accrued"
      "m_amount (fr_eac v) = m_amount posted + m_amount accrued + m_amount remaining + m_amount uncommitted"
      "m_amount (fr_variance v) = m_amount (fr_current_budget v) - m_amount (fr_eac v)"
      by simp_all
    show ?thesis
      using revenue_part_contribution [OF rev] c eqs
      by (auto simp: Let_def a split: option.splits)
  qed
qed

text \<open>
  C8: no double counting. Posting supplier invoices whose amounts are non-negative multiples of
  a millionth against accruals and commitments, in any order and any number, leaves the
  estimate at completion, the budget, the variance, the contribution and the margin as they
  were, and the books stay in order: no figure becomes negative. That the amounts are such is
  an assumption on the invoices: neither the calculator nor the endpoint checks it.
\<close>

theorem postings_keep_estimate:
  assumes "decimal_arith D" and "calculate_position D p = Inr v" and "books_ok D p"
    and "\<forall>x \<in> set xs. good_posting D x" and "fold_res (post D) p xs = Inr q"
  shows "books_ok D q \<and> (\<exists>w. calculate_position D q = Inr w \<and>
    w\<lparr>fr_cost_incurred := fr_cost_incurred v\<rparr> = v)"
proof -
  have ok: "ledger_ok D p" using assms(2,3) by (simp add: ledger_ok_def)
  note run = decimal_arith.ledger_run [OF assms(1,5) ok assms(4)]
  then obtain w where w: "books_ok D q" "calculate_position D q = Inr w"
    by (auto simp: ledger_ok_def returns_conv)
  from run w assms(2) have "w\<lparr>fr_cost_incurred := money_zero []\<rparr> = v\<lparr>fr_cost_incurred := money_zero []\<rparr>"
    by (simp add: position_view_def)
  then have "w\<lparr>fr_cost_incurred := fr_cost_incurred v\<rparr> = v" by (cases v, cases w) simp
  with w show ?thesis by blast
qed

definition example_position :: fin_position where
  "example_position = \<lparr>fp_currency = ''QAR'', fp_original_budget = NumberIn 95000,
     fp_budget_changes = NumberIn 5000, fp_posted_actual = NumberIn 40000, fp_accrued = NumberIn 20000,
     fp_remaining = NumberIn 25000, fp_uncommitted = NumberIn 5000, fp_revenue = Some (NumberIn 160000)\<rparr>"

lemma to_upper_QAR [simp]: "to_upper ''QAR'' = ''QAR''"
  by (simp add: to_upper_def upper_char_def)

lemma good_amount_numeral [simp]: "good_amount (numeral n)" "good_amount 0"
  by (simp_all add: good_amount_def whole_mult)

lemma round_numeral [simp]: "numeral n \<le> (1000000000000000 :: rat) \<Longrightarrow> dp_round decimal24 (numeral n) = numeral n"
  by (rule good_amount_round [OF decimal24_arith]) simp_all

lemma example_position_calculates: "\<exists>v. calculate_position decimal24 example_position = Inr v"
  by (simp add: calculate_position_def example_position_def Let_def money_plus_def money_minus_def
      assert_same_currency_def revenue_part_def money_is_zero_def money_is_positive_def split_def)

lemma example_position_books: "books_ok decimal24 example_position"
  by (auto simp: books_ok_def cost_figures_def example_position_def mk_money_def wf_money_def)




theorem position_identities_witness:
  "\<exists>v. calculate_position decimal24 example_position = Inr v \<and> m_amount (fr_eac v) = 90000
     \<and> map_option m_amount (fr_contribution v) = Some 70000"
proof -
  obtain v where v: "calculate_position decimal24 example_position = Inr v"
    using example_position_calculates by blast
  have "recorded decimal24 (NumberIn (numeral n))" if "numeral n \<le> (1000000000000 :: rat)" for n
    using that by (simp add: recorded_def amount_of_def)
  with position_identities [OF decimal24_arith v] v show ?thesis
    by (simp add: Let_def example_position_def amount_of_def)
qed

theorem postings_keep_estimate_witness:
  "\<exists>v q. calculate_position decimal24 example_position = Inr v \<and>
     fold_res (post decimal24) example_position
       [PostAccrual (NumberIn 10000), PostCommitment (NumberIn 25000)] = Inr q \<and>
     (\<exists>w. calculate_position decimal24 q = Inr w \<and> fr_eac w = fr_eac v)"
proof -
  let ?xs = "[PostAccrual (NumberIn 10000), PostCommitment (NumberIn 25000)]"
  obtain v where v: "calculate_position decimal24 example_position = Inr v"
    using example_position_calculates by blast
  have "\<exists>q. fold_res (post decimal24) example_position ?xs = Inr q"
    by (simp add: example_position_def transition_accrual_to_invoice_def apply_supplier_invoice_def
        transition_commitment_to_actual_def Let_def money_plus_def money_minus_def money_gt_def
        assert_same_currency_def mk_money_def)
  then obtain q where q: "fold_res (post decimal24) example_position ?xs = Inr q" by blast
  have "\<forall>x \<in> set ?xs. good_posting decimal24 x" by simp
  from postings_keep_estimate [OF decimal24_arith v example_position_books this q]
  obtain w where w: "calculate_position decimal24 q = Inr w" "w\<lparr>fr_cost_incurred := fr_cost_incurred v\<rparr> = v"
    by blast
  then have "fr_eac w = fr_eac v" by (metis fin_result.select_convs(4) fin_result.surjective fin_result.update_convs(3))
  with v q w show ?thesis by blast
qed

section \<open>Cash, bridge, allocation and imports\<close>

lemma calculate_cash_position_Inr:
  assumes "calculate_cash_position D i = Inr r"
  shows "m_amount (cr_contract r) = amount_of D (ci_contract i)"
    and "m_amount (cr_billed r) = amount_of D (ci_billed i)"
    and "m_amount (cr_collected r) = amount_of D (ci_collected i)"
    and "m_amount (cr_posted r) = amount_of D (ci_posted i)"
    and "m_amount (cr_remaining r) = amount_of D (ci_remaining i)"
    and "m_amount (cr_receivables r) = dp_round D (m_amount (cr_billed r) - m_amount (cr_collected r))"
    and "m_amount (cr_unbilled r) = dp_round D (m_amount (cr_contract r) - m_amount (cr_billed r))"
    and "m_amount (cr_net_flow r) = dp_round D (m_amount (cr_collected r) - m_amount (cr_posted r))"
    and "m_amount (cr_net_exposure r) = dp_round D (m_amount (cr_collected r) -
      dp_round D (m_amount (cr_posted r) + m_amount (cr_remaining r)))"
  using assms
  by (auto simp: calculate_cash_position_def Let_def guard_simps dest!: new_money_amount)

text \<open>
  The cash position accounts for the whole contract. What is collected, receivable and
  still to be billed adds up to the contract value, and the cash exposure is the net cash
  flow less the remaining commitments.
\<close>

theorem cash_identities:
  assumes D: "decimal_arith D" and calc: "calculate_cash_position D i = Inr r"
    and rec: "recorded D (ci_contract i)" "recorded D (ci_billed i)" "recorded D (ci_collected i)"
      "recorded D (ci_posted i)" "recorded D (ci_remaining i)"
  shows "m_amount (cr_collected r) + m_amount (cr_receivables r) + m_amount (cr_unbilled r) =
      amount_of D (ci_contract i) \<and>
    m_amount (cr_net_exposure r) = m_amount (cr_net_flow r) - m_amount (cr_remaining r) \<and>
    m_amount (cr_net_flow r) = amount_of D (ci_collected i) - amount_of D (ci_posted i)"
proof -
  note e = calculate_cash_position_Inr [OF calc]
  note s = rec [unfolded recorded_def]
  note out = exact_step(1) [OF D s(4,5)]
  have "dp_round D (amount_of D (ci_collected i) - (amount_of D (ci_posted i) + amount_of D (ci_remaining i)))
      = amount_of D (ci_collected i) - (amount_of D (ci_posted i) + amount_of D (ci_remaining i))"
    using exact_step(2) [OF D s(3) out [THEN conjunct2]] by simp
  with exact_step(2) [OF D s(2,3)] exact_step(2) [OF D s(1,2)] exact_step(2) [OF D s(3,4)] out
  show ?thesis by (simp add: e)
qed

lemma calculate_margin_bridge_Inr:
  assumes "calculate_margin_bridge D i = Inr r"
  shows "m_amount (br_tender_revenue r) = amount_of D (bi_tender_revenue i)"
    and "m_amount (br_tender_cost r) = amount_of D (bi_tender_cost i)"
    and "m_amount (br_variation_revenue r) = amount_of D (bi_variation_revenue i)"
    and "m_amount (br_variation_cost r) = amount_of D (bi_variation_cost i)"
    and "m_amount (br_overruns r) = amount_of D (bi_overruns i)"
    and "m_amount (br_tender_margin r) = dp_round D (m_amount (br_tender_revenue r) - m_amount (br_tender_cost r))"
    and "m_amount (br_variation_margin r) =
      dp_round D (m_amount (br_variation_revenue r) - m_amount (br_variation_cost r))"
    and "m_amount (br_budget_revenue r) =
      dp_round D (m_amount (br_tender_revenue r) + m_amount (br_variation_revenue r))"
    and "m_amount (br_budget_cost r) = dp_round D (m_amount (br_tender_cost r) + m_amount (br_variation_cost r))"
    and "m_amount (br_budget_margin r) = dp_round D (m_amount (br_budget_revenue r) - m_amount (br_budget_cost r))"
    and "m_amount (br_final_cost r) = dp_round D (m_amount (br_budget_cost r) + m_amount (br_overruns r))"
    and "m_amount (br_final_margin r) = dp_round D (m_amount (br_budget_revenue r) - m_amount (br_final_cost r))"
  using assms
  by (auto simp: calculate_margin_bridge_def Let_def guard_simps dest!: new_money_amount)

text \<open>
  The waterfall closes. The margin of the current budget is the tender margin plus the
  variation margin, and the final forecast margin is that less the cost overruns.
\<close>

theorem margin_bridge_closes:
  assumes D: "decimal_arith D" and calc: "calculate_margin_bridge D i = Inr r"
    and rec: "recorded D (bi_tender_revenue i)" "recorded D (bi_tender_cost i)"
      "recorded D (bi_variation_revenue i)" "recorded D (bi_variation_cost i)" "recorded D (bi_overruns i)"
  shows "m_amount (br_budget_margin r) = m_amount (br_tender_margin r) + m_amount (br_variation_margin r) \<and>
    m_amount (br_final_margin r) = m_amount (br_budget_margin r) - amount_of D (bi_overruns i)"
proof -
  note e = calculate_margin_bridge_Inr [OF calc]
  note s = rec [unfolded recorded_def]
  note b_rev = exact_step(1) [OF D s(1,3)] and b_cost = exact_step(1) [OF D s(2,4)]
  note f_cost = exact_step(1) [OF D b_cost [simplified, THEN conjunct2] s(5)]
  have "dp_round D (amount_of D (bi_tender_revenue i) + amount_of D (bi_variation_revenue i) -
      (amount_of D (bi_tender_cost i) + amount_of D (bi_variation_cost i))) =
      amount_of D (bi_tender_revenue i) + amount_of D (bi_variation_revenue i) -
      (amount_of D (bi_tender_cost i) + amount_of D (bi_variation_cost i))"
    using exact_step(2) [OF D b_rev [simplified, THEN conjunct2] b_cost [simplified, THEN conjunct2]]
    by simp
  moreover have "dp_round D (amount_of D (bi_tender_revenue i) + amount_of D (bi_variation_revenue i) -
      (amount_of D (bi_tender_cost i) + amount_of D (bi_variation_cost i) + amount_of D (bi_overruns i))) =
      amount_of D (bi_tender_revenue i) + amount_of D (bi_variation_revenue i) -
      (amount_of D (bi_tender_cost i) + amount_of D (bi_variation_cost i) + amount_of D (bi_overruns i))"
    using exact_step(2) [OF D b_rev [simplified, THEN conjunct2] f_cost [simplified, THEN conjunct2]]
    by simp
  moreover note b_rev b_cost f_cost exact_step(2) [OF D s(1,2)] exact_step(2) [OF D s(3,4)]
  ultimately show ?thesis by (simp add: e)
qed

lemma allocation_loop:
  assumes D: "decimal_arith D" and "to_upper c = c"
    and "map_res (\<lambda>a. new_money D (al_amount a) c) allocs = Inr ms"
    and "\<forall>m \<in> set ms. m_currency m = c \<and> scaled 1 (m_amount m)"
    and "scaled k t" and "k + length allocs < 1000000"
  shows "fold_res (\<lambda>total a. bind_res (new_money D (al_amount a) c) (\<lambda>m. money_plus D total m))
      (mk_money t c) allocs = Inr (mk_money (t + sum_list (map m_amount ms)) c)
    \<and> scaled (k + length allocs) (t + sum_list (map m_amount ms))"
  using assms(3-)
proof (induction allocs arbitrary: ms t k)
  case Nil
  then show ?case by simp
next
  case (Cons a allocs)
  then obtain m ms' where m: "new_money D (al_amount a) c = Inr m"
    "map_res (\<lambda>a. new_money D (al_amount a) c) allocs = Inr ms'" "ms = m # ms'"
    by auto
  have "dp_round D (t + m_amount m) = t + m_amount m" and s: "scaled (k + 1) (t + m_amount m)"
    using exact_step(1) [OF D Cons.prems(3), of 1 "m_amount m"] Cons.prems(2,4) m(3) by auto
  then have "money_plus D (mk_money t c) m = Inr (mk_money (t + m_amount m) c)"
    using Cons.prems(2) m(3) assms(2) by (simp add: guard_simps)
  with Cons.IH [OF m(2) _ s] Cons.prems(2,4) m show ?case by (simp add: add.assoc)
qed

text \<open>
  An invoice line is never over-allocated and never silently changed. For allocations in
  the line's currency, the check returns the exact total and the exact remainder when the
  total is within the line, and otherwise throws with both amounts.
\<close>

theorem allocations_exact:
  assumes D: "decimal_arith D" and line: "wf_money line" "scaled 1 (m_amount line)"
    and ms: "map_res (\<lambda>a. new_money D (al_amount a) (m_currency line)) allocs = Inr ms"
      "\<forall>m \<in> set ms. m_currency m = m_currency line \<and> scaled 1 (m_amount m)"
    and few: "length allocs < 999999"
  shows "validate_allocations D line allocs =
    (let total = sum_list (map m_amount ms) in
       if total \<le> m_amount line
       then Inr \<lparr>ar_total = mk_money total (m_currency line),
                 ar_remaining = mk_money (m_amount line - total) (m_currency line), ar_valid = True\<rparr>
       else Inl (CostAllocationExceedsLine total (m_amount line)))"
proof -
  let ?c = "m_currency line" and ?t = "sum_list (map m_amount ms)"
  have up: "to_upper ?c = ?c" using line(1) by (simp add: wf_money_def)
  have loop: "fold_res (\<lambda>total a. bind_res (new_money D (al_amount a) ?c) (\<lambda>m. money_plus D total m))
      (mk_money 0 ?c) allocs = Inr (mk_money ?t ?c)" "scaled (length allocs) ?t"
    using allocation_loop [OF D up ms, of 0 0] few by simp_all
  have diff: "dp_round D (m_amount line - ?t) = m_amount line - ?t"
    using exact_step(2) [OF D line(2) loop(2)] few by simp
  show ?thesis
    by (simp add: validate_allocations_def loop(1) money_gt_def assert_same_currency_def up
        money_minus_def diff Let_def not_less)
qed

text \<open>
  The ledger of imports of \<open>importCostFile\<close> in \<open>apps/api/src/finance/finance.controller.ts\<close>: a
  batch is compared with those of its project and organisation, and recorded once it is
  found to be unique. The checks before (schema, project, currencies) and the sum are left out.
\<close>

record stored_batch = import_batch +
  sb_org :: string
  sb_project :: string

definition existing_batches :: "string \<Rightarrow> string \<Rightarrow> stored_batch list \<Rightarrow> stored_batch list" where
  "existing_batches org project ledger = filter (\<lambda>b. sb_project b = project \<and> sb_org b = org) ledger"

definition import_step :: "stored_batch list \<Rightarrow> stored_batch \<Rightarrow> stored_batch list res" where
  "import_step ledger b =
     bind_res (validate_import_uniqueness (ib_source b) (ib_hash b) (ib_batch_id b)
         (map import_batch.truncate (existing_batches (sb_org b) (sb_project b) ledger)))
       (\<lambda>_. Inr (ledger @ [b]))"

definition imports_distinct :: "stored_batch list \<Rightarrow> bool" where
  "imports_distinct ledger \<longleftrightarrow> distinct (map ib_hash ledger) \<and>
     distinct (map (\<lambda>b. (ib_source b, ib_batch_id b)) ledger)"

lemma validate_import_Inr:
  "validate_import_uniqueness source hash bid ledger = Inr u \<longleftrightarrow>
     (\<forall>b \<in> set ledger. ib_hash b \<noteq> hash \<and> (ib_source b, ib_batch_id b) \<noteq> (source, bid))"
  by (auto simp: validate_import_uniqueness_def find_None_iff split: option.splits)
    (auto simp: find_Some_iff)

lemma truncate_import [simp]:
  "ib_hash (import_batch.truncate b) = ib_hash b" "ib_source (import_batch.truncate b) = ib_source b"
  "ib_batch_id (import_batch.truncate b) = ib_batch_id b"
  by (simp_all add: import_batch.truncate_def)

lemma import_step_Inr:
  "import_step ledger b = Inr ledger' \<longleftrightarrow> ledger' = ledger @ [b] \<and>
     (\<forall>d \<in> set (existing_batches (sb_org b) (sb_project b) ledger). ib_hash d \<noteq> ib_hash b \<and>
        (ib_source d, ib_batch_id d) \<noteq> (ib_source b, ib_batch_id b))"
  by (auto simp: import_step_def validate_import_Inr)

interpretation import_ledger: guarded_run import_step "\<lambda>ledger. \<forall>org project. imports_distinct (existing_batches org project ledger)" "\<lambda>_. True"
proof unfold_locales
  fix s b s'
  assume ok: "\<forall>org project. imports_distinct (existing_batches org project s)" and "import_step s b = Inr s'"
  then have s': "s' = s @ [b]" and new: "\<forall>d \<in> set (existing_batches (sb_org b) (sb_project b) s). ib_hash d \<noteq> ib_hash b \<and>
      (ib_source d, ib_batch_id d) \<noteq> (ib_source b, ib_batch_id b)"
    by (simp_all add: import_step_Inr)
  show "\<forall>org project. imports_distinct (existing_batches org project s')"
  proof (intro allI)
    fix org project
    show "imports_distinct (existing_batches org project s')"
      using ok [rule_format, of org project] new by (auto simp: s' existing_batches_def imports_distinct_def)
  qed
qed

text \<open>
  C33: a financial source file has one effect in a project. However many import attempts are
  made on an empty ledger, for whatever projects and in whatever order, no two recorded
  batches of a project share a file hash, nor a source system and batch identifier; and an
  attempt is recorded exactly when both are new in its project.
\<close>

theorem imports_never_duplicated:
  "imports_distinct (existing_batches org project (attempts import_step [] batches)) \<and>
   (returns (import_step ledger b) \<longleftrightarrow>
     (\<forall>d \<in> set ledger. sb_org d = sb_org b \<and> sb_project d = sb_project b \<longrightarrow>
        ib_hash d \<noteq> ib_hash b \<and> (ib_source d, ib_batch_id d) \<noteq> (ib_source b, ib_batch_id b)))"
proof
  show "imports_distinct (existing_batches org project (attempts import_step [] batches))"
    using import_ledger.attempts_inv [of "[]" batches] by (simp add: existing_batches_def imports_distinct_def)
  show "returns (import_step ledger b) \<longleftrightarrow>
     (\<forall>d \<in> set ledger. sb_org d = sb_org b \<and> sb_project d = sb_project b \<longrightarrow>
        ib_hash d \<noteq> ib_hash b \<and> (ib_source d, ib_batch_id d) \<noteq> (ib_source b, ib_batch_id b))"
    by (auto simp: import_step_Inr returns_conv existing_batches_def)
qed

definition example_batch :: "string \<Rightarrow> string \<Rightarrow> stored_batch" where
  "example_batch bid hash = \<lparr>ib_batch_id = bid, ib_source = ''ERP'', ib_hash = hash,
     ib_imported_at = 0, ib_records = 1, ib_total = mk_money 100 ''QAR'', sb_org = ''O1'', sb_project = ''P1''\<rparr>"

theorem imports_never_duplicated_witness:
  "imports_distinct (existing_batches ''O1'' ''P1'' (attempts import_step [] [example_batch ''B1'' ''h1'', example_batch ''B1'' ''h2''])) \<and>
   \<not> returns (import_step [example_batch ''B1'' ''h1''] (example_batch ''B1'' ''h2'')) \<and>
   returns (import_step [example_batch ''B1'' ''h1''] (example_batch ''B2'' ''h2''))"
  using imports_never_duplicated [of "''O1''" "''P1''" "[example_batch ''B1'' ''h1'', example_batch ''B1'' ''h2'']"
      "[example_batch ''B1'' ''h1'']" "example_batch ''B1'' ''h2''"]
    imports_never_duplicated [of "''O1''" "''P1''" "[]" "[example_batch ''B1'' ''h1'']" "example_batch ''B2'' ''h2''"]
  by (simp add: example_batch_def)

lemma recorded_numeral [simp]: "recorded D (NumberIn (numeral n)) \<longleftrightarrow> numeral n \<le> (1000000000000 :: rat)"
  by (simp add: recorded_def amount_of_def)

definition example_cash :: cash_input where
  "example_cash = \<lparr>ci_currency = ''QAR'', ci_contract = NumberIn 200000, ci_billed = NumberIn 120000,
     ci_collected = NumberIn 80000, ci_posted = NumberIn 50000, ci_remaining = NumberIn 40000\<rparr>"

theorem cash_identities_witness:
  "\<exists>r. calculate_cash_position decimal24 example_cash = Inr r \<and>
     m_amount (cr_collected r) + m_amount (cr_receivables r) + m_amount (cr_unbilled r) = 200000 \<and>
     m_amount (cr_net_flow r) = 30000"
proof -
  have "\<exists>r. calculate_cash_position decimal24 example_cash = Inr r"
    by (simp add: calculate_cash_position_def example_cash_def Let_def money_plus_def
        money_minus_def assert_same_currency_def)
  then obtain r where r: "calculate_cash_position decimal24 example_cash = Inr r" by blast
  from cash_identities [OF decimal24_arith r] r show ?thesis
    by (simp add: example_cash_def amount_of_def)
qed

definition example_bridge :: bridge_input where
  "example_bridge = \<lparr>bi_currency = ''QAR'', bi_tender_revenue = NumberIn 160000,
     bi_tender_cost = NumberIn 90000, bi_variation_revenue = NumberIn 20000,
     bi_variation_cost = NumberIn 12000, bi_overruns = NumberIn 5000\<rparr>"

theorem margin_bridge_closes_witness:
  "\<exists>r. calculate_margin_bridge decimal24 example_bridge = Inr r \<and>
     m_amount (br_final_margin r) = m_amount (br_budget_margin r) - 5000"
proof -
  have "\<exists>r. calculate_margin_bridge decimal24 example_bridge = Inr r"
    by (simp add: calculate_margin_bridge_def example_bridge_def Let_def money_plus_def
        money_minus_def assert_same_currency_def)
  then obtain r where r: "calculate_margin_bridge decimal24 example_bridge = Inr r" by blast
  from margin_bridge_closes [OF decimal24_arith r] r show ?thesis
    by (simp add: example_bridge_def amount_of_def)
qed

theorem allocations_exact_witness:
  "validate_allocations decimal24 (mk_money 10000 ''QAR'')
     [\<lparr>al_package = ''P1'', al_amount = NumberIn 6000\<rparr>, \<lparr>al_package = ''P2'', al_amount = NumberIn 7000\<rparr>]
   = Inl (CostAllocationExceedsLine 13000 10000)"
  by (subst allocations_exact [OF decimal24_arith, where ms = "[mk_money 6000 ''QAR'', mk_money 7000 ''QAR'']"])
    simp_all

end
