(* ===== verification/Crypto_Util.thy ===== *)
theory Crypto_Util
  imports Prelude "HOL-Library.Word" "HOL-Library.List_Lexorder" "HOL-Library.Char_ord"
begin

unbundle bit_operations_syntax

text \<open>
  \<open>packages/domain/src/crypto-util.ts\<close>: the digest of a value. The value is turned into text
  by \<open>JSON.stringify\<close> with the sorted keys of the value as its property list; the text is
  hashed by SHA-256 where node's \<open>crypto\<close> can be loaded and by a 64-bit multiply and xor
  hash on 32-bit integers otherwise. \<open>JSON.stringify\<close> is modelled as the language defines
  it; how a number is printed and the SHA-256 function are arguments. The argument of type
  \<open>Uint8Array\<close> is not modelled.
\<close>

section \<open>Values and their text\<close>

datatype json =
    JNull
  | JUndef
  | JBool bool
  | JNum rat
  | JStr string
  | JArr "json list"
  | JObj "(string \<times> json) list"

record js_host =
  jh_num :: "rat \<Rightarrow> string"
  jh_sha256 :: "(string \<Rightarrow> string) option"

definition hex_char :: "nat \<Rightarrow> char" where
  "hex_char d = (if d < 10 then char_of (48 + d) else char_of (87 + d))"

definition quote_char :: "char \<Rightarrow> string" where
  "quote_char c = (let n = (of_char c :: nat) in
     if n = 34 then [char_of (92::nat), char_of (34::nat)]
     else if n = 92 then [char_of (92::nat), char_of (92::nat)]
     else if n = 8 then char_of (92::nat) # ''b''
     else if n = 9 then char_of (92::nat) # ''t''
     else if n = 10 then char_of (92::nat) # ''n''
     else if n = 12 then char_of (92::nat) # ''f''
     else if n = 13 then char_of (92::nat) # ''r''
     else if n < 32 then char_of (92::nat) # ''u00'' @ [hex_char (n div 16), hex_char (n mod 16)]
     else [c])"

definition quote_str :: "string \<Rightarrow> string" where
  "quote_str s = char_of (34::nat) # concat (map quote_char s) @ [char_of (34::nat)]"

fun join_with :: "string \<Rightarrow> string list \<Rightarrow> string" where
  "join_with sep [] = []"
| "join_with sep [s] = s"
| "join_with sep (s # ss) = s @ sep @ join_with sep ss"

text \<open>
  \<open>SerializeJSONProperty\<close>: \<open>None\<close> for a value that has no text. With a property list \<open>Some ks\<close>
  an object, at any depth, is printed with the keys of the list that it has, in the list's
  order; without one, with its own keys in order.
\<close>

fun stringify :: "(rat \<Rightarrow> string) \<Rightarrow> string list option \<Rightarrow> json \<Rightarrow> string option" where
  "stringify num ks JUndef = None"
| "stringify num ks JNull = Some ''null''"
| "stringify num ks (JBool b) = Some (if b then ''true'' else ''false'')"
| "stringify num ks (JNum q) = Some (num q)"
| "stringify num ks (JStr s) = Some (quote_str s)"
| "stringify num ks (JArr xs) =
     Some (''['' @ join_with '','' (map (\<lambda>t. case t of None \<Rightarrow> ''null'' | Some s \<Rightarrow> s)
       (map (stringify num ks) xs)) @ '']'')"
| "stringify num ks (JObj kvs) =
     (let texts = map (\<lambda>(k, v). (k, stringify num ks v)) kvs;
          order = (case ks of None \<Rightarrow> map fst kvs | Some l \<Rightarrow> l);
          entries = concat (map (\<lambda>k. case map_of texts k of
              Some (Some t) \<Rightarrow> [quote_str k @ '':'' @ t] | _ \<Rightarrow> []) order)
      in Some (''{'' @ join_with '','' entries @ ''}''))"

text \<open>\<open>Object.keys(data).sort()\<close>; the keys of an array are its indices.\<close>

definition sorted_keys :: "json \<Rightarrow> string list option" where
  "sorted_keys d = (case d of
       JObj kvs \<Rightarrow> Some (sort (map fst kvs))
     | JArr xs \<Rightarrow> Some (sort (map nat_str [0..<length xs]))
     | _ \<Rightarrow> None)"

definition content_text :: "js_host \<Rightarrow> json \<Rightarrow> string option" where
  "content_text H d = (case d of JStr s \<Rightarrow> Some s | _ \<Rightarrow> stringify (jh_num H) (sorted_keys d) d)"

section \<open>The fallback hash\<close>

text \<open>\<open>Math.imul\<close> is multiplication of 32-bit integers, \<open>>>>\<close> the logical shift.\<close>

definition imul :: "32 word \<Rightarrow> 32 word \<Rightarrow> 32 word" where
  "imul a b = a * b"

definition char_code :: "char \<Rightarrow> 32 word" where
  "char_code c = of_nat (of_char c :: nat)"

type_synonym hash_state = "32 word \<times> 32 word"

definition hash_step :: "char \<Rightarrow> hash_state \<Rightarrow> hash_state" where
  "hash_step c st = (case st of (h1, h2) \<Rightarrow>
     (imul (h1 XOR char_code c) 2654435761, imul (h2 XOR char_code c) 1597334677))"

definition hash_finish :: "hash_state \<Rightarrow> hash_state" where
  "hash_finish st = (case st of (h1, h2) \<Rightarrow>
     let h1 = imul (h1 XOR drop_bit 16 h1) 2246822507;
         h1 = h1 XOR imul (h2 XOR drop_bit 13 h2) 3266489909;
         h2 = imul (h2 XOR drop_bit 16 h2) 2246822507;
         h2 = h2 XOR imul (h1 XOR drop_bit 13 h1) 3266489909
     in (h1, h2))"

text \<open>\<open>toString(16).padStart(8, '0')\<close> of an unsigned 32-bit integer.\<close>

fun hex_digits :: "nat \<Rightarrow> nat \<Rightarrow> string" where
  "hex_digits 0 k = []"
| "hex_digits (Suc n) k = hex_digits n (k div 16) @ [hex_char (k mod 16)]"

definition hex8 :: "32 word \<Rightarrow> string" where
  "hex8 w = hex_digits 8 (unat w)"

definition fallback_hash :: "string \<Rightarrow> string" where
  "fallback_hash s =
     (case hash_finish (fold hash_step s (0xdeadbeef, 0x41c6ce57)) of
        (h1, h2) \<Rightarrow> concat (replicate 4 (hex8 h1 @ hex8 h2)))"

definition safe_sha256 :: "js_host \<Rightarrow> json \<Rightarrow> string res" where
  "safe_sha256 H d = (case content_text H d of
       None \<Rightarrow> Inl TypeErrorThrown
     | Some s \<Rightarrow> Inr (case jh_sha256 H of Some sha \<Rightarrow> sha s | None \<Rightarrow> fallback_hash s))"

section \<open>The mixing steps lose nothing\<close>

lemma imul_inj:
  assumes "k * l = (1 :: 32 word)"
  shows "imul a k = imul b k \<longleftrightarrow> a = b"
proof
  assume "imul a k = imul b k"
  then have "a * (k * l) = b * (k * l)" by (simp add: imul_def flip: mult.assoc)
  then show "a = b" using assms by simp
qed simp

lemma imul_constants [simp]:
  "imul a 2654435761 = imul b 2654435761 \<longleftrightarrow> a = b"
  "imul a 1597334677 = imul b 1597334677 \<longleftrightarrow> a = b"
  "imul a 2246822507 = imul b 2246822507 \<longleftrightarrow> a = b"
  by (rule imul_inj [where l = 244002641], simp) (rule imul_inj [where l = 851723965], simp, rule imul_inj [where l = 2781581891], simp)

lemma xor_left_cancel: "a XOR c = b XOR c \<longleftrightarrow> a = (b :: 32 word)"
  by (metis xor.assoc xor.right_neutral xor_self_eq)

lemma xorshift16_inj: "a XOR drop_bit 16 a = b XOR drop_bit 16 b \<longleftrightarrow> a = (b :: 32 word)"
proof
  assume eq: "a XOR drop_bit 16 a = b XOR drop_bit 16 b"
  have twice: "(w XOR drop_bit 16 w) XOR drop_bit 16 (w XOR drop_bit 16 w) = w" for w :: "32 word"
    by (rule bit_word_eqI) (auto simp: bit_simps)
  from eq twice [of a] twice [of b] show "a = b" by metis
qed simp

text \<open>The last two assignments to each half form a two-round Feistel network.\<close>

lemma feistel_inj:
  fixes f g :: "32 word \<Rightarrow> 32 word"
  assumes g: "\<And>x y. g x = g y \<longleftrightarrow> x = y"
  shows "(g a XOR f b, g b XOR f (g a XOR f b)) = (g c XOR f d, g d XOR f (g c XOR f d)) \<longleftrightarrow>
    a = c \<and> b = d"
proof
  assume eq: "(g a XOR f b, g b XOR f (g a XOR f b)) = (g c XOR f d, g d XOR f (g c XOR f d))"
  then have first: "g a XOR f b = g c XOR f d" by simp
  from eq have "g b XOR f (g c XOR f d) = g d XOR f (g c XOR f d)" by (simp add: first)
  then have "b = d" by (simp only: xor_left_cancel g)
  with first show "a = c \<and> b = d" by (simp only: xor_left_cancel g)
qed simp

definition mix_round :: "32 word \<Rightarrow> 32 word" where
  "mix_round x = imul (x XOR drop_bit 16 x) 2246822507"

definition mix_feed :: "32 word \<Rightarrow> 32 word" where
  "mix_feed x = imul (x XOR drop_bit 13 x) 3266489909"

lemma hash_finish_eq:
  "hash_finish (h1, h2) = (mix_round h1 XOR mix_feed h2, mix_round h2 XOR mix_feed (mix_round h1 XOR mix_feed h2))"
  by (simp only: hash_finish_def Let_def prod.case mix_round_def mix_feed_def)

lemma hash_finish_inj: "hash_finish st = hash_finish st' \<longleftrightarrow> st = st'"
proof -
  have "mix_round x = mix_round y \<longleftrightarrow> x = y" for x y
    by (simp only: mix_round_def imul_constants xorshift16_inj)
  from feistel_inj [of mix_round, OF this] show ?thesis
    by (cases st, cases st') (simp only: hash_finish_eq prod.inject)
qed

lemma hash_step_inj: "hash_step c st = hash_step c st' \<longleftrightarrow> st = st'"
  by (cases st, cases st') (auto simp: hash_step_def xor_left_cancel)

lemma hash_fold_inj: "fold hash_step s st = fold hash_step s st' \<longleftrightarrow> st = st'"
  by (induction s arbitrary: st st') (simp_all add: hash_step_inj)

lemma char_code_inj: "char_code c = char_code d \<longleftrightarrow> c = d"
proof
  assume "char_code c = char_code d"
  then have "unat (char_code c) = unat (char_code d)" by simp
  moreover have "unat (char_code e) = of_char e" for e
    using nat_of_char_less_256 [of e]
    by (simp add: char_code_def unat_of_nat take_bit_eq_mod del: nat_of_char_less_256)
  ultimately show "c = d" by (metis of_char_eq_iff)
qed simp

lemma hash_step_char: "hash_step c st = hash_step d st \<longleftrightarrow> c = d"
proof (cases st)
  case (Pair h1 h2)
  have "h1 XOR x = h1 XOR y \<longleftrightarrow> x = y" for x y
    by (metis xor_left_cancel xor.commute)
  with Pair show ?thesis by (auto simp: hash_step_def char_code_inj)
qed

lemma hex_char_inj: "i < 16 \<Longrightarrow> j < 16 \<Longrightarrow> hex_char i = hex_char j \<Longrightarrow> i = j"
  by (auto simp: hex_char_def split: if_splits dest!: arg_cong [where f = "of_char :: char \<Rightarrow> nat"])

lemma length_hex_digits [simp]: "length (hex_digits n k) = n"
  by (induction n arbitrary: k) simp_all

lemma hex_digits_inj: "hex_digits n i = hex_digits n j \<Longrightarrow> i mod 16 ^ n = j mod 16 ^ n"
proof (induction n arbitrary: i j)
  case 0
  then show ?case by simp
next
  case (Suc n)
  from Suc.prems have digits: "hex_digits n (i div 16) = hex_digits n (j div 16)"
    and last: "hex_char (i mod 16) = hex_char (j mod 16)" by simp_all
  from hex_char_inj [OF _ _ last] have "i mod 16 = j mod 16" by simp
  moreover from Suc.IH [OF digits] have "i div 16 mod 16 ^ n = j div 16 mod 16 ^ n" .
  ultimately show ?case by (simp add: mod_mult2_eq)
qed

lemma hex8_inj: "hex8 w = hex8 v \<longleftrightarrow> w = v"
proof
  assume "hex8 w = hex8 v"
  then have "unat w mod 16 ^ 8 = unat v mod 16 ^ 8" unfolding hex8_def by (rule hex_digits_inj)
  moreover have "unat x mod 16 ^ 8 = unat x" for x :: "32 word"
    using unsigned_less [of x, where ?'a = nat] by simp
  ultimately have "unat w = unat v" by metis
  then show "w = v" by (rule word_unat_eq_iff [THEN iffD2])
qed simp

lemma length_hex8 [simp]: "length (hex8 w) = 8"
  by (simp add: hex8_def)

lemma fallback_state: "fallback_hash s = fallback_hash t \<longleftrightarrow>
    fold hash_step s (0xdeadbeef, 0x41c6ce57) = fold hash_step t (0xdeadbeef, 0x41c6ce57)"
proof -
  obtain a b where s: "hash_finish (fold hash_step s (0xdeadbeef, 0x41c6ce57)) = (a, b)" by fastforce
  obtain c d where t: "hash_finish (fold hash_step t (0xdeadbeef, 0x41c6ce57)) = (c, d)" by fastforce
  have "fallback_hash s = fallback_hash t \<longleftrightarrow> (a, b) = (c, d)"
    by (simp add: fallback_hash_def s t hex8_inj numeral_eq_Suc) (auto simp: hex8_inj)
  also have "\<dots> \<longleftrightarrow> fold hash_step s (0xdeadbeef, 0x41c6ce57) = fold hash_step t (0xdeadbeef, 0x41c6ce57)"
    by (simp only: s [symmetric] t [symmetric] hash_finish_inj)
  finally show ?thesis .
qed

text \<open>
  The fallback digest has the advertised shape, and it sees every substitution of one
  character: it has 64 characters, it repeats its first 16 four times (so it carries 64
  bits), and two texts that differ in exactly one character have different digests.
\<close>

theorem fallback_hash_detects_substitution:
  "length (fallback_hash s) = 64 \<and>
   fallback_hash s = concat (replicate 4 (take 16 (fallback_hash s))) \<and>
   (fallback_hash (s @ [c] @ t) = fallback_hash (s @ [d] @ t) \<longleftrightarrow> c = d)"
proof -
  obtain a b where s: "hash_finish (fold hash_step s (0xdeadbeef, 0x41c6ce57)) = (a, b)" by fastforce
  then have "length (fallback_hash s) = 64"
    "fallback_hash s = concat (replicate 4 (take 16 (fallback_hash s)))"
    by (simp_all add: fallback_hash_def numeral_eq_Suc)
  then show ?thesis by (simp add: fallback_state hash_fold_inj hash_step_char)
qed

section \<open>What the property list hides\<close>

text \<open>
  The property list of the top-level value applies at every depth: \<open>visible ks d\<close> is what is
  left of \<open>d\<close> when the keys of nested objects that are not in the list are dropped.
\<close>

fun visible :: "string list \<Rightarrow> json \<Rightarrow> json" where
  "visible ks (JArr xs) = JArr (map (visible ks) xs)"
| "visible ks (JObj kvs) = JObj (filter (\<lambda>kv. fst kv \<in> set ks) (map (\<lambda>(k, v). (k, visible ks v)) kvs))"
| "visible ks d = d"

lemma map_of_texts:
  assumes "\<And>k v. (k, v) \<in> set kvs \<Longrightarrow> g (f v) = g v" and "k \<in> S"
  shows "map_of (map (\<lambda>(k, v). (k, g v)) (filter (\<lambda>kv. fst kv \<in> S) (map (\<lambda>(k, v). (k, f v)) kvs))) k
    = map_of (map (\<lambda>(k, v). (k, g v)) kvs) k"
  using assms(1)
proof (induction kvs)
  case Nil
  then show ?case by simp
next
  case (Cons kv kvs)
  obtain a b where kv: "kv = (a, b)" by (cases kv)
  have "g (f b) = g b" by (rule Cons.prems [of a]) (simp add: kv)
  with Cons kv assms(2) show ?case by auto
qed

lemma visible_cong: "set ks = set ls \<Longrightarrow> visible ks d = visible ls d"
proof (induction ks d rule: visible.induct)
  case (1 ks xs)
  then show ?case by simp
next
  case (2 ks kvs)
  then have "map (\<lambda>(k, v). (k, visible ks v)) kvs = map (\<lambda>(k, v). (k, visible ls v)) kvs"
    by (intro map_cong) auto
  then show ?case by (simp only: visible.simps \<open>set ks = set ls\<close>)
qed simp_all

lemma stringify_visible: "stringify num (Some ks) (visible ks d) = stringify num (Some ks) d"
proof (induction ks d rule: visible.induct)
  case (1 ks xs)
  then have "map (stringify num (Some ks)) (map (visible ks) xs) = map (stringify num (Some ks)) xs"
    by simp
  then show ?case by (simp only: visible.simps stringify.simps)
next
  case (2 ks kvs)
  then have "map_of (map (\<lambda>(k, v). (k, stringify num (Some ks) v))
      (filter (\<lambda>kv. fst kv \<in> set ks) (map (\<lambda>(k, v). (k, visible ks v)) kvs))) k
    = map_of (map (\<lambda>(k, v). (k, stringify num (Some ks) v)) kvs) k" if "k \<in> set ks" for k
    using that by (intro map_of_texts) auto
  then show ?case by (simp add: Let_def cong: map_cong)
qed simp_all

lemma same_visible_same_text:
  assumes "map fst kvs = map fst kvs'"
    and "visible (map fst kvs) (JObj kvs) = visible (map fst kvs) (JObj kvs')"
  shows "content_text H (JObj kvs) = content_text H (JObj kvs')"
proof -
  let ?ks = "sort (map fst kvs)"
  have "visible ?ks d = visible (map fst kvs) d" for d
    by (rule visible_cong) simp
  with assms have "visible ?ks (JObj kvs) = visible ?ks (JObj kvs')" by metis
  then have "stringify (jh_num H) (Some ?ks) (JObj kvs) = stringify (jh_num H) (Some ?ks) (JObj kvs')"
    by (metis stringify_visible)
  then show ?thesis using assms(1) by (simp add: content_text_def sorted_keys_def del: stringify.simps)
qed

end
