(* ===== verification/Variations.thy ===== *)
theory Variations
  imports Finance Crypto_Util
begin

text \<open>
  \<open>packages/domain/src/variations.ts\<close>: the ledger of contract variations, its baseline
  financials with the pending exposure kept apart, the simulated life cycle of one
  variation, and the authority of an approval that is bound to a content hash.
\<close>

section \<open>Data\<close>

datatype variation_status =
    VarDraft | VarPendingInternalApproval | VarInternallyApproved | VarSubmittedToClient
  | VarClientApproved | VarRejected | VarWithdrawn

record variation =
  vd_id :: string
  vd_project :: string
  vd_code :: string
  vd_title :: string
  vd_scope :: string
  vd_cost :: money
  vd_sell :: money
  vd_days :: int
  vd_status :: variation_status

record actuals =
  ac_committed :: "money option"
  ac_actual :: "money option"
  ac_forecast :: "money option"

record baseline_financials =
  bf_project :: string
  bf_currency :: string
  bf_baseline_budget :: money
  bf_approved_changes :: money
  bf_current_budget :: money
  bf_committed :: money
  bf_actual :: money
  bf_forecast :: money
  bf_eac :: money
  bf_vac :: money
  bf_pending_cost :: money
  bf_pending_sell :: money
  bf_baseline_contract :: money
  bf_approved_sell :: money
  bf_contract :: money
  bf_scenario_eac :: money
  bf_approved_cost_budget :: money
  bf_total_forecast_cost :: money
  bf_total_forecast_sell :: money

section \<open>Baseline financials\<close>

definition is_pending :: "variation_status \<Rightarrow> bool" where
  "is_pending s \<longleftrightarrow> s = VarDraft \<or> s = VarPendingInternalApproval \<or> s = VarInternallyApproved
     \<or> s = VarSubmittedToClient"

text \<open>The four accumulators of the loop: pending cost and sell, approved cost and sell.\<close>

type_synonym variation_sums = "rat \<times> rat \<times> rat \<times> rat"

definition add_variation :: "decimal_pkg \<Rightarrow> variation \<Rightarrow> variation_sums \<Rightarrow> variation_sums" where
  "add_variation D v acc = (case acc of (p_cost, p_sell, a_cost, a_sell) \<Rightarrow>
     if vd_status v = VarClientApproved
     then (p_cost, p_sell, dp_round D (a_cost + m_amount (vd_cost v)), dp_round D (a_sell + m_amount (vd_sell v)))
     else if is_pending (vd_status v)
     then (dp_round D (p_cost + m_amount (vd_cost v)), dp_round D (p_sell + m_amount (vd_sell v)), a_cost, a_sell)
     else acc)"

definition project_of :: "variation list \<Rightarrow> string" where
  "project_of vs = (case vs of [] \<Rightarrow> ''unknown'' | v # _ \<Rightarrow> if vd_project v = [] then ''unknown'' else vd_project v)"

definition calculate_financials ::
  "decimal_pkg \<Rightarrow> string \<Rightarrow> money \<Rightarrow> money \<Rightarrow> variation list \<Rightarrow> actuals option \<Rightarrow> baseline_financials res" where
  "calculate_financials D c contract budget vs acts =
     (case fold (add_variation D) vs (0, 0, 0, 0) of (p_cost, p_sell, a_cost, a_sell) \<Rightarrow>
      let changes = mk_money a_cost c;
          changes_sell = mk_money a_sell c;
          pending = mk_money p_cost c;
          pending_sell = mk_money p_sell c;
          supplied = (\<lambda>f. Option.bind acts f);
          committed = (case supplied ac_committed of Some m \<Rightarrow> m | None \<Rightarrow> mk_money 0 c);
          actual = (case supplied ac_actual of Some m \<Rightarrow> m | None \<Rightarrow> mk_money 0 c)
      in bind_res (money_plus D budget changes) (\<lambda>current.
         bind_res (money_plus D contract changes_sell) (\<lambda>contract_value.
         let etc = (case supplied ac_forecast of
               Some m \<Rightarrow> m
             | None \<Rightarrow> (let left = dp_round D (m_amount current - m_amount actual)
                        in mk_money (if left < 0 then 0 else left) c))
         in bind_res (money_plus D actual etc) (\<lambda>eac.
            bind_res (money_minus D current eac) (\<lambda>vac.
            bind_res (money_plus D eac pending) (\<lambda>scenario.
            bind_res (money_plus D contract_value pending_sell) (\<lambda>forecast_sell.
              Inr \<lparr>bf_project = project_of vs, bf_currency = c, bf_baseline_budget = budget,
                   bf_approved_changes = changes, bf_current_budget = current, bf_committed = committed,
                   bf_actual = actual, bf_forecast = etc, bf_eac = eac, bf_vac = vac,
                   bf_pending_cost = pending, bf_pending_sell = pending_sell,
                   bf_baseline_contract = contract, bf_approved_sell = changes_sell,
                   bf_contract = contract_value, bf_scenario_eac = scenario,
                   bf_approved_cost_budget = current, bf_total_forecast_cost = eac,
                   bf_total_forecast_sell = forecast_sell\<rparr>)))))))"

text \<open>The life cycle of one variation: submitted, approved, committed, posted.\<close>

definition lifecycle_variation :: "money \<Rightarrow> money \<Rightarrow> variation" where
  "lifecycle_variation cost sell = \<lparr>vd_id = ''vo-lifecycle-1'', vd_project = ''sim-prj'',
     vd_code = ''VO-SIM-01'', vd_title = ''Additional Arena LED Displays'', vd_scope = ''LED displays'',
     vd_cost = cost, vd_sell = sell, vd_days = 0, vd_status = VarSubmittedToClient\<rparr>"

record lifecycle =
  lc_pending :: baseline_financials
  lc_approved :: baseline_financials
  lc_committed :: baseline_financials
  lc_actual :: baseline_financials

definition simulate_cost_lifecycle ::
  "decimal_pkg \<Rightarrow> money \<Rightarrow> money \<Rightarrow> money \<Rightarrow> money \<Rightarrow> lifecycle res" where
  "simulate_cost_lifecycle D contract budget cost sell = (let c = m_currency budget;
       vo1 = lifecycle_variation cost sell;
       vo2 = vo1\<lparr>vd_status := VarClientApproved\<rparr>;
       nil = mk_money 0 c;
       calc = (\<lambda>v committed actual etc. calculate_financials D c contract budget [v]
         (Some \<lparr>ac_committed = Some committed, ac_actual = Some actual, ac_forecast = Some etc\<rparr>))
     in bind_res (calc vo1 nil nil budget) (\<lambda>step1.
        bind_res (money_plus D budget cost) (\<lambda>raised.
        bind_res (calc vo2 nil nil raised) (\<lambda>step2.
        bind_res (calc vo2 cost nil raised) (\<lambda>step3.
        bind_res (calc vo2 nil cost budget) (\<lambda>step4.
          Inr \<lparr>lc_pending = step1, lc_approved = step2, lc_committed = step3, lc_actual = step4\<rparr>))))))"

section \<open>Approvals bound to a content hash\<close>

datatype approval_target = TargetProposal | TargetPurchaseOrder | TargetEstimate | TargetDesign
datatype approval_status = ApprovalActive | ApprovalSuperseded | ApprovalRevoked

record approved_snapshot =
  as_target :: string
  as_type :: approval_target
  as_hash :: string
  as_approved_at :: int
  as_approver :: string
  as_status :: approval_status

record change_evaluation =
  ce_superseded :: bool
  ce_current :: string
  ce_approved :: string

definition compute_content_hash :: "js_host \<Rightarrow> json \<Rightarrow> string res" where
  "compute_content_hash H d = safe_sha256 H d"

definition evaluate_change_against_approval ::
  "js_host \<Rightarrow> json \<Rightarrow> approved_snapshot \<Rightarrow> change_evaluation res" where
  "evaluate_change_against_approval H d snap = bind_res (compute_content_hash H d) (\<lambda>h.
     Inr \<lparr>ce_superseded = (h \<noteq> as_hash snap), ce_current = h, ce_approved = as_hash snap\<rparr>)"

definition validate_execution_authority ::
  "js_host \<Rightarrow> json \<Rightarrow> approved_snapshot \<Rightarrow> string \<Rightarrow> unit res" where
  "validate_execution_authority H d snap supplied =
     bind_res (evaluate_change_against_approval H d snap) (\<lambda>e.
     bind_res (throw_if (ce_superseded e) ExecutionDeniedSuperseded) (\<lambda>_.
     bind_res (throw_if (supplied \<noteq> as_hash snap) ExecutionDeniedHashMismatch) (\<lambda>_.
       throw_if (as_status snap \<noteq> ApprovalActive) ExecutionDeniedInactive)))"

section \<open>Lemmas\<close>

definition approved_only :: "variation list \<Rightarrow> variation list" where
  "approved_only vs = filter (\<lambda>v. vd_status v = VarClientApproved) vs"

definition pending_only :: "variation list \<Rightarrow> variation list" where
  "pending_only vs = filter (\<lambda>v. is_pending (vd_status v)) vs"

definition cost_sum :: "variation list \<Rightarrow> rat" where
  "cost_sum vs = sum_list (map (\<lambda>v. m_amount (vd_cost v)) vs)"

definition sell_sum :: "variation list \<Rightarrow> rat" where
  "sell_sum vs = sum_list (map (\<lambda>v. m_amount (vd_sell v)) vs)"

lemma not_pending_approved [simp]: "\<not> is_pending VarClientApproved"
  by (simp add: is_pending_def)

text \<open>The approved accumulators see only the approved variations, whatever the rounding.\<close>

lemma fold_approved_only:
  "fold (add_variation D) vs (pc, ps, ac, as) = (pc', ps', ac', as') \<Longrightarrow>
   fold (add_variation D) (approved_only vs) (qc, qs, ac, as) = (qc, qs, ac', as')"
  by (induction vs arbitrary: pc ps ac as)
    (auto simp: approved_only_def add_variation_def split: if_splits)

lemma variation_sums_exact:
  assumes D: "decimal_arith D"
    and "\<forall>v \<in> set vs. scaled 1 (m_amount (vd_cost v)) \<and> scaled 1 (m_amount (vd_sell v))"
    and "scaled k pc" "scaled k ps" "scaled k ac" "scaled k as" and "k + length vs < 1000000"
  shows "fold (add_variation D) vs (pc, ps, ac, as) =
      (pc + cost_sum (pending_only vs), ps + sell_sum (pending_only vs),
       ac + cost_sum (approved_only vs), as + sell_sum (approved_only vs))
    \<and> scaled (k + length vs) (pc + cost_sum (pending_only vs))
    \<and> scaled (k + length vs) (ac + cost_sum (approved_only vs))
    \<and> scaled (k + length vs) (ps + sell_sum (pending_only vs))
    \<and> scaled (k + length vs) (as + sell_sum (approved_only vs))"
  using assms(2-)
proof (induction vs arbitrary: pc ps ac as k)
  case Nil
  then show ?case by (simp add: pending_only_def approved_only_def cost_sum_def sell_sum_def)
next
  case (Cons v vs)
  have up: "scaled (Suc k) pc" "scaled (Suc k) ps" "scaled (Suc k) ac" "scaled (Suc k) as"
    using Cons.prems(2-5) by (auto intro: scaled_mono)
  have plus: "dp_round D (x + m_amount (f v)) = x + m_amount (f v) \<and> scaled (Suc k) (x + m_amount (f v))"
    if "scaled k x" and "f = vd_cost \<or> f = vd_sell" for x f
    using exact_step(1) [OF D that(1), of 1 "m_amount (f v)"] that(2) Cons.prems(1,6) by auto
  note IH = Cons.IH [of "Suc k"]
  consider (app) "vd_status v = VarClientApproved" | (pend) "is_pending (vd_status v)" "vd_status v \<noteq> VarClientApproved"
    | (out) "\<not> is_pending (vd_status v)" "vd_status v \<noteq> VarClientApproved" by blast
  then show ?case
  proof cases
    case app
    with IH [of pc ps "ac + m_amount (vd_cost v)" "as + m_amount (vd_sell v)"] Cons.prems up
      plus [of ac vd_cost] plus [of as vd_sell]
    show ?thesis by (simp add: add_variation_def approved_only_def pending_only_def cost_sum_def
          sell_sum_def add.assoc)
  next
    case pend
    with IH [of "pc + m_amount (vd_cost v)" "ps + m_amount (vd_sell v)" ac as] Cons.prems up
      plus [of pc vd_cost] plus [of ps vd_sell]
    show ?thesis by (simp add: add_variation_def approved_only_def pending_only_def cost_sum_def
          sell_sum_def add.assoc)
  next
    case out
    with IH [of pc ps ac as] Cons.prems up
    show ?thesis by (simp add: add_variation_def approved_only_def pending_only_def)
  qed
qed

text \<open>The effective actual cost and forecast of the optional actuals.\<close>

definition given :: "actuals option \<Rightarrow> (actuals \<Rightarrow> money option) \<Rightarrow> money \<Rightarrow> money" where
  "given acts f m = (case Option.bind acts f of Some n \<Rightarrow> n | None \<Rightarrow> m)"

lemma calculate_financials_Inr:
  assumes "calculate_financials D c contract budget vs acts = Inr f"
    and "fold (add_variation D) vs (0, 0, 0, 0) = (pc, ps, ac, as)"
  shows "m_amount (bf_current_budget f) = dp_round D (m_amount budget + ac)"
    and "m_amount (bf_contract f) = dp_round D (m_amount contract + as)"
    and "bf_actual f = given acts ac_actual (mk_money 0 c)"
    and "bf_forecast f = given acts ac_forecast
      (mk_money (max 0 (dp_round D (m_amount (bf_current_budget f) - m_amount (bf_actual f)))) c)"
    and "m_amount (bf_eac f) = dp_round D (m_amount (bf_actual f) + m_amount (bf_forecast f))"
    and "m_amount (bf_vac f) = dp_round D (m_amount (bf_current_budget f) - m_amount (bf_eac f))"
    and "m_amount (bf_pending_cost f) = pc" and "m_amount (bf_pending_sell f) = ps"
    and "m_amount (bf_scenario_eac f) = dp_round D (m_amount (bf_eac f) + pc)"
  using assms
  by (auto simp: calculate_financials_def Let_def guard_simps given_def max_def split: option.splits if_splits)

lemma plus_any_amount:
  assumes "money_plus D m (mk_money a c) = Inr r"
  shows "money_plus D m (mk_money b c) = Inr (mk_money (dp_round D (m_amount m + b)) (m_currency m))"
  using assms by (simp add: guard_simps)

section \<open>Properties\<close>

text \<open>
  Pending exposure never reaches the approved baseline. Dropping every variation that
  the client has not approved changes neither the current budget, the contract value, the
  forecast, the estimate at completion nor the variance, whatever the amounts and the
  rounding; only the exposure figures see the pending variations.
\<close>

theorem pending_never_in_baseline:
  assumes "calculate_financials D c contract budget vs acts = Inr f"
  shows "\<exists>g. calculate_financials D c contract budget (approved_only vs) acts = Inr g \<and>
    bf_current_budget g = bf_current_budget f \<and> bf_contract g = bf_contract f \<and>
    bf_forecast g = bf_forecast f \<and> bf_eac g = bf_eac f \<and> bf_vac g = bf_vac f \<and>
    m_amount (bf_pending_cost g) = 0 \<and> m_amount (bf_pending_sell g) = 0"
proof -
  obtain pc ps ac as where sums: "fold (add_variation D) vs (0, 0, 0, 0) = (pc, ps, ac, as)"
    by (metis prod_cases4)
  from fold_approved_only [OF this]
  have "fold (add_variation D) (approved_only vs) (0, 0, 0, 0) = (0, 0, ac, as)" .
  moreover from assms sums obtain cur cv eac vac sc fs where
    steps: "money_plus D budget (mk_money ac c) = Inr cur" "money_plus D contract (mk_money as c) = Inr cv"
      "money_plus D (given acts ac_actual (mk_money 0 c)) (given acts ac_forecast (mk_money (if dp_round D
         (m_amount cur - m_amount (given acts ac_actual (mk_money 0 c))) < 0 then 0 else dp_round D
         (m_amount cur - m_amount (given acts ac_actual (mk_money 0 c)))) c)) = Inr eac"
      "money_minus D cur eac = Inr vac" "money_plus D eac (mk_money pc c) = Inr sc"
      "money_plus D cv (mk_money ps c) = Inr fs"
    and f: "bf_current_budget f = cur" "bf_contract f = cv" "bf_forecast f = given acts ac_forecast (mk_money
         (if dp_round D (m_amount cur - m_amount (given acts ac_actual (mk_money 0 c))) < 0 then 0 else dp_round D
         (m_amount cur - m_amount (given acts ac_actual (mk_money 0 c)))) c)"
      "bf_eac f = eac" "bf_vac f = vac"
    unfolding calculate_financials_def Let_def given_def [symmetric]
    by (simp only: prod.case bind_res_Inr_conv sum.inject) (elim exE conjE, rule that, assumption+, auto)
  ultimately show ?thesis
    using plus_any_amount [OF steps(5), of 0] plus_any_amount [OF steps(6), of 0]
    unfolding calculate_financials_def Let_def given_def [symmetric] by simp
qed

text \<open>
  The baseline figures are the sums their names promise, exactly. The current budget is
  the baseline budget plus the costs of the client-approved variations, the contract value
  the baseline contract plus their sell values, the estimate at completion is actual plus
  forecast, the variance is budget minus estimate, the unapproved scenario adds exactly the
  costs of the pending variations, and a forecast that is not supplied is what remains of
  the budget, clamped at zero.
\<close>

theorem baseline_figures_exact:
  assumes D: "decimal_arith D"
    and calc: "calculate_financials D c contract budget vs acts = Inr f"
    and vs: "\<forall>v \<in> set vs. scaled 1 (m_amount (vd_cost v)) \<and> scaled 1 (m_amount (vd_sell v))"
      "length vs < 100000"
    and base: "scaled 1 (m_amount contract)" "scaled 1 (m_amount budget)"
      "scaled 1 (m_amount (bf_actual f))"
      "\<forall>m. Option.bind acts ac_forecast = Some m \<longrightarrow> scaled 1 (m_amount m)"
  shows "m_amount (bf_current_budget f) = m_amount budget + cost_sum (approved_only vs) \<and>
    m_amount (bf_contract f) = m_amount contract + sell_sum (approved_only vs) \<and>
    m_amount (bf_eac f) = m_amount (bf_actual f) + m_amount (bf_forecast f) \<and>
    m_amount (bf_vac f) = m_amount (bf_current_budget f) - m_amount (bf_eac f) \<and>
    m_amount (bf_scenario_eac f) = m_amount (bf_eac f) + cost_sum (pending_only vs) \<and>
    (Option.bind acts ac_forecast = None \<longrightarrow> m_amount (bf_forecast f) =
       max 0 (m_amount (bf_current_budget f) - m_amount (bf_actual f)))"
proof -
  let ?n = "length vs" and ?cur = "m_amount (bf_current_budget f)" and ?act = "m_amount (bf_actual f)"
  have few: "?n < 1000000" using vs(2) by simp
  note sums = variation_sums_exact [OF D vs(1), of 0 0 0 0 0, simplified, OF few]
  note e = calculate_financials_Inr [OF calc conjunct1 [OF sums]]
  note sc = sums [THEN conjunct2]
  have cur: "?cur = m_amount budget + cost_sum (approved_only vs)" "scaled (1 + ?n) ?cur"
    using e(1) exact_step(1) [OF D base(2), of ?n] sc few vs(2) by simp_all
  have con: "m_amount (bf_contract f) = m_amount contract + sell_sum (approved_only vs)"
    using e(2) exact_step(1) [OF D base(1), of ?n] sc few vs(2) by simp
  have left: "dp_round D (?cur - ?act) = ?cur - ?act" "scaled (?n + 2) (?cur - ?act)"
    using exact_step(2) [OF D cur(2) base(3)] vs(2) by simp_all
  have fc: "scaled (?n + 2) (m_amount (bf_forecast f)) \<and> (Option.bind acts ac_forecast = None \<longrightarrow>
      m_amount (bf_forecast f) = max 0 (?cur - ?act))"
  proof (cases "Option.bind acts ac_forecast")
    case None
    then show ?thesis using e(4) left by (simp add: given_def max_def)
  next
    case (Some m)
    then have "scaled 1 (m_amount (bf_forecast f))" using e(4) base(4) by (simp add: given_def)
    then show ?thesis using Some by (auto intro: scaled_mono)
  qed
  have eac: "m_amount (bf_eac f) = ?act + m_amount (bf_forecast f)" "scaled (?n + 3) (m_amount (bf_eac f))"
    using e(5) exact_step(1) [OF D base(3) conjunct1 [OF fc]] vs(2) by (simp_all add: numeral_3_eq_3)
  have vac: "m_amount (bf_vac f) = ?cur - m_amount (bf_eac f)"
    using e(6) exact_step(2) [OF D cur(2) eac(2)] vs(2) by simp
  have scen: "m_amount (bf_scenario_eac f) = m_amount (bf_eac f) + cost_sum (pending_only vs)"
    using e(9) exact_step(1) [OF D eac(2), of ?n] sc few vs(2) by simp
  from cur(1) con eac(1) vac scen fc show ?thesis by blast
qed

text \<open>
  One variation moved through its life cycle is never counted twice. Before the client
  approves it, it shows only in the exposure scenario; from the approval on, the estimate at
  completion is the baseline budget plus its cost whether the cost is forecast, committed or
  posted, the current budget does not move again, and no exposure is left.
\<close>

theorem lifecycle_counts_once:
  assumes D: "decimal_arith D" and sim: "simulate_cost_lifecycle D contract budget cost sell = Inr l"
    and rec: "scaled 1 (m_amount budget)" "scaled 1 (m_amount cost)" "scaled 1 (m_amount sell)"
      "scaled 1 (m_amount contract)"
  shows "let total = m_amount budget + m_amount cost in
    m_amount (bf_eac (lc_pending l)) = m_amount budget \<and>
    m_amount (bf_current_budget (lc_pending l)) = m_amount budget \<and>
    m_amount (bf_scenario_eac (lc_pending l)) = total \<and>
    (\<forall>f \<in> {lc_approved l, lc_committed l, lc_actual l}.
       m_amount (bf_eac f) = total \<and> m_amount (bf_current_budget f) = total \<and>
       m_amount (bf_scenario_eac f) = total \<and> m_amount (bf_vac f) = 0 \<and>
       m_amount (bf_pending_cost f) = 0)"
proof -
  let ?v1 = "lifecycle_variation cost sell"
  let ?v2 = "?v1\<lparr>vd_status := VarClientApproved\<rparr>" and ?c = "m_currency budget"
  let ?acts = "\<lambda>committed actual etc. Some \<lparr>ac_committed = Some committed, ac_actual = Some actual,
      ac_forecast = Some etc\<rparr>"
  note step = exact_step(1) [OF D]
  from sim obtain raised where raised: "money_plus D budget cost = Inr raised"
    and s1: "calculate_financials D ?c contract budget [?v1]
      (?acts (mk_money 0 ?c) (mk_money 0 ?c) budget) = Inr (lc_pending l)"
    and s2: "calculate_financials D ?c contract budget [?v2]
      (?acts (mk_money 0 ?c) (mk_money 0 ?c) raised) = Inr (lc_approved l)"
    and s3: "calculate_financials D ?c contract budget [?v2]
      (?acts cost (mk_money 0 ?c) raised) = Inr (lc_committed l)"
    and s4: "calculate_financials D ?c contract budget [?v2]
      (?acts (mk_money 0 ?c) cost budget) = Inr (lc_actual l)"
    unfolding simulate_cost_lifecycle_def Let_def by (simp only: bind_res_Inr_conv) auto
  have r: "m_amount raised = m_amount budget + m_amount cost" "scaled 2 (m_amount raised)"
    using raised step [OF rec(1,2)] by (auto simp: guard_simps numeral_2_eq_2)
  have f1: "fold (add_variation D) [?v1] (0, 0, 0, 0) = (m_amount cost, m_amount sell, 0, 0)"
    using step [OF scaled_zero [of 0] rec(2)] step [OF scaled_zero [of 0] rec(3)]
    by (simp add: add_variation_def lifecycle_variation_def is_pending_def)
  have f2: "fold (add_variation D) [?v2] (0, 0, 0, 0) = (0, 0, m_amount cost, m_amount sell)"
    using step [OF scaled_zero [of 0] rec(2)] step [OF scaled_zero [of 0] rec(3)]
    by (simp add: add_variation_def lifecycle_variation_def is_pending_def)
  have sums: "dp_round D (m_amount budget + m_amount cost) = m_amount budget + m_amount cost"
    "dp_round D (m_amount cost + m_amount budget) = m_amount cost + m_amount budget"
    "dp_round D (m_amount budget) = m_amount budget" "dp_round D 0 = 0"
    using step [OF rec(1,2)] step [OF rec(2,1)] step [OF rec(1) scaled_zero [of 0]]
      step [OF scaled_zero [of 0] scaled_zero [of 0]] by simp_all
  note e1 = calculate_financials_Inr [OF s1 f1, simplified given_def]
  note e2 = calculate_financials_Inr [OF s2 f2, simplified given_def]
  note e3 = calculate_financials_Inr [OF s3 f2, simplified given_def]
  note e4 = calculate_financials_Inr [OF s4 f2, simplified given_def]
  show ?thesis using e1 e2 e3 e4 r sums by (simp add: Let_def add.commute)
qed

text \<open>
  An approval authorises an execution exactly when the content hashes to the approved
  hash, the caller presents that hash, and the approval is active; otherwise the code throws,
  and a changed content is reported before a wrong hash, a wrong hash before an inactive
  approval.
\<close>

theorem execution_needs_current_hash:
  assumes "compute_content_hash H d = Inr h"
  shows "validate_execution_authority H d snap supplied =
    (if h \<noteq> as_hash snap then Inl ExecutionDeniedSuperseded
     else if supplied \<noteq> as_hash snap then Inl ExecutionDeniedHashMismatch
     else if as_status snap \<noteq> ApprovalActive then Inl ExecutionDeniedInactive
     else Inr ())"
  using assms by (simp add: validate_execution_authority_def evaluate_change_against_approval_def)

text \<open>
  What the hash does not cover. Two contents with the same top-level keys that differ
  only under nested keys outside the list of the top-level keys (a line item's quantity, an
  amount inside a supplier object) have the same content hash, so an approval of the one
  authorises the execution of the other.
\<close>

theorem nested_change_keeps_authority:
  assumes "map fst kvs = map fst kvs'"
    and "visible (map fst kvs) (JObj kvs) = visible (map fst kvs) (JObj kvs')"
  shows "validate_execution_authority H (JObj kvs) snap supplied =
    validate_execution_authority H (JObj kvs') snap supplied"
  by (simp add: validate_execution_authority_def evaluate_change_against_approval_def
      compute_content_hash_def safe_sha256_def same_visible_same_text [OF assms])

text \<open>The sums read only the amounts of the variations, not their currencies.\<close>

lemma variation_currency_unread:
  "calculate_financials D c contract budget
     (map (\<lambda>v. v\<lparr>vd_cost := (vd_cost v)\<lparr>m_currency := x\<rparr>\<rparr>) vs) acts =
   calculate_financials D c contract budget vs acts"
proof -
  have "fold (add_variation D) (map (\<lambda>v. v\<lparr>vd_cost := (vd_cost v)\<lparr>m_currency := x\<rparr>\<rparr>) vs) acc =
      fold (add_variation D) vs acc" for acc
    by (induction vs arbitrary: acc) (simp_all add: add_variation_def split: prod.split)
  moreover have "project_of (map (\<lambda>v. v\<lparr>vd_cost := (vd_cost v)\<lparr>m_currency := x\<rparr>\<rparr>) vs) = project_of vs"
    by (cases vs) (simp_all add: project_of_def)
  ultimately show ?thesis by (simp add: calculate_financials_def)
qed

section \<open>Witnesses\<close>

definition example_variations :: "variation list" where
  "example_variations = [lifecycle_variation (mk_money 50000 ''QAR'') (mk_money 75000 ''QAR''),
     (lifecycle_variation (mk_money 20000 ''QAR'') (mk_money 30000 ''QAR''))\<lparr>vd_status := VarClientApproved\<rparr>]"

lemma example_variations_calculate:
  "\<exists>f. calculate_financials decimal24 ''QAR'' (mk_money 1000000 ''QAR'') (mk_money 800000 ''QAR'')
     example_variations None = Inr f \<and> bf_actual f = mk_money 0 ''QAR''"
  by (simp add: calculate_financials_def Let_def example_variations_def lifecycle_variation_def add_variation_def
      is_pending_def money_plus_def money_minus_def assert_same_currency_def)

theorem pending_never_in_baseline_witness:
  "\<exists>f g. calculate_financials decimal24 ''QAR'' (mk_money 1000000 ''QAR'') (mk_money 800000 ''QAR'')
     example_variations None = Inr f \<and>
   calculate_financials decimal24 ''QAR'' (mk_money 1000000 ''QAR'') (mk_money 800000 ''QAR'')
     (approved_only example_variations) None = Inr g \<and> bf_eac g = bf_eac f"
  using example_variations_calculate pending_never_in_baseline by blast

theorem baseline_figures_exact_witness:
  "\<exists>f. calculate_financials decimal24 ''QAR'' (mk_money 1000000 ''QAR'') (mk_money 800000 ''QAR'')
     example_variations None = Inr f \<and> m_amount (bf_current_budget f) = 820000 \<and>
     m_amount (bf_scenario_eac f) = m_amount (bf_eac f) + 50000"
proof -
  obtain f where f: "calculate_financials decimal24 ''QAR'' (mk_money 1000000 ''QAR'')
      (mk_money 800000 ''QAR'') example_variations None = Inr f" "bf_actual f = mk_money 0 ''QAR''"
    using example_variations_calculate by blast
  have "\<forall>v \<in> set example_variations. scaled 1 (m_amount (vd_cost v)) \<and> scaled 1 (m_amount (vd_sell v))"
    by (simp add: example_variations_def lifecycle_variation_def)
  from baseline_figures_exact [OF decimal24_arith f(1) this] f show ?thesis
    by (simp add: example_variations_def lifecycle_variation_def approved_only_def pending_only_def
        cost_sum_def sell_sum_def is_pending_def)
qed

theorem lifecycle_counts_once_witness:
  "\<exists>l. simulate_cost_lifecycle decimal24 (mk_money 1000000 ''QAR'') (mk_money 800000 ''QAR'')
     (mk_money 50000 ''QAR'') (mk_money 75000 ''QAR'') = Inr l \<and>
     m_amount (bf_eac (lc_actual l)) = 850000 \<and> m_amount (bf_eac (lc_pending l)) = 800000"
proof -
  have "\<exists>l. simulate_cost_lifecycle decimal24 (mk_money 1000000 ''QAR'') (mk_money 800000 ''QAR'')
     (mk_money 50000 ''QAR'') (mk_money 75000 ''QAR'') = Inr l"
    by (simp add: simulate_cost_lifecycle_def Let_def calculate_financials_def lifecycle_variation_def
        add_variation_def is_pending_def money_plus_def money_minus_def assert_same_currency_def)
  then obtain l where l: "simulate_cost_lifecycle decimal24 (mk_money 1000000 ''QAR'') (mk_money 800000 ''QAR'')
     (mk_money 50000 ''QAR'') (mk_money 75000 ''QAR'') = Inr l" by blast
  from lifecycle_counts_once [OF decimal24_arith l] l show ?thesis by (simp add: Let_def)
qed

text \<open>An engine that prints a number as the integer it is and whose \<open>require\<close> is not there.\<close>

definition example_host :: js_host where
  "example_host = \<lparr>jh_num = (\<lambda>x. int_str \<lfloor>x\<rfloor>), jh_sha256 = None\<rparr>"

definition example_order :: "rat \<Rightarrow> json" where
  "example_order q = JObj [(''id'', JStr ''PO-1''), (''line'', JObj [(''quantity'', JNum q)])]"

definition example_approval :: "string \<Rightarrow> approved_snapshot" where
  "example_approval h = \<lparr>as_target = ''PO-1'', as_type = TargetPurchaseOrder, as_hash = h, as_approved_at = 0,
     as_approver = ''user-1'', as_status = ApprovalActive\<rparr>"

theorem execution_needs_current_hash_witness:
  "\<exists>h. compute_content_hash example_host (example_order 1) = Inr h \<and>
     validate_execution_authority example_host (example_order 1) (example_approval h) h = Inr ()"
proof -
  have "\<exists>s. content_text example_host (example_order 1) = Some s"
    by (simp add: content_text_def example_order_def sorted_keys_def Let_def)
  then obtain h where h: "compute_content_hash example_host (example_order 1) = Inr h"
    by (auto simp: compute_content_hash_def safe_sha256_def)
  from execution_needs_current_hash [OF h] h show ?thesis by (auto simp: example_approval_def)
qed

theorem nested_change_keeps_authority_witness:
  "example_order 1 \<noteq> example_order 1000 \<and>
   (\<forall>h. validate_execution_authority example_host (example_order 1) (example_approval h) h =
     validate_execution_authority example_host (example_order 1000) (example_approval h) h)"
  using nested_change_keeps_authority [of "[(''id'', JStr ''PO-1''), (''line'', JObj [(''quantity'', JNum 1)])]"
      "[(''id'', JStr ''PO-1''), (''line'', JObj [(''quantity'', JNum 1000)])]" example_host]
  by (simp add: example_order_def)

end
