(* ===== verification/Policy_Engine.thy ===== *)
theory Policy_Engine
  imports Crypto_Util
begin

text \<open>
  \<open>packages/policy/src\<close>: the rule language of \<open>types.ts\<close> with its three-valued evaluation
  (class \<open>PolicyEvaluator\<close> of \<open>evaluator.ts\<close>) and the compiler of rules into hashed snapshots
  (class \<open>PolicyCompiler\<close> of \<open>compiler.ts\<close>). A fact is a JSON value. How the engine prints
  a number and reads a numeral are arguments, as is the collation of \<open>localeCompare\<close>. The
  properties an object inherits from its prototype are not modelled: a path reads own keys,
  array indices and \<open>length\<close>.
\<close>

section \<open>Three truth values\<close>

datatype tri_state = TFalse | TUnknown | TTrue

instantiation tri_state :: linorder
begin

fun tri_rank :: "tri_state \<Rightarrow> nat" where
  "tri_rank TFalse = 0"
| "tri_rank TUnknown = 1"
| "tri_rank TTrue = 2"

definition less_eq_tri_state :: "tri_state \<Rightarrow> tri_state \<Rightarrow> bool" where
  "less_eq_tri_state s t \<longleftrightarrow> tri_rank s \<le> tri_rank t"

definition less_tri_state :: "tri_state \<Rightarrow> tri_state \<Rightarrow> bool" where
  "less_tri_state s t \<longleftrightarrow> tri_rank s < tri_rank t"

instance
proof
  fix s t :: tri_state
  assume "s \<le> t" and "t \<le> s"
  then show "s = t" by (cases s; cases t) (simp_all add: less_eq_tri_state_def)
qed (auto simp: less_eq_tri_state_def less_tri_state_def)

end

fun tri_not :: "tri_state \<Rightarrow> tri_state" where
  "tri_not TTrue = TFalse"
| "tri_not TUnknown = TUnknown"
| "tri_not TFalse = TTrue"

definition tri_of :: "bool \<Rightarrow> tri_state" where
  "tri_of b = (if b then TTrue else TFalse)"

section \<open>Values of the language\<close>

text \<open>
  \<open>eng_print\<close> is \<open>Number::toString\<close>; \<open>eng_number\<close> reads a string as \<open>Number(s)\<close> does, \<open>None\<close>
  for \<open>NaN\<close>.
\<close>

record js_engine =
  eng_print :: "rat \<Rightarrow> string"
  eng_number :: "string \<Rightarrow> rat option"

definition truthy :: "json \<Rightarrow> bool" where
  "truthy v = (case v of JUndef \<Rightarrow> False | JNull \<Rightarrow> False | JBool b \<Rightarrow> b | JNum x \<Rightarrow> x \<noteq> 0
     | JStr s \<Rightarrow> s \<noteq> [] | JArr _ \<Rightarrow> True | JObj _ \<Rightarrow> True)"

definition is_reference :: "json \<Rightarrow> bool" where
  "is_reference v = (case v of JArr _ \<Rightarrow> True | JObj _ \<Rightarrow> True | _ \<Rightarrow> False)"

text \<open>\<open>v[p]\<close> for a value that is neither \<open>null\<close> nor \<open>undefined\<close>.\<close>

definition js_get :: "json \<Rightarrow> string \<Rightarrow> json" where
  "js_get v p = (case v of
       JObj kvs \<Rightarrow> (case map_of kvs p of Some w \<Rightarrow> w | None \<Rightarrow> JUndef)
     | JArr xs \<Rightarrow> (if p = ''length'' then JNum (of_nat (length xs)) else
         (case List.find (\<lambda>i. nat_str i = p) [0..<length xs] of Some i \<Rightarrow> xs ! i | None \<Rightarrow> JUndef))
     | JStr s \<Rightarrow> (if p = ''length'' then JNum (of_nat (length s)) else
         (case List.find (\<lambda>i. nat_str i = p) [0..<length s] of Some i \<Rightarrow> JStr [s ! i] | None \<Rightarrow> JUndef))
     | _ \<Rightarrow> JUndef)"

text \<open>\<open>path.split('.')\<close>: the parts between the dots, at least one.\<close>

fun split_dots :: "string \<Rightarrow> string list" where
  "split_dots [] = [[]]"
| "split_dots (c # cs) = (if c = CHR ''.'' then [] # split_dots cs else
     (case split_dots cs of [] \<Rightarrow> [[c]] | p # ps \<Rightarrow> (c # p) # ps))"

fun walk_path :: "json \<Rightarrow> string list \<Rightarrow> json" where
  "walk_path v [] = v"
| "walk_path v (p # ps) = (if v = JUndef \<or> v = JNull then JUndef else walk_path (js_get v p) ps)"

definition resolve_path :: "json \<Rightarrow> string \<Rightarrow> json" where
  "resolve_path v path = (if \<not> truthy v \<or> \<not> is_reference v then JUndef else walk_path v (split_dots path))"

text \<open>The abstract relational comparison \<open>a < b\<close>; \<open>None\<close> when an operand is not a number.\<close>

fun to_text :: "js_engine \<Rightarrow> json \<Rightarrow> string" where
  "to_text E JUndef = ''undefined''"
| "to_text E JNull = ''null''"
| "to_text E (JBool b) = (if b then ''true'' else ''false'')"
| "to_text E (JNum x) = eng_print E x"
| "to_text E (JStr s) = s"
| "to_text E (JArr xs) = join_with '','' (map (\<lambda>x. if x = JUndef \<or> x = JNull then [] else to_text E x) xs)"
| "to_text E (JObj kvs) = ''[object Object]''"

definition to_primitive :: "js_engine \<Rightarrow> json \<Rightarrow> json" where
  "to_primitive E v = (if is_reference v then JStr (to_text E v) else v)"

definition to_number :: "js_engine \<Rightarrow> json \<Rightarrow> rat option" where
  "to_number E v = (case v of JUndef \<Rightarrow> None | JNull \<Rightarrow> Some 0 | JBool b \<Rightarrow> Some (if b then 1 else 0)
     | JNum x \<Rightarrow> Some x | JStr s \<Rightarrow> eng_number E s | _ \<Rightarrow> None)"

definition js_less :: "js_engine \<Rightarrow> json \<Rightarrow> json \<Rightarrow> bool option" where
  "js_less E a b = (case (to_primitive E a, to_primitive E b) of
       (JStr s, JStr t) \<Rightarrow> Some (s < t)
     | (x, y) \<Rightarrow> (case (to_number E x, to_number E y) of
         (Some m, Some n) \<Rightarrow> Some (m < n) | _ \<Rightarrow> None))"

section \<open>Expressions\<close>

datatype cmp_op = OpEq | OpNe | OpGt | OpGte | OpLt | OpLte | OpIn

datatype policy_expr =
    PLit json
  | PFact string
  | PCmp cmp_op policy_expr policy_expr
  | PAll "policy_expr list"
  | PAny "policy_expr list"
  | PNot policy_expr
  | PExists string
  | PEvidence string
  | PAuthority string bool

record actor =
  act_user :: string
  act_org :: string
  act_roles :: "string list"
  act_revoked :: bool

record signoff =
  so_user :: string
  so_role :: string
  so_at :: string

record eval_context =
  ec_facts :: "(string \<times> json) list"
  ec_actor :: "actor option"
  ec_signoffs :: "signoff list"

definition fact_value :: "eval_context \<Rightarrow> string \<Rightarrow> json" where
  "fact_value ctx path = resolve_path (JObj (ec_facts ctx)) path"

text \<open>An operand that is neither a fact nor a literal has no \<open>value\<close>.\<close>

definition operand :: "eval_context \<Rightarrow> policy_expr \<Rightarrow> json" where
  "operand ctx e = (case e of PFact p \<Rightarrow> fact_value ctx p | PLit v \<Rightarrow> v | _ \<Rightarrow> JUndef)"

text \<open>
  \<open>===\<close> on the operands: two arrays or objects are equal when they are one reference, which
  in a tree of facts means that both operands are the same path.
\<close>

definition strict_equal :: "eval_context \<Rightarrow> policy_expr \<Rightarrow> policy_expr \<Rightarrow> bool" where
  "strict_equal ctx l r = (let a = operand ctx l; b = operand ctx r in
     if is_reference a \<or> is_reference b
     then (case (l, r) of (PFact p, PFact q) \<Rightarrow> p = q | _ \<Rightarrow> False)
     else a = b)"

definition compare_operands ::
  "js_engine \<Rightarrow> eval_context \<Rightarrow> cmp_op \<Rightarrow> policy_expr \<Rightarrow> policy_expr \<Rightarrow> tri_state" where
  "compare_operands E ctx opr l r = (let a = operand ctx l; b = operand ctx r in
     if opr = OpIn then TUnknown
     else if a = JUndef \<or> b = JUndef then TUnknown
     else (case opr of
         OpEq \<Rightarrow> tri_of (strict_equal ctx l r)
       | OpNe \<Rightarrow> tri_not (tri_of (strict_equal ctx l r))
       | OpGt \<Rightarrow> tri_of (js_less E b a = Some True)
       | OpGte \<Rightarrow> tri_of (js_less E a b = Some False)
       | OpLt \<Rightarrow> tri_of (js_less E a b = Some True)
       | OpLte \<Rightarrow> tri_of (js_less E b a = Some False)
       | OpIn \<Rightarrow> TUnknown))"

text \<open>\<open>evidences.some(...)\<close>: reading a property of a missing element throws.\<close>

fun evidence_some :: "string \<Rightarrow> json list \<Rightarrow> bool res" where
  "evidence_some ty [] = Inr False"
| "evidence_some ty (x # xs) =
     (if x = JUndef \<or> x = JNull then Inl TypeErrorThrown
      else if js_get x ''type'' = JStr ty \<and> truthy (js_get x ''verified'') then Inr True
      else evidence_some ty xs)"

definition eval_evidence :: "eval_context \<Rightarrow> string \<Rightarrow> tri_state res" where
  "eval_evidence ctx ty = (let evidences = js_get (JObj (ec_facts ctx)) ''evidences'' in
     if \<not> truthy evidences then Inr TUnknown
     else (case evidences of
         JArr xs \<Rightarrow> bind_res (evidence_some ty xs) (\<lambda>found. Inr (tri_of found))
       | _ \<Rightarrow> Inl TypeErrorThrown))"

definition eval_authority :: "eval_context \<Rightarrow> string \<Rightarrow> bool \<Rightarrow> tri_state" where
  "eval_authority ctx role two =
     (if (case ec_actor ctx of Some a \<Rightarrow> act_revoked a | None \<Rightarrow> False) then TFalse
      else if two then tri_of (\<not> length (remdups (map so_user (ec_signoffs ctx))) < 2)
      else tri_of (role \<in> set (case ec_actor ctx of Some a \<Rightarrow> act_roles a | None \<Rightarrow> [])))"

text \<open>\<open>eval_all\<close> and \<open>eval_any\<close> are the loops over the conditions; the flag is \<open>hasUnknown\<close>.\<close>

fun evaluate :: "js_engine \<Rightarrow> eval_context \<Rightarrow> policy_expr \<Rightarrow> tri_state res"
  and eval_all :: "js_engine \<Rightarrow> eval_context \<Rightarrow> bool \<Rightarrow> policy_expr list \<Rightarrow> tri_state res"
  and eval_any :: "js_engine \<Rightarrow> eval_context \<Rightarrow> bool \<Rightarrow> policy_expr list \<Rightarrow> tri_state res" where
  "evaluate E ctx (PLit v) = Inr (tri_of (truthy v))"
| "evaluate E ctx (PFact p) = (let v = fact_value ctx p in
     Inr (if v = JUndef \<or> v = JNull then TUnknown else tri_of (truthy v)))"
| "evaluate E ctx (PExists p) = (let v = fact_value ctx p in Inr (tri_of (v \<noteq> JUndef \<and> v \<noteq> JNull)))"
| "evaluate E ctx (PEvidence ty) = eval_evidence ctx ty"
| "evaluate E ctx (PAuthority role two) = Inr (eval_authority ctx role two)"
| "evaluate E ctx (PCmp opr l r) = Inr (compare_operands E ctx opr l r)"
| "evaluate E ctx (PAll es) = eval_all E ctx False es"
| "evaluate E ctx (PAny es) = eval_any E ctx False es"
| "evaluate E ctx (PNot e) = bind_res (evaluate E ctx e) (\<lambda>t. Inr (tri_not t))"
| "eval_all E ctx u [] = Inr (if u then TUnknown else TTrue)"
| "eval_all E ctx u (e # es) = bind_res (evaluate E ctx e) (\<lambda>t.
     if t = TFalse then Inr TFalse else eval_all E ctx (u \<or> t = TUnknown) es)"
| "eval_any E ctx u [] = Inr (if u then TUnknown else TFalse)"
| "eval_any E ctx u (e # es) = bind_res (evaluate E ctx e) (\<lambda>t.
     if t = TTrue then Inr TTrue else eval_any E ctx (u \<or> t = TUnknown) es)"

section \<open>Rules and snapshots\<close>

datatype classification = UserConfirmed | ProposedDefault | RequiresLocalReview | VerifiedForScope
datatype authority_class = StandardPm | CommercialHead | TwoPersonIndependent | BoardGovernance
datatype when_false = RequireException | RejectFalse | WarnFalse
datatype when_unknown = RequestVerification | RejectUnknown | WarnUnknown

record rule_scope =
  rs_org :: "string option"
  rs_project :: "string option"
  rs_country :: "string option"

record policy_rule =
  pr_id :: string
  pr_version :: rat
  pr_class :: classification
  pr_scope :: rule_scope
  pr_trigger :: string
  pr_condition :: policy_expr
  pr_when_false :: when_false
  pr_when_unknown :: when_unknown
  pr_authority :: "authority_class option"
  pr_exception :: "string option"
  pr_source :: string

datatype next_action = RequestException | RequestVerificationAction | RejectedAction | ProceedAction

record rule_result =
  rr_id :: string
  rr_result :: tri_state
  rr_action :: next_action

definition evaluate_rule :: "js_engine \<Rightarrow> eval_context \<Rightarrow> policy_rule \<Rightarrow> rule_result res" where
  "evaluate_rule E ctx r = bind_res (evaluate E ctx (pr_condition r)) (\<lambda>t.
     Inr \<lparr>rr_id = pr_id r, rr_result = t, rr_action =
       (if t = TTrue then ProceedAction
        else if t = TUnknown
        then (if pr_when_unknown r = RequestVerification then RequestVerificationAction else RejectedAction)
        else (if pr_when_false r = RequireException then RequestException else RejectedAction))\<rparr>)"

record policy_snapshot =
  ps_id :: string
  ps_scope :: "(string \<times> json) list"
  ps_rules :: "policy_rule list"
  ps_compiler :: string
  ps_hash :: string
  ps_compiled_at :: string

datatype outcome = Passed | Failed | RequiresException | RequiresVerification

record policy_report =
  rp_snapshot :: string
  rp_hash :: string
  rp_outcome :: outcome
  rp_evaluations :: "rule_result list"

record snapshot_flags =
  sf_failure :: bool
  sf_exception :: bool
  sf_verification :: bool
  sf_evaluations :: "rule_result list"

definition record_result :: "snapshot_flags \<Rightarrow> rule_result \<Rightarrow> snapshot_flags" where
  "record_result s r = (let s' = s\<lparr>sf_evaluations := sf_evaluations s @ [r]\<rparr> in
     if rr_result r = TFalse
     then (if rr_action r = RequestException then s'\<lparr>sf_exception := True\<rparr> else s'\<lparr>sf_failure := True\<rparr>)
     else if rr_result r = TUnknown then s'\<lparr>sf_verification := True\<rparr>
     else s')"

definition evaluate_snapshot ::
  "js_engine \<Rightarrow> policy_snapshot \<Rightarrow> string \<Rightarrow> eval_context \<Rightarrow> policy_report res" where
  "evaluate_snapshot E snap trigger ctx =
     bind_res (fold_res (\<lambda>s r. bind_res (evaluate_rule E ctx r) (\<lambda>x. Inr (record_result s x)))
       \<lparr>sf_failure = False, sf_exception = False, sf_verification = False, sf_evaluations = []\<rparr>
       (filter (\<lambda>r. pr_trigger r = trigger) (ps_rules snap))) (\<lambda>s.
     Inr \<lparr>rp_snapshot = ps_id snap, rp_hash = ps_hash snap, rp_outcome =
       (if sf_failure s then Failed else if sf_exception s then RequiresException
        else if sf_verification s then RequiresVerification else Passed),
       rp_evaluations = sf_evaluations s\<rparr>)"

section \<open>Kleene semantics\<close>

text \<open>
  The meaning of an expression in the strong three-valued logic of Kleene: conjunction is
  the minimum, disjunction the maximum, negation the reversal of the order. An atom that
  throws is given the value unknown.
\<close>

fun kleene :: "js_engine \<Rightarrow> eval_context \<Rightarrow> policy_expr \<Rightarrow> tri_state" where
  "kleene E ctx (PLit v) = tri_of (truthy v)"
| "kleene E ctx (PFact p) = (if fact_value ctx p \<in> {JUndef, JNull} then TUnknown else tri_of (truthy (fact_value ctx p)))"
| "kleene E ctx (PExists p) = tri_of (fact_value ctx p \<notin> {JUndef, JNull})"
| "kleene E ctx (PEvidence ty) = (case eval_evidence ctx ty of Inl _ \<Rightarrow> TUnknown | Inr t \<Rightarrow> t)"
| "kleene E ctx (PAuthority role two) = eval_authority ctx role two"
| "kleene E ctx (PCmp opr l r) = compare_operands E ctx opr l r"
| "kleene E ctx (PAll es) = foldr min (map (kleene E ctx) es) TTrue"
| "kleene E ctx (PAny es) = foldr max (map (kleene E ctx) es) TFalse"
| "kleene E ctx (PNot e) = tri_not (kleene E ctx e)"

definition evidence_ok :: "eval_context \<Rightarrow> bool" where
  "evidence_ok ctx \<longleftrightarrow> (let v = js_get (JObj (ec_facts ctx)) ''evidences'' in
     \<not> truthy v \<or> (\<exists>xs. v = JArr xs \<and> JUndef \<notin> set xs \<and> JNull \<notin> set xs))"

lemma tri_cases_le [simp]:
  "TFalse \<le> t" "t \<le> TTrue" "min TFalse t = TFalse" "min t TFalse = TFalse" "min TTrue t = t" "min t TTrue = t"
  "max TTrue t = TTrue" "max t TTrue = TTrue" "max TFalse t = t" "max t TFalse = t"
  by (cases t; simp add: less_eq_tri_state_def min_def max_def)+

lemma tri_min_max_unknown:
  "min TUnknown t = (if t = TFalse then TFalse else TUnknown)"
  "max TUnknown t = (if t = TTrue then TTrue else TUnknown)"
  by (cases t; simp add: less_eq_tri_state_def min_def max_def)+

lemma tri_not_min: "tri_not (min s t) = max (tri_not s) (tri_not t)"
  by (cases s; cases t; simp add: less_eq_tri_state_def min_def max_def)

lemma tri_not_max: "tri_not (max s t) = min (tri_not s) (tri_not t)"
  by (cases s; cases t; simp add: less_eq_tri_state_def min_def max_def)

lemma evidence_some_ok: "JUndef \<notin> set xs \<Longrightarrow> JNull \<notin> set xs \<Longrightarrow> \<exists>b. evidence_some ty xs = Inr b"
  by (induction xs) auto

lemma eval_evidence_ok: "evidence_ok ctx \<Longrightarrow> \<exists>t. eval_evidence ctx ty = Inr t"
proof (cases "truthy (js_get (JObj (ec_facts ctx)) ''evidences'')")
  case True
  moreover assume "evidence_ok ctx"
  ultimately obtain xs where xs: "js_get (JObj (ec_facts ctx)) ''evidences'' = JArr xs"
    "JUndef \<notin> set xs" "JNull \<notin> set xs"
    unfolding evidence_ok_def Let_def by blast
  obtain b where "evidence_some ty xs = Inr b" using evidence_some_ok [OF xs(2,3)] by blast
  with True xs(1) show ?thesis by (simp add: eval_evidence_def Let_def)
qed (simp add: eval_evidence_def Let_def)

text \<open>The loops compute minimum and maximum, whatever flag they start with.\<close>

lemma loops_kleene:
  "evaluate E ctx e = Inr t \<Longrightarrow> t = kleene E ctx e"
  "eval_all E ctx u es = Inr t \<Longrightarrow> t = min (if u then TUnknown else TTrue) (kleene E ctx (PAll es))"
  "eval_any E ctx u es = Inr t \<Longrightarrow> t = max (if u then TUnknown else TFalse) (kleene E ctx (PAny es))"
proof (induction E ctx e and E ctx u es and E ctx u es arbitrary: t and t and t
    rule: evaluate_eval_all_eval_any.induct)
  case (11 E ctx u e es)
  from "11.prems" obtain s where s: "evaluate E ctx e = Inr s"
    and rest: "(if s = TFalse then Inr TFalse else eval_all E ctx (u \<or> s = TUnknown) es) = Inr t"
    by auto
  have k: "s = kleene E ctx e" by (rule "11.IH"(1) [OF s])
  show ?case
  proof (cases "s = TFalse")
    case True
    with rest k show ?thesis by simp
  next
    case False
    with rest have "eval_all E ctx (u \<or> s = TUnknown) es = Inr t" by simp
    from "11.IH"(2) [OF False this] False show ?thesis
      by (cases s) (simp_all add: k [symmetric] min.assoc [symmetric] tri_min_max_unknown)
  qed
next
  case (13 E ctx u e es)
  from "13.prems" obtain s where s: "evaluate E ctx e = Inr s"
    and rest: "(if s = TTrue then Inr TTrue else eval_any E ctx (u \<or> s = TUnknown) es) = Inr t"
    by auto
  have k: "s = kleene E ctx e" by (rule "13.IH"(1) [OF s])
  show ?case
  proof (cases "s = TTrue")
    case True
    with rest k show ?thesis by simp
  next
    case False
    with rest have "eval_any E ctx (u \<or> s = TUnknown) es = Inr t" by simp
    from "13.IH"(2) [OF False this] False show ?thesis
      by (cases s) (simp_all add: k [symmetric] max.assoc [symmetric] tri_min_max_unknown)
  qed
qed (auto simp: Let_def)

lemma loops_total:
  "evidence_ok ctx \<Longrightarrow> \<exists>t. evaluate E ctx e = Inr t"
  "evidence_ok ctx \<Longrightarrow> \<exists>t. eval_all E ctx u es = Inr t"
  "evidence_ok ctx \<Longrightarrow> \<exists>t. eval_any E ctx u es = Inr t"
proof (induction E ctx e and E ctx u es and E ctx u es rule: evaluate_eval_all_eval_any.induct)
  case (11 E ctx u e es)
  then obtain s where "evaluate E ctx e = Inr s" by blast
  with 11 show ?case by auto
next
  case (13 E ctx u e es)
  then obtain s where "evaluate E ctx e = Inr s" by blast
  with 13 show ?case by auto
qed (auto simp: Let_def eval_evidence_ok)

text \<open>
  C12: the evaluator computes strong Kleene logic. When the recorded evidence is a list
  without missing entries (or there is none), every expression evaluates without throwing
  to its Kleene value, the short-circuiting loops with their unknown flag being minimum and
  maximum; an unknown fact therefore never counts as true or false, and the laws of De Morgan
  hold for the code.
\<close>

theorem evaluate_is_kleene:
  assumes "evidence_ok ctx"
  shows "evaluate E ctx e = Inr (kleene E ctx e) \<and>
    evaluate E ctx (PNot (PAll es)) = evaluate E ctx (PAny (map PNot es)) \<and>
    evaluate E ctx (PNot (PAny es)) = evaluate E ctx (PAll (map PNot es))"
proof -
  have val: "evaluate E ctx x = Inr (kleene E ctx x)" for x
    using loops_total(1) [OF assms, of E x] loops_kleene(1) [of E ctx x] by auto
  have "tri_not (foldr min ts TTrue) = foldr max (map tri_not ts) TFalse" for ts
    by (induction ts) (simp_all add: tri_not_min)
  moreover have "tri_not (foldr max ts TFalse) = foldr min (map tri_not ts) TTrue" for ts
    by (induction ts) (simp_all add: tri_not_max)
  ultimately show ?thesis unfolding val by (simp add: comp_def)
qed

section \<open>Learning facts\<close>

text \<open>
  An expression is stable when it does not test the absence of a fact: no \<open>exists\<close> and no
  \<open>has_evidence\<close>. A context learns from another when every path that was defined keeps its
  value and the people stay the same.
\<close>

fun stable_expr :: "policy_expr \<Rightarrow> bool" where
  "stable_expr (PExists p) = False"
| "stable_expr (PEvidence ty) = False"
| "stable_expr (PAll es) = list_all stable_expr es"
| "stable_expr (PAny es) = list_all stable_expr es"
| "stable_expr (PNot e) = stable_expr e"
| "stable_expr _ = True"

definition learns :: "eval_context \<Rightarrow> eval_context \<Rightarrow> bool" where
  "learns ctx ctx' \<longleftrightarrow> (\<forall>p. fact_value ctx p \<noteq> JUndef \<and> fact_value ctx p \<noteq> JNull \<longrightarrow> fact_value ctx' p = fact_value ctx p) \<and>
     (\<forall>p. fact_value ctx p = JNull \<longrightarrow> fact_value ctx' p = JNull) \<and>
     ec_actor ctx' = ec_actor ctx \<and> ec_signoffs ctx' = ec_signoffs ctx"

text \<open>The information order: unknown may become anything.\<close>

definition refines :: "tri_state \<Rightarrow> tri_state \<Rightarrow> bool" where
  "refines s t \<longleftrightarrow> s = TUnknown \<or> t = s"

lemma refines_ops [intro]:
  "refines s t \<Longrightarrow> refines (tri_not s) (tri_not t)"
  "refines s t \<Longrightarrow> refines s' t' \<Longrightarrow> refines (min s s') (min t t')"
  "refines s t \<Longrightarrow> refines s' t' \<Longrightarrow> refines (max s s') (max t t')"
  by (cases s; cases t; simp add: refines_def;
      cases s'; cases t'; simp add: refines_def min_def max_def less_eq_tri_state_def)+

lemma operand_learns: "learns ctx ctx' \<Longrightarrow> operand ctx e \<noteq> JUndef \<Longrightarrow> operand ctx' e = operand ctx e"
  by (auto simp: operand_def learns_def split: policy_expr.splits)

lemma compare_learns:
  assumes "learns ctx ctx'"
  shows "refines (compare_operands E ctx opr l r) (compare_operands E ctx' opr l r)"
proof (cases "opr = OpIn \<or> operand ctx l = JUndef \<or> operand ctx r = JUndef")
  case True
  then show ?thesis by (auto simp: compare_operands_def refines_def Let_def)
next
  case False
  with operand_learns [OF assms, of l] operand_learns [OF assms, of r]
  have "operand ctx' l = operand ctx l" "operand ctx' r = operand ctx r" by auto
  moreover from this have "strict_equal ctx' l r = strict_equal ctx l r" by (simp add: strict_equal_def)
  ultimately show ?thesis by (cases opr) (simp_all add: compare_operands_def refines_def Let_def)
qed

lemma kleene_learns: "learns ctx ctx' \<Longrightarrow> stable_expr e \<Longrightarrow> refines (kleene E ctx e) (kleene E ctx' e)"
proof (induction E ctx e rule: kleene.induct)
  case (7 E ctx es)
  then have "\<forall>e \<in> set es. refines (kleene E ctx e) (kleene E ctx' e)" by (auto simp: list_all_iff)
  then show ?case by (induction es) (auto simp: refines_def [of TTrue])
next
  case (8 E ctx es)
  then have "\<forall>e \<in> set es. refines (kleene E ctx e) (kleene E ctx' e)" by (auto simp: list_all_iff)
  then show ?case by (induction es) (auto simp: refines_def [of TFalse])
qed (auto simp: refines_def learns_def eval_authority_def compare_learns [unfolded learns_def refines_def]
    dest: compare_learns [unfolded learns_def refines_def])

lemma stable_evaluates: "stable_expr e \<Longrightarrow> evaluate E ctx e = Inr (kleene E ctx e)"
proof -
  have "stable_expr e \<Longrightarrow> \<exists>t. evaluate E ctx e = Inr t" "list_all stable_expr es \<Longrightarrow> \<exists>t. eval_all E ctx u es = Inr t"
    "list_all stable_expr es \<Longrightarrow> \<exists>t. eval_any E ctx u es = Inr t" for u es
  proof (induction E ctx e and E ctx u es and E ctx u es rule: evaluate_eval_all_eval_any.induct)
    case (11 E ctx u e es)
    then obtain s where "evaluate E ctx e = Inr s" by auto
    with 11 show ?case by auto
  next
    case (13 E ctx u e es)
    then obtain s where "evaluate E ctx e = Inr s" by auto
    with 13 show ?case by auto
  qed (auto simp: Let_def)
  moreover assume "stable_expr e"
  ultimately show ?thesis using loops_kleene(1) by metis
qed

text \<open>
  A verdict survives new information. For a condition without \<open>exists\<close> and
  \<open>has_evidence\<close>, once the evaluator says true or false, supplying facts that were missing
  never changes the answer, so a rule cannot pass first and fail when it is completed.
\<close>

theorem learning_keeps_verdict:
  assumes "learns ctx ctx'" and "stable_expr e" and "evaluate E ctx e = Inr t" and "t \<noteq> TUnknown"
  shows "evaluate E ctx' e = Inr t"
  using kleene_learns [OF assms(1,2), of E] assms(3,4)
  by (auto simp: stable_evaluates [OF assms(2)] refines_def)

section \<open>Snapshots\<close>

lemma evaluate_rule_Inr:
  "evaluate_rule E ctx r = Inr x \<Longrightarrow> evaluate E ctx (pr_condition r) = Inr (rr_result x) \<and> rr_id x = pr_id r \<and>
     (rr_result x = TFalse \<longrightarrow> (rr_action x = RequestException \<longleftrightarrow> pr_when_false r = RequireException)) \<and>
     (rr_action x = ProceedAction \<longleftrightarrow> rr_result x = TTrue)"
  by (auto simp: evaluate_rule_def split: if_splits)

definition verdict :: "js_engine \<Rightarrow> eval_context \<Rightarrow> policy_rule \<Rightarrow> tri_state" where
  "verdict E ctx r = kleene E ctx (pr_condition r)"

text \<open>What the loop over the applicable rules has recorded.\<close>

lemma snapshot_loop:
  assumes "fold_res (\<lambda>s r. bind_res (evaluate_rule E ctx r) (\<lambda>x. Inr (record_result s x))) s rs = Inr s'"
  shows "(sf_failure s' \<longleftrightarrow> sf_failure s \<or> (\<exists>r \<in> set rs. verdict E ctx r = TFalse \<and> pr_when_false r \<noteq> RequireException)) \<and>
    (sf_exception s' \<longleftrightarrow> sf_exception s \<or> (\<exists>r \<in> set rs. verdict E ctx r = TFalse \<and> pr_when_false r = RequireException)) \<and>
    (sf_verification s' \<longleftrightarrow> sf_verification s \<or> (\<exists>r \<in> set rs. verdict E ctx r = TUnknown)) \<and>
    (\<exists>xs. sf_evaluations s' = sf_evaluations s @ xs \<and> list_all2 (\<lambda>r x. evaluate_rule E ctx r = Inr x) rs xs)"
  using assms
proof (induction rs arbitrary: s)
  case Nil
  then show ?case by simp
next
  case (Cons r rs)
  then obtain x where x: "evaluate_rule E ctx r = Inr x"
    and rest: "fold_res (\<lambda>s r. bind_res (evaluate_rule E ctx r) (\<lambda>x. Inr (record_result s x)))
      (record_result s x) rs = Inr s'" by auto
  note e = evaluate_rule_Inr [OF x]
  have v: "verdict E ctx r = rr_result x"
    using loops_kleene(1) [OF conjunct1 [OF e]] by (simp add: verdict_def)
  obtain xs where xs: "sf_evaluations s' = sf_evaluations (record_result s x) @ xs"
    "list_all2 (\<lambda>r x. evaluate_rule E ctx r = Inr x) rs xs" using Cons.IH [OF rest] by blast
  have evs: "\<exists>ys. sf_evaluations s' = sf_evaluations s @ ys \<and>
      list_all2 (\<lambda>r x. evaluate_rule E ctx r = Inr x) (r # rs) ys"
    using xs x by (intro exI [of _ "x # xs"]) (simp add: record_result_def Let_def)
  show ?case
    by (cases "rr_result x") (use Cons.IH [OF rest] e v evs in \<open>auto simp: record_result_def Let_def\<close>)
qed

text \<open>
  The outcome of a snapshot. An action passes exactly when every rule of its trigger is
  true; it fails exactly when some rule is false that no exception can cover; it needs an
  exception when the only false rules are those an exception can cover; and one result is
  reported per applicable rule, in the order of the snapshot.
\<close>

theorem snapshot_outcome:
  assumes "evaluate_snapshot E snap trigger ctx = Inr rep"
  shows "let rules = filter (\<lambda>r. pr_trigger r = trigger) (ps_rules snap) in
    (rp_outcome rep = Passed \<longleftrightarrow> (\<forall>r \<in> set rules. evaluate E ctx (pr_condition r) = Inr TTrue)) \<and>
    (rp_outcome rep = Failed \<longleftrightarrow> (\<exists>r \<in> set rules. evaluate E ctx (pr_condition r) = Inr TFalse \<and>
       pr_when_false r \<noteq> RequireException)) \<and>
    (rp_outcome rep = RequiresException \<longleftrightarrow> rp_outcome rep \<noteq> Failed \<and>
       (\<exists>r \<in> set rules. evaluate E ctx (pr_condition r) = Inr TFalse)) \<and>
    list_all2 (\<lambda>r x. evaluate_rule E ctx r = Inr x) rules (rp_evaluations rep)"
proof -
  let ?rules = "filter (\<lambda>r. pr_trigger r = trigger) (ps_rules snap)"
  let ?s0 = "\<lparr>sf_failure = False, sf_exception = False, sf_verification = False, sf_evaluations = []\<rparr>"
  from assms obtain s where run: "fold_res (\<lambda>s r. bind_res (evaluate_rule E ctx r)
      (\<lambda>x. Inr (record_result s x))) ?s0 ?rules = Inr s"
    and out: "rp_outcome rep = (if sf_failure s then Failed else if sf_exception s then RequiresException
        else if sf_verification s then RequiresVerification else Passed)"
    and evs: "rp_evaluations rep = sf_evaluations s"
    by (auto simp: evaluate_snapshot_def)
  note loop = snapshot_loop [OF run]
  then have l2: "list_all2 (\<lambda>r x. evaluate_rule E ctx r = Inr x) ?rules (rp_evaluations rep)"
    by (auto simp: evs)
  have ev: "evaluate E ctx (pr_condition r) = Inr (verdict E ctx r)" if "r \<in> set ?rules" for r
  proof -
    from that l2 obtain x where "evaluate_rule E ctx r = Inr x"
      unfolding list_all2_conv_all_nth in_set_conv_nth by blast
    from conjunct1 [OF evaluate_rule_Inr [OF this]] show ?thesis
      using loops_kleene(1) [of E ctx "pr_condition r"] by (simp add: verdict_def)
  qed
  have ev': "evaluate E ctx (pr_condition r) = Inr t \<longleftrightarrow> verdict E ctx r = t" if "r \<in> set ?rules" for r t
    using ev [OF that] by simp
  have not_true: "verdict E ctx r \<noteq> TTrue \<longleftrightarrow> verdict E ctx r = TFalse \<or> verdict E ctx r = TUnknown" for r
    by (cases "verdict E ctx r") simp_all
  have f: "(\<exists>r \<in> set ?rules. evaluate E ctx (pr_condition r) = Inr TFalse \<and> pr_when_false r \<noteq> RequireException)
      \<longleftrightarrow> sf_failure s" using loop ev' by simp
  have x: "(\<exists>r \<in> set ?rules. evaluate E ctx (pr_condition r) = Inr TFalse) \<longleftrightarrow> sf_failure s \<or> sf_exception s"
    using loop ev' by simp blast
  have p: "(\<forall>r \<in> set ?rules. evaluate E ctx (pr_condition r) = Inr TTrue) \<longleftrightarrow>
      \<not> sf_failure s \<and> \<not> sf_exception s \<and> \<not> sf_verification s"
    using loop ev' not_true by simp blast
  show ?thesis unfolding Let_def f x p using l2 by (simp add: out)
qed

text \<open>
  The two-person rule. An authority that requires distinct actors is granted exactly
  when the current actor is not revoked and two sign-offs come from different users, so one
  person signing in two roles never satisfies it; the required role plays no part in it.
\<close>

theorem two_person_rule:
  "evaluate E ctx (PAuthority role True) = Inr TTrue \<longleftrightarrow>
     \<not> (\<exists>a. ec_actor ctx = Some a \<and> act_revoked a) \<and>
     (\<exists>s t. s \<in> set (ec_signoffs ctx) \<and> t \<in> set (ec_signoffs ctx) \<and> so_user s \<noteq> so_user t)"
proof -
  let ?us = "map so_user (ec_signoffs ctx)"
  have fewer: "length (remdups ?us) < 2 \<longleftrightarrow> (\<forall>x \<in> set ?us. \<forall>y \<in> set ?us. x = y)"
    using card_le_Suc0_iff_eq [of "set ?us"]
    by (simp add: length_remdups_card_conv numeral_2_eq_2 less_Suc_eq_le)
  have two: "\<not> length (remdups ?us) < 2 \<longleftrightarrow>
      (\<exists>s t. s \<in> set (ec_signoffs ctx) \<and> t \<in> set (ec_signoffs ctx) \<and> so_user s \<noteq> so_user t)"
    unfolding fewer by auto
  have val: "eval_authority ctx role True = TTrue \<longleftrightarrow> \<not> (\<exists>a. ec_actor ctx = Some a \<and> act_revoked a) \<and>
      \<not> length (remdups ?us) < 2"
    by (cases "ec_actor ctx") (simp_all add: eval_authority_def tri_of_def)
  show ?thesis unfolding evaluate.simps(5) sum.inject val two ..
qed

section \<open>Witnesses\<close>

definition example_engine :: js_engine where
  "example_engine = \<lparr>eng_print = (\<lambda>x. int_str \<lfloor>x\<rfloor>), eng_number = (\<lambda>s. None)\<rparr>"

definition example_context :: "(string \<times> json) list \<Rightarrow> eval_context" where
  "example_context facts = \<lparr>ec_facts = facts, ec_actor = None, ec_signoffs = []\<rparr>"

definition example_rule :: policy_rule where
  "example_rule = \<lparr>pr_id = ''R1'', pr_version = 1, pr_class = UserConfirmed,
     pr_scope = \<lparr>rs_org = None, rs_project = None, rs_country = None\<rparr>, pr_trigger = ''po.release'',
     pr_condition = PAll [PFact ''accepted'', PCmp OpLte (PFact ''amount'') (PLit (JNum 100))],
     pr_when_false = RejectFalse, pr_when_unknown = RequestVerification, pr_authority = None,
     pr_exception = None, pr_source = ''SOP-1''\<rparr>"

definition example_snapshot :: policy_snapshot where
  "example_snapshot = \<lparr>ps_id = ''S1'', ps_scope = [], ps_rules = [example_rule], ps_compiler = ''1.0.0'',
     ps_hash = ''h'', ps_compiled_at = ''t''\<rparr>"

lemmas example_eval = fact_value_def resolve_path_def truthy_def is_reference_def js_get_def
  compare_operands_def operand_def js_less_def to_primitive_def to_number_def tri_of_def example_context_def

theorem evaluate_is_kleene_witness:
  "evaluate example_engine (example_context [(''amount'', JNum 50)])
     (PAny [PFact ''accepted'', PCmp OpGt (PFact ''amount'') (PLit (JNum 40))]) = Inr TTrue \<and>
   evaluate example_engine (example_context []) (PNot (PAll [PFact ''a'', PFact ''b''])) =
     evaluate example_engine (example_context []) (PAny [PNot (PFact ''a''), PNot (PFact ''b'')])"
  using evaluate_is_kleene [of "example_context [(''amount'', JNum 50)]" example_engine
      "PAny [PFact ''accepted'', PCmp OpGt (PFact ''amount'') (PLit (JNum 40))]"]
    evaluate_is_kleene [of "example_context []" example_engine _ "[PFact ''a'', PFact ''b'']"]
  by (simp add: evidence_ok_def example_eval)

theorem snapshot_outcome_witness:
  "\<exists>rep. evaluate_snapshot example_engine example_snapshot ''po.release''
     (example_context [(''accepted'', JBool True), (''amount'', JNum 500)]) = Inr rep \<and> rp_outcome rep = Failed"
proof -
  let ?ctx = "example_context [(''accepted'', JBool True), (''amount'', JNum 500)]"
  have cond: "evaluate example_engine ?ctx (pr_condition example_rule) = Inr TFalse"
    by (simp add: example_rule_def example_eval)
  obtain rep where rep: "evaluate_snapshot example_engine example_snapshot ''po.release'' ?ctx = Inr rep"
    by (simp add: evaluate_snapshot_def evaluate_rule_def example_snapshot_def example_rule_def example_eval)
  from snapshot_outcome [OF rep] rep cond show ?thesis
    by (simp add: example_snapshot_def example_rule_def Let_def)
qed

text \<open>Facts under new top-level keys only add information.\<close>

lemma walk_path_undef [simp]: "walk_path JUndef ps = JUndef"
  by (cases ps) simp_all

lemma walk_path_append:
  "walk_path (JObj kvs) ps \<noteq> JUndef \<Longrightarrow> ps \<noteq> [] \<Longrightarrow> walk_path (JObj (kvs @ new)) ps = walk_path (JObj kvs) ps"
  by (cases ps) (auto simp: js_get_def map_add_def split: option.splits)

lemma split_dots_nonempty: "split_dots s \<noteq> []"
  by (induction s) (auto split: list.splits)

lemma learns_append: "learns ctx (ctx\<lparr>ec_facts := ec_facts ctx @ new\<rparr>)"
  using walk_path_append [OF _ split_dots_nonempty]
  by (simp add: learns_def fact_value_def resolve_path_def truthy_def is_reference_def)

theorem learning_keeps_verdict_witness:
  "evaluate example_engine (example_context [(''amount'', JNum 500), (''accepted'', JBool True)])
     (PAll [PFact ''accepted'', PCmp OpLte (PFact ''amount'') (PLit (JNum 100))]) = Inr TFalse"
  using learning_keeps_verdict [OF learns_append [of "example_context [(''amount'', JNum 500)]"
      "[(''accepted'', JBool True)]"], of "PAll [PFact ''accepted'', PCmp OpLte (PFact ''amount'') (PLit (JNum 100))]"
      example_engine TFalse]
  by (simp add: example_eval)

end
