(* ===== verification/Policy_Compiler.thy ===== *)
theory Policy_Compiler
  imports Policy_Engine
begin

text \<open>
  \<open>packages/policy/src/compiler.ts\<close>: the canonical text of a value, the content hash, the
  validation and compilation of rules into a snapshot, and the check that the author of a
  pending transaction does not weaken the rule that governs it. SHA-256, the printing of
  numbers, the collation \<open>localeCompare\<close> and the clock are arguments.
\<close>

section \<open>Canonical text\<close>

text \<open>
  \<open>None\<close> is the value \<open>undefined\<close>, which \<open>join\<close> prints as the empty string and a template
  string as \<open>undefined\<close>.
\<close>

fun canonical_json :: "(rat \<Rightarrow> string) \<Rightarrow> json \<Rightarrow> string option" where
  "canonical_json num JUndef = None"
| "canonical_json num JNull = Some ''null''"
| "canonical_json num (JBool b) = Some (if b then ''true'' else ''false'')"
| "canonical_json num (JNum x) = Some (num x)"
| "canonical_json num (JStr s) = Some (quote_str s)"
| "canonical_json num (JArr xs) =
     Some (''['' @ join_with '','' (map (\<lambda>t. case t of None \<Rightarrow> [] | Some s \<Rightarrow> s)
       (map (canonical_json num) xs)) @ '']'')"
| "canonical_json num (JObj kvs) =
     (let texts = map (\<lambda>(k, v). (k, canonical_json num v)) kvs
      in Some (''{'' @ join_with '','' (map (\<lambda>k. quote_str k @ '':'' @
           (case map_of texts k of Some (Some t) \<Rightarrow> t | _ \<Rightarrow> ''undefined'')) (sort (map fst kvs))) @ ''}''))"

definition compute_policy_hash :: "js_host \<Rightarrow> (string \<Rightarrow> string) \<Rightarrow> json \<Rightarrow> string res" where
  "compute_policy_hash H sha d = (case canonical_json (jh_num H) d of
       None \<Rightarrow> Inl TypeErrorThrown
     | Some s \<Rightarrow> Inr (sha s))"

section \<open>Rules as values\<close>

fun cmp_name :: "cmp_op \<Rightarrow> string" where
  "cmp_name OpEq = ''eq''" | "cmp_name OpNe = ''ne''" | "cmp_name OpGt = ''gt''" | "cmp_name OpGte = ''gte''"
| "cmp_name OpLt = ''lt''" | "cmp_name OpLte = ''lte''" | "cmp_name OpIn = ''in''"

fun expr_json :: "policy_expr \<Rightarrow> json" where
  "expr_json (PLit v) = JObj [(''op'', JStr ''literal''), (''value'', v)]"
| "expr_json (PFact p) = JObj [(''op'', JStr ''fact''), (''path'', JStr p)]"
| "expr_json (PCmp opr l r) = JObj [(''op'', JStr (cmp_name opr)), (''left'', expr_json l), (''right'', expr_json r)]"
| "expr_json (PAll es) = JObj [(''op'', JStr ''all''), (''conditions'', JArr (map expr_json es))]"
| "expr_json (PAny es) = JObj [(''op'', JStr ''any''), (''conditions'', JArr (map expr_json es))]"
| "expr_json (PNot e) = JObj [(''op'', JStr ''not''), (''condition'', expr_json e)]"
| "expr_json (PExists p) = JObj [(''op'', JStr ''exists''), (''path'', JStr p)]"
| "expr_json (PEvidence ty) = JObj [(''op'', JStr ''has_evidence''), (''evidenceType'', JStr ty)]"
| "expr_json (PAuthority role two) = JObj [(''op'', JStr ''has_authority''), (''requiredRole'', JStr role),
     (''requireDistinctActors'', JBool two)]"

definition optional_key :: "string \<Rightarrow> ('a \<Rightarrow> json) \<Rightarrow> 'a option \<Rightarrow> (string \<times> json) list" where
  "optional_key k f v = (case v of None \<Rightarrow> [] | Some x \<Rightarrow> [(k, f x)])"

definition scope_json :: "rule_scope \<Rightarrow> json" where
  "scope_json s = JObj (optional_key ''organisationId'' JStr (rs_org s) @
     optional_key ''projectId'' JStr (rs_project s) @ optional_key ''countryCode'' JStr (rs_country s))"

definition classification_name :: "classification \<Rightarrow> string" where
  "classification_name c = (case c of UserConfirmed \<Rightarrow> ''USER_CONFIRMED'' | ProposedDefault \<Rightarrow> ''PROPOSED_DEFAULT''
     | RequiresLocalReview \<Rightarrow> ''REQUIRES_LOCAL_REVIEW'' | VerifiedForScope \<Rightarrow> ''VERIFIED_FOR_SCOPE'')"

definition authority_name :: "authority_class \<Rightarrow> string" where
  "authority_name a = (case a of StandardPm \<Rightarrow> ''standard_pm'' | CommercialHead \<Rightarrow> ''commercial_head''
     | TwoPersonIndependent \<Rightarrow> ''two_person_independent'' | BoardGovernance \<Rightarrow> ''board_governance'')"

definition when_false_name :: "when_false \<Rightarrow> string" where
  "when_false_name w = (case w of RequireException \<Rightarrow> ''require_authorised_exception''
     | RejectFalse \<Rightarrow> ''reject'' | WarnFalse \<Rightarrow> ''warn'')"

definition when_unknown_name :: "when_unknown \<Rightarrow> string" where
  "when_unknown_name w = (case w of RequestVerification \<Rightarrow> ''request_verification''
     | RejectUnknown \<Rightarrow> ''reject'' | WarnUnknown \<Rightarrow> ''warn'')"

definition rule_json :: "policy_rule \<Rightarrow> json" where
  "rule_json r = JObj ([(''ruleId'', JStr (pr_id r)), (''version'', JNum (pr_version r)),
     (''classification'', JStr (classification_name (pr_class r))), (''scope'', scope_json (pr_scope r)),
     (''trigger'', JStr (pr_trigger r)), (''condition'', expr_json (pr_condition r)),
     (''whenFalse'', JStr (when_false_name (pr_when_false r))),
     (''whenUnknown'', JStr (when_unknown_name (pr_when_unknown r)))] @
     optional_key ''authorityClass'' (\<lambda>a. JStr (authority_name a)) (pr_authority r) @
     optional_key ''exceptionPolicyId'' JStr (pr_exception r) @ [(''sourceRef'', JStr (pr_source r))])"

section \<open>Compilation\<close>

definition compiler_version :: string where
  "compiler_version = ''1.0.0''"

definition validate_rule :: "policy_rule \<Rightarrow> unit res" where
  "validate_rule r = bind_res (throw_if (pr_id r = []) (RuleInvalid ''ruleId'')) (\<lambda>_.
     bind_res (throw_if (pr_trigger r = []) (RuleInvalid ''trigger'')) (\<lambda>_.
       throw_if (pr_source r = []) (RuleInvalid ''sourceRef'')))"

text \<open>\<open>cmp\<close> is \<open>localeCompare\<close>; the sort is stable.\<close>

definition rule_le :: "(string \<Rightarrow> string \<Rightarrow> int) \<Rightarrow> policy_rule \<Rightarrow> policy_rule \<Rightarrow> bool" where
  "rule_le cmp a b = (let c = cmp (pr_id a) (pr_id b) in
     if c \<noteq> 0 then c \<le> 0 else pr_version a - pr_version b \<le> 0)"

definition compile_rules ::
  "js_host \<Rightarrow> (string \<Rightarrow> string) \<Rightarrow> (string \<Rightarrow> string \<Rightarrow> int) \<Rightarrow> string \<Rightarrow> string \<Rightarrow> (string \<times> json) list
     \<Rightarrow> policy_rule list \<Rightarrow> policy_snapshot res" where
  "compile_rules H sha cmp now sid scope rules =
     bind_res (each_res validate_rule rules) (\<lambda>_.
     (let sorted_rules = sort_by (rule_le cmp) rules in
      bind_res (compute_policy_hash H sha (JObj [(''id'', JStr sid), (''scope'', JObj scope),
          (''rules'', JArr (map rule_json sorted_rules)), (''compilerVersion'', JStr compiler_version)])) (\<lambda>h.
        Inr \<lparr>ps_id = sid, ps_scope = scope, ps_rules = sorted_rules, ps_compiler = compiler_version,
             ps_hash = h, ps_compiled_at = now\<rparr>)))"

record pending_transaction =
  pt_id :: string
  pt_owner :: string
  pt_trigger :: string
  pt_rule :: string

text \<open>The rule identifier and the transaction of the first weakened rule, if any.\<close>

fun detect_self_downgrade ::
  "policy_snapshot \<Rightarrow> policy_snapshot \<Rightarrow> string \<Rightarrow> pending_transaction list \<Rightarrow> (string \<times> string) option" where
  "detect_self_downgrade active candidate actor [] = None"
| "detect_self_downgrade active candidate actor (tx # txs) =
     (if pt_owner tx = actor \<and>
         (case List.find (\<lambda>r. pr_id r = pt_rule tx) (ps_rules active) of
            None \<Rightarrow> False
          | Some _ \<Rightarrow> (case List.find (\<lambda>r. pr_id r = pt_rule tx) (ps_rules candidate) of
                None \<Rightarrow> True | Some c \<Rightarrow> pr_when_false c = WarnFalse))
      then Some (pt_rule tx, pt_id tx)
      else detect_self_downgrade active candidate actor txs)"

section \<open>The canonical text does not depend on the order of keys\<close>

text \<open>\<open>same_data d e\<close>: equal up to the order of the keys of the objects, at every depth.\<close>

inductive same_data :: "json \<Rightarrow> json \<Rightarrow> bool" where
  same_atom: "same_data d d"
| same_arr: "list_all2 same_data xs ys \<Longrightarrow> same_data (JArr xs) (JArr ys)"
| same_obj: "distinct (map fst kvs) \<Longrightarrow> distinct (map fst lvs) \<Longrightarrow> set (map fst kvs) = set (map fst lvs) \<Longrightarrow>
    (\<And>k v w. map_of kvs k = Some v \<Longrightarrow> map_of lvs k = Some w \<Longrightarrow> same_data v w) \<Longrightarrow>
    same_data (JObj kvs) (JObj lvs)"

lemma map_of_map_value: "map_of (map (\<lambda>(k, v). (k, f v)) kvs) k = map_option f (map_of kvs k)"
  by (induction kvs) auto

lemma same_data_text: "same_data d e \<Longrightarrow> canonical_json num d = canonical_json num e"
proof (induction rule: same_data.induct)
  case (same_atom d)
  show ?case ..
next
  case (same_arr xs ys)
  then have "map (canonical_json num) xs = map (canonical_json num) ys"
    by (induction rule: list_all2_induct) auto
  then show ?case by simp
next
  case (same_obj kvs lvs)
  have order: "sort (map fst kvs) = sort (map fst lvs)"
    using same_obj(1-3) by (metis sorted_list_of_set_sort_remdups distinct_remdups_id)
  have "map_option (canonical_json num) (map_of kvs k) = map_option (canonical_json num) (map_of lvs k)" for k
  proof (cases "k \<in> set (map fst kvs)")
    case True
    then have "k \<in> set (map fst lvs)" using same_obj(3) by simp
    with True obtain v w where "map_of kvs k = Some v" "map_of lvs k = Some w"
      by (metis map_of_eq_None_iff option.exhaust list.set_map)
    with same_obj.IH show ?thesis by auto
  next
    case False
    then have "map_of kvs k = None" "map_of lvs k = None"
      using same_obj(3) by (simp_all add: map_of_eq_None_iff)
    then show ?thesis by simp
  qed
  then show ?case by (simp only: canonical_json.simps Let_def map_of_map_value order)
qed

text \<open>
  The canonical text, and so the content hash of a policy, is a function of the data:
  two values that agree up to the order in which their keys were written, at every depth,
  have the same canonical text and the same hash.
\<close>

theorem canonical_hash_order_free:
  assumes "same_data d e"
  shows "canonical_json (jh_num H) d = canonical_json (jh_num H) e \<and>
    compute_policy_hash H sha d = compute_policy_hash H sha e"
  using same_data_text [OF assms] by (simp add: compute_policy_hash_def)

section \<open>Compilation does not depend on the order of the rules\<close>

text \<open>What the code needs of \<open>localeCompare\<close>: a total preorder, with 0 only for equal identifiers.\<close>

definition collates :: "(string \<Rightarrow> string \<Rightarrow> int) \<Rightarrow> bool" where
  "collates cmp \<longleftrightarrow> (\<forall>a b. sgn (cmp a b) = - sgn (cmp b a)) \<and> (\<forall>a b. cmp a b = 0 \<longleftrightarrow> a = b) \<and>
     (\<forall>a b c. cmp a b \<le> 0 \<longrightarrow> cmp b c \<le> 0 \<longrightarrow> cmp a c \<le> 0)"

lemma rule_le_order:
  assumes "collates cmp"
  shows "rule_le cmp a b \<or> rule_le cmp b a"
    and "rule_le cmp a b \<Longrightarrow> rule_le cmp b c \<Longrightarrow> rule_le cmp a c"
    and "rule_le cmp a b \<Longrightarrow> rule_le cmp b a \<Longrightarrow> pr_id a = pr_id b \<and> pr_version a = pr_version b"
proof -
  have zero: "cmp x y = 0 \<longleftrightarrow> x = y" for x y using assms unfolding collates_def by blast
  have flip: "cmp x y \<le> 0 \<longleftrightarrow> 0 \<le> cmp y x" for x y
  proof -
    have "sgn (cmp x y) = - sgn (cmp y x)" using assms unfolding collates_def by blast
    then show ?thesis by (auto simp: sgn_if split: if_splits)
  qed
  have trans: "cmp x y \<le> 0 \<Longrightarrow> cmp y z \<le> 0 \<Longrightarrow> cmp x z \<le> 0" for x y z
    using assms unfolding collates_def by blast
  show "rule_le cmp a b \<or> rule_le cmp b a"
    using flip [of "pr_id a" "pr_id b"] zero by (auto simp: rule_le_def Let_def)
  show "rule_le cmp a c" if "rule_le cmp a b" "rule_le cmp b c"
  proof (cases "pr_id a = pr_id b \<or> pr_id b = pr_id c")
    case True
    with that zero show ?thesis by (auto simp: rule_le_def Let_def split: if_splits)
  next
    case False
    with that zero have "cmp (pr_id a) (pr_id b) \<le> 0" "cmp (pr_id b) (pr_id c) \<le> 0"
      by (auto simp: rule_le_def Let_def)
    moreover from this have "cmp (pr_id a) (pr_id c) \<le> 0" by (rule trans)
    moreover have "pr_id a \<noteq> pr_id c"
      using calculation(1,2) flip [of "pr_id b" "pr_id a"] False zero by force
    ultimately show ?thesis using zero by (simp add: rule_le_def Let_def)
  qed
  show "pr_id a = pr_id b \<and> pr_version a = pr_version b" if "rule_le cmp a b" "rule_le cmp b a"
    using that zero flip [of "pr_id a" "pr_id b"] by (auto simp: rule_le_def Let_def split: if_splits)
qed

lemma each_res_mset: "mset xs = mset ys \<Longrightarrow> each_res f xs = Inr u \<longleftrightarrow> each_res f ys = Inr u"
  by (simp add: each_res_Inr_conv) (metis set_mset_mset)

text \<open>
  Compiling is independent of the order in which the rules are listed. Two lists of the
  same rules, no two with the same identifier and version, compile to the same snapshot with
  the same hash whenever one of them compiles, and the snapshot's rules are those rules,
  ordered by identifier and version.
\<close>

theorem compile_order_free:
  assumes cmp: "collates cmp" and "mset rules = mset rules'"
    and keys: "inj_on (\<lambda>r. (pr_id r, pr_version r)) (set rules)"
    and ok: "compile_rules H sha cmp now sid scope rules = Inr snap"
  shows "compile_rules H sha cmp now sid scope rules' = Inr snap \<and>
    mset (ps_rules snap) = mset rules \<and> sorted_wrt (rule_le cmp) (ps_rules snap)"
proof -
  note le = rule_le_order [OF cmp]
  have s: "sorted_wrt (rule_le cmp) (sort_by (rule_le cmp) xs)" for xs
    by (rule sorted_sort_by) (fact le(1), fact le(2))
  have same: "sort_by (rule_le cmp) rules = sort_by (rule_le cmp) rules'"
  proof (rule sorted_wrt_mset_unique [OF _ s s])
    fix a b
    assume ab: "a \<in> set (sort_by (rule_le cmp) rules)" "b \<in> set (sort_by (rule_le cmp) rules)"
      "rule_le cmp a b" "rule_le cmp b a"
    from le(3) [OF ab(3,4)] have "(pr_id a, pr_version a) = (pr_id b, pr_version b)" by simp
    then show "a = b" by (rule inj_onD [OF keys]) (use ab(1,2) in simp_all)
  qed (simp add: assms(2))
  have "each_res validate_rule rules' = Inr ()"
    using ok each_res_mset [OF assms(2)] by (auto simp: compile_rules_def)
  moreover have "ps_rules snap = sort_by (rule_le cmp) rules"
    using ok by (auto simp: compile_rules_def Let_def)
  ultimately show ?thesis using ok s [of rules] by (auto simp: compile_rules_def same Let_def assms(2))
qed

section \<open>Weakening a rule\<close>

text \<open>
  What the check against self-downgrade catches. A candidate is blocked exactly when the
  actor owns a pending transaction whose rule is in the active snapshot and the candidate's
  first rule with that identifier is missing or only warns; in particular a candidate that
  keeps the identifier but replaces the condition by one that is always true is not caught.
\<close>

theorem self_downgrade_exact:
  "(detect_self_downgrade active candidate actor txs \<noteq> None \<longleftrightarrow>
     (\<exists>tx \<in> set txs. pt_owner tx = actor \<and> (\<exists>r \<in> set (ps_rules active). pr_id r = pt_rule tx) \<and>
        (case List.find (\<lambda>r. pr_id r = pt_rule tx) (ps_rules candidate) of
           None \<Rightarrow> True | Some c \<Rightarrow> pr_when_false c = WarnFalse))) \<and>
   ((\<forall>r \<in> set (ps_rules active). pr_when_false r \<noteq> WarnFalse) \<longrightarrow>
     detect_self_downgrade active
       (active\<lparr>ps_rules := map (\<lambda>r. r\<lparr>pr_condition := PLit (JBool True)\<rparr>) (ps_rules active)\<rparr>) actor txs = None)"
proof
  have find: "(case List.find P xs of None \<Rightarrow> False | Some _ \<Rightarrow> Q) \<longleftrightarrow> (\<exists>x \<in> set xs. P x) \<and> Q" for P Q and xs :: "policy_rule list"
    by (auto simp: find_None_iff find_Some_iff split: option.splits)
  show "detect_self_downgrade active candidate actor txs \<noteq> None \<longleftrightarrow>
     (\<exists>tx \<in> set txs. pt_owner tx = actor \<and> (\<exists>r \<in> set (ps_rules active). pr_id r = pt_rule tx) \<and>
        (case List.find (\<lambda>r. pr_id r = pt_rule tx) (ps_rules candidate) of
           None \<Rightarrow> True | Some c \<Rightarrow> pr_when_false c = WarnFalse))"
    by (induction txs) (simp_all add: find, blast)
  have map_find: "List.find (\<lambda>r. pr_id r = i) (map (\<lambda>r. r\<lparr>pr_condition := c\<rparr>) rs) =
      map_option (\<lambda>r. r\<lparr>pr_condition := c\<rparr>) (List.find (\<lambda>r. pr_id r = i) rs)" for i c rs
    by (induction rs) simp_all
  show "(\<forall>r \<in> set (ps_rules active). pr_when_false r \<noteq> WarnFalse) \<longrightarrow>
     detect_self_downgrade active
       (active\<lparr>ps_rules := map (\<lambda>r. r\<lparr>pr_condition := PLit (JBool True)\<rparr>) (ps_rules active)\<rparr>) actor txs = None"
    by (induction txs) (auto simp: map_find dest: find_Some_iff_in split: option.splits)
qed

section \<open>Witnesses\<close>

definition example_js :: js_host where
  "example_js = \<lparr>jh_num = (\<lambda>x. int_str \<lfloor>x\<rfloor>), jh_sha256 = None\<rparr>"

theorem canonical_hash_order_free_witness:
  "compute_policy_hash example_js fallback_hash (JObj [(''a'', JNum 1), (''b'', JObj [(''x'', JNull), (''y'', JNum 2)])]) =
   compute_policy_hash example_js fallback_hash (JObj [(''b'', JObj [(''y'', JNum 2), (''x'', JNull)]), (''a'', JNum 1)])"
proof -
  have "same_data (JObj [(''x'', JNull), (''y'', JNum 2)]) (JObj [(''y'', JNum 2), (''x'', JNull)])"
    by (rule same_obj) (auto simp: same_atom split: if_splits)
  then have "same_data (JObj [(''a'', JNum 1), (''b'', JObj [(''x'', JNull), (''y'', JNum 2)])])
      (JObj [(''b'', JObj [(''y'', JNum 2), (''x'', JNull)]), (''a'', JNum 1)])"
    by (intro same_obj) (auto simp: same_atom split: if_splits)
  from canonical_hash_order_free [OF this] show ?thesis by blast
qed

text \<open>Comparison by code units.\<close>

definition unit_compare :: "string \<Rightarrow> string \<Rightarrow> int" where
  "unit_compare a b = (if a = b then 0 else if a < b then - 1 else 1)"

lemma unit_compare_collates: "collates unit_compare"
  by (auto simp: collates_def unit_compare_def sgn_if split: if_splits)

theorem compile_order_free_witness:
  "compile_rules example_js fallback_hash unit_compare ''t'' ''S'' [] [example_rule, example_rule\<lparr>pr_version := 2\<rparr>] =
   compile_rules example_js fallback_hash unit_compare ''t'' ''S'' [] [example_rule\<lparr>pr_version := 2\<rparr>, example_rule]"
proof -
  let ?rs = "[example_rule, example_rule\<lparr>pr_version := 2\<rparr>]"
  obtain snap where ok: "compile_rules example_js fallback_hash unit_compare ''t'' ''S'' [] ?rs = Inr snap"
    by (simp add: compile_rules_def compute_policy_hash_def validate_rule_def example_rule_def Let_def)
  have "inj_on (\<lambda>r. (pr_id r, pr_version r)) (set ?rs)" by (simp add: example_rule_def)
  from compile_order_free [OF unit_compare_collates _ this ok, of "rev ?rs"] ok show ?thesis
    by (simp add: add_mset_commute)
qed

theorem self_downgrade_exact_witness:
  "detect_self_downgrade example_snapshot (example_snapshot\<lparr>ps_rules := []\<rparr>) ''u1''
     [\<lparr>pt_id = ''T1'', pt_owner = ''u1'', pt_trigger = ''po.release'', pt_rule = ''R1''\<rparr>] \<noteq> None \<and>
   detect_self_downgrade example_snapshot (example_snapshot\<lparr>ps_rules := map (\<lambda>r. r\<lparr>pr_condition := PLit (JBool True)\<rparr>)
     (ps_rules example_snapshot)\<rparr>) ''u1''
     [\<lparr>pt_id = ''T1'', pt_owner = ''u1'', pt_trigger = ''po.release'', pt_rule = ''R1''\<rparr>] = None"
  using self_downgrade_exact [of example_snapshot "example_snapshot\<lparr>ps_rules := []\<rparr>" "''u1''"
      "[\<lparr>pt_id = ''T1'', pt_owner = ''u1'', pt_trigger = ''po.release'', pt_rule = ''R1''\<rparr>]"]
  by (simp add: example_snapshot_def example_rule_def)

end
