(* ===== verification/Approval_Policy.thy ===== *)
theory Approval_Policy
  imports Prelude
begin

text \<open>
  The commercial approval policies of \<open>packages/policy/src/evaluator.ts\<close>: the registry of
  versioned configurations, the resolution of the policy that applies to a context, and
  \<open>resolveRequiredApprover\<close>, which picks the approval tier of an amount. An amount is \<open>None\<close>
  when it is \<open>NaN\<close>. The \<open>reason\<close> of a resolution is a text for people and is left out.
\<close>

section \<open>Configurations\<close>

datatype approver_role = ProjectManager | FinanceRole | ExecutiveRole

record approval_tier =
  at_id :: string
  at_min :: rat
  at_max :: "rat option"
  at_role :: approver_role
  at_title :: string
  at_approver :: string
  at_rule :: string
  at_governance :: string

datatype policy_status = PolicyActive | PolicyDraft | PolicyArchived

record approval_policy =
  ap_id :: string
  ap_version :: int
  ap_org :: "string option"
  ap_country :: "string option"
  ap_unit :: "string option"
  ap_project :: "string option"
  ap_type :: string
  ap_currency :: string
  ap_from :: string
  ap_status :: policy_status
  ap_tiers :: "approval_tier list"

record resolution_context =
  rc_org :: "string option"
  rc_country :: "string option"
  rc_unit :: "string option"
  rc_project :: "string option"
  rc_type :: "string option"

datatype match_scope =
    MatchDefault | MatchProject string | MatchType string | MatchUnit string
  | MatchCountry string | MatchOrg string

record approval_resolution =
  rv_role :: approver_role
  rv_title :: string
  rv_approver :: string
  rv_min :: rat
  rv_max :: "rat option"
  rv_governance :: string
  rv_rule :: string
  rv_downgrade :: bool
  rv_policy :: string
  rv_version :: int
  rv_scope :: match_scope
  rv_currency :: string

definition default_tiers :: "approval_tier list" where
  "default_tiers = [
     \<lparr>at_id = ''operational_pm'', at_min = 0, at_max = Some 50000, at_role = ProjectManager,
      at_title = ''Lead Project Manager'', at_approver = ''Zaid Mansour (Lead PM)'',
      at_rule = ''POL-COMM-01'', at_governance = ''POL-COMM-01''\<rparr>,
     \<lparr>at_id = ''commercial_finance'', at_min = 50000, at_max = Some 250000, at_role = FinanceRole,
      at_title = ''Financial Controller'', at_approver = ''Rashid Al-Hajri (Financial Controller)'',
      at_rule = ''POL-COMM-02'', at_governance = ''POL-COMM-02''\<rparr>,
     \<lparr>at_id = ''executive_partner'', at_min = 250000, at_max = None, at_role = ExecutiveRole,
      at_title = ''Executive Partner'', at_approver = ''Nasser Al-Attiyah (Executive Partner)'',
      at_rule = ''POL-COMM-03'', at_governance = ''POL-COMM-03''\<rparr>]"

definition default_policy :: approval_policy where
  "default_policy = \<lparr>ap_id = ''POL-COMM-QATAR-DEFAULT'', ap_version = 1,
     ap_org = Some ''11111111-1111-4111-8111-111111111111'', ap_country = Some ''QA'',
     ap_unit = Some ''live_operations'', ap_project = Some ''*'', ap_type = ''*'', ap_currency = ''QAR'',
     ap_from = ''2026-01-01T00:00:00Z'', ap_status = PolicyActive, ap_tiers = default_tiers\<rparr>"

section \<open>The registry\<close>

type_synonym policy_registry = "(string \<times> approval_policy) list"

definition policy_key :: "approval_policy \<Rightarrow> string" where
  "policy_key p = ap_id p @ '':v'' @ int_str (ap_version p)"

definition initial_registry :: policy_registry where
  "initial_registry = [(policy_key default_policy, default_policy)]"

definition register_policy :: "policy_registry \<Rightarrow> approval_policy \<Rightarrow> policy_registry" where
  "register_policy reg p = map_set (policy_key p) p reg"

definition list_policies :: "policy_registry \<Rightarrow> approval_policy list" where
  "list_policies reg = map snd reg"

section \<open>Resolution\<close>

definition is_set :: "string option \<Rightarrow> string option" where
  "is_set f = (case f of None \<Rightarrow> None | Some s \<Rightarrow> if s = [] then None else Some s)"

definition no_wildcard :: "string option \<Rightarrow> string option" where
  "no_wildcard f = (case is_set f of Some s \<Rightarrow> if s = ''*'' then None else Some s | None \<Rightarrow> None)"

text \<open>One of the numbered steps: the first active policy whose field is the context's.\<close>

definition match_field ::
  "approval_policy list \<Rightarrow> (approval_policy \<Rightarrow> string option) \<Rightarrow> (string \<Rightarrow> match_scope) \<Rightarrow> string option
     \<Rightarrow> (approval_policy \<times> match_scope) option" where
  "match_field ps f sc v = (case v of
       None \<Rightarrow> None
     | Some s \<Rightarrow> map_option (\<lambda>p. (p, sc s)) (List.find (\<lambda>p. f p = Some s) ps))"

fun first_some :: "'a option list \<Rightarrow> 'a \<Rightarrow> 'a" where
  "first_some [] d = d"
| "first_some (Some x # xs) d = x"
| "first_some (None # xs) d = first_some xs d"

definition resolve_policy ::
  "policy_registry \<Rightarrow> resolution_context option \<Rightarrow> approval_policy \<times> match_scope" where
  "resolve_policy reg ctx = (case ctx of
       None \<Rightarrow> (default_policy, MatchDefault)
     | Some c \<Rightarrow> (let active = filter (\<lambda>p. ap_status p = PolicyActive) (list_policies reg) in
         first_some
           [match_field active ap_project MatchProject (no_wildcard (rc_project c)),
            match_field active (\<lambda>p. Some (ap_type p)) MatchType (no_wildcard (rc_type c)),
            match_field active ap_unit MatchUnit (no_wildcard (rc_unit c)),
            match_field active ap_country MatchCountry (no_wildcard (rc_country c)),
            match_field active ap_org MatchOrg (is_set (rc_org c))]
           (default_policy, MatchDefault)))"

definition numeric_amount :: "rat option \<Rightarrow> rat" where
  "numeric_amount a = max 0 (case a of None \<Rightarrow> 0 | Some x \<Rightarrow> x)"

definition tiers_descending :: "approval_policy \<Rightarrow> approval_tier list" where
  "tiers_descending p = sort_by (\<lambda>a b. at_min b - at_min a \<le> 0) (ap_tiers p)"

definition resolution_of :: "approval_policy \<Rightarrow> match_scope \<Rightarrow> approval_tier \<Rightarrow> approval_resolution" where
  "resolution_of p sc t = \<lparr>rv_role = at_role t, rv_title = at_title t, rv_approver = at_approver t,
     rv_min = at_min t, rv_max = at_max t, rv_governance = at_governance t, rv_rule = at_rule t,
     rv_downgrade = False, rv_policy = ap_id p, rv_version = ap_version p, rv_scope = sc,
     rv_currency = ap_currency p\<rparr>"

definition pick_tier :: "approval_policy \<Rightarrow> rat \<Rightarrow> approval_tier" where
  "pick_tier p x = (let ts = tiers_descending p in
     case List.find (\<lambda>t. at_min t \<le> x) ts of
       Some t \<Rightarrow> t
     | None \<Rightarrow> (if ts = [] then hd default_tiers else last ts))"

definition resolve_required_approver ::
  "policy_registry \<Rightarrow> rat option \<Rightarrow> resolution_context option \<Rightarrow> approval_resolution" where
  "resolve_required_approver reg a ctx =
     (case resolve_policy reg ctx of (p, sc) \<Rightarrow> resolution_of p sc (pick_tier p (numeric_amount a)))"

section \<open>Lemmas\<close>

lemma tiers_sorted: "sorted_wrt (\<lambda>a b. at_min b \<le> at_min a) (tiers_descending p)"
proof -
  have "sorted_wrt (\<lambda>a b. at_min b - at_min a \<le> 0) (tiers_descending p)"
    unfolding tiers_descending_def by (rule sorted_sort_by) auto
  then show ?thesis by simp
qed

lemma set_tiers [simp]: "set (tiers_descending p) = set (ap_tiers p)"
  by (simp add: tiers_descending_def)

lemma tiers_Nil [simp]: "tiers_descending p = [] \<longleftrightarrow> ap_tiers p = []"
  by (simp add: tiers_descending_def)

lemma find_sorted_max:
  "sorted_wrt (\<lambda>a b. f b \<le> (f a :: rat)) ts \<Longrightarrow> List.find (\<lambda>t. f t \<le> x) ts = Some t \<Longrightarrow>
     \<forall>s \<in> set ts. f s \<le> x \<longrightarrow> f s \<le> f t"
  by (induction ts) (auto split: if_splits)

lemma last_sorted_min: "sorted_wrt (\<lambda>a b. f b \<le> (f a :: rat)) ts \<Longrightarrow> s \<in> set ts \<Longrightarrow> f (last ts) \<le> f s"
  by (induction ts) auto

text \<open>The tier is the highest one the amount reaches, or the lowest when it reaches none.\<close>

lemma pick_tier_spec:
  assumes "ap_tiers p \<noteq> []"
  shows "pick_tier p x \<in> set (ap_tiers p) \<and>
    (if \<exists>t \<in> set (ap_tiers p). at_min t \<le> x
     then at_min (pick_tier p x) \<le> x \<and> (\<forall>t \<in> set (ap_tiers p). at_min t \<le> x \<longrightarrow> at_min t \<le> at_min (pick_tier p x))
     else (\<forall>t \<in> set (ap_tiers p). at_min (pick_tier p x) \<le> at_min t))"
proof (cases "List.find (\<lambda>t. at_min t \<le> x) (tiers_descending p)")
  case None
  then have none: "\<not> (\<exists>t \<in> set (ap_tiers p). at_min t \<le> x)" by (auto simp: find_None_iff)
  have "last (tiers_descending p) \<in> set (ap_tiers p)"
    using assms last_in_set [of "tiers_descending p"] by simp
  with None none assms last_sorted_min [OF tiers_sorted, of _ p] show ?thesis by (simp add: pick_tier_def)
next
  case (Some t)
  then have t: "t \<in> set (ap_tiers p)" "at_min t \<le> x"
    using find_Some_iff_in [OF Some] by simp_all
  with find_sorted_max [OF tiers_sorted Some] Some show ?thesis by (auto simp: pick_tier_def)
qed

text \<open>
  The approval tier of an amount. Whatever the order in which a policy lists its tiers,
  the approver comes from the tier with the highest minimum that the amount reaches (from
  the lowest tier when it reaches none), the sign-off is never marked as one that may be
  downgraded, and a larger amount never resolves to a lower tier.
\<close>

theorem required_approver_tier:
  assumes "resolve_policy reg ctx = (p, sc)" and "ap_tiers p \<noteq> []"
  shows "let r = resolve_required_approver reg a ctx; x = numeric_amount a in
    (\<exists>t \<in> set (ap_tiers p). r = resolution_of p sc t) \<and> \<not> rv_downgrade r \<and>
    (if \<exists>t \<in> set (ap_tiers p). at_min t \<le> x
     then rv_min r \<le> x \<and> (\<forall>t \<in> set (ap_tiers p). at_min t \<le> x \<longrightarrow> at_min t \<le> rv_min r)
     else (\<forall>t \<in> set (ap_tiers p). rv_min r \<le> at_min t)) \<and>
    (x \<le> numeric_amount b \<longrightarrow> rv_min r \<le> rv_min (resolve_required_approver reg b ctx))"
proof -
  note s = pick_tier_spec [OF assms(2)]
  have mono: "at_min (pick_tier p x) \<le> at_min (pick_tier p y)" if "x \<le> y" for x y
  proof (cases "\<exists>t \<in> set (ap_tiers p). at_min t \<le> x")
    case True
    then have "at_min (pick_tier p x) \<le> x" using s [of x] by simp
    with that have le: "at_min (pick_tier p x) \<le> y" by simp
    then have ex: "\<exists>t \<in> set (ap_tiers p). at_min t \<le> y" using s [of x] by blast
    have "\<forall>t \<in> set (ap_tiers p). at_min t \<le> y \<longrightarrow> at_min t \<le> at_min (pick_tier p y)"
      using s [of y] ex by simp
    then show ?thesis using le s [of x] by blast
  next
    case False
    then show ?thesis using s [of x] s [of y] by simp
  qed
  have r: "resolve_required_approver reg c ctx = resolution_of p sc (pick_tier p (numeric_amount c))" for c
    by (simp add: resolve_required_approver_def assms(1))
  show ?thesis unfolding Let_def r
    using s [of "numeric_amount a"] mono by (simp add: resolution_of_def) blast
qed

text \<open>
  The bands of the default policy. Below 50,000 the project manager signs, from 50,000
  (inclusive) the financial controller, from 250,000 (inclusive) the executive partner; a
  negative or invalid amount is treated as zero.
\<close>

theorem default_bands:
  "rv_role (resolve_required_approver reg a None) =
    (if numeric_amount a < 50000 then ProjectManager
     else if numeric_amount a < 250000 then FinanceRole else ExecutiveRole) \<and>
   numeric_amount None = 0 \<and> numeric_amount (Some (- \<bar>x\<bar>)) = 0"
proof -
  have "0 \<le> numeric_amount a" by (simp add: numeric_amount_def)
  then show ?thesis
    by (simp add: resolve_required_approver_def resolve_policy_def resolution_of_def pick_tier_def
        tiers_descending_def default_policy_def default_tiers_def) (simp add: numeric_amount_def)
qed

section \<open>Resolution of the policy\<close>

lemma match_field_Some:
  "match_field ps f sc v = Some (p, m) \<longleftrightarrow>
     (\<exists>s. v = Some s \<and> m = sc s \<and> List.find (\<lambda>p. f p = Some s) ps = Some p)"
  by (auto simp: match_field_def split: option.splits)

lemma Some_match_field:
  "Some (p, m) = match_field ps f sc v \<longleftrightarrow>
     (\<exists>s. v = Some s \<and> m = sc s \<and> List.find (\<lambda>p. f p = Some s) ps = Some p)"
  using match_field_Some [of ps f sc v p m] by (simp only: eq_commute)

lemma match_field_None:
  "match_field ps f sc v = None \<longleftrightarrow> (\<forall>s. v = Some s \<longrightarrow> (\<forall>p \<in> set ps. f p \<noteq> Some s))"
  by (auto simp: match_field_def find_None_iff split: option.splits)

lemma first_some_cases: "first_some xs d = y \<Longrightarrow> y = d \<or> Some y \<in> set xs"
  by (induction xs d rule: first_some.induct) auto

text \<open>
  An override for the project wins. When an active policy names the project of the
  context, the resolved policy is an active policy of exactly that project; in every case
  the resolved policy is the default one or a registered active policy that agrees with the
  context in the field the resolution names.
\<close>

theorem resolved_policy_matches:
  assumes "resolve_policy reg (Some ctx) = (p, sc)"
  shows "(p = default_policy \<and> sc = MatchDefault \<or>
     p \<in> set (list_policies reg) \<and> ap_status p = PolicyActive \<and>
     (case sc of MatchDefault \<Rightarrow> False
      | MatchProject s \<Rightarrow> ap_project p = Some s \<and> rc_project ctx = Some s
      | MatchType s \<Rightarrow> ap_type p = s \<and> rc_type ctx = Some s
      | MatchUnit s \<Rightarrow> ap_unit p = Some s \<and> rc_unit ctx = Some s
      | MatchCountry s \<Rightarrow> ap_country p = Some s \<and> rc_country ctx = Some s
      | MatchOrg s \<Rightarrow> ap_org p = Some s \<and> rc_org ctx = Some s)) \<and>
    (\<forall>q \<in> set (list_policies reg). ap_status q = PolicyActive \<and> ap_project q = rc_project ctx \<and>
       rc_project ctx \<notin> {None, Some '''', Some ''*''} \<longrightarrow> sc = MatchProject (the (rc_project ctx)))"
proof -
  have set: "is_set v = Some s \<Longrightarrow> v = Some s" "no_wildcard v = Some s \<Longrightarrow> v = Some s" for v s
    by (auto simp: is_set_def no_wildcard_def split: option.splits if_splits)
  have "(p, sc) = (default_policy, MatchDefault) \<or> Some (p, sc) \<in> set
      [match_field (filter (\<lambda>p. ap_status p = PolicyActive) (list_policies reg)) ap_project MatchProject (no_wildcard (rc_project ctx)),
       match_field (filter (\<lambda>p. ap_status p = PolicyActive) (list_policies reg)) (\<lambda>p. Some (ap_type p)) MatchType (no_wildcard (rc_type ctx)),
       match_field (filter (\<lambda>p. ap_status p = PolicyActive) (list_policies reg)) ap_unit MatchUnit (no_wildcard (rc_unit ctx)),
       match_field (filter (\<lambda>p. ap_status p = PolicyActive) (list_policies reg)) ap_country MatchCountry (no_wildcard (rc_country ctx)),
       match_field (filter (\<lambda>p. ap_status p = PolicyActive) (list_policies reg)) ap_org MatchOrg (is_set (rc_org ctx))]"
    using assms by (intro first_some_cases) (simp add: resolve_policy_def Let_def)
  then have "p = default_policy \<and> sc = MatchDefault \<or>
     p \<in> set (list_policies reg) \<and> ap_status p = PolicyActive \<and>
     (case sc of MatchDefault \<Rightarrow> False
      | MatchProject s \<Rightarrow> ap_project p = Some s \<and> rc_project ctx = Some s
      | MatchType s \<Rightarrow> ap_type p = s \<and> rc_type ctx = Some s
      | MatchUnit s \<Rightarrow> ap_unit p = Some s \<and> rc_unit ctx = Some s
      | MatchCountry s \<Rightarrow> ap_country p = Some s \<and> rc_country ctx = Some s
      | MatchOrg s \<Rightarrow> ap_org p = Some s \<and> rc_org ctx = Some s)"
    by (auto simp: Some_match_field dest!: find_Some_iff_in set)
  moreover have "sc = MatchProject (the (rc_project ctx))"
    if q: "q \<in> set (list_policies reg)" "ap_status q = PolicyActive" "ap_project q = rc_project ctx"
      and named: "rc_project ctx \<notin> {None, Some '''', Some ''*''}" for q
  proof -
    obtain s where s: "rc_project ctx = Some s" "no_wildcard (rc_project ctx) = Some s"
      using named by (cases "rc_project ctx") (auto simp: no_wildcard_def is_set_def)
    let ?active = "filter (\<lambda>p. ap_status p = PolicyActive) (list_policies reg)"
    have "match_field ?active ap_project MatchProject (no_wildcard (rc_project ctx)) \<noteq> None"
      using q s by (auto simp: match_field_None)
    then obtain p' where "match_field ?active ap_project MatchProject (no_wildcard (rc_project ctx)) =
        Some (p', MatchProject s)" using s by (auto simp: match_field_def)
    then show ?thesis using assms s by (auto simp: resolve_policy_def Let_def)
  qed
  ultimately show ?thesis by blast
qed

text \<open>
  A policy of one project can govern another. When no active policy names the project
  of the context, a policy that was registered for a different project still applies if it
  is the first with the context's transaction type (or unit, or country), because the later
  steps never look at the policy's other scope fields.
\<close>

theorem foreign_project_policy_applies:
  assumes "ap_project q = Some other" and "other \<noteq> project" and "project \<noteq> ''''" and "project \<noteq> ''*''"
    and "ap_status q = PolicyActive" and "ap_type q = ty" and "ty \<noteq> ''''" and "ty \<noteq> ''*''"
  shows "resolve_policy (register_policy initial_registry q)
     (Some \<lparr>rc_org = None, rc_country = None, rc_unit = None, rc_project = Some project, rc_type = Some ty\<rparr>)
   = (q, MatchType ty)"
  using assms
  by (simp add: resolve_policy_def register_policy_def initial_registry_def list_policies_def
      match_field_def no_wildcard_def is_set_def default_policy_def Let_def)

section \<open>Witnesses\<close>

definition example_policy :: approval_policy where
  "example_policy = default_policy\<lparr>ap_id := ''POL-P2'', ap_project := Some ''P2'', ap_type := ''purchase_order''\<rparr>"

definition example_resolution :: resolution_context where
  "example_resolution = \<lparr>rc_org = None, rc_country = None, rc_unit = None, rc_project = Some ''P2'', rc_type = None\<rparr>"

lemma example_resolved:
  "resolve_policy (register_policy initial_registry example_policy) (Some example_resolution) =
     (example_policy, MatchProject ''P2'')"
  by (simp add: resolve_policy_def register_policy_def initial_registry_def list_policies_def policy_key_def
      match_field_def no_wildcard_def is_set_def default_policy_def example_policy_def example_resolution_def Let_def)

theorem required_approver_tier_witness:
  "rv_min (resolve_required_approver (register_policy initial_registry example_policy) (Some 60000)
     (Some example_resolution)) \<le> 60000"
  using required_approver_tier [OF example_resolved, of "Some 60000"]
  by (simp add: example_policy_def default_policy_def default_tiers_def Let_def numeric_amount_def)

theorem resolved_policy_matches_witness:
  "ap_project (fst (resolve_policy (register_policy initial_registry example_policy) (Some example_resolution)))
     = Some ''P2''"
  using conjunct1 [OF resolved_policy_matches [OF example_resolved]] by (simp add: example_resolved)

theorem foreign_project_policy_applies_witness:
  "snd (resolve_policy (register_policy initial_registry example_policy)
     (Some \<lparr>rc_org = None, rc_country = None, rc_unit = None, rc_project = Some ''P1'', rc_type = Some ''purchase_order''\<rparr>))
   = MatchType ''purchase_order''"
  using foreign_project_policy_applies [of example_policy "''P2''" "''P1''" "''purchase_order''"]
  by (simp add: example_policy_def default_policy_def)

end
