(* ===== verification/Inventory.thy ===== *)
theory Inventory
  imports Time_Util Money Half_Up
begin

text \<open>
  \<open>packages/domain/src/inventory.ts\<close> and the reservation endpoints of
  \<open>apps/api/src/inventory/inventory.controller.ts\<close>: reservations of serialized and bulk
  resources, maintenance holds, subrental exposure, drawing revisions on production, the
  movements of the warehouse and the allocation of assets to projects. Identifiers made of
  the clock and a random number, and the reading of the clock, are arguments.
\<close>

section \<open>Resources and reservations\<close>

datatype resource_type = Serialized | Bulk
datatype resource_status = Serviceable | InMaintenance | Quarantined | Retired
datatype writer_system = EosWriter | LegacyLocked
datatype reservation_status = TentativeRes | ConfirmedRes | ReleasedRes | CancelledRes

record resource =
  res_id :: string
  res_code :: string
  res_name :: string
  res_type :: resource_type
  res_total :: int
  res_usable :: int
  res_location :: string
  res_status :: resource_status
  res_writer :: writer_system

record reservation =
  rsv_id :: string
  rsv_resource :: string
  rsv_project :: string
  rsv_window :: time_window
  rsv_quantity :: int
  rsv_status :: reservation_status
  rsv_confirmed_at :: js_time

definition validate_serialized_reservation ::
  "resource \<Rightarrow> reservation list \<Rightarrow> string \<Rightarrow> time_window \<Rightarrow> unit res" where
  "validate_serialized_reservation r existing project w =
     bind_res (throw_if (res_type r \<noteq> Serialized) (ResourceTypeMismatch (res_code r))) (\<lambda>_.
     bind_res (throw_if (res_status r \<noteq> Serviceable \<or> res_usable r < 1) (ResourceNotServiceable (res_code r))) (\<lambda>_.
     bind_res (throw_if (res_writer r \<noteq> EosWriter) (WriterNotAuthoritative (res_code r))) (\<lambda>_.
       each_res (\<lambda>x. if rsv_status x \<noteq> ConfirmedRes then Inr ()
         else bind_res (overlaps (rsv_window x) w) (\<lambda>b.
           throw_if b (ReservationCollision (rsv_project x) project))) existing)))"

text \<open>\<open>filter\<close> with a predicate that may throw.\<close>

fun filter_res :: "('a \<Rightarrow> bool res) \<Rightarrow> 'a list \<Rightarrow> 'a list res" where
  "filter_res p [] = Inr []"
| "filter_res p (x # xs) = bind_res (p x) (\<lambda>b. bind_res (filter_res p xs) (\<lambda>ys. Inr (if b then x # ys else ys)))"

record bulk_result =
  bk_available :: int
  bk_can_fulfill :: bool
  bk_shortage :: int

definition validate_bulk_reservation ::
  "resource \<Rightarrow> reservation list \<Rightarrow> int \<Rightarrow> time_window \<Rightarrow> bulk_result res" where
  "validate_bulk_reservation r existing requested w =
     bind_res (throw_if (res_type r \<noteq> Bulk) (ResourceTypeMismatch (res_code r))) (\<lambda>_.
     bind_res (filter_res (\<lambda>x. if rsv_status x \<noteq> ConfirmedRes then Inr False else overlaps (rsv_window x) w) existing)
       (\<lambda>active.
     (let peak = sum_list (map rsv_quantity active);
          available = max 0 (res_usable r - peak);
          can_fulfill = (available \<ge> requested);
          shortage = (if can_fulfill then 0 else requested - available)
      in bind_res (throw_if (\<not> can_fulfill) (BulkCapacityExceeded requested available)) (\<lambda>_.
         Inr \<lparr>bk_available = available, bk_can_fulfill = can_fulfill, bk_shortage = shortage\<rparr>))))"

section \<open>The reservation endpoints\<close>

text \<open>
  The repositories are maps in insertion order; a stored record carries the organisation it
  belongs to. The request's organisation is an argument, as are the new identifier and the
  time.
\<close>

record inventory_db =
  db_projects :: "(string \<times> string) list"
  db_resources :: "(string \<times> (string \<times> resource)) list"
  db_reservations :: "(string \<times> (string \<times> reservation)) list"

record reserve_request =
  rq_id :: string
  rq_now :: js_time
  rq_org :: string
  rq_project :: string
  rq_resource :: string
  rq_window :: time_window
  rq_quantity :: int

definition find_project :: "inventory_db \<Rightarrow> string \<Rightarrow> string \<Rightarrow> unit res" where
  "find_project db org project = throw_if (map_of (db_projects db) project \<noteq> Some org) (NotFound ''PROJECT'')"

definition find_resource :: "inventory_db \<Rightarrow> string \<Rightarrow> string \<Rightarrow> resource res" where
  "find_resource db org rid = (case map_of (db_resources db) rid of
       Some (o', r) \<Rightarrow> if o' = org then Inr r else Inl (NotFound ''RESOURCE'')
     | None \<Rightarrow> Inl (NotFound ''RESOURCE''))"

definition reservations_of :: "inventory_db \<Rightarrow> resource \<Rightarrow> reservation list" where
  "reservations_of db r = filter (\<lambda>x. rsv_resource x = res_id r) (map (snd \<circ> snd) (db_reservations db))"

definition create_reservation :: "inventory_db \<Rightarrow> reserve_request \<Rightarrow> inventory_db res" where
  "create_reservation db q =
     bind_res (find_project db (rq_org q) (rq_project q)) (\<lambda>_.
     bind_res (find_resource db (rq_org q) (rq_resource q)) (\<lambda>r.
     (let existing = reservations_of db r in
      bind_res (if res_type r = Serialized
          then validate_serialized_reservation r existing (rq_project q) (rq_window q)
          else bind_res (validate_bulk_reservation r existing (rq_quantity q) (rq_window q)) (\<lambda>_. Inr ())) (\<lambda>_.
        Inr (db\<lparr>db_reservations := map_set (rq_id q) (rq_org q,
          \<lparr>rsv_id = rq_id q, rsv_resource = res_id r, rsv_project = rq_project q, rsv_window = rq_window q,
           rsv_quantity = rq_quantity q, rsv_status = ConfirmedRes, rsv_confirmed_at = rq_now q\<rparr>)
          (db_reservations db)\<rparr>)))))"

definition confirm_reservation ::
  "inventory_db \<Rightarrow> string \<Rightarrow> string \<Rightarrow> string \<Rightarrow> time_window \<Rightarrow> int \<Rightarrow> js_time \<Rightarrow> inventory_db res" where
  "confirm_reservation db org project rid w quantity now =
     bind_res (find_project db org project) (\<lambda>_.
     (case map_of (db_reservations db) rid of
        None \<Rightarrow> Inl (NotFound ''RESERVATION'')
      | Some (o', x) \<Rightarrow>
          if rsv_project x \<noteq> project \<or> o' \<noteq> org then Inl (NotFound ''RESERVATION'')
          else Inr (db\<lparr>db_reservations := map_set rid (o', x\<lparr>rsv_status := ConfirmedRes,
            rsv_confirmed_at := now, rsv_window := w, rsv_quantity := quantity\<rparr>) (db_reservations db)\<rparr>)))"

section \<open>Maintenance holds, subrental, production\<close>

datatype hold_status = HoldActive | HoldCleared

record maintenance_hold =
  hold_id :: string
  hold_resource :: string
  hold_reason :: string
  hold_report :: "string option"
  hold_since :: js_time
  hold_status :: hold_status
  hold_released :: "js_time option"
  hold_inspector :: "string option"

definition place_on_hold ::
  "js_time \<Rightarrow> string \<Rightarrow> resource \<Rightarrow> string \<Rightarrow> string option \<Rightarrow> resource \<times> maintenance_hold" where
  "place_on_hold now hid r reason report =
     (r\<lparr>res_usable := (if res_type r = Serialized then 0 else max 0 (res_usable r - 1)), res_status := InMaintenance\<rparr>,
      \<lparr>hold_id = hid, hold_resource = res_id r, hold_reason = reason, hold_report = report, hold_since = now,
       hold_status = HoldActive, hold_released = None, hold_inspector = None\<rparr>)"

definition release_hold ::
  "js_time \<Rightarrow> resource \<Rightarrow> maintenance_hold \<Rightarrow> string \<Rightarrow> (resource \<times> maintenance_hold) res" where
  "release_hold now r h inspector =
     bind_res (throw_if (hold_status h \<noteq> HoldActive) HoldNotActive) (\<lambda>_.
     Inr (r\<lparr>res_usable := (if res_type r = Serialized then res_total r else res_usable r + 1), res_status := Serviceable\<rparr>,
       h\<lparr>hold_status := HoldCleared, hold_released := Some now, hold_inspector := Some inspector\<rparr>))"

datatype subrental_status = OpenExposure | RfqIssued | PoCreated | SubrentalCancelled

record subrental_request =
  sr_id :: string
  sr_project :: string
  sr_resource :: string
  sr_requested :: int
  sr_shortage :: int
  sr_window :: time_window
  sr_cost :: money
  sr_status :: subrental_status

definition create_subrental_exposure ::
  "decimal_pkg \<Rightarrow> string \<Rightarrow> string \<Rightarrow> resource \<Rightarrow> int \<Rightarrow> time_window \<Rightarrow> money \<Rightarrow> subrental_request" where
  "create_subrental_exposure D sid project r shortage w rate =
     \<lparr>sr_id = sid, sr_project = project, sr_resource = res_id r, sr_requested = shortage, sr_shortage = shortage,
      sr_window = w, sr_cost = money_multiply D rate (of_int shortage), sr_status = OpenExposure\<rparr>"

datatype production_status = Queued | InProgress | FlaggedForReview | ProductionCompleted | ProductionCancelled

record production_order =
  po_id :: string
  po_project :: string
  po_design :: string
  po_design_version :: int
  po_title :: string
  po_ordered :: int
  po_completed :: int
  po_status :: production_status
  po_built_version :: int

definition handle_drawing_revision :: "production_order list \<Rightarrow> string \<Rightarrow> int \<Rightarrow> production_order list" where
  "handle_drawing_revision orders design version = map (\<lambda>o'.
     if po_design o' \<noteq> design then o'
     else if po_status o' = ProductionCompleted then o'
     else if po_status o' = InProgress \<or> po_status o' = Queued then o'\<lparr>po_status := FlaggedForReview\<rparr>
     else o') orders"

section \<open>Assets and the warehouse\<close>

datatype asset_availability =
    Available | Reserved | Allocated | Dispatched | OnSite | Returned | DamagedAvail | Unavailable

text \<open>A movement brings its condition as a string that the code casts, so a condition is a string.\<close>

record asset =
  as_id :: string
  as_tag :: string
  as_name :: string
  as_quantity :: int
  as_warehouse :: string
  as_zone :: string
  as_location :: string
  as_condition :: string
  as_availability :: asset_availability
  as_inspected :: "js_time option"

datatype movement_type =
    MReceived | MStored | MReserved | MAllocated | MPicked | MPacked | MDispatched | MOnSite
  | MReturned | MInspected | MRestocked

record movement =
  mv_asset :: string
  mv_source :: string
  mv_destination :: string
  mv_type :: movement_type
  mv_quantity :: int
  mv_condition :: string
  mv_project :: "string option"
  mv_user :: string
  mv_notes :: "string option"

record stamped_movement = movement +
  mv_id :: string
  mv_time :: js_time

definition standard_zones :: "string list" where
  "standard_zones = [''AV'', ''Lighting'', ''Furniture'', ''Games'', ''Scenic'', ''Branding'', ''Tools'',
     ''Consumables'', ''Quarantine'', ''Returns'']"

definition record_movement :: "string \<Rightarrow> js_time \<Rightarrow> movement \<Rightarrow> stamped_movement" where
  "record_movement mid now m = movement.extend m \<lparr>mv_id = mid, mv_time = now\<rparr>"

definition execute_movement :: "string \<Rightarrow> js_time \<Rightarrow> asset \<Rightarrow> movement \<Rightarrow> asset \<times> stamped_movement" where
  "execute_movement mid now a m =
     (let destination = mv_destination m;
          condition = (if mv_condition m = [] then as_condition a else mv_condition m);
          (destination', zone, availability) =
            (if mv_type m = MInspected \<and> condition \<in> set [''damaged'', ''needs_maintenance'', ''quarantined'']
             then (''Quarantine'', ''Quarantine'', DamagedAvail)
             else (case mv_type m of
                 MStored \<Rightarrow> (destination, destination, Available)
               | MRestocked \<Rightarrow> (destination, destination, Available)
               | MReserved \<Rightarrow> (destination, as_zone a, Reserved)
               | MAllocated \<Rightarrow> (destination, as_zone a, Reserved)
               | MPicked \<Rightarrow> (destination, as_zone a, Allocated)
               | MPacked \<Rightarrow> (destination, as_zone a, Allocated)
               | MDispatched \<Rightarrow> (destination, as_zone a, Dispatched)
               | MOnSite \<Rightarrow> (destination, as_zone a, OnSite)
               | MReturned \<Rightarrow> (destination, ''Returns'', Returned)
               | MInspected \<Rightarrow>
                   (if condition = ''good'' \<or> condition = ''serviceable'' \<or> condition = ''new''
                    then (destination, destination, Available)
                    else (destination, as_zone a, as_availability a))
               | MReceived \<Rightarrow> (destination, as_zone a, as_availability a)))
      in (a\<lparr>as_condition := condition, as_availability := availability, as_zone := zone, as_location := destination',
            as_inspected := (if mv_type m = MInspected then Some now else as_inspected a)\<rparr>,
          record_movement mid now (m\<lparr>mv_destination := destination'\<rparr>)))"

record fulfillment =
  ff_internal :: rat
  ff_external :: rat
  ff_rate :: int

definition calculate_internal_fulfillment :: "rat \<Rightarrow> rat \<Rightarrow> fulfillment" where
  "calculate_internal_fulfillment required available =
     (if required \<le> 0 then \<lparr>ff_internal = 0, ff_external = 0, ff_rate = 100\<rparr>
      else (let internal = min required (max 0 available);
                external = max 0 (required - internal)
            in \<lparr>ff_internal = internal, ff_external = external, ff_rate = js_round (internal / required * 100)\<rparr>))"

datatype allocation_status = TentativeAlloc | ConfirmedAlloc | ReleasedAlloc | ReturnedAlloc

record asset_allocation =
  aa_id :: string
  aa_asset :: string
  aa_project :: string
  aa_requirement :: "string option"
  aa_boq_line :: "string option"
  aa_quantity :: int
  aa_window :: time_window
  aa_status :: allocation_status

definition validate_asset_allocation ::
  "asset \<Rightarrow> asset_allocation list \<Rightarrow> string \<Rightarrow> time_window \<Rightarrow> unit res" where
  "validate_asset_allocation a existing project w =
     bind_res (throw_if (as_condition a \<in> set [''quarantined'', ''damaged'', ''retired'']) (AssetNotServiceable (as_tag a)))
       (\<lambda>_. each_res (\<lambda>x. if aa_status x \<noteq> ConfirmedAlloc then Inr ()
         else if aa_project x = project then Inr ()
         else bind_res (overlaps (aa_window x) w) (\<lambda>b. throw_if b (AssetProjectCollision (aa_project x) project)))
         existing)"

text \<open>
  The allocation endpoint, on one asset and the stored allocations of that asset; the new
  identifier is the request's and is fresh.
\<close>

definition allocate_asset ::
  "asset \<times> asset_allocation list \<Rightarrow> asset_allocation \<Rightarrow> (asset \<times> asset_allocation list) res" where
  "allocate_asset s x = (case s of (a, existing) \<Rightarrow>
     bind_res (validate_asset_allocation a existing (aa_project x) (aa_window x)) (\<lambda>_.
       Inr (a\<lparr>as_availability := Allocated\<rparr>,
         existing @ [x\<lparr>aa_status := ConfirmedAlloc, aa_asset := as_id a, aa_boq_line := None\<rparr>])))"

section \<open>No double booking\<close>

lemma filter_res_Inr:
  "filter_res p xs = Inr ys \<Longrightarrow> ys = filter (\<lambda>x. p x = Inr True) xs \<and> (\<forall>x \<in> set xs. \<exists>b. p x = Inr b)"
  by (induction xs arbitrary: ys) auto

text \<open>\<open>holds rid t x\<close>: at the instant \<open>t\<close> the reservation \<open>x\<close> holds units of the resource \<open>rid\<close>.\<close>

definition holds :: "string \<Rightarrow> int \<Rightarrow> reservation \<Rightarrow> bool" where
  "holds rid t x \<longleftrightarrow> rsv_resource x = rid \<and> rsv_status x = ConfirmedRes \<and> covers (rsv_window x) t"

definition held_units :: "string \<Rightarrow> int \<Rightarrow> string \<times> string \<times> reservation \<Rightarrow> int" where
  "held_units rid t e = (case e of (i, o', x) \<Rightarrow> if holds rid t x then rsv_quantity x else 0)"

definition load :: "inventory_db \<Rightarrow> string \<Rightarrow> int \<Rightarrow> int" where
  "load db rid t = sum_list (map (held_units rid t) (db_reservations db))"

definition exclusive :: "inventory_db \<Rightarrow> string \<Rightarrow> bool" where
  "exclusive db rid \<longleftrightarrow> (\<forall>(i, o1, x) \<in> set (db_reservations db). \<forall>(j, o2, y) \<in> set (db_reservations db).
     i \<noteq> j \<longrightarrow> (\<forall>t. \<not> (holds rid t x \<and> holds rid t y)))"

text \<open>
  The repositories are in order: a serialized resource is held by one reservation at a time,
  and at no instant are more units of a bulk resource held than are usable.
\<close>

definition booking_ok :: "inventory_db \<Rightarrow> string \<Rightarrow> resource \<Rightarrow> bool" where
  "booking_ok db rid r \<longleftrightarrow> (if res_type r = Serialized then exclusive db rid
     else (\<forall>t. load db rid t \<le> max 0 (res_usable r)))"

definition inventory_ok :: "inventory_db \<Rightarrow> bool" where
  "inventory_ok db \<longleftrightarrow> distinct (map fst (db_reservations db)) \<and>
     (\<forall>(i, o', x) \<in> set (db_reservations db). 0 \<le> rsv_quantity x) \<and>
     (\<forall>rid o' r. map_of (db_resources db) rid = Some (o', r) \<longrightarrow> res_id r = rid \<and> booking_ok db rid r)"

lemma find_resource_Inr:
  "find_resource db org rid = Inr r \<longleftrightarrow> map_of (db_resources db) rid = Some (org, r)"
  by (auto simp: find_resource_def split: option.splits if_splits)

lemma create_reservation_Inr:
  assumes "create_reservation db q = Inr db'"
  obtains r new where "map_of (db_resources db) (rq_resource q) = Some (rq_org q, r)"
    "db' = db\<lparr>db_reservations := map_set (rq_id q) (rq_org q, new) (db_reservations db)\<rparr>"
    "rsv_resource new = res_id r" "rsv_window new = rq_window q" "rsv_quantity new = rq_quantity q"
    "res_type r = Serialized \<Longrightarrow>
       validate_serialized_reservation r (reservations_of db r) (rq_project q) (rq_window q) = Inr ()"
    "res_type r \<noteq> Serialized \<Longrightarrow>
       \<exists>b. validate_bulk_reservation r (reservations_of db r) (rq_quantity q) (rq_window q) = Inr b"
proof -
  let ?new = "\<lambda>r. \<lparr>rsv_id = rq_id q, rsv_resource = res_id r, rsv_project = rq_project q, rsv_window = rq_window q,
     rsv_quantity = rq_quantity q, rsv_status = ConfirmedRes, rsv_confirmed_at = rq_now q\<rparr>"
  from assms obtain r where r: "map_of (db_resources db) (rq_resource q) = Some (rq_org q, r)"
    and db': "db' = db\<lparr>db_reservations := map_set (rq_id q) (rq_org q, ?new r) (db_reservations db)\<rparr>"
    and v: "(if res_type r = Serialized
        then validate_serialized_reservation r (reservations_of db r) (rq_project q) (rq_window q)
        else bind_res (validate_bulk_reservation r (reservations_of db r) (rq_quantity q) (rq_window q))
          (\<lambda>_. Inr ())) = Inr ()"
    by (auto simp: create_reservation_def find_resource_Inr Let_def)
  show ?thesis by (rule that [OF r db']) (use v in \<open>auto split: if_splits\<close>)
qed

lemma serialized_valid_disjoint:
  assumes "validate_serialized_reservation r xs project w = Inr ()" and "x \<in> set xs" and "rsv_status x = ConfirmedRes"
  shows "\<not> (covers (rsv_window x) t \<and> covers w t)"
proof -
  from assms(1) have "\<forall>x \<in> set xs. (if rsv_status x \<noteq> ConfirmedRes then Inr ()
      else bind_res (overlaps (rsv_window x) w) (\<lambda>b. throw_if b (ReservationCollision (rsv_project x) project))) = Inr ()"
    by (simp add: validate_serialized_reservation_def each_res_Inr_conv)
  from bspec [OF this assms(2)] have "overlaps (rsv_window x) w = Inr False"
    by (auto simp: assms(3))
  then show ?thesis by (rule overlaps_False_disjoint)
qed

lemma bulk_valid_room:
  assumes "validate_bulk_reservation r (reservations_of db r) n w = Inr b"
    and "\<forall>(i, o', x) \<in> set (db_reservations db). 0 \<le> rsv_quantity x" and "covers w t"
  shows "load db (res_id r) t + n \<le> max (load db (res_id r) t) (max 0 (res_usable r))"
proof -
  let ?p = "\<lambda>x. if rsv_status x \<noteq> ConfirmedRes then Inr False else overlaps (rsv_window x) w"
  from assms(1) obtain active where act: "filter_res ?p (reservations_of db r) = Inr active"
    and room: "n \<le> max 0 (res_usable r - sum_list (map rsv_quantity active))"
    by (auto simp: validate_bulk_reservation_def Let_def)
  note f = filter_res_Inr [OF act]
  have "sum_list (map (held_units (res_id r) t) es) \<le> sum_list (map rsv_quantity
      (filter (\<lambda>x. ?p x = Inr True) (filter (\<lambda>x. rsv_resource x = res_id r) (map (snd \<circ> snd) es))))"
    if "set es \<subseteq> set (db_reservations db)" for es
    using that
  proof (induction es)
    case Nil
    then show ?case by simp
  next
    case (Cons e es)
    obtain i o' x where e: "e = (i, o', x)" by (cases e) auto
    with Cons.prems have q: "0 \<le> rsv_quantity x" using assms(2) by auto
    have "?p x = Inr True" if "holds (res_id r) t x"
    proof -
      have "x \<in> set (reservations_of db r)" using Cons.prems e that
        by (force simp: reservations_of_def holds_def)
      with f that obtain b where "overlaps (rsv_window x) w = Inr b" by (auto simp: holds_def)
      then show ?thesis using overlaps_common that assms(3) by (auto simp: holds_def)
    qed
    with Cons q e show ?case by (auto simp: held_units_def holds_def)
  qed
  from this [of "db_reservations db"] f have "load db (res_id r) t \<le> sum_list (map rsv_quantity active)"
    by (simp add: load_def reservations_of_def)
  with room show ?thesis by linarith
qed

lemma create_keeps_ok:
  assumes ok: "inventory_ok db" and q: "0 < rq_quantity q" and step: "create_reservation db q = Inr db'"
  shows "inventory_ok db'"
proof -
  obtain r new where r: "map_of (db_resources db) (rq_resource q) = Some (rq_org q, r)"
    and db': "db' = db\<lparr>db_reservations := map_set (rq_id q) (rq_org q, new) (db_reservations db)\<rparr>"
    and new: "rsv_resource new = res_id r" "rsv_window new = rq_window q" "rsv_quantity new = rq_quantity q"
    and ser: "res_type r = Serialized \<Longrightarrow>
       validate_serialized_reservation r (reservations_of db r) (rq_project q) (rq_window q) = Inr ()"
    and blk: "res_type r \<noteq> Serialized \<Longrightarrow>
       \<exists>b. validate_bulk_reservation r (reservations_of db r) (rq_quantity q) (rq_window q) = Inr b"
    by (rule create_reservation_Inr [OF step]) blast
  have dist: "distinct (map fst (db_reservations db))"
    and pos: "\<forall>(i, o', x) \<in> set (db_reservations db). 0 \<le> rsv_quantity x"
    and books: "\<And>rid o' r. map_of (db_resources db) rid = Some (o', r) \<Longrightarrow> res_id r = rid \<and> booking_ok db rid r"
    using ok by (auto simp: inventory_ok_def)
  have rid: "res_id r = rq_resource q" using books [OF r] ..
  have entries: "set (db_reservations db') = insert (rq_id q, rq_org q, new) {p \<in> set (db_reservations db). fst p \<noteq> rq_id q}"
    by (simp add: db' set_map_set [OF dist])
  have "booking_ok db' rid' r'" if r': "map_of (db_resources db) rid' = Some (o', r')" for rid' o' r'
  proof (cases "res_type r' = Serialized")
    case True
    then have old: "exclusive db rid'" using books [OF r'] by (simp add: booking_ok_def)
    have clash: "\<not> (holds rid' t x \<and> holds rid' t new)" if "(i, o2, x) \<in> set (db_reservations db)" for i o2 x t
    proof
      assume h: "holds rid' t x \<and> holds rid' t new"
      then have "rid' = rq_resource q" using new rid by (simp add: holds_def)
      with r r' have "r' = r" by simp
      with True ser have v: "validate_serialized_reservation r (reservations_of db r) (rq_project q) (rq_window q) = Inr ()"
        by simp
      have "x \<in> set (reservations_of db r)" using that h rid \<open>rid' = rq_resource q\<close>
        by (force simp: reservations_of_def holds_def)
      from serialized_valid_disjoint [OF v this] h new show False by (auto simp: holds_def)
    qed
    have "exclusive db' rid'"
      unfolding exclusive_def entries using old clash
      by (auto simp: exclusive_def) blast+
    with True show ?thesis by (simp add: booking_ok_def)
  next
    case False
    have "load db' rid' t \<le> max 0 (res_usable r')" for t
    proof -
      have old: "load db rid' t \<le> max 0 (res_usable r')"
        using books [OF r'] False by (simp add: booking_ok_def)
      have sum: "load db' rid' t \<le> load db rid' t + held_units rid' t (rq_id q, rq_org q, new)"
        unfolding load_def db' using pos
        by (simp, intro sum_map_set) (auto simp: held_units_def)
      show ?thesis
      proof (cases "holds rid' t new")
        case h: True
        then have "rid' = rq_resource q" "covers (rq_window q) t" using new rid by (auto simp: holds_def)
        with r r' have "r' = r" by simp
        with False blk obtain b where "validate_bulk_reservation r (reservations_of db r) (rq_quantity q) (rq_window q) = Inr b"
          by blast
        from bulk_valid_room [OF this pos \<open>covers (rq_window q) t\<close>]
        have "load db rid' t + rq_quantity q \<le> max 0 (res_usable r')"
          using old \<open>r' = r\<close> rid \<open>rid' = rq_resource q\<close> by (simp add: max_def split: if_splits)
        with sum h new show ?thesis by (simp add: held_units_def)
      next
        case False
        with sum old show ?thesis by (simp add: held_units_def)
      qed
    qed
    with False show ?thesis by (simp add: booking_ok_def)
  qed
  with books pos q new show ?thesis
    by (auto simp: inventory_ok_def entries) (simp_all add: db' dist)
qed

interpretation bookings: guarded_run create_reservation inventory_ok "\<lambda>q. 0 < rq_quantity q"
  by unfold_locales (rule create_keeps_ok)

text \<open>
  C1: reservations are never double booked. Whatever sequence of reservation requests for
  positive quantities reaches the endpoint, accepted or rejected, from repositories in
  order: at no instant do two confirmed reservations hold one serialized resource, and at
  no instant are more units of a bulk resource held than are usable.
\<close>

theorem no_double_booking:
  assumes "inventory_ok db" and "\<forall>q \<in> set requests. 0 < rq_quantity q"
    and "map_of (db_resources (attempts create_reservation db requests)) rid = Some (org, r)"
  shows "if res_type r = Serialized
    then (\<forall>(i, o1, x) \<in> set (db_reservations (attempts create_reservation db requests)).
      \<forall>(j, o2, y) \<in> set (db_reservations (attempts create_reservation db requests)).
      i \<noteq> j \<longrightarrow> (\<forall>t. \<not> (holds rid t x \<and> holds rid t y)))
    else (\<forall>t. load (attempts create_reservation db requests) rid t \<le> max 0 (res_usable r))"
proof -
  have "inventory_ok (attempts create_reservation db requests)"
    by (rule bookings.attempts_inv [OF assms(1,2)])
  then have "booking_ok (attempts create_reservation db requests) rid r"
    using assms(3) unfolding inventory_ok_def by blast
  then show ?thesis unfolding booking_ok_def exclusive_def .
qed

definition example_resource :: "resource_type \<Rightarrow> resource" where
  "example_resource ty = \<lparr>res_id = ''R1'', res_code = ''LED'', res_name = ''LED wall'', res_type = ty,
     res_total = 10, res_usable = 10, res_location = ''Doha'', res_status = Serviceable, res_writer = EosWriter\<rparr>"

definition example_db :: "resource_type \<Rightarrow> inventory_db" where
  "example_db ty = \<lparr>db_projects = [(''P1'', ''E3''), (''P2'', ''E3'')],
     db_resources = [(''R1'', (''E3'', example_resource ty))], db_reservations = []\<rparr>"

definition example_request :: "string \<Rightarrow> string \<Rightarrow> int \<Rightarrow> int \<Rightarrow> int \<Rightarrow> reserve_request" where
  "example_request i p s e n = \<lparr>rq_id = i, rq_now = Some 0, rq_org = ''E3'', rq_project = p, rq_resource = ''R1'',
     rq_window = \<lparr>w_start = Some s, w_end = Some e\<rparr>, rq_quantity = n\<rparr>"

lemma example_db_ok: "inventory_ok (example_db ty)"
  by (simp add: inventory_ok_def booking_ok_def exclusive_def load_def example_db_def example_resource_def)

theorem no_double_booking_witness:
  "load (attempts create_reservation (example_db Bulk)
     [example_request ''a'' ''P1'' 0 10 6, example_request ''b'' ''P2'' 5 15 6, example_request ''c'' ''P2'' 10 15 10])
     ''R1'' 12 \<le> 10 \<and>
   length (db_reservations (attempts create_reservation (example_db Bulk)
     [example_request ''a'' ''P1'' 0 10 6, example_request ''b'' ''P2'' 5 15 6, example_request ''c'' ''P2'' 10 15 10])) = 2"
proof -
  let ?rs = "[example_request ''a'' ''P1'' 0 10 6, example_request ''b'' ''P2'' 5 15 6, example_request ''c'' ''P2'' 10 15 10]"
  let ?db = "attempts create_reservation (example_db Bulk) ?rs"
  have pos: "\<forall>q \<in> set ?rs. 0 < rq_quantity q" by (simp add: example_request_def)
  have run: "map_of (db_resources ?db) ''R1'' = Some (''E3'', example_resource Bulk) \<and> length (db_reservations ?db) = 2"
    by code_simp
  from no_double_booking [OF example_db_ok pos conjunct1 [OF run]] run show ?thesis
    by (simp add: example_resource_def)
qed

text \<open>
  Confirming is not guarded. The endpoint that confirms a reservation writes the window
  and quantity of its request without any check, so two reservations that were accepted for
  disjoint windows can be moved onto each other: the serialized resource is then held twice.
\<close>

theorem confirm_breaks_exclusivity:
  "\<exists>db db'. db = attempts create_reservation (example_db Serialized)
       [example_request ''a'' ''P1'' 0 10 1, example_request ''b'' ''P2'' 10 20 1] \<and>
     inventory_ok db \<and>
     confirm_reservation db ''E3'' ''P2'' ''b'' \<lparr>w_start = Some 0, w_end = Some 10\<rparr> 1 (Some 0) = Inr db' \<and>
     \<not> exclusive db' ''R1'' \<and> \<not> inventory_ok db'"
proof -
  let ?rs = "[example_request ''a'' ''P1'' 0 10 1, example_request ''b'' ''P2'' 10 20 1]"
  let ?db = "attempts create_reservation (example_db Serialized) ?rs"
  let ?x = "\<lambda>i p. \<lparr>rsv_id = i, rsv_resource = ''R1'', rsv_project = p, rsv_window = \<lparr>w_start = Some 0, w_end = Some 10\<rparr>,
    rsv_quantity = 1, rsv_status = ConfirmedRes, rsv_confirmed_at = Some 0\<rparr>"
  let ?db' = "(example_db Serialized)\<lparr>db_reservations := [(''a'', ''E3'', ?x ''a'' ''P1''), (''b'', ''E3'', ?x ''b'' ''P2'')]\<rparr>"
  have ok: "inventory_ok ?db"
    by (rule bookings.attempts_inv [OF example_db_ok]) (simp add: example_request_def)
  have step: "confirm_reservation ?db ''E3'' ''P2'' ''b'' \<lparr>w_start = Some 0, w_end = Some 10\<rparr> 1 (Some 0) = Inr ?db'"
    by code_simp
  have "holds ''R1'' 5 (?x ''a'' ''P1'') \<and> holds ''R1'' 5 (?x ''b'' ''P2'')" by code_simp
  then have twice: "\<not> exclusive ?db' ''R1''" by (auto simp: exclusive_def)
  then have "\<not> inventory_ok ?db'"
    by (auto simp: inventory_ok_def booking_ok_def example_db_def example_resource_def)
  with ok step twice show ?thesis by blast
qed

section \<open>Holds, fulfilment, movements, revisions\<close>

text \<open>
  A maintenance hold is undone by its release. A serviceable serialized resource that is
  fully usable, or a bulk resource with at least one usable unit, comes back exactly as it
  was and cannot be reserved in between (a serialized one); the cleared hold cannot be
  released again; but a bulk resource with no usable unit gains one.
\<close>

theorem hold_release_roundtrip:
  assumes "place_on_hold now hid r reason report = (r', h)" and "res_status r = Serviceable"
  shows "(res_type r = Serialized \<and> res_usable r = res_total r \<or> res_type r = Bulk \<and> 1 \<le> res_usable r \<longrightarrow>
      (\<exists>h'. release_hold later r' h inspector = Inr (r, h') \<and> release_hold later r h' other = Inl HoldNotActive)) \<and>
    (res_type r = Serialized \<longrightarrow> \<not> returns (validate_serialized_reservation r' xs project w)) \<and>
    (res_type r = Bulk \<and> res_usable r = 0 \<longrightarrow>
      (\<exists>s h'. release_hold later r' h inspector = Inr (s, h') \<and> res_usable s = 1))"
  using assms by (cases r)
    (auto simp: place_on_hold_def release_hold_def validate_serialized_reservation_def returns_conv)

text \<open>
  The split between stock and procurement adds up. For a positive requirement the
  internal and the external quantity are non-negative, add up to the requirement, never
  use more than what is available, buy nothing while stock suffices, and the rate lies
  between 0 and 100, being 100 when all comes from stock.
\<close>

theorem fulfillment_conserves:
  assumes "0 < required"
  shows "let f = calculate_internal_fulfillment required available in
    ff_internal f + ff_external f = required \<and> 0 \<le> ff_internal f \<and> 0 \<le> ff_external f \<and>
    ff_internal f \<le> max 0 available \<and> (0 < ff_external f \<longrightarrow> ff_internal f = max 0 available) \<and>
    0 \<le> ff_rate f \<and> ff_rate f \<le> 100 \<and> (ff_external f = 0 \<longrightarrow> ff_rate f = 100)"
proof -
  let ?i = "min required (max 0 available)"
  have i: "0 \<le> ?i" "?i \<le> required" using assms by auto
  have lo: "0 \<le> js_round (?i / required * 100)"
    using js_round_mono [of 0 "?i / required * 100"] i assms by simp
  have hi: "js_round (?i / required * 100) \<le> 100"
    using js_round_mono [of "?i / required * 100" 100] i assms by (simp add: divide_le_eq)
  have full: "?i = required \<Longrightarrow> js_round (?i / required * 100) = 100" using assms by simp
  show ?thesis using i lo hi full assms
    by (auto simp: calculate_internal_fulfillment_def Let_def max_def min_def)
qed

text \<open>
  An inspection decides where an asset goes. A failed inspection puts it into the
  Quarantine zone, marked damaged, whatever destination was asked for; a passed one makes it
  available at the destination; any other movement but storing and restocking never makes an
  asset available that was not.
\<close>

theorem inspection_decides:
  assumes "execute_movement mid now a m = (b, m')"
    and "c = (if mv_condition m = [] then as_condition a else mv_condition m)"
  shows "as_condition b = c \<and> mv_destination m' = as_location b \<and>
    (mv_type m = MInspected \<and> c \<in> {''damaged'', ''needs_maintenance'', ''quarantined''} \<longrightarrow>
      as_zone b = ''Quarantine'' \<and> as_location b = ''Quarantine'' \<and> as_availability b = DamagedAvail) \<and>
    (mv_type m = MInspected \<and> c \<in> {''good'', ''serviceable'', ''new''} \<longrightarrow>
      as_availability b = Available \<and> as_zone b = mv_destination m \<and> as_location b = mv_destination m) \<and>
    (as_availability b = Available \<and> as_availability a \<noteq> Available \<longrightarrow>
      mv_type m \<in> {MStored, MRestocked} \<or> mv_type m = MInspected \<and> c \<in> {''good'', ''serviceable'', ''new''})"
  using assms unfolding execute_movement_def Let_def
  by (cases "mv_type m") (auto simp: record_movement_def movement.defs split: if_splits)

text \<open>
  A drawing revision touches only open orders of its design. Completed and cancelled
  orders, and orders of other designs, are unchanged; queued and running ones are flagged;
  no order's built version or completed units change.
\<close>

theorem revision_keeps_history:
  "list_all2 (\<lambda>x y. po_id y = po_id x \<and> po_built_version y = po_built_version x \<and> po_completed y = po_completed x \<and>
     (if po_design x = design \<and> po_status x \<in> {Queued, InProgress} then y = x\<lparr>po_status := FlaggedForReview\<rparr> else y = x))
     orders (handle_drawing_revision orders design version)"
  by (auto simp: handle_drawing_revision_def list.rel_map intro!: list_all2_refl)

text \<open>
  The exposure of a shortage is an exposure only: it is open, it costs the unit rate
  times the shortage, exactly while that product is within the precision of the package, and
  it keeps the currency of the rate.
\<close>

lemma shortage_exposure_exact:
  assumes "decimal_arith D" and "on_grid (m_amount rate * of_int shortage)" and "wf_money rate"
  shows "sr_cost (create_subrental_exposure D sid project r shortage w rate) =
      \<lparr>m_amount = m_amount rate * of_int shortage, m_currency = m_currency rate\<rparr> \<and>
    sr_status (create_subrental_exposure D sid project r shortage w rate) = OpenExposure"
  using decimal_arith.round_on_grid [OF assms(1,2)] assms(3)
  by (simp add: create_subrental_exposure_def money_multiply_def money_times_def mk_money_def wf_money_def)

section \<open>Allocation of assets\<close>

definition alloc_holds :: "int \<Rightarrow> asset_allocation \<Rightarrow> bool" where
  "alloc_holds t x \<longleftrightarrow> aa_status x = ConfirmedAlloc \<and> covers (aa_window x) t"

definition allocations_ok :: "asset_allocation list \<Rightarrow> bool" where
  "allocations_ok = sorted_wrt (\<lambda>x y. aa_project x \<noteq> aa_project y \<longrightarrow> (\<forall>t. \<not> (alloc_holds t x \<and> alloc_holds t y)))"

lemma allocate_keeps_ok:
  assumes "allocations_ok (snd s)" and "allocate_asset s x = Inr s'"
  shows "allocations_ok (snd s')"
proof -
  obtain a xs where s: "s = (a, xs)" by (cases s)
  let ?new = "x\<lparr>aa_status := ConfirmedAlloc, aa_asset := as_id a, aa_boq_line := None\<rparr>"
  from assms(2) s have ys: "snd s' = xs @ [?new]"
    and chk: "\<forall>y \<in> set xs. (if aa_status y \<noteq> ConfirmedAlloc then Inr () else if aa_project y = aa_project x then Inr ()
      else bind_res (overlaps (aa_window y) (aa_window x)) (\<lambda>b. throw_if b (AssetProjectCollision (aa_project y) (aa_project x)))) = Inr ()"
    by (auto simp: allocate_asset_def validate_asset_allocation_def each_res_Inr_conv)
  have "\<not> (alloc_holds t y \<and> alloc_holds t ?new)" if "y \<in> set xs" "aa_project y \<noteq> aa_project x" for y t
  proof
    assume h: "alloc_holds t y \<and> alloc_holds t ?new"
    with bspec [OF chk that(1)] that(2) have "overlaps (aa_window y) (aa_window x) = Inr False"
      by (auto simp: alloc_holds_def)
    from overlaps_False_disjoint [OF this] h show False by (auto simp: alloc_holds_def)
  qed
  with assms(1) s show ?thesis by (auto simp: ys allocations_ok_def sorted_wrt_append)
qed

interpretation allocations: guarded_run allocate_asset "\<lambda>s. allocations_ok (snd s)" "\<lambda>_. True"
  by unfold_locales (rule allocate_keeps_ok)

text \<open>
  An asset serves one project at a time. However allocations of an asset are requested,
  no two confirmed allocations of different projects ever cover the same instant, and a
  damaged, quarantined or retired asset is never allocated.
\<close>

theorem asset_serves_one_project:
  "sorted_wrt (\<lambda>x y. aa_project x = aa_project y \<or> (\<nexists>t. alloc_holds t x \<and> alloc_holds t y))
     (snd (attempts allocate_asset (a, []) requests)) \<and>
   (as_condition a = ''damaged'' \<or> as_condition a = ''quarantined'' \<or> as_condition a = ''retired'' \<longrightarrow>
     attempts allocate_asset (a, []) requests = (a, []))"
proof
  have "allocations_ok (snd (attempts allocate_asset (a, []) requests))"
    by (rule allocations.attempts_inv) (simp_all add: allocations_ok_def)
  then show "sorted_wrt (\<lambda>x y. aa_project x = aa_project y \<or> (\<nexists>t. alloc_holds t x \<and> alloc_holds t y))
     (snd (attempts allocate_asset (a, []) requests))"
    unfolding allocations_ok_def by (rule sorted_wrt_mono_rel [rotated]) blast
  show "as_condition a = ''damaged'' \<or> as_condition a = ''quarantined'' \<or> as_condition a = ''retired'' \<longrightarrow>
     attempts allocate_asset (a, []) requests = (a, [])"
    by (induction requests) (auto simp: allocate_asset_def validate_asset_allocation_def)
qed

section \<open>Witnesses\<close>

definition example_asset :: "string \<Rightarrow> asset" where
  "example_asset c = \<lparr>as_id = ''A1'', as_tag = ''T1'', as_name = ''Projector'', as_quantity = 1, as_warehouse = ''W1'',
     as_zone = ''AV'', as_location = ''AV'', as_condition = c, as_availability = Returned, as_inspected = None\<rparr>"

definition example_allocation :: "string \<Rightarrow> int \<Rightarrow> int \<Rightarrow> asset_allocation" where
  "example_allocation p s e = \<lparr>aa_id = p, aa_asset = ''A1'', aa_project = p, aa_requirement = None, aa_boq_line = None,
     aa_quantity = 1, aa_window = \<lparr>w_start = Some s, w_end = Some e\<rparr>, aa_status = TentativeAlloc\<rparr>"

theorem hold_release_roundtrip_witness:
  "\<exists>h'. release_hold (Some 9) (fst (place_on_hold (Some 1) ''h'' (example_resource Bulk) ''crack'' None))
     (snd (place_on_hold (Some 1) ''h'' (example_resource Bulk) ''crack'' None)) ''insp'' = Inr (example_resource Bulk, h')"
  using conjunct1 [OF hold_release_roundtrip [OF prod.collapse [symmetric], where now = "Some 1" and hid = "''h''"
      and r = "example_resource Bulk" and reason = "''crack''" and report = None and later = "Some 9"
      and inspector = "''insp''"]]
  by (auto simp: example_resource_def)

theorem fulfillment_conserves_witness:
  "ff_internal (calculate_internal_fulfillment 30 8) + ff_external (calculate_internal_fulfillment 30 8) = 30"
  using conjunct1 [OF fulfillment_conserves [of 30 8, unfolded Let_def]] by simp

definition example_movement :: movement where
  "example_movement = \<lparr>mv_asset = ''A1'', mv_source = ''Returns'', mv_destination = ''AV'', mv_type = MInspected,
     mv_quantity = 1, mv_condition = ''damaged'', mv_project = None, mv_user = ''u'', mv_notes = None\<rparr>"

theorem inspection_decides_witness:
  "as_zone (fst (execute_movement ''m'' (Some 0) (example_asset ''good'') example_movement)) = ''Quarantine''"
  using inspection_decides [OF prod.collapse [symmetric] refl, where m = example_movement and mid = "''m''"
      and now = "Some 0" and a = "example_asset ''good''"]
  by (simp add: example_movement_def)

theorem revision_keeps_history_witness:
  "length (handle_drawing_revision [\<lparr>po_id = ''o'', po_project = ''P'', po_design = ''D'', po_design_version = 1,
     po_title = ''t'', po_ordered = 2, po_completed = 2, po_status = ProductionCompleted, po_built_version = 1\<rparr>] ''D'' 2) = 1"
  using list_all2_lengthD [OF revision_keeps_history [of "''D''" "[\<lparr>po_id = ''o'', po_project = ''P'', po_design = ''D'',
     po_design_version = 1, po_title = ''t'', po_ordered = 2, po_completed = 2, po_status = ProductionCompleted,
     po_built_version = 1\<rparr>]" 2]] by simp

theorem asset_serves_one_project_witness:
  "length (snd (attempts allocate_asset (example_asset ''good'', [])
     [example_allocation ''P1'' 0 10, example_allocation ''P2'' 5 8])) = 1 \<and>
   attempts allocate_asset (example_asset ''damaged'', []) [example_allocation ''P1'' 0 10] = (example_asset ''damaged'', [])"
  using asset_serves_one_project [of "example_asset ''damaged''" "[example_allocation ''P1'' 0 10]"]
  by (simp add: example_asset_def example_allocation_def allocate_asset_def validate_asset_allocation_def
      overlaps_def intervals_overlap_def time_lt_def time_le_def)

end
