(* ===== verification/Three_Way_Match.thy ===== *)
theory Three_Way_Match
  imports Money Half_Up
begin

text \<open>
  \<open>packages/domain/src/three-way-match.ts\<close>: the match of a supplier invoice against its
  purchase order and receipts. Quantities, rates and percentages are rationals; the message
  of a discrepancy, a text for people, is left out.
\<close>

section \<open>Data\<close>

record po_line =
  pl_id :: string
  pl_description :: string
  pl_quantity :: rat
  pl_rate :: rat
  pl_total :: rat

record match_po =
  mp_id :: string
  mp_currency :: string
  mp_total :: money_input
  mp_remaining :: money_input
  mp_service :: bool
  mp_lines :: "po_line list"

record match_receipt =
  rc_id :: string
  rc_po :: string
  rc_line :: "string option"
  rc_accepted :: rat
  rc_signed :: bool

record invoice_line =
  il_id :: "string option"
  il_po_line :: "string option"
  il_description :: string
  il_quantity :: rat
  il_unit_cost :: rat
  il_total :: rat
  il_tax :: "rat option"

record match_invoice =
  mi_number :: string
  mi_vendor :: string
  mi_currency :: string
  mi_total :: money_input
  mi_lines :: "invoice_line list"

record known_invoice =
  ki_id :: string
  ki_vendor :: string
  ki_number :: string

datatype discrepancy_code =
    DuplicateInvoice | ExceedsPoAmount | ServiceUnacknowledged | UnmatchedInvoiceLine
  | QuantityMismatch | RateMismatch | TaxMismatch

datatype shown_value = ShownText string | ShownNumber rat

record discrepancy =
  dc_code :: discrepancy_code
  dc_field :: string
  dc_expected :: shown_value
  dc_actual :: shown_value

record match_result =
  mr_overall :: bool
  mr_duplicate :: bool
  mr_exceeds :: bool
  mr_quantity :: bool
  mr_rate :: bool
  mr_tax :: bool
  mr_service :: bool
  mr_details :: "discrepancy list"

record match_options =
  mo_variance :: "rat option"
  mo_tax :: "rat option"

section \<open>The match\<close>

definition is_duplicate :: "match_invoice \<Rightarrow> known_invoice list \<Rightarrow> bool" where
  "is_duplicate bill existing \<longleftrightarrow> list_ex (\<lambda>e. ki_vendor e = mi_vendor bill \<and>
     to_lower (trim (ki_number e)) = to_lower (trim (mi_number bill))) existing"

definition service_missing :: "match_po \<Rightarrow> match_receipt list \<Rightarrow> bool" where
  "service_missing po receipts \<longleftrightarrow> mp_service po \<and> \<not> list_ex (\<lambda>r. rc_po r = mp_id po \<and> rc_signed r) receipts"

definition find_po_line :: "match_po \<Rightarrow> invoice_line \<Rightarrow> po_line option" where
  "find_po_line po l = List.find (\<lambda>p. Some (pl_id p) = il_po_line l \<or> pl_description p = il_description l) (mp_lines po)"

definition matching_receipts :: "match_po \<Rightarrow> match_receipt list \<Rightarrow> po_line \<Rightarrow> match_receipt list" where
  "matching_receipts po receipts p =
     filter (\<lambda>r. rc_po r = mp_id po \<and> (rc_line r = Some (pl_id p) \<or> rc_line r = None \<or> rc_line r = Some '''')) receipts"

definition max_allowed_quantity :: "match_po \<Rightarrow> match_receipt list \<Rightarrow> po_line \<Rightarrow> rat" where
  "max_allowed_quantity po receipts p = (let ms = matching_receipts po receipts p in
     if 0 < length ms then foldl (\<lambda>s r. s + rc_accepted r) 0 ms else pl_quantity p)"

text \<open>The state of the loop over the invoice lines.\<close>

record line_flags =
  lf_quantity :: bool
  lf_rate :: bool
  lf_tax :: bool
  lf_details :: "discrepancy list"

definition line_field :: "invoice_line \<Rightarrow> string \<Rightarrow> string" where
  "line_field l f = ''lines['' @ il_description l @ ''].'' @ f"

definition check_line ::
  "match_po \<Rightarrow> match_receipt list \<Rightarrow> rat \<Rightarrow> rat \<Rightarrow> invoice_line \<Rightarrow> line_flags \<Rightarrow> line_flags" where
  "check_line po receipts tolerance standard_tax l s = (case find_po_line po l of
       None \<Rightarrow> s\<lparr>lf_rate := True, lf_details := lf_details s @
         [\<lparr>dc_code = UnmatchedInvoiceLine, dc_field = ''poLineId'', dc_expected = ShownText ''Valid PO Line ID'',
           dc_actual = ShownText (il_description l)\<rparr>]\<rparr>
     | Some p \<Rightarrow>
         (let allowed = max_allowed_quantity po receipts p;
              s1 = (if il_quantity l > allowed
                then s\<lparr>lf_quantity := True, lf_details := lf_details s @ [\<lparr>dc_code = QuantityMismatch,
                  dc_field = line_field l ''quantity'', dc_expected = ShownNumber allowed,
                  dc_actual = ShownNumber (il_quantity l)\<rparr>]\<rparr>
                else s);
              max_rate = pl_rate p * (1 + tolerance / 100);
              s2 = (if il_unit_cost l > max_rate
                then s1\<lparr>lf_rate := True, lf_details := lf_details s1 @ [\<lparr>dc_code = RateMismatch,
                  dc_field = line_field l ''unitCost'', dc_expected = ShownNumber (pl_rate p),
                  dc_actual = ShownNumber (il_unit_cost l)\<rparr>]\<rparr>
                else s1)
          in (case il_tax l of
                Some tax \<Rightarrow> (if standard_tax > 0 \<and> tax > standard_tax
                  then s2\<lparr>lf_tax := True, lf_details := lf_details s2 @ [\<lparr>dc_code = TaxMismatch,
                    dc_field = line_field l ''taxRate'', dc_expected = ShownNumber standard_tax,
                    dc_actual = ShownNumber tax\<rparr>]\<rparr>
                  else s2)
              | None \<Rightarrow> s2)))"

definition or_zero :: "match_options option \<Rightarrow> (match_options \<Rightarrow> rat option) \<Rightarrow> rat" where
  "or_zero opts f = (case Option.bind opts f of Some x \<Rightarrow> x | None \<Rightarrow> 0)"

text \<open>The discrepancies of the checks 1 to 3, in their order.\<close>

definition header_discrepancies ::
  "decimal_pkg \<Rightarrow> match_invoice \<Rightarrow> money \<Rightarrow> money \<Rightarrow> bool \<Rightarrow> bool \<Rightarrow> bool \<Rightarrow> discrepancy list" where
  "header_discrepancies D bill remaining amount duplicate exceeds unack =
     (if duplicate then [\<lparr>dc_code = DuplicateInvoice, dc_field = ''invoiceNumber'',
        dc_expected = ShownText ''Unique invoice number'', dc_actual = ShownText (mi_number bill)\<rparr>] else []) @
     (if exceeds then [\<lparr>dc_code = ExceedsPoAmount, dc_field = ''totalAmount'',
        dc_expected = ShownText (money_to_string D remaining), dc_actual = ShownText (money_to_string D amount)\<rparr>]
      else []) @
     (if unack then [\<lparr>dc_code = ServiceUnacknowledged, dc_field = ''receipts'',
        dc_expected = ShownText ''Signed-off service receipt present'', dc_actual = ShownText ''None found''\<rparr>]
      else [])"

definition match_summary :: "bool \<Rightarrow> bool \<Rightarrow> bool \<Rightarrow> line_flags \<Rightarrow> match_result" where
  "match_summary duplicate exceeds unack s =
     \<lparr>mr_overall = (\<not> duplicate \<and> \<not> exceeds \<and> \<not> lf_quantity s \<and> \<not> lf_rate s \<and> \<not> lf_tax s \<and> \<not> unack),
      mr_duplicate = duplicate, mr_exceeds = exceeds, mr_quantity = lf_quantity s, mr_rate = lf_rate s,
      mr_tax = lf_tax s, mr_service = unack, mr_details = lf_details s\<rparr>"

definition evaluate_match ::
  "decimal_pkg \<Rightarrow> match_po \<Rightarrow> match_receipt list \<Rightarrow> match_invoice \<Rightarrow> known_invoice list \<Rightarrow> match_options option
     \<Rightarrow> match_result res" where
  "evaluate_match D po receipts bill existing opts =
     bind_res (new_money D (mp_remaining po) (mi_currency bill)) (\<lambda>remaining.
     bind_res (new_money D (mi_total bill) (mi_currency bill)) (\<lambda>total.
     bind_res (money_gt total remaining) (\<lambda>exceeds.
     (let duplicate = is_duplicate bill existing;
          unack = service_missing po receipts;
          s = fold (check_line po receipts (or_zero opts mo_variance) (or_zero opts mo_tax)) (mi_lines bill)
            \<lparr>lf_quantity = False, lf_rate = False, lf_tax = False,
             lf_details = header_discrepancies D bill remaining total duplicate exceeds unack\<rparr>
      in Inr (match_summary duplicate exceeds unack s)))))"

section \<open>What a match means\<close>

text \<open>An invoice line that the order authorises.\<close>

definition line_ok :: "match_po \<Rightarrow> match_receipt list \<Rightarrow> rat \<Rightarrow> rat \<Rightarrow> invoice_line \<Rightarrow> bool" where
  "line_ok po receipts tolerance standard_tax l \<longleftrightarrow> (\<exists>p. find_po_line po l = Some p \<and>
     il_quantity l \<le> max_allowed_quantity po receipts p \<and>
     il_unit_cost l \<le> pl_rate p * (1 + tolerance / 100) \<and>
     (\<forall>tax. il_tax l = Some tax \<and> 0 < standard_tax \<longrightarrow> tax \<le> standard_tax))"

definition clean :: "line_flags \<Rightarrow> bool" where
  "clean s \<longleftrightarrow> \<not> lf_quantity s \<and> \<not> lf_rate s \<and> \<not> lf_tax s"

lemma clean_initial [simp]:
  "clean \<lparr>lf_quantity = False, lf_rate = False, lf_tax = False, lf_details = ds\<rparr>"
  by (simp add: clean_def)

lemma check_line_clean:
  "clean (check_line po receipts tol tax l s) \<longleftrightarrow> clean s \<and> line_ok po receipts tol tax l"
  "(lf_details (check_line po receipts tol tax l s) = [] \<longleftrightarrow> lf_details s = [] \<and> line_ok po receipts tol tax l)"
  by (auto simp: check_line_def clean_def line_ok_def Let_def split: option.splits)

lemma check_lines_clean:
  "clean (fold (check_line po receipts tol tax) ls s) \<longleftrightarrow> clean s \<and> (\<forall>l \<in> set ls. line_ok po receipts tol tax l)"
  "lf_details (fold (check_line po receipts tol tax) ls s) = [] \<longleftrightarrow>
     lf_details s = [] \<and> (\<forall>l \<in> set ls. line_ok po receipts tol tax l)"
  by (induction ls arbitrary: s) (auto simp: check_line_clean)

lemma header_Nil:
  "header_discrepancies D bill remaining amount duplicate exceeds unack = [] \<longleftrightarrow>
     \<not> duplicate \<and> \<not> exceeds \<and> \<not> unack"
  by (simp add: header_discrepancies_def)

lemma match_summary_fields [simp]:
  "mr_duplicate (match_summary d x u s) = d" "mr_exceeds (match_summary d x u s) = x"
  "mr_service (match_summary d x u s) = u" "mr_details (match_summary d x u s) = lf_details s"
  "mr_overall (match_summary d x u s) \<longleftrightarrow> \<not> d \<and> \<not> x \<and> \<not> u \<and> clean s"
  by (auto simp: match_summary_def clean_def)

lemma evaluate_match_Inr:
  assumes "evaluate_match D po receipts bill existing opts = Inr r"
  obtains remaining total where "new_money D (mp_remaining po) (mi_currency bill) = Inr remaining"
    "new_money D (mi_total bill) (mi_currency bill) = Inr total" "m_currency total = m_currency remaining"
    "mr_duplicate r = is_duplicate bill existing" "mr_exceeds r \<longleftrightarrow> m_amount remaining < m_amount total"
    "mr_service r = service_missing po receipts"
    "mr_overall r \<longleftrightarrow> \<not> mr_duplicate r \<and> \<not> mr_exceeds r \<and> \<not> mr_service r \<and>
       (\<forall>l \<in> set (mi_lines bill). line_ok po receipts (or_zero opts mo_variance) (or_zero opts mo_tax) l)"
    "mr_details r = [] \<longleftrightarrow> mr_overall r"
proof -
  note lines = check_lines_clean [of po receipts "or_zero opts mo_variance" "or_zero opts mo_tax" "mi_lines bill"]
  from assms obtain remaining total where m: "new_money D (mp_remaining po) (mi_currency bill) = Inr remaining"
    "new_money D (mi_total bill) (mi_currency bill) = Inr total" "m_currency total = m_currency remaining"
    and r: "r = (let x = m_amount remaining < m_amount total; d = is_duplicate bill existing; u = service_missing po receipts
      in match_summary d x u (fold (check_line po receipts (or_zero opts mo_variance) (or_zero opts mo_tax)) (mi_lines bill)
        \<lparr>lf_quantity = False, lf_rate = False, lf_tax = False, lf_details = header_discrepancies D bill remaining total d x u\<rparr>))"
    by (auto simp: evaluate_match_def Let_def guard_simps)
  show ?thesis
    by (rule that [OF m]) (simp_all add: r Let_def lines header_Nil)
qed

text \<open>What each flag of the lines reports.\<close>

lemma check_line_flags:
  "lf_quantity (check_line po receipts tol tax l s) \<longleftrightarrow> lf_quantity s \<or>
     (\<exists>p. find_po_line po l = Some p \<and> max_allowed_quantity po receipts p < il_quantity l)"
  "lf_rate (check_line po receipts tol tax l s) \<longleftrightarrow> lf_rate s \<or> find_po_line po l = None \<or>
     (\<exists>p. find_po_line po l = Some p \<and> pl_rate p * (1 + tol / 100) < il_unit_cost l)"
  "lf_tax (check_line po receipts tol tax l s) \<longleftrightarrow> lf_tax s \<or>
     (\<exists>p t. find_po_line po l = Some p \<and> il_tax l = Some t \<and> 0 < tax \<and> tax < t)"
  by (auto simp: check_line_def Let_def split: option.splits)

lemma check_lines_flags:
  "lf_quantity (fold (check_line po receipts tol tax) ls s) \<longleftrightarrow> lf_quantity s \<or>
     (\<exists>l \<in> set ls. \<exists>p. find_po_line po l = Some p \<and> max_allowed_quantity po receipts p < il_quantity l)"
  "lf_rate (fold (check_line po receipts tol tax) ls s) \<longleftrightarrow> lf_rate s \<or>
     (\<exists>l \<in> set ls. find_po_line po l = None \<or> (\<exists>p. find_po_line po l = Some p \<and> pl_rate p * (1 + tol / 100) < il_unit_cost l))"
  "lf_tax (fold (check_line po receipts tol tax) ls s) \<longleftrightarrow> lf_tax s \<or>
     (\<exists>l \<in> set ls. \<exists>p t. find_po_line po l = Some p \<and> il_tax l = Some t \<and> 0 < tax \<and> tax < t)"
  by (induction ls arbitrary: s) (simp_all add: check_line_flags disj_ac)

lemma allowed_quantity_sum:
  "max_allowed_quantity po receipts p = (let rs = matching_receipts po receipts p in
     if rs = [] then pl_quantity p else sum_list (map rc_accepted rs))"
proof -
  have "foldl (\<lambda>s r. s + rc_accepted r) x rs = x + sum_list (map rc_accepted rs)" for x and rs :: "match_receipt list"
    by (induction rs arbitrary: x) (simp_all add: add.assoc)
  then show ?thesis by (simp add: max_allowed_quantity_def Let_def)
qed

lemma evaluate_match_flags:
  assumes "evaluate_match D po receipts bill existing opts = Inr r"
  defines "tol \<equiv> or_zero opts mo_variance" and "tax \<equiv> or_zero opts mo_tax"
  shows "mr_quantity r \<longleftrightarrow> (\<exists>l \<in> set (mi_lines bill). \<exists>p. find_po_line po l = Some p \<and> max_allowed_quantity po receipts p < il_quantity l)"
    and "mr_rate r \<longleftrightarrow> (\<exists>l \<in> set (mi_lines bill). find_po_line po l = None \<or>
      (\<exists>p. find_po_line po l = Some p \<and> pl_rate p * (1 + tol / 100) < il_unit_cost l))"
    and "mr_tax r \<longleftrightarrow> (\<exists>l \<in> set (mi_lines bill). \<exists>p t. find_po_line po l = Some p \<and> il_tax l = Some t \<and> 0 < tax \<and> tax < t)"
proof -
  obtain d x u ds where "r = match_summary d x u (fold (check_line po receipts tol tax) (mi_lines bill)
      \<lparr>lf_quantity = False, lf_rate = False, lf_tax = False, lf_details = ds\<rparr>)"
    using assms(1) by (auto simp: evaluate_match_def Let_def tol_def tax_def)
  then show "mr_quantity r \<longleftrightarrow> (\<exists>l \<in> set (mi_lines bill). \<exists>p. find_po_line po l = Some p \<and> max_allowed_quantity po receipts p < il_quantity l)"
    and "mr_rate r \<longleftrightarrow> (\<exists>l \<in> set (mi_lines bill). find_po_line po l = None \<or>
      (\<exists>p. find_po_line po l = Some p \<and> pl_rate p * (1 + tol / 100) < il_unit_cost l))"
    and "mr_tax r \<longleftrightarrow> (\<exists>l \<in> set (mi_lines bill). \<exists>p t. find_po_line po l = Some p \<and> il_tax l = Some t \<and> 0 < tax \<and> tax < t)"
    by (simp_all only: match_summary_def match_result.simps check_lines_flags line_flags.simps simp_thms)
qed

text \<open>
  C10: an invoice is matched exactly when nothing is wrong with it. The overall match holds
  if and only if no discrepancy is reported, and that is the case if and only if none of the
  flags for a known invoice, an exceeded order and an unacknowledged service is up and every
  line, each by itself, names a line of the order and stays within its quantity, rate and
  tax. The flags are exact too: the vendor has an invoice with this number (up to case and
  surrounding blanks); the total is above what remains of the order; a service order has no
  signed receipt; a line is above the quantity received, which is the sum of what the receipts
  of the order accepted for the line or for no line in particular, or the ordered quantity if
  there is no such receipt; a line has no counterpart or is above the agreed rate with its
  tolerance; a line is above a positive standard tax rate.
\<close>

theorem match_exact:
  assumes "evaluate_match D po receipts bill existing opts = Inr r"
  shows "let ordered = (\<lambda>l. List.find (\<lambda>p. Some (pl_id p) = il_po_line l \<or> pl_description p = il_description l) (mp_lines po));
      received = (\<lambda>p. filter (\<lambda>g. rc_po g = mp_id po \<and> (rc_line g = Some (pl_id p) \<or> rc_line g = None \<or> rc_line g = Some [])) receipts);
      limit = (\<lambda>p. if received p = [] then pl_quantity p else sum_list (map rc_accepted (received p)));
      tolerance = (case Option.bind opts mo_variance of Some x \<Rightarrow> x | None \<Rightarrow> 0);
      tax = (case Option.bind opts mo_tax of Some x \<Rightarrow> x | None \<Rightarrow> 0)
    in (mr_overall r \<longleftrightarrow> mr_details r = []) \<and>
    (mr_overall r \<longleftrightarrow> \<not> mr_duplicate r \<and> \<not> mr_exceeds r \<and> \<not> mr_service r \<and>
       (\<forall>l \<in> set (mi_lines bill). \<exists>p. ordered l = Some p \<and> il_quantity l \<le> limit p \<and>
          il_unit_cost l \<le> pl_rate p * (1 + tolerance / 100) \<and> (\<forall>t. il_tax l = Some t \<and> 0 < tax \<longrightarrow> t \<le> tax))) \<and>
    (mr_duplicate r \<longleftrightarrow> (\<exists>e \<in> set existing. ki_vendor e = mi_vendor bill \<and>
       to_lower (trim (ki_number e)) = to_lower (trim (mi_number bill)))) \<and>
    (mr_exceeds r \<longleftrightarrow> (\<exists>remaining total. new_money D (mp_remaining po) (mi_currency bill) = Inr remaining \<and>
       new_money D (mi_total bill) (mi_currency bill) = Inr total \<and> m_amount remaining < m_amount total)) \<and>
    (mr_service r \<longleftrightarrow> mp_service po \<and> \<not> (\<exists>g \<in> set receipts. rc_po g = mp_id po \<and> rc_signed g)) \<and>
    (mr_quantity r \<longleftrightarrow> (\<exists>l \<in> set (mi_lines bill). \<exists>p. ordered l = Some p \<and> limit p < il_quantity l)) \<and>
    (mr_rate r \<longleftrightarrow> (\<exists>l \<in> set (mi_lines bill). ordered l = None \<or>
       (\<exists>p. ordered l = Some p \<and> pl_rate p * (1 + tolerance / 100) < il_unit_cost l))) \<and>
    (mr_tax r \<longleftrightarrow> (\<exists>l \<in> set (mi_lines bill). \<exists>p t. ordered l = Some p \<and> il_tax l = Some t \<and> 0 < tax \<and> tax < t))"
proof -
  have limit: "max_allowed_quantity po receipts = (\<lambda>p. if matching_receipts po receipts p = [] then pl_quantity p
      else sum_list (map rc_accepted (matching_receipts po receipts p)))"
    by (rule ext) (simp add: allowed_quantity_sum Let_def)
  note flags = evaluate_match_flags [OF assms, unfolded limit]
  show ?thesis
  proof (rule evaluate_match_Inr [OF assms], goal_cases)
    case (1 remaining total)
    then show ?case
      unfolding Let_def find_po_line_def [symmetric] matching_receipts_def [symmetric] or_zero_def [symmetric] flags
      by (simp add: is_duplicate_def list_ex_iff service_missing_def line_ok_def limit)
  qed
qed

text \<open>
  Lines are checked one by one. An invoice that matches still matches when its lines are
  repeated any number of times: the quantities of two lines for the same line of the order
  are never added up, and the lines are never compared with the invoice's total.
\<close>

theorem repeated_lines_still_match:
  assumes "evaluate_match D po receipts bill existing opts = Inr r" and "mr_overall r"
  shows "\<exists>r'. evaluate_match D po receipts (bill\<lparr>mi_lines := concat (replicate n (mi_lines bill))\<rparr>) existing opts = Inr r' \<and>
    mr_overall r'"
proof -
  let ?bill = "bill\<lparr>mi_lines := concat (replicate n (mi_lines bill))\<rparr>"
  obtain r' where r': "evaluate_match D po receipts ?bill existing opts = Inr r'"
    by (rule evaluate_match_Inr [OF assms(1)])
      (simp add: evaluate_match_def Let_def money_gt_def assert_same_currency_def)
  have lines: "\<forall>l \<in> set (mi_lines ?bill). line_ok po receipts (or_zero opts mo_variance) (or_zero opts mo_tax) l"
    by (rule evaluate_match_Inr [OF assms(1)]) (use assms(2) in auto)
  have "mr_overall r'"
    by (rule evaluate_match_Inr [OF assms(1)], rule evaluate_match_Inr [OF r'])
      (use assms(2) lines in \<open>simp add: is_duplicate_def\<close>)
  with r' show ?thesis by blast
qed

section \<open>Witnesses\<close>

definition example_po :: match_po where
  "example_po = \<lparr>mp_id = ''PO-1'', mp_currency = ''QAR'', mp_total = NumberIn 1000, mp_remaining = NumberIn 1000,
     mp_service = False, mp_lines = [\<lparr>pl_id = ''L1'', pl_description = ''Chairs'', pl_quantity = 10, pl_rate = 100, pl_total = 1000\<rparr>]\<rparr>"

definition example_invoice :: match_invoice where
  "example_invoice = \<lparr>mi_number = ''INV-1'', mi_vendor = ''V1'', mi_currency = ''QAR'', mi_total = NumberIn 1000,
     mi_lines = [\<lparr>il_id = None, il_po_line = Some ''L1'', il_description = ''Chairs'', il_quantity = 10,
       il_unit_cost = 100, il_total = 1000, il_tax = None\<rparr>]\<rparr>"

lemma example_match:
  "\<exists>r. evaluate_match decimal24 example_po [] example_invoice [] None = Inr r \<and> mr_overall r"
  by (simp add: evaluate_match_def example_po_def example_invoice_def Let_def money_gt_def assert_same_currency_def
      is_duplicate_def service_missing_def check_line_def find_po_line_def max_allowed_quantity_def
      matching_receipts_def or_zero_def)

theorem match_exact_witness:
  "\<exists>r. evaluate_match decimal24 (example_po\<lparr>mp_service := True\<rparr>) [] example_invoice [] None = Inr r \<and>
     mr_service r \<and> \<not> mr_quantity r \<and> \<not> mr_rate r \<and> mr_details r \<noteq> []"
proof -
  obtain r where r: "evaluate_match decimal24 (example_po\<lparr>mp_service := True\<rparr>) [] example_invoice [] None = Inr r"
    by (simp add: evaluate_match_def example_po_def example_invoice_def Let_def money_gt_def assert_same_currency_def)
  from match_exact [OF this] show ?thesis
    by (intro exI [of _ r] conjI r) (auto simp: Let_def example_po_def example_invoice_def)
qed

theorem repeated_lines_still_match_witness:
  "\<exists>r. evaluate_match decimal24 example_po []
     (example_invoice\<lparr>mi_lines := concat (replicate 5 (mi_lines example_invoice))\<rparr>) [] None = Inr r \<and> mr_overall r"
  using example_match repeated_lines_still_match by metis

end
