(* ===== verification/Procurement.thy ===== *)
theory Procurement
  imports Money Half_Up Time_Util
begin

text \<open>
  \<open>packages/domain/src/procurement.ts\<close> and the purchase-order endpoints of
  \<open>apps/api/src/procurement/procurement.controller.ts\<close>: approval of vendors, access to bank
  details and their change by two people, framework contracts, supplier routes, the life
  cycle of a purchase order with its receipts, the evaluation of bids and the committed cost.
  The clock and new identifiers are arguments; the decimal package is a parameter.
\<close>

section \<open>Vendors\<close>

record bank_details =
  bd_bank :: string
  bd_account_name :: string
  bd_account :: string
  bd_iban :: string
  bd_swift :: string

datatype vendor_type =
    VtCompany | VtFreelancer | VtIndividual | VtSubcontractor | VtRental | VtFabricator
  | VtTechnical | VtLogistics | VtTalent | VtInternational

datatype vendor_status =
    VsProspect | VsRegistrationPending | VsUnderReview | VsApproved | VsConditionallyApproved
  | VsSuspended | VsBlacklisted | VsArchived | VsActive

datatype vendor_category = CatCorporate | CatFreelance | CatCashSupplier

record vendor =
  vn_id :: string
  vn_code :: string
  vn_name :: string
  vn_type :: "vendor_type option"
  vn_category :: "vendor_category option"
  vn_status :: vendor_status
  vn_cr :: "string option"
  vn_tax :: "string option"
  vn_insurance_until :: "js_time option"
  vn_bank :: "bank_details option"
  vn_restricted_bank :: "bank_details option"
  vn_risk_flags :: "string list option"
  vn_compliance :: bool
  vn_grace_until :: "js_time option"

record vendor_policy =
  vp_cr :: bool
  vp_tax :: bool
  vp_insurance :: bool
  vp_bank :: bool
  vp_max_flags :: int

definition default_vendor_policy :: vendor_policy where
  "default_vendor_policy = \<lparr>vp_cr = True, vp_tax = True, vp_insurance = False, vp_bank = True, vp_max_flags = 0\<rparr>"

text \<open>A violation is the code that begins its text.\<close>

datatype violation =
    ViBlacklisted | ViRiskFlags | ViMissingCr | ViMissingTax | ViMissingBank | ViExpiredInsurance | ViMissingInsurance

record vendor_verdict =
  vv_can_approve :: bool
  vv_violations :: "violation list"
  vv_recommended :: vendor_status

definition blank :: "string option \<Rightarrow> bool" where
  "blank s \<longleftrightarrow> (case s of None \<Rightarrow> True | Some t \<Rightarrow> t = [] \<or> trim t = [])"

definition vendor_type_of :: "vendor \<Rightarrow> vendor_type" where
  "vendor_type_of v = (case vn_type v of Some t \<Rightarrow> t
     | None \<Rightarrow> if vn_category v = Some CatFreelance then VtFreelancer else VtCompany)"

definition is_company_type :: "vendor_type \<Rightarrow> bool" where
  "is_company_type t \<longleftrightarrow>
     t \<in> set [VtCompany, VtSubcontractor, VtRental, VtFabricator, VtTechnical, VtLogistics, VtInternational]"

definition vendor_violations :: "js_time \<Rightarrow> vendor \<Rightarrow> vendor_policy \<Rightarrow> violation list" where
  "vendor_violations now v p =
     (case vn_risk_flags v of Some fs \<Rightarrow> if int (length fs) > vp_max_flags p then [ViRiskFlags] else [] | None \<Rightarrow> []) @
     (if vp_cr p \<and> is_company_type (vendor_type_of v) \<and> blank (vn_cr v) then [ViMissingCr] else []) @
     (if vp_tax p \<and> blank (vn_tax v) then [ViMissingTax] else []) @
     (if vp_bank p \<and> vn_bank v = None \<and> vn_restricted_bank v = None then [ViMissingBank] else []) @
     (case vn_insurance_until v of
        Some u \<Rightarrow> if time_lt u now then [ViExpiredInsurance] else []
      | None \<Rightarrow> if vp_insurance p then [ViMissingInsurance] else [])"

definition evaluate_vendor :: "js_time \<Rightarrow> vendor \<Rightarrow> vendor_policy \<Rightarrow> vendor_verdict" where
  "evaluate_vendor now v p =
     (if vn_status v = VsBlacklisted
      then \<lparr>vv_can_approve = False, vv_violations = [ViBlacklisted], vv_recommended = VsBlacklisted\<rparr>
      else (let vs = vendor_violations now v p; ok = (length vs = 0) in
        \<lparr>vv_can_approve = ok, vv_violations = vs, vv_recommended =
          (if ok then VsApproved
           else if length vs = 1 \<and> vs ! 0 = ViMissingInsurance then VsConditionallyApproved
           else VsUnderReview)\<rparr>))"

text \<open>What of the account number the masked text shows; the rest of it is a fixed pattern.\<close>

datatype masked_iban = MaskedAll | MaskedEnds string string

definition mask_iban :: "string \<Rightarrow> masked_iban" where
  "mask_iban s = (let clean = filter (\<lambda>c. \<not> is_space c) s in
     if length clean < 8 then MaskedAll
     else MaskedEnds (take 4 clean) (drop (length clean - 4) clean))"

definition can_access_restricted_bank_details :: "string \<Rightarrow> bool" where
  "can_access_restricted_bank_details role \<longleftrightarrow>
     replace_runs (\<lambda>c. is_space c \<or> c = CHR ''-'') ''_'' (to_lower role) \<in> set [''finance_controller'',
       ''super_admin'', ''commercial_director'', ''financial_controller'', ''cfo'']"

datatype bank_change_status = PendingVerification | Verified | RejectedChange

record bank_change =
  bc_id :: string
  bc_vendor :: string
  bc_details :: bank_details
  bc_requested_by :: string
  bc_requested_at :: js_time
  bc_status :: bank_change_status
  bc_verified_by :: "string option"
  bc_verified_at :: "js_time option"

definition request_bank_change :: "string \<Rightarrow> js_time \<Rightarrow> vendor \<Rightarrow> bank_details \<Rightarrow> string \<Rightarrow> bank_change" where
  "request_bank_change rid now v d by_user = \<lparr>bc_id = rid, bc_vendor = vn_id v, bc_details = d,
     bc_requested_by = by_user, bc_requested_at = now, bc_status = PendingVerification,
     bc_verified_by = None, bc_verified_at = None\<rparr>"

definition verify_bank_change :: "js_time \<Rightarrow> vendor \<Rightarrow> bank_change \<Rightarrow> string \<Rightarrow> (vendor \<times> bank_change) res" where
  "verify_bank_change now v b verifier =
     bind_res (throw_if (bc_status b \<noteq> PendingVerification) BankChangeNotPending) (\<lambda>_.
     bind_res (throw_if (bc_requested_by b = verifier) TwoPersonRuleViolation) (\<lambda>_.
       Inr (v\<lparr>vn_bank := Some (bc_details b)\<rparr>,
            b\<lparr>bc_status := Verified, bc_verified_by := Some verifier, bc_verified_at := Some now\<rparr>)))"

definition validate_supplier_route :: "js_time \<Rightarrow> vendor \<Rightarrow> bool \<Rightarrow> string option \<Rightarrow> unit res" where
  "validate_supplier_route now v sole_source rationale =
     bind_res (throw_if (sole_source \<and> (case rationale of None \<Rightarrow> True | Some r \<Rightarrow> r = [] \<or> length (trim r) < 10))
       SoleSourceRationaleRequired) (\<lambda>_.
     throw_if (vn_category v = Some CatFreelance \<and>
       (case vn_grace_until v of None \<Rightarrow> False | Some u \<Rightarrow> time_lt u now \<and> \<not> vn_compliance v))
       FreelanceComplianceExpired)"

section \<open>Framework contracts\<close>

record framework_contract =
  fw_id :: string
  fw_code :: string
  fw_vendor :: string
  fw_currency :: string
  fw_ceiling :: money
  fw_consumed :: money
  fw_valid_until :: js_time

definition consume_framework_ceiling ::
  "decimal_pkg \<Rightarrow> framework_contract \<Rightarrow> money \<Rightarrow> (framework_contract \<times> money) res" where
  "consume_framework_ceiling D c m =
     bind_res (throw_if (m_currency (fw_ceiling c) \<noteq> m_currency m)
       (CurrencyMismatch (m_currency (fw_ceiling c)) (m_currency m))) (\<lambda>_.
     bind_res (money_plus D (fw_consumed c) m) (\<lambda>consumed.
     bind_res (if m_amount consumed > m_amount (fw_ceiling c)
       then bind_res (money_minus D (fw_ceiling c) (fw_consumed c)) (\<lambda>left.
              Inl (FrameworkCeilingExceeded (m_amount m) (m_amount left)))
       else Inr ()) (\<lambda>_.
     bind_res (money_minus D (fw_ceiling c) consumed) (\<lambda>left.
       Inr (c\<lparr>fw_consumed := consumed\<rparr>, left)))))"

definition call_off :: "decimal_pkg \<Rightarrow> framework_contract \<Rightarrow> money \<Rightarrow> framework_contract res" where
  "call_off D c m = bind_res (consume_framework_ceiling D c m) (\<lambda>(c', left). Inr c')"

section \<open>Purchase orders\<close>

datatype po_status =
    PoDraft | PoApproved | PoReleased | PoAcknowledged | PoReconciliationNeeded
  | PoPartiallyReceived | PoFullyReceived | PoCancelled

datatype delivery_status = NotSent | SentPending | DeliveryConfirmed | DeliveryFailed

record order_line =
  ol_id :: string
  ol_po :: string
  ol_package :: string
  ol_description :: string
  ol_quantity :: rat
  ol_unit :: money
  ol_total :: money
  ol_received :: rat
  ol_rejected :: rat

record purchase_order =
  po_id :: string
  po_number :: string
  po_vendor :: string
  po_framework :: "string option"
  po_currency :: string
  po_total :: money
  po_status :: po_status
  po_lines :: "order_line list"
  po_key :: "string option"
  po_released_at :: "js_time option"
  po_delivery :: delivery_status
  po_rationale :: "string option"
  po_sole_source :: bool

definition release_purchase_order :: "js_time \<Rightarrow> purchase_order \<Rightarrow> string \<Rightarrow> (purchase_order \<times> bool) res" where
  "release_purchase_order now po key =
     (if po_status po = PoReleased \<or> po_status po = PoAcknowledged
      then (if po_key po = Some key then Inr (po, True) else Inl PoAlreadyReleased)
      else bind_res (throw_if (po_status po \<noteq> PoApproved) PoNotApproved) (\<lambda>_.
        Inr (po\<lparr>po_status := PoReleased, po_key := Some key, po_released_at := Some now, po_delivery := SentPending\<rparr>,
             False)))"

definition handle_remote_supplier_timeout :: "purchase_order \<Rightarrow> purchase_order" where
  "handle_remote_supplier_timeout po = po\<lparr>po_status := PoReconciliationNeeded, po_delivery := SentPending\<rparr>"

datatype external_confirmation = ConfirmedExternally | NotReceivedExternally

definition reconcile_remote_order :: "purchase_order \<Rightarrow> external_confirmation \<Rightarrow> purchase_order res" where
  "reconcile_remote_order po e =
     bind_res (throw_if (po_status po \<noteq> PoReconciliationNeeded) PoNotInReconciliation) (\<lambda>_.
     Inr (if e = ConfirmedExternally then po\<lparr>po_status := PoAcknowledged, po_delivery := DeliveryConfirmed\<rparr>
       else po\<lparr>po_status := PoApproved, po_delivery := NotSent, po_key := None\<rparr>))"

datatype decimal_value = DecString string | DecNumber rat

fun new_decimal :: "decimal_pkg \<Rightarrow> decimal_value \<Rightarrow> rat res" where
  "new_decimal D (DecString s) = (case dp_parse D s of None \<Rightarrow> Inl (DecimalError s) | Some x \<Rightarrow> Inr x)"
| "new_decimal D (DecNumber x) = Inr x"

record receipt_result =
  rr_line :: order_line
  rr_remaining :: rat
  rr_complete :: bool

definition receive_po_line ::
  "decimal_pkg \<Rightarrow> order_line \<Rightarrow> decimal_value \<Rightarrow> decimal_value \<Rightarrow> receipt_result res" where
  "receive_po_line D l received rejected =
     bind_res (new_decimal D received) (\<lambda>rec.
     bind_res (new_decimal D rejected) (\<lambda>rej.
     bind_res (throw_if (rec < 0 \<or> rej < 0) NegativeReceipt) (\<lambda>_.
     (let received' = dp_round D (ol_received l + rec);
          rejected' = dp_round D (ol_rejected l + rej);
          processed = dp_round D (received' + rejected')
      in bind_res (throw_if (processed > ol_quantity l) (ReceiptExceedsOrdered processed (ol_quantity l))) (\<lambda>_.
         (let remaining = dp_round D (ol_quantity l - processed) in
          Inr \<lparr>rr_line = l\<lparr>ol_received := received', ol_rejected := rejected'\<rparr>,
               rr_remaining = remaining, rr_complete = (remaining = 0)\<rparr>))))))"

text \<open>
  The receipt endpoint. The loop writes into the stored order's array of lines, so the
  order is returned also when a later item throws.
\<close>

record receipt_item =
  ri_line :: string
  ri_received :: decimal_value
  ri_rejected :: decimal_value

fun replace_line :: "string \<Rightarrow> order_line \<Rightarrow> order_line list \<Rightarrow> order_line list" where
  "replace_line i l' [] = []"
| "replace_line i l' (l # ls) = (if ol_id l = i then l' # ls else l # replace_line i l' ls)"

fun receive_items :: "decimal_pkg \<Rightarrow> order_line list \<Rightarrow> receipt_item list \<Rightarrow> order_line list \<times> unit res" where
  "receive_items D ls [] = (ls, Inr ())"
| "receive_items D ls (it # its) = (case List.find (\<lambda>l. ol_id l = ri_line it) ls of
       None \<Rightarrow> (ls, Inl (NotFound ''LINE''))
     | Some l \<Rightarrow> (case receive_po_line D l (ri_received it) (ri_rejected it) of
           Inl e \<Rightarrow> (ls, Inl e)
         | Inr r \<Rightarrow> receive_items D (replace_line (ri_line it) (rr_line r) ls) its))"

definition record_receipt :: "decimal_pkg \<Rightarrow> purchase_order \<Rightarrow> receipt_item list \<Rightarrow> purchase_order \<times> unit res" where
  "record_receipt D po items = (case receive_items D (po_lines po) items of
       (ls, Inl e) \<Rightarrow> (po\<lparr>po_lines := ls\<rparr>, Inl e)
     | (ls, Inr _) \<Rightarrow> (po\<lparr>po_lines := ls, po_status :=
         (if list_all (\<lambda>l. dp_round D (ol_received l + ol_rejected l) = ol_quantity l) ls
          then PoFullyReceived else PoPartiallyReceived)\<rparr>, Inr ()))"

text \<open>The events an order meets; the flag says that the order was sent to the supplier.\<close>

datatype po_event =
    EvRelease js_time string
  | EvTimeout
  | EvReconcile external_confirmation
  | EvReceipt "receipt_item list"

fun po_step :: "decimal_pkg \<Rightarrow> purchase_order \<Rightarrow> po_event \<Rightarrow> purchase_order \<times> bool" where
  "po_step D po (EvRelease now key) = (case release_purchase_order now po key of
       Inl e \<Rightarrow> (po, False) | Inr (po', duplicate) \<Rightarrow> (po', \<not> duplicate))"
| "po_step D po EvTimeout = (handle_remote_supplier_timeout po, False)"
| "po_step D po (EvReconcile e) = (case reconcile_remote_order po e of Inl _ \<Rightarrow> (po, False) | Inr po' \<Rightarrow> (po', False))"
| "po_step D po (EvReceipt items) = (fst (record_receipt D po items), False)"

section \<open>Bids and committed cost\<close>

record vendor_quote =
  vq_id :: string
  vq_vendor :: string
  vq_rate :: money
  vq_total :: money
  vq_days :: rat
  vq_compliance :: string
  vq_technical :: "rat option"
  vq_risk :: "rat option"

record bid_weights =
  bw_technical :: rat
  bw_commercial :: rat
  bw_risk :: rat

definition default_weights :: bid_weights where
  "default_weights = \<lparr>bw_technical = 4 / 10, bw_commercial = 4 / 10, bw_risk = 2 / 10\<rparr>"

record bid_evaluation =
  be_quote :: string
  be_vendor :: string
  be_rate :: money
  be_total :: money
  be_technical :: rat
  be_commercial :: rat
  be_risk :: rat
  be_composite :: int
  be_recommended :: bool

record bid_result =
  br_rfq :: string
  br_count :: int
  br_evaluations :: "bid_evaluation list"
  br_vendor :: string
  br_quote :: string

definition min_price :: "vendor_quote list \<Rightarrow> rat" where
  "min_price qs = fold (\<lambda>q m. if m_amount (vq_total q) < m then m_amount (vq_total q) else m) qs
     (m_amount (vq_total (hd qs)))"

definition commercial_score :: "decimal_pkg \<Rightarrow> rat \<Rightarrow> vendor_quote \<Rightarrow> rat" where
  "commercial_score D low q = (if m_amount (vq_total q) = 0 then 100
     else of_int (js_round (dp_round D (dp_round D (low / m_amount (vq_total q)) * 100))))"

definition evaluate_quote :: "decimal_pkg \<Rightarrow> bid_weights \<Rightarrow> rat \<Rightarrow> vendor_quote \<Rightarrow> bid_evaluation" where
  "evaluate_quote D w low q =
     (let tech = (case vq_technical q of Some s \<Rightarrow> s
            | None \<Rightarrow> if str_includes (to_lower (vq_compliance q)) ''non-compliant'' then 30 else 90);
          comm = commercial_score D low q;
          risk = (case vq_risk q of Some s \<Rightarrow> s | None \<Rightarrow> if vq_days q \<le> 14 then 90 else 70)
      in \<lparr>be_quote = vq_id q, be_vendor = vq_vendor q, be_rate = vq_rate q, be_total = vq_total q,
          be_technical = tech, be_commercial = comm, be_risk = risk,
          be_composite = js_round (tech * bw_technical w + comm * bw_commercial w + risk * bw_risk w),
          be_recommended = False\<rparr>)"

definition evaluate_bids :: "decimal_pkg \<Rightarrow> string \<Rightarrow> vendor_quote list \<Rightarrow> bid_weights \<Rightarrow> bid_result res" where
  "evaluate_bids D rfq qs w =
     bind_res (throw_if (length qs = 0) (NoQuotesToEvaluate rfq)) (\<lambda>_.
     (case sort_by (\<lambda>a b. be_composite b - be_composite a \<le> 0) (map (evaluate_quote D w (min_price qs)) qs) of
        [] \<Rightarrow> Inl (NoQuotesToEvaluate rfq)
      | e # es \<Rightarrow> Inr \<lparr>br_rfq = rfq, br_count = int (length qs), br_evaluations = e\<lparr>be_recommended := True\<rparr> # es,
           br_vendor = be_vendor e, br_quote = be_quote e\<rparr>))"

definition is_committed :: "po_status \<Rightarrow> bool" where
  "is_committed s \<longleftrightarrow> s \<in> set [PoApproved, PoReleased, PoAcknowledged, PoPartiallyReceived, PoFullyReceived]"

definition aggregate_committed_cost :: "decimal_pkg \<Rightarrow> purchase_order list \<Rightarrow> string \<Rightarrow> money res" where
  "aggregate_committed_cost D pos c = fold_res (\<lambda>total po.
     if is_committed (po_status po)
     then bind_res (throw_if (m_currency (po_total po) \<noteq> c) (CurrencyMismatch (m_currency (po_total po)) c))
       (\<lambda>_. money_plus D total (po_total po))
     else Inr total) (money_zero c) pos"

section \<open>Sending an order\<close>

text \<open>The runs of an order, with the number of times it was sent to the supplier.\<close>

inductive po_reach :: "decimal_pkg \<Rightarrow> purchase_order \<Rightarrow> po_event list \<Rightarrow> nat \<Rightarrow> purchase_order \<Rightarrow> bool"
  for D p where
  reach_start: "po_reach D p [] 0 p"
| reach_step: "po_reach D p evs n q \<Longrightarrow> po_step D q e = (q', sent) \<Longrightarrow>
    po_reach D p (evs @ [e]) (n + (if sent then 1 else 0)) q'"

inductive_cases po_reach_snoc: "po_reach D p (evs @ [e]) n q"

lemma record_receipt_status:
  "po_status (fst (record_receipt D po items)) = po_status po \<or>
   po_status (fst (record_receipt D po items)) \<in> {PoFullyReceived, PoPartiallyReceived}"
  by (auto simp: record_receipt_def split: prod.splits sum.splits)

lemma po_step_sends:
  assumes "po_step D q e = (q', sent)"
  shows "(if sent then 1 else 0) + (if po_status q' = PoApproved then 1 else 0) \<le>
    (if po_status q = PoApproved then 1 else 0) +
    (if e = EvReconcile NotReceivedExternally then 1 else (0 :: nat))"
proof (cases e)
  case (EvReceipt items)
  then show ?thesis using assms record_receipt_status [of D q items] by (auto split: if_splits)
next
  case (EvRelease now key)
  then show ?thesis using assms
    by (auto simp: release_purchase_order_def bind_res_def throw_if_def split: sum.splits if_splits)
next
  case (EvReconcile c)
  then show ?thesis using assms
    by (cases c) (auto simp: reconcile_remote_order_def bind_res_def throw_if_def split: sum.splits if_splits)
next
  case EvTimeout
  then show ?thesis using assms by (auto simp: handle_remote_supplier_timeout_def)
qed

text \<open>
  C24: an order is not sent twice by accident. In every run of releases (with any keys),
  timeouts, reconciliations and receipts, the order is sent at most once more often than a
  reconciliation found that the supplier had not received it.
\<close>

theorem sends_need_reconciliation:
  assumes "po_reach D p evs n q"
  shows "n \<le> 1 + count_list evs (EvReconcile NotReceivedExternally)"
proof -
  from assms have "n + (if po_status q = PoApproved then 1 else 0) \<le>
      1 + count_list evs (EvReconcile NotReceivedExternally)"
  proof induction
    case reach_start
    then show ?case by simp
  next
    case (reach_step evs n q e q' sent)
    from po_step_sends [OF reach_step.hyps(2)] reach_step.IH show ?case by (auto split: if_splits)
  qed
  then show ?thesis by simp
qed

text \<open>
  A release is idempotent. An accepted release of an approved order stores its key; the
  same request again returns the same order unchanged, marked as a duplicate, and a request
  with another key is refused, as is any request on an order that was never approved.
\<close>

theorem release_idempotent:
  assumes "release_purchase_order now po key = Inr (po', duplicate)"
  shows "release_purchase_order later po' key = Inr (po', True) \<and>
    (other \<noteq> key \<longrightarrow> release_purchase_order later po' other = Inl PoAlreadyReleased) \<and>
    (\<not> duplicate \<longleftrightarrow> po_status po = PoApproved) \<and> po_lines po' = po_lines po \<and> po_total po' = po_total po"
  using assms by (auto simp: release_purchase_order_def split: if_splits)

text \<open>
  A timeout can approve an order. Handling a timeout does not look at the status, so any
  order, a draft or a cancelled one as well, that times out and is then reconciled as not
  received is approved, and a release sends it to the supplier.
\<close>

theorem timeout_bypasses_approval:
  "let timed = fst (po_step D po EvTimeout); back = fst (po_step D timed (EvReconcile NotReceivedExternally))
   in po_status back = PoApproved \<and> snd (po_step D back (EvRelease now key)) \<and>
      po_status (fst (po_step D back (EvRelease now key))) = PoReleased"
  by (simp add: handle_remote_supplier_timeout_def reconcile_remote_order_def release_purchase_order_def Let_def)

section \<open>Receipts\<close>

definition receipt_step :: "decimal_pkg \<Rightarrow> order_line \<Rightarrow> decimal_value \<times> decimal_value \<Rightarrow> order_line res" where
  "receipt_step D l it = bind_res (receive_po_line D l (fst it) (snd it)) (\<lambda>r. Inr (rr_line r))"

text \<open>A line whose quantities are recorded amounts and whose receipts are within the order.\<close>

definition line_books :: "order_line \<Rightarrow> bool" where
  "line_books l \<longleftrightarrow> scaled 1 (ol_quantity l) \<and> scaled 1 (ol_received l) \<and> scaled 1 (ol_rejected l) \<and>
     0 \<le> ol_received l \<and> 0 \<le> ol_rejected l \<and> ol_received l + ol_rejected l \<le> ol_quantity l"

definition good_quantity :: "decimal_pkg \<Rightarrow> decimal_value \<Rightarrow> bool" where
  "good_quantity D v \<longleftrightarrow> (case new_decimal D v of Inl _ \<Rightarrow> True | Inr x \<Rightarrow> scaled 1 x)"

lemma scaled_part: "scaled 1 q \<Longrightarrow> whole (x * 1000000) \<Longrightarrow> 0 \<le> x \<Longrightarrow> x \<le> q \<Longrightarrow> scaled 1 x"
  by (auto simp: scaled_def)

lemma receive_exact:
  assumes D: "decimal_arith D" and l: "line_books l"
    and a: "new_decimal D a = Inr x" "scaled 1 x" and b: "new_decimal D b = Inr y" "scaled 1 y"
  shows "receive_po_line D l a b =
    (let processed = ol_received l + x + (ol_rejected l + y) in
     if x < 0 \<or> y < 0 then Inl NegativeReceipt
     else if processed > ol_quantity l then Inl (ReceiptExceedsOrdered processed (ol_quantity l))
     else Inr \<lparr>rr_line = l\<lparr>ol_received := ol_received l + x, ol_rejected := ol_rejected l + y\<rparr>,
       rr_remaining = ol_quantity l - processed, rr_complete = (processed = ol_quantity l)\<rparr>)"
proof -
  note s = l [unfolded line_books_def]
  have rec: "dp_round D (ol_received l + x) = ol_received l + x" "scaled 2 (ol_received l + x)"
    using decimal_arith.plus_exact [OF D, of 1 "ol_received l" 1 x] scaled_add [of 1 "ol_received l" 1 x] s a(2)
    by (simp_all add: numeral_2_eq_2)
  have rej: "dp_round D (ol_rejected l + y) = ol_rejected l + y" "scaled 2 (ol_rejected l + y)"
    using decimal_arith.plus_exact [OF D, of 1 "ol_rejected l" 1 y] scaled_add [of 1 "ol_rejected l" 1 y] s b(2)
    by (simp_all add: numeral_2_eq_2)
  let ?p = "ol_received l + x + (ol_rejected l + y)"
  have p: "dp_round D ?p = ?p" "scaled 4 ?p"
    using decimal_arith.plus_exact [OF D rec(2) rej(2)] scaled_add [OF rec(2) rej(2)] by simp_all
  have r: "dp_round D (ol_quantity l - ?p) = ol_quantity l - ?p"
    using decimal_arith.minus_exact [OF D conjunct1 [OF s] p(2)] by simp
  show ?thesis
    by (simp add: receive_po_line_def a(1) b(1) rec(1) rej(1) p(1) r Let_def throw_if_def) auto
qed

lemma receipt_step_exact:
  assumes D: "decimal_arith D" and l: "line_books l" and g: "good_quantity D (fst it)" "good_quantity D (snd it)"
    and step: "receipt_step D l it = Inr l'"
  obtains x y where "new_decimal D (fst it) = Inr x" "new_decimal D (snd it) = Inr y" "0 \<le> x" "0 \<le> y"
    "l' = l\<lparr>ol_received := ol_received l + x, ol_rejected := ol_rejected l + y\<rparr>" "line_books l'"
proof -
  from step obtain x y where xy: "new_decimal D (fst it) = Inr x" "new_decimal D (snd it) = Inr y"
    by (auto simp: receipt_step_def receive_po_line_def)
  with g have sc: "scaled 1 x" "scaled 1 y" by (simp_all add: good_quantity_def)
  note e = receive_exact [OF D l xy(1) sc(1) xy(2) sc(2)]
  from step have pos: "0 \<le> x" "0 \<le> y" and room: "ol_received l + x + (ol_rejected l + y) \<le> ol_quantity l"
    and l': "l' = l\<lparr>ol_received := ol_received l + x, ol_rejected := ol_rejected l + y\<rparr>"
    by (auto simp: receipt_step_def e Let_def split: if_splits)
  note s = l [unfolded line_books_def]
  have w: "whole ((ol_received l + x) * 1000000)" "whole ((ol_rejected l + y) * 1000000)"
    using s sc whole_add [of "ol_received l * 1000000" "x * 1000000"]
      whole_add [of "ol_rejected l * 1000000" "y * 1000000"]
    by (simp_all add: scaled_def distrib_right)
  have "scaled 1 (ol_received l + x)" "scaled 1 (ol_rejected l + y)"
    by (rule scaled_part [OF conjunct1 [OF s]]; use w s pos room in simp)+
  then have "line_books l'" using s pos room l' by (simp add: line_books_def)
  with xy pos l' show ?thesis by (rule that)
qed

sublocale decimal_arith \<subseteq> receipts: guarded_run "receipt_step D" line_books
  "\<lambda>it. good_quantity D (fst it) \<and> good_quantity D (snd it)"
  by unfold_locales (blast elim: receipt_step_exact [OF decimal_arith_axioms])

context decimal_arith begin

lemma receipts_attempted:
  "line_books l \<Longrightarrow> \<forall>it \<in> set its. good_quantity D (fst it) \<and> good_quantity D (snd it) \<Longrightarrow>
    line_books (attempts (receipt_step D) l its)"
  by (rule receipts.attempts_inv)

end

lemma receipts_added:
  assumes D: "decimal_arith D" and "line_books l" and "\<forall>it \<in> set its. good_quantity D (fst it) \<and> good_quantity D (snd it)"
    and "fold_res (receipt_step D) l its = Inr l'"
  shows "\<exists>xs ys. map_res (\<lambda>it. new_decimal D (fst it)) its = Inr xs \<and> map_res (\<lambda>it. new_decimal D (snd it)) its = Inr ys \<and>
    l' = l\<lparr>ol_received := ol_received l + sum_list xs, ol_rejected := ol_rejected l + sum_list ys\<rparr>"
  using assms(2-)
proof (induction its arbitrary: l)
  case Nil
  then show ?case by simp
next
  case (Cons it its)
  from Cons.prems(3) obtain k where k: "receipt_step D l it = Inr k" and rest: "fold_res (receipt_step D) k its = Inr l'"
    by auto
  have g: "good_quantity D (fst it)" "good_quantity D (snd it)" using Cons.prems(2) by simp_all
  obtain x y where xy: "new_decimal D (fst it) = Inr x" "new_decimal D (snd it) = Inr y"
    "k = l\<lparr>ol_received := ol_received l + x, ol_rejected := ol_rejected l + y\<rparr>" "line_books k"
    by (rule receipt_step_exact [OF D Cons.prems(1) g k])
  from Cons.IH [OF xy(4) _ rest] Cons.prems(2) obtain xs ys where
    "map_res (\<lambda>it. new_decimal D (fst it)) its = Inr xs" "map_res (\<lambda>it. new_decimal D (snd it)) its = Inr ys"
    "l' = k\<lparr>ol_received := ol_received k + sum_list xs, ol_rejected := ol_rejected k + sum_list ys\<rparr>" by auto
  with xy show ?case by (simp add: add.assoc)
qed

text \<open>
  C9: receipts are counted exactly and never exceed the order. However receipts are offered,
  accepted or refused, received plus rejected never exceeds the ordered quantity; and a
  sequence that is accepted as a whole adds exactly its received and its rejected quantities.
\<close>

theorem receipts_within_order:
  assumes "decimal_arith D" and "line_books l"
    and "\<forall>it \<in> set its. good_quantity D (fst it) \<and> good_quantity D (snd it)"
  shows "line_books (attempts (receipt_step D) l its) \<and>
    (\<forall>l'. fold_res (receipt_step D) l its = Inr l' \<longrightarrow>
      (\<exists>xs ys. map_res (\<lambda>it. new_decimal D (fst it)) its = Inr xs \<and> map_res (\<lambda>it. new_decimal D (snd it)) its = Inr ys \<and>
        ol_received l' = ol_received l + sum_list xs \<and> ol_rejected l' = ol_rejected l + sum_list ys))"
  using decimal_arith.receipts_attempted [OF assms] receipts_added [OF assms] by fastforce

text \<open>
  A failed receipt has an effect. When a later item of a delivery names a line that the
  order does not have, the endpoint reports a failure and leaves the status, but the earlier
  items stay received, because the loop writes into the stored order; the same delivery sent
  again counts them twice.
\<close>

theorem failed_receipt_is_applied:
  assumes "List.find (\<lambda>l. ol_id l = i) (po_lines po) = Some l" and "receive_po_line D l a b = Inr r"
    and "\<forall>k \<in> set (po_lines po). ol_id k \<noteq> j"
  shows "record_receipt D po [\<lparr>ri_line = i, ri_received = a, ri_rejected = b\<rparr>, \<lparr>ri_line = j, ri_received = c, ri_rejected = d\<rparr>] =
    (po\<lparr>po_lines := replace_line i (rr_line r) (po_lines po)\<rparr>, Inl (NotFound ''LINE''))"
proof -
  have "ol_id (rr_line r) = ol_id l" using assms(2) by (auto simp: receive_po_line_def Let_def)
  then have id: "ol_id (rr_line r) = i" using find_Some_iff_in [OF assms(1)] by simp
  then have ne: "ol_id (rr_line r) \<noteq> j" using assms(1,3) find_Some_iff_in [OF assms(1)] by auto
  have "\<forall>k \<in> set (replace_line i (rr_line r) ls). ol_id k \<noteq> j" if "\<forall>k \<in> set ls. ol_id k \<noteq> j" for ls
    using that ne by (induction ls) auto
  with assms(3) have "List.find (\<lambda>l. ol_id l = j) (replace_line i (rr_line r) (po_lines po)) = None"
    by (auto simp: find_None_iff)
  with assms(1,2) show ?thesis by (simp add: record_receipt_def)
qed

section \<open>Framework ceilings\<close>

definition within_ceiling :: "framework_contract \<Rightarrow> bool" where
  "within_ceiling c \<longleftrightarrow> m_amount (fw_consumed c) \<le> m_amount (fw_ceiling c)"

lemma consume_Inr:
  "consume_framework_ceiling D c m = Inr (c', left) \<Longrightarrow>
     fw_ceiling c' = fw_ceiling c \<and> within_ceiling c' \<and>
     m_amount (fw_consumed c') = dp_round D (m_amount (fw_consumed c) + m_amount m) \<and>
     m_amount left = dp_round D (m_amount (fw_ceiling c) - m_amount (fw_consumed c'))"
  by (auto simp: consume_framework_ceiling_def guard_simps within_ceiling_def not_less split: if_splits)

interpretation framework: guarded_run "call_off D" "\<lambda>c. within_ceiling c \<and> fw_ceiling c = ceil" "\<lambda>_. True" for D ceil
  by unfold_locales (auto simp: call_off_def dest: consume_Inr)

text \<open>
  A framework ceiling holds. However call-offs arrive, accepted or refused, the consumed
  amount never exceeds the ceiling and the ceiling never moves; an accepted call-off consumes
  exactly its amount and leaves exactly the difference.
\<close>

theorem ceiling_holds:
  assumes "within_ceiling c"
  shows "within_ceiling (attempts (call_off D) c ms) \<and> fw_ceiling (attempts (call_off D) c ms) = fw_ceiling c \<and>
    (decimal_arith D \<and> scaled 1 (m_amount (fw_consumed c)) \<and> scaled 1 (m_amount m) \<and> scaled 1 (m_amount (fw_ceiling c)) \<and>
     consume_framework_ceiling D c m = Inr (c', left) \<longrightarrow>
       m_amount (fw_consumed c') = m_amount (fw_consumed c) + m_amount m \<and>
       m_amount left = m_amount (fw_ceiling c) - m_amount (fw_consumed c'))"
proof -
  have "within_ceiling (attempts (call_off D) c ms) \<and> fw_ceiling (attempts (call_off D) c ms) = fw_ceiling c"
    by (rule framework.attempts_inv) (use assms in auto)
  moreover have "m_amount (fw_consumed c') = m_amount (fw_consumed c) + m_amount m \<and>
      m_amount left = m_amount (fw_ceiling c) - m_amount (fw_consumed c')"
    if D: "decimal_arith D" and s: "scaled 1 (m_amount (fw_consumed c))" "scaled 1 (m_amount m)"
      "scaled 1 (m_amount (fw_ceiling c))" and r: "consume_framework_ceiling D c m = Inr (c', left)"
  proof -
    have sum: "m_amount (fw_consumed c') = m_amount (fw_consumed c) + m_amount m"
      using consume_Inr [OF r] decimal_arith.plus_exact [OF D s(1,2)] by simp
    moreover have "scaled 2 (m_amount (fw_consumed c'))"
      using scaled_add [OF s(1,2)] by (simp add: sum numeral_2_eq_2)
    then have "dp_round D (m_amount (fw_ceiling c) - m_amount (fw_consumed c')) =
        m_amount (fw_ceiling c) - m_amount (fw_consumed c')"
      by (rule decimal_arith.minus_exact [OF D s(3)]) simp
    ultimately show ?thesis using consume_Inr [OF r] by simp
  qed
  ultimately show ?thesis by blast
qed

section \<open>Vendors and their bank details\<close>

text \<open>
  Bank details change only through two people. A requested change is applied only by
  someone else than its requester and only once; applying it changes nothing of the vendor
  but the bank details, which become the requested ones.
\<close>

theorem bank_change_needs_two:
  "\<not> returns (verify_bank_change now v (request_bank_change rid t v d u) u) \<and>
   (returns (verify_bank_change now v b w) \<longleftrightarrow> bc_status b = PendingVerification \<and> w \<noteq> bc_requested_by b) \<and>
   (\<forall>v' b'. verify_bank_change now v b w = Inr (v', b') \<longrightarrow> v' = v\<lparr>vn_bank := Some (bc_details b)\<rparr> \<and>
      bc_verified_by b' = Some w \<and> verify_bank_change later v' b' x = Inl BankChangeNotPending)"
  by (auto simp: verify_bank_change_def request_bank_change_def returns_conv throw_if_def)

text \<open>
  When a vendor can be approved. Under the default policy a vendor is approvable exactly
  if it is not blacklisted, carries no risk flag, has a registration number when it is a
  company, a tax number, bank details, and no insurance that has expired; and the approved
  status is recommended exactly then.
\<close>

theorem vendor_approvable_iff:
  "(vv_can_approve (evaluate_vendor now v default_vendor_policy) \<longleftrightarrow>
     vn_status v \<noteq> VsBlacklisted \<and> (vn_risk_flags v = None \<or> vn_risk_flags v = Some []) \<and>
     (\<not> is_company_type (vendor_type_of v) \<or> \<not> blank (vn_cr v)) \<and> \<not> blank (vn_tax v) \<and>
     (vn_bank v \<noteq> None \<or> vn_restricted_bank v \<noteq> None) \<and>
     \<not> (\<exists>u. vn_insurance_until v = Some u \<and> time_lt u now)) \<and>
   (vv_recommended (evaluate_vendor now v default_vendor_policy) = VsApproved \<longleftrightarrow>
     vv_can_approve (evaluate_vendor now v default_vendor_policy))"
proof -
  have vs: "vendor_violations now v default_vendor_policy = [] \<longleftrightarrow>
     (vn_risk_flags v = None \<or> vn_risk_flags v = Some []) \<and>
     (\<not> is_company_type (vendor_type_of v) \<or> \<not> blank (vn_cr v)) \<and> \<not> blank (vn_tax v) \<and>
     (vn_bank v \<noteq> None \<or> vn_restricted_bank v \<noteq> None) \<and>
     \<not> (\<exists>u. vn_insurance_until v = Some u \<and> time_lt u now)"
    by (cases "vn_risk_flags v"; cases "vn_insurance_until v")
      (auto simp: vendor_violations_def default_vendor_policy_def)
  show ?thesis by (cases "vn_status v = VsBlacklisted") (simp_all add: evaluate_vendor_def Let_def vs)
qed

lemma mask_iban_shows:
  assumes "mask_iban s = MaskedEnds a b"
  shows "length a = 4 \<and> length b = 4 \<and> (\<exists>hidden. filter (\<lambda>c. \<not> is_space c) s = a @ hidden @ b)"
proof -
  let ?c = "filter (\<lambda>c. \<not> is_space c) s"
  from assms have len: "8 \<le> length ?c" and ab: "a = take 4 ?c" "b = drop (length ?c - 4) ?c"
    by (auto simp: mask_iban_def Let_def split: if_splits)
  have "?c = take 4 ?c @ take (length ?c - 8) (drop 4 ?c) @ drop (length ?c - 8) (drop 4 ?c)"
    by (metis append_take_drop_id)
  moreover have "drop (length ?c - 8) (drop 4 ?c) = b" using len by (simp add: ab)
  ultimately have "?c = a @ take (length ?c - 8) (drop 4 ?c) @ b" using ab(1) by metis
  then show ?thesis using len ab by auto
qed

section \<open>Bids\<close>

lemma min_price_le: "qs \<noteq> [] \<Longrightarrow> q \<in> set qs \<Longrightarrow> min_price qs \<le> m_amount (vq_total q)"
proof -
  let ?f = "\<lambda>q m. if m_amount (vq_total q) < m then m_amount (vq_total q) else m"
  have low: "fold ?f qs m \<le> m" for m and qs :: "vendor_quote list"
  proof (induction qs arbitrary: m)
    case (Cons x xs)
    from Cons [of "?f x m"] show ?case by (simp split: if_splits)
  qed simp
  have "q \<in> set qs \<Longrightarrow> fold ?f qs m \<le> m_amount (vq_total q)" for m
  proof (induction qs arbitrary: m)
    case (Cons x xs)
    show ?case
    proof (cases "q = x")
      case True
      have "fold ?f xs (?f x m) \<le> ?f x m" by (rule low)
      also have "?f x m \<le> m_amount (vq_total x)" by simp
      finally show ?thesis using True by simp
    next
      case False
      with Cons show ?thesis by simp
    qed
  qed simp
  then show "q \<in> set qs \<Longrightarrow> min_price qs \<le> m_amount (vq_total q)" by (simp add: min_price_def)
qed

lemma evaluate_bids_returns: "qs \<noteq> [] \<Longrightarrow> \<exists>r. evaluate_bids D rfq qs w = Inr r"
proof (cases "sort_by (\<lambda>a b. be_composite b - be_composite a \<le> 0) (map (evaluate_quote D w (min_price qs)) qs)")
  case Nil
  moreover assume "qs \<noteq> []"
  ultimately show ?thesis by simp
next
  case (Cons e es)
  moreover assume "qs \<noteq> []"
  ultimately show ?thesis by (simp add: evaluate_bids_def)
qed

text \<open>
  The recommendation goes to a best bid. Every quote is evaluated once; the evaluations
  are ordered by falling score; exactly the first is recommended, it is the one reported,
  and no quote has a higher composite score; a quote at the lowest (positive) price gets the
  full commercial score.
\<close>

theorem best_bid_recommended:
  assumes "evaluate_bids D rfq qs w = Inr r"
  shows "let scores = map (evaluate_quote D w (min_price qs)) qs in
    mset (map (\<lambda>e. e\<lparr>be_recommended := False\<rparr>) (br_evaluations r)) = mset scores \<and>
    sorted_wrt (\<lambda>a b. be_composite b \<le> be_composite a) (br_evaluations r) \<and>
    map be_recommended (br_evaluations r) = True # replicate (length qs - 1) False \<and>
    br_vendor r = be_vendor (hd (br_evaluations r)) \<and> br_quote r = be_quote (hd (br_evaluations r)) \<and>
    (\<forall>e \<in> set scores. be_composite e \<le> be_composite (hd (br_evaluations r))) \<and>
    (decimal_arith D \<longrightarrow> (\<forall>q \<in> set qs. m_amount (vq_total q) = min_price qs \<longrightarrow> commercial_score D (min_price qs) q = 100))"
proof -
  let ?le = "\<lambda>a b. be_composite b - be_composite a \<le> 0" and ?scores = "map (evaluate_quote D w (min_price qs)) qs"
  from assms obtain e es where s: "sort_by ?le ?scores = e # es"
    and r: "r = \<lparr>br_rfq = rfq, br_count = int (length qs), br_evaluations = e\<lparr>be_recommended := True\<rparr> # es,
      br_vendor = be_vendor e, br_quote = be_quote e\<rparr>"
    by (auto simp: evaluate_bids_def split: list.splits)
  have sorted: "sorted_wrt ?le (e # es)"
    unfolding s [symmetric] by (rule sorted_sort_by) auto
  have set: "set (e # es) = set ?scores" unfolding s [symmetric] by (rule set_sort_by)
  have "\<not> be_recommended x" if "x \<in> set (e # es)" for x
    using that unfolding set by (auto simp: evaluate_quote_def Let_def)
  then have off: "map (\<lambda>e. e\<lparr>be_recommended := False\<rparr>) es = es" "e\<lparr>be_recommended := False\<rparr> = e"
    "map be_recommended es = replicate (length es) False"
    by (auto intro!: map_idI nth_equalityI)
  have "mset (e # es) = mset ?scores" unfolding s [symmetric] by simp
  moreover have len: "length qs = Suc (length es)" using arg_cong [OF s, of length] by simp
  moreover have "be_composite x \<le> be_composite e" if "x \<in> set ?scores" for x
    using that sorted unfolding set [symmetric] by auto
  moreover have "commercial_score D (min_price qs) q = 100"
    if "decimal_arith D" "m_amount (vq_total q) = min_price qs" for q
  proof (cases "min_price qs = 0")
    case True
    with that show ?thesis by (simp add: commercial_score_def)
  next
    case False
    have "on_grid 1" "on_grid 100" using whole_mult [of 100 1000000] by (simp_all add: on_grid_def)
    with False that show ?thesis
      by (simp add: commercial_score_def decimal_arith.round_on_grid)
  qed
  ultimately show ?thesis using off sorted by (auto simp: r Let_def)
qed

section \<open>Committed cost\<close>

text \<open>
  The committed cost is the exact sum of the totals of the approved, released,
  acknowledged and received orders, all of which are in the currency asked for; drafts and
  cancelled orders do not count, and neither does an order that is awaiting reconciliation,
  although the supplier may have received it.
\<close>

theorem committed_cost_exact:
  assumes D: "decimal_arith D" and agg: "aggregate_committed_cost D pos c = Inr m"
    and sc: "\<forall>po \<in> set pos. scaled 1 (m_amount (po_total po))" and few: "length pos < 1000000"
  shows "m_amount m = sum_list (map (\<lambda>po. m_amount (po_total po)) (filter (\<lambda>po. is_committed (po_status po)) pos)) \<and>
    (\<forall>po \<in> set pos. is_committed (po_status po) \<longrightarrow> m_currency (po_total po) = c) \<and>
    \<not> is_committed (po_status (handle_remote_supplier_timeout po))"
proof -
  let ?step = "\<lambda>total po. if is_committed (po_status po)
     then bind_res (throw_if (m_currency (po_total po) \<noteq> c) (CurrencyMismatch (m_currency (po_total po)) c))
       (\<lambda>_. money_plus D total (po_total po)) else Inr total"
  have "fold_res ?step t ps = Inr m \<Longrightarrow> scaled k (m_amount t) \<Longrightarrow> k + length ps < 1000000 \<Longrightarrow>
      \<forall>po \<in> set ps. scaled 1 (m_amount (po_total po)) \<Longrightarrow>
      m_amount m = m_amount t + sum_list (map (\<lambda>po. m_amount (po_total po)) (filter (\<lambda>po. is_committed (po_status po)) ps)) \<and>
      (\<forall>po \<in> set ps. is_committed (po_status po) \<longrightarrow> m_currency (po_total po) = c)" for t ps k
  proof (induction ps arbitrary: t k)
    case Nil
    then show ?case by simp
  next
    case (Cons p ps)
    show ?case
    proof (cases "is_committed (po_status p)")
      case True
      with Cons.prems(1) obtain u where cur: "m_currency (po_total p) = c"
        and u: "u = mk_money (dp_round D (m_amount t + m_amount (po_total p))) (m_currency t)"
        and rest: "fold_res ?step u ps = Inr m" by (auto simp: guard_simps)
      have p: "scaled 1 (m_amount (po_total p))" using Cons.prems(4) by simp
      have "dp_round D (m_amount t + m_amount (po_total p)) = m_amount t + m_amount (po_total p)"
        using decimal_arith.plus_exact [OF D Cons.prems(2) p] Cons.prems(3) by simp
      with u have a: "m_amount u = m_amount t + m_amount (po_total p)" by simp
      have "scaled (k + 1) (m_amount u)" unfolding a by (rule scaled_add [OF Cons.prems(2) p])
      from Cons.IH [OF rest this] Cons.prems(3,4) True cur a show ?thesis by simp
    next
      case False
      with Cons.IH [of t k] Cons.prems scaled_mono [of k "m_amount t" k] show ?thesis by simp
    qed
  qed
  from this [of "money_zero c" pos 0] agg sc few show ?thesis
    by (simp add: aggregate_committed_cost_def money_zero_def is_committed_def handle_remote_supplier_timeout_def)
qed

section \<open>Witnesses\<close>

definition example_line :: "string \<Rightarrow> order_line" where
  "example_line i = \<lparr>ol_id = i, ol_po = ''PO-1'', ol_package = ''PK'', ol_description = ''Chairs'', ol_quantity = 10,
     ol_unit = mk_money 100 ''QAR'', ol_total = mk_money 1000 ''QAR'', ol_received = 0, ol_rejected = 0\<rparr>"

definition example_order :: purchase_order where
  "example_order = \<lparr>po_id = ''PO-1'', po_number = ''1'', po_vendor = ''V1'', po_framework = None, po_currency = ''QAR'',
     po_total = mk_money 1000 ''QAR'', po_status = PoApproved, po_lines = [example_line ''L1''], po_key = None,
     po_released_at = None, po_delivery = NotSent, po_rationale = None, po_sole_source = False\<rparr>"

theorem sends_need_reconciliation_witness:
  "\<exists>n q. po_reach decimal24 example_order [EvRelease None ''k1'', EvRelease None ''k2'', EvTimeout] n q \<and> n \<le> 1"
proof -
  let ?r = "example_order\<lparr>po_status := PoReleased, po_key := Some ''k1'', po_released_at := Some None,
    po_delivery := SentPending\<rparr>"
  have e1: "po_step decimal24 example_order (EvRelease None ''k1'') = (?r, True)"
    and e2: "po_step decimal24 ?r (EvRelease None ''k2'') = (?r, False)"
    by (simp_all add: release_purchase_order_def example_order_def)
  have e3: "po_step decimal24 ?r EvTimeout = (handle_remote_supplier_timeout ?r, False)" by simp
  from reach_step [OF reach_step [OF reach_step [OF reach_start e1] e2] e3]
  have run: "po_reach decimal24 example_order [EvRelease None ''k1'', EvRelease None ''k2'', EvTimeout] 1
      (handle_remote_supplier_timeout ?r)" by simp
  from sends_need_reconciliation [OF run] run show ?thesis by auto
qed

theorem release_idempotent_witness:
  "\<exists>po'. release_purchase_order None example_order ''k1'' = Inr (po', False) \<and>
     release_purchase_order None po' ''k1'' = Inr (po', True) \<and>
     release_purchase_order None po' ''k2'' = Inl PoAlreadyReleased"
proof -
  obtain po' where r: "release_purchase_order None example_order ''k1'' = Inr (po', False)"
    by (simp add: release_purchase_order_def example_order_def)
  from release_idempotent [OF r, of None "''k2''"] r show ?thesis by auto
qed

lemma example_line_books: "line_books (example_line i)"
  by (simp add: line_books_def example_line_def)

theorem receipts_within_order_witness:
  "line_books (attempts (receipt_step decimal24) (example_line ''L1'')
     [(DecNumber 6, DecNumber 0), (DecNumber 6, DecNumber 0), (DecNumber 2, DecNumber 2)])"
  using receipts_within_order [OF decimal24_arith example_line_books,
      of "[(DecNumber 6, DecNumber 0), (DecNumber 6, DecNumber 0), (DecNumber 2, DecNumber 2)]" "''L1''"]
  by (simp add: good_quantity_def)

theorem failed_receipt_is_applied_witness:
  "\<exists>po'. record_receipt decimal24 example_order
     [\<lparr>ri_line = ''L1'', ri_received = DecNumber 4, ri_rejected = DecNumber 0\<rparr>,
      \<lparr>ri_line = ''L9'', ri_received = DecNumber 1, ri_rejected = DecNumber 0\<rparr>] = (po', Inl (NotFound ''LINE'')) \<and>
     map ol_received (po_lines po') = [4]"
proof -
  have l: "List.find (\<lambda>l. ol_id l = ''L1'') (po_lines example_order) = Some (example_line ''L1'')"
    by (simp add: example_order_def example_line_def)
  obtain r where r: "receive_po_line decimal24 (example_line ''L1'') (DecNumber 4) (DecNumber 0) = Inr r"
    and rec: "ol_received (rr_line r) = 4" "ol_id (rr_line r) = ''L1''"
    by (simp add: receive_exact [OF decimal24_arith example_line_books] Let_def) (simp add: example_line_def)
  from failed_receipt_is_applied [OF l r, of "''L9''" "DecNumber 1" "DecNumber 0"] rec show ?thesis
    by (simp add: example_order_def example_line_def)
qed

definition example_contract :: framework_contract where
  "example_contract = \<lparr>fw_id = ''F1'', fw_code = ''F'', fw_vendor = ''V1'', fw_currency = ''QAR'',
     fw_ceiling = mk_money 1000 ''QAR'', fw_consumed = mk_money 400 ''QAR'', fw_valid_until = None\<rparr>"

theorem ceiling_holds_witness:
  "within_ceiling (attempts (call_off decimal24) example_contract [mk_money 500 ''QAR'', mk_money 200 ''QAR''])"
  by (rule conjunct1 [OF ceiling_holds]) (simp add: within_ceiling_def example_contract_def)

definition example_vendor :: vendor where
  "example_vendor = \<lparr>vn_id = ''V1'', vn_code = ''V'', vn_name = ''Vendor'', vn_type = Some VtFreelancer, vn_category = None,
     vn_status = VsUnderReview, vn_cr = None, vn_tax = Some ''T1'', vn_insurance_until = None, vn_bank = None,
     vn_restricted_bank = None, vn_risk_flags = None, vn_compliance = True, vn_grace_until = None\<rparr>"

theorem bank_change_needs_two_witness:
  "returns (verify_bank_change None example_vendor (request_bank_change ''r'' None example_vendor
      \<lparr>bd_bank = ''B'', bd_account_name = ''A'', bd_account = ''1'', bd_iban = ''I'', bd_swift = ''S''\<rparr> ''u1'') ''u2'')"
  using bank_change_needs_two [of None example_vendor "''r''" None
      "\<lparr>bd_bank = ''B'', bd_account_name = ''A'', bd_account = ''1'', bd_iban = ''I'', bd_swift = ''S''\<rparr>" "''u1''"
      "request_bank_change ''r'' None example_vendor
      \<lparr>bd_bank = ''B'', bd_account_name = ''A'', bd_account = ''1'', bd_iban = ''I'', bd_swift = ''S''\<rparr> ''u1''" "''u2''"]
  by (simp add: request_bank_change_def)

definition example_quote :: "string \<Rightarrow> rat \<Rightarrow> vendor_quote" where
  "example_quote i p = \<lparr>vq_id = i, vq_vendor = i, vq_rate = mk_money p ''QAR'', vq_total = mk_money p ''QAR'', vq_days = 7,
     vq_compliance = ''Full'', vq_technical = None, vq_risk = None\<rparr>"

theorem best_bid_recommended_witness:
  "\<exists>r. evaluate_bids decimal24 ''RFQ'' [example_quote ''A'' 500, example_quote ''B'' 400] default_weights = Inr r \<and>
     map be_recommended (br_evaluations r) = [True, False] \<and>
     commercial_score decimal24 400 (example_quote ''B'' 400) = 100"
proof -
  let ?qs = "[example_quote ''A'' 500, example_quote ''B'' 400]"
  obtain r where r: "evaluate_bids decimal24 ''RFQ'' ?qs default_weights = Inr r"
    using evaluate_bids_returns [of ?qs] by blast
  have low: "min_price ?qs = 400" by (simp add: min_price_def example_quote_def)
  from best_bid_recommended [OF r] r low decimal24_arith show ?thesis
    by (simp add: Let_def) (simp add: example_quote_def)
qed

theorem committed_cost_exact_witness:
  "\<exists>m. aggregate_committed_cost decimal24 [example_order, example_order\<lparr>po_status := PoDraft\<rparr>] ''QAR'' = Inr m \<and>
     m_amount m = 1000"
proof -
  have "\<exists>m. aggregate_committed_cost decimal24 [example_order, example_order\<lparr>po_status := PoDraft\<rparr>] ''QAR'' = Inr m"
    by (simp add: aggregate_committed_cost_def is_committed_def example_order_def money_zero_def money_plus_def
        assert_same_currency_def) (simp add: to_upper_def upper_char_def)
  then obtain m where m: "aggregate_committed_cost decimal24 [example_order, example_order\<lparr>po_status := PoDraft\<rparr>] ''QAR'' = Inr m"
    by blast
  from committed_cost_exact [OF decimal24_arith m] m show ?thesis
    by (simp add: example_order_def is_committed_def)
qed

end
