(* ===== verification/Gantt.thy ===== *)
theory Gantt
  imports Prelude
begin

text \<open>
  The critical path method of \<open>packages/domain/src/gantt.ts\<close> (\<open>calculateCpmSchedule\<close>): the
  forward and the backward pass over a list of tasks, the floats and the critical tasks.
  Hours are rationals; a \<open>Map\<close> from task identifiers is a partial function. The fields of a
  task that the calculation never reads are left out.
\<close>

section \<open>Data\<close>

datatype gantt_dependency = GdFS | GdSS | GdFF | GdSF

record gantt_pred =
  gp_id :: string
  gp_type :: "gantt_dependency option"
  gp_lag :: "rat option"

record gantt_task =
  gt_id :: string
  gt_code :: string
  gt_title :: string
  gt_duration :: rat
  gt_stage :: "int option"
  gt_preds :: "gantt_pred list"
  gt_milestone :: bool

record cpm_task =
  ct_id :: string
  ct_code :: string
  ct_title :: string
  ct_duration :: rat
  ct_es :: rat
  ct_ef :: rat
  ct_ls :: rat
  ct_lf :: rat
  ct_total_float :: rat
  ct_free_float :: rat
  ct_critical :: bool
  ct_stage :: "int option"

record cpm_result =
  cpm_duration :: rat
  cpm_critical :: "string list"
  cpm_tasks :: "cpm_task list"
  cpm_total :: int
  cpm_critical_count :: int

type_synonym hours = "string \<Rightarrow> rat option"

section \<open>The two passes\<close>

definition or0 :: "rat option \<Rightarrow> rat" where
  "or0 x = (case x of Some y \<Rightarrow> y | None \<Rightarrow> 0)"

definition task_hours :: "gantt_task \<Rightarrow> rat" where
  "task_hours t = (if gt_milestone t then 0 else max 0 (gt_duration t))"

definition latest_pred :: "hours \<Rightarrow> gantt_pred list \<Rightarrow> rat" where
  "latest_pred ef ps = fold (\<lambda>p best. let v = or0 (ef (gp_id p)) + or0 (gp_lag p) in
     if v > best then v else best) ps 0"

definition forward_step :: "gantt_task \<Rightarrow> hours \<times> hours \<Rightarrow> hours \<times> hours" where
  "forward_step t s = (case s of (es, ef) \<Rightarrow> let start = latest_pred ef (gt_preds t) in
     (es(gt_id t \<mapsto> start), ef(gt_id t \<mapsto> start + task_hours t)))"

definition forward_pass :: "gantt_task list \<Rightarrow> hours \<times> hours" where
  "forward_pass ts = fold forward_step ts (Map.empty, Map.empty)"

definition project_duration :: "gantt_task list \<Rightarrow> hours \<Rightarrow> rat" where
  "project_duration ts ef = foldr max (map (\<lambda>t. or0 (ef (gt_id t))) ts) 0"

text \<open>The successors of a task, in the order in which they are pushed.\<close>

definition successors :: "gantt_task list \<Rightarrow> string \<Rightarrow> (string \<times> rat option) list" where
  "successors ts i = concat (map (\<lambda>t. map (\<lambda>p. (gt_id t, gp_lag p)) (filter (\<lambda>p. gp_id p = i) (gt_preds t))) ts)"

definition earliest_succ :: "rat \<Rightarrow> hours \<Rightarrow> (string \<times> rat option) list \<Rightarrow> rat" where
  "earliest_succ T ls ss = fold (\<lambda>(i, lag) best.
     let v = (case ls i of Some x \<Rightarrow> x | None \<Rightarrow> T) - or0 lag in if v < best then v else best) ss T"

definition backward_step :: "gantt_task list \<Rightarrow> rat \<Rightarrow> gantt_task \<Rightarrow> hours \<times> hours \<Rightarrow> hours \<times> hours" where
  "backward_step ts T t s = (case s of (ls, lf) \<Rightarrow> let finish = earliest_succ T ls (successors ts (gt_id t)) in
     (ls(gt_id t \<mapsto> finish - task_hours t), lf(gt_id t \<mapsto> finish)))"

definition backward_pass :: "gantt_task list \<Rightarrow> rat \<Rightarrow> hours \<times> hours" where
  "backward_pass ts T = fold (backward_step ts T) (rev ts) (Map.empty, Map.empty)"

definition cpm_row :: "hours \<Rightarrow> hours \<Rightarrow> hours \<Rightarrow> hours \<Rightarrow> gantt_task \<Rightarrow> cpm_task" where
  "cpm_row es ef ls lf t = (let i = gt_id t; slack = max 0 (or0 (ls i) - or0 (es i)) in
     \<lparr>ct_id = i, ct_code = gt_code t, ct_title = gt_title t, ct_duration = gt_duration t,
      ct_es = or0 (es i), ct_ef = or0 (ef i), ct_ls = or0 (ls i), ct_lf = or0 (lf i),
      ct_total_float = slack, ct_free_float = slack, ct_critical = (slack \<le> 0), ct_stage = gt_stage t\<rparr>)"

definition calculate_cpm_schedule :: "gantt_task list \<Rightarrow> cpm_result" where
  "calculate_cpm_schedule ts =
     (if length ts = 0
      then \<lparr>cpm_duration = 0, cpm_critical = [], cpm_tasks = [], cpm_total = 0, cpm_critical_count = 0\<rparr>
      else (case forward_pass ts of (es, ef) \<Rightarrow> let T = project_duration ts ef in
        (case backward_pass ts T of (ls, lf) \<Rightarrow>
          let rows = map (cpm_row es ef ls lf) ts;
              critical = map ct_id (filter ct_critical rows)
          in \<lparr>cpm_duration = T, cpm_critical = critical, cpm_tasks = rows, cpm_total = int (length ts),
              cpm_critical_count = int (length critical)\<rparr>)))"

section \<open>The passes on an ordered list\<close>

text \<open>
  The list is in topological order when its identifiers are distinct and no task names
  itself or a later task as its predecessor; a predecessor that is not in the list counts as
  finished at hour 0.
\<close>

fun topological :: "gantt_task list \<Rightarrow> bool" where
  "topological [] = True"
| "topological (t # ts) \<longleftrightarrow> gt_id t \<notin> gt_id ` set ts \<and>
     (\<forall>p \<in> set (gt_preds t). gp_id p \<noteq> gt_id t \<and> gp_id p \<notin> gt_id ` set ts) \<and> topological ts"

lemma topological_append:
  "topological (xs @ ys) \<longleftrightarrow> topological xs \<and> topological ys \<and> gt_id ` set xs \<inter> gt_id ` set ys = {} \<and>
     (\<forall>t \<in> set xs. \<forall>p \<in> set (gt_preds t). gp_id p \<notin> gt_id ` set ys)"
  by (induction xs) auto

lemma fold_larger:
  fixes v :: "'a \<Rightarrow> rat"
  defines "R \<equiv> \<lambda>ps b. fold (\<lambda>p b. if v p > b then v p else b) ps b"
  shows "b \<le> R ps b \<and> (\<forall>p \<in> set ps. v p \<le> R ps b) \<and> (R ps b = b \<or> (\<exists>p \<in> set ps. R ps b = v p))"
proof (induction ps arbitrary: b)
  case Nil
  then show ?case by (simp add: R_def)
next
  case (Cons p ps)
  have "R (p # ps) b = R ps (if v p > b then v p else b)" by (simp add: R_def)
  with Cons [of "if v p > b then v p else b"] show ?case by (auto split: if_splits)
qed

lemma fold_smaller:
  fixes v :: "'a \<Rightarrow> rat"
  defines "R \<equiv> \<lambda>ps b. fold (\<lambda>p b. if v p < b then v p else b) ps b"
  shows "R ps b \<le> b \<and> (\<forall>p \<in> set ps. R ps b \<le> v p) \<and> (R ps b = b \<or> (\<exists>p \<in> set ps. R ps b = v p))"
proof (induction ps arbitrary: b)
  case Nil
  then show ?case by (simp add: R_def)
next
  case (Cons p ps)
  have "R (p # ps) b = R ps (if v p < b then v p else b)" by (simp add: R_def)
  with Cons [of "if v p < b then v p else b"] show ?case by (auto split: if_splits)
qed

lemma latest_pred_spec:
  "0 \<le> latest_pred ef ps \<and> (\<forall>p \<in> set ps. or0 (ef (gp_id p)) + or0 (gp_lag p) \<le> latest_pred ef ps) \<and>
   (latest_pred ef ps = 0 \<or> (\<exists>p \<in> set ps. latest_pred ef ps = or0 (ef (gp_id p)) + or0 (gp_lag p)))"
  using fold_larger [where v = "\<lambda>p. or0 (ef (gp_id p)) + or0 (gp_lag p)"] by (simp add: latest_pred_def Let_def)

text \<open>The start a successor imposes: its late start (the project's end when it has none) less the lag.\<close>

definition succ_limit :: "rat \<Rightarrow> hours \<Rightarrow> string \<times> rat option \<Rightarrow> rat" where
  "succ_limit T ls s = (case ls (fst s) of Some x \<Rightarrow> x | None \<Rightarrow> T) - or0 (snd s)"

lemma earliest_succ_spec:
  "earliest_succ T ls ss \<le> T \<and> (\<forall>s \<in> set ss. earliest_succ T ls ss \<le> succ_limit T ls s) \<and>
   (earliest_succ T ls ss = T \<or> (\<exists>s \<in> set ss. earliest_succ T ls ss = succ_limit T ls s))"
proof -
  have fold: "earliest_succ T ls ss = fold (\<lambda>s b. if succ_limit T ls s < b then succ_limit T ls s else b) ss T"
    by (simp add: earliest_succ_def Let_def case_prod_unfold succ_limit_def cong: if_cong)
  show ?thesis unfolding fold by (rule fold_smaller)
qed

lemma latest_pred_cong: "(\<And>p. p \<in> set ps \<Longrightarrow> ef (gp_id p) = ef' (gp_id p)) \<Longrightarrow> latest_pred ef ps = latest_pred ef' ps"
  unfolding latest_pred_def by (rule fold_cong) auto

lemma earliest_succ_cong:
  "(\<And>s. s \<in> set ss \<Longrightarrow> ls (fst s) = ls' (fst s)) \<Longrightarrow> earliest_succ T ls ss = earliest_succ T ls' ss"
  unfolding earliest_succ_def by (rule fold_cong) auto

text \<open>What the forward pass leaves for the tasks it has seen.\<close>

lemma forward_pass_spec:
  assumes "topological ts" and "forward_pass ts = (es, ef)"
  shows "dom ef = gt_id ` set ts \<and> (\<forall>t \<in> set ts. es (gt_id t) = Some (latest_pred ef (gt_preds t)) \<and>
    ef (gt_id t) = Some (latest_pred ef (gt_preds t) + task_hours t))"
  using assms
proof (induction ts arbitrary: es ef rule: rev_induct)
  case Nil
  then have "es = Map.empty" "ef = Map.empty" by (auto simp: forward_pass_def)
  then show ?case by simp
next
  case (snoc t ts)
  obtain es0 ef0 where prev: "forward_pass ts = (es0, ef0)" by fastforce
  from snoc.prems(2) prev have es: "es = es0(gt_id t \<mapsto> latest_pred ef0 (gt_preds t))"
    and ef: "ef = ef0(gt_id t \<mapsto> latest_pred ef0 (gt_preds t) + task_hours t)"
    by (auto simp: forward_pass_def forward_step_def Let_def)
  have top: "topological ts" "gt_id t \<notin> gt_id ` set ts" "\<forall>p \<in> set (gt_preds t). gp_id p \<noteq> gt_id t"
    "\<forall>x \<in> set ts. \<forall>p \<in> set (gt_preds x). gp_id p \<noteq> gt_id t"
    using snoc.prems(1) by (auto simp: topological_append)
  note IH = snoc.IH [OF top(1) prev]
  have same: "latest_pred ef (gt_preds x) = latest_pred ef0 (gt_preds x)" if "x \<in> set (ts @ [t])" for x
    using that top(3,4) by (intro latest_pred_cong) (auto simp: ef)
  have "dom ef = gt_id ` set (ts @ [t])" using IH by (simp add: ef)
  moreover have "es (gt_id x) = Some (latest_pred ef (gt_preds x)) \<and>
      ef (gt_id x) = Some (latest_pred ef (gt_preds x) + task_hours x)" if "x \<in> set (ts @ [t])" for x
  proof (cases "x = t")
    case True
    then show ?thesis using same [of t] by (simp add: es ef)
  next
    case False
    with that have "x \<in> set ts" by simp
    then have "gt_id x \<noteq> gt_id t" using top(2) by (metis imageI)
    with \<open>x \<in> set ts\<close> IH same [OF that] show ?thesis by (simp add: es ef)
  qed
  ultimately show ?case by blast
qed

text \<open>The backward pass, for every suffix it has seen.\<close>

lemma successors_later:
  assumes "topological (xs @ t # ys)" and "s \<in> set (successors (xs @ t # ys) (gt_id t))"
  shows "fst s \<in> gt_id ` set ys"
proof -
  from assms(2) obtain u p where "u \<in> set (xs @ t # ys)" "p \<in> set (gt_preds u)" "gp_id p = gt_id t" "s = (gt_id u, gp_lag p)"
    by (auto simp: successors_def)
  moreover from this assms(1) have "u \<in> set ys" by (auto simp: topological_append)
  ultimately show ?thesis by auto
qed

lemma backward_suffix:
  assumes "topological (xs @ ys)" and "fold (backward_step (xs @ ys) T) (rev ys) (Map.empty, Map.empty) = (ls, lf)"
  shows "dom ls = gt_id ` set ys \<and> (\<forall>t \<in> set ys.
    lf (gt_id t) = Some (earliest_succ T ls (successors (xs @ ys) (gt_id t))) \<and>
    ls (gt_id t) = Some (earliest_succ T ls (successors (xs @ ys) (gt_id t)) - task_hours t))"
  using assms
proof (induction ys arbitrary: xs ls lf)
  case Nil
  then show ?case by simp
next
  case (Cons t ys)
  let ?ss = "successors (xs @ t # ys)"
  obtain ls0 lf0 where prev: "fold (backward_step ((xs @ [t]) @ ys) T) (rev ys) (Map.empty, Map.empty) = (ls0, lf0)"
    by fastforce
  have "backward_step (xs @ t # ys) T t (ls0, lf0) = (ls, lf)" using Cons.prems(2) prev by simp
  then have ls: "ls = ls0(gt_id t \<mapsto> earliest_succ T ls0 (?ss (gt_id t)) - task_hours t)"
    and lf: "lf = lf0(gt_id t \<mapsto> earliest_succ T ls0 (?ss (gt_id t)))"
    by (auto simp: backward_step_def Let_def)
  have top: "topological ((xs @ [t]) @ ys)" using Cons.prems(1) by simp
  note IH = Cons.IH [OF top prev]
  have fresh: "gt_id t \<notin> gt_id ` set ys" using Cons.prems(1) by (simp add: topological_append)
  have same: "earliest_succ T ls (?ss (gt_id x)) = earliest_succ T ls0 (?ss (gt_id x))" if "x \<in> set (t # ys)" for x
  proof (rule earliest_succ_cong)
    fix s
    assume s: "s \<in> set (?ss (gt_id x))"
    from that obtain us vs where split: "t # ys = us @ x # vs" by (meson split_list)
    have "topological ((xs @ us) @ x # vs)" using Cons.prems(1) split by simp
    moreover have "s \<in> set (successors ((xs @ us) @ x # vs) (gt_id x))" using s split by simp
    ultimately have "fst s \<in> gt_id ` set vs" by (rule successors_later)
    moreover have "set vs \<subseteq> set ys" using split by (cases us) auto
    ultimately have "fst s \<noteq> gt_id t" using fresh by (metis image_mono subsetD)
    then show "ls (fst s) = ls0 (fst s)" by (simp add: ls)
  qed
  have "dom ls = gt_id ` set (t # ys)" using IH by (simp add: ls)
  moreover have "lf (gt_id x) = Some (earliest_succ T ls (?ss (gt_id x))) \<and>
      ls (gt_id x) = Some (earliest_succ T ls (?ss (gt_id x)) - task_hours x)" if "x \<in> set (t # ys)" for x
  proof (cases "x = t")
    case True
    then show ?thesis using same [of t] by (simp add: ls lf)
  next
    case False
    with that have "x \<in> set ys" by simp
    then have "gt_id x \<noteq> gt_id t" using fresh by (metis imageI)
    with \<open>x \<in> set ys\<close> IH same [OF that] show ?thesis by (simp add: ls lf)
  qed
  ultimately show ?case by blast
qed

lemma project_duration_spec:
  "0 \<le> project_duration ts ef \<and> (\<forall>t \<in> set ts. or0 (ef (gt_id t)) \<le> project_duration ts ef) \<and>
   (project_duration ts ef = 0 \<or> (\<exists>t \<in> set ts. project_duration ts ef = or0 (ef (gt_id t))))"
  unfolding project_duration_def by (induction ts) (auto simp: max_def)

section \<open>Schedules\<close>

text \<open>
  A schedule gives every task a start hour. It is feasible when no task starts before hour 0
  and every dependency is respected, as its type says: finish-to-start (the type of an entry
  that gives none), start-to-start, finish-to-finish or start-to-finish, each with its lag. A
  predecessor that is not in the list counts as finished at hour 0. A schedule finishes by
  \<open>T\<close> when every task has ended at hour \<open>T\<close>.
\<close>

definition dep_finish :: "gantt_task list \<Rightarrow> (string \<Rightarrow> rat) \<Rightarrow> string \<Rightarrow> rat" where
  "dep_finish ts starts i = (case find (\<lambda>t. gt_id t = i) ts of Some t \<Rightarrow> starts i + task_hours t | None \<Rightarrow> 0)"

definition dep_start :: "gantt_task list \<Rightarrow> (string \<Rightarrow> rat) \<Rightarrow> string \<Rightarrow> rat" where
  "dep_start ts starts i = (case find (\<lambda>t. gt_id t = i) ts of Some t \<Rightarrow> starts i | None \<Rightarrow> 0)"

definition declared_type :: "gantt_pred \<Rightarrow> gantt_dependency" where
  "declared_type p = (case gp_type p of Some d \<Rightarrow> d | None \<Rightarrow> GdFS)"

definition meets_dependency :: "gantt_task list \<Rightarrow> (string \<Rightarrow> rat) \<Rightarrow> gantt_task \<Rightarrow> gantt_pred \<Rightarrow> bool" where
  "meets_dependency ts starts t p \<longleftrightarrow> (case declared_type p of
       GdFS \<Rightarrow> dep_finish ts starts (gp_id p) + or0 (gp_lag p) \<le> starts (gt_id t)
     | GdSS \<Rightarrow> dep_start ts starts (gp_id p) + or0 (gp_lag p) \<le> starts (gt_id t)
     | GdFF \<Rightarrow> dep_finish ts starts (gp_id p) + or0 (gp_lag p) \<le> starts (gt_id t) + task_hours t
     | GdSF \<Rightarrow> dep_start ts starts (gp_id p) + or0 (gp_lag p) \<le> starts (gt_id t) + task_hours t)"

definition feasible :: "gantt_task list \<Rightarrow> (string \<Rightarrow> rat) \<Rightarrow> bool" where
  "feasible ts starts \<longleftrightarrow> (\<forall>t \<in> set ts. 0 \<le> starts (gt_id t) \<and> (\<forall>p \<in> set (gt_preds t). meets_dependency ts starts t p))"

definition finish_to_start_only :: "gantt_task list \<Rightarrow> bool" where
  "finish_to_start_only ts \<longleftrightarrow> (\<forall>t \<in> set ts. \<forall>p \<in> set (gt_preds t). gp_type p = None \<or> gp_type p = Some GdFS)"

text \<open>
  The calculation takes every dependency for finish-to-start, which is the strictest type: a
  schedule that is feasible for that reading is feasible for the declared types.
\<close>

definition fs_feasible :: "gantt_task list \<Rightarrow> (string \<Rightarrow> rat) \<Rightarrow> bool" where
  "fs_feasible ts starts \<longleftrightarrow> (\<forall>t \<in> set ts. 0 \<le> starts (gt_id t) \<and>
     (\<forall>p \<in> set (gt_preds t). dep_finish ts starts (gp_id p) + or0 (gp_lag p) \<le> starts (gt_id t)))"

definition finishes_by :: "gantt_task list \<Rightarrow> (string \<Rightarrow> rat) \<Rightarrow> rat \<Rightarrow> bool" where
  "finishes_by ts starts T \<longleftrightarrow> (\<forall>t \<in> set ts. starts (gt_id t) + task_hours t \<le> T)"

text \<open>The start hours a computed schedule holds.\<close>

definition early_starts :: "cpm_result \<Rightarrow> string \<Rightarrow> rat" where
  "early_starts r i = or0 (map_of (map (\<lambda>t. (ct_id t, ct_es t)) (cpm_tasks r)) i)"

definition late_starts :: "cpm_result \<Rightarrow> string \<Rightarrow> rat" where
  "late_starts r i = or0 (map_of (map (\<lambda>t. (ct_id t, ct_ls t)) (cpm_tasks r)) i)"

lemma task_hours_nonneg [simp]: "0 \<le> task_hours t"
  by (simp add: task_hours_def)

lemma fs_feasible_strictest: "fs_feasible ts starts \<Longrightarrow> feasible ts starts"
proof -
  have start: "dep_start ts starts i \<le> dep_finish ts starts i" for i
    by (simp add: dep_start_def dep_finish_def task_hours_def split: option.splits)
  assume fs: "fs_feasible ts starts"
  have "meets_dependency ts starts t p" if "t \<in> set ts" "p \<in> set (gt_preds t)" for t p
  proof -
    have "dep_finish ts starts (gp_id p) + or0 (gp_lag p) \<le> starts (gt_id t)" using fs that by (simp add: fs_feasible_def)
    moreover from this have "dep_start ts starts (gp_id p) + or0 (gp_lag p) \<le> starts (gt_id t)" using start [of "gp_id p"] by linarith
    moreover have "x \<le> starts (gt_id t) + task_hours t" if "x \<le> starts (gt_id t)" for x using that task_hours_nonneg [of t] by linarith
    ultimately show ?thesis by (cases "declared_type p") (simp_all add: meets_dependency_def)
  qed
  with fs show ?thesis by (simp add: feasible_def fs_feasible_def)
qed

lemma fs_feasible_only: "finish_to_start_only ts \<Longrightarrow> feasible ts starts \<longleftrightarrow> fs_feasible ts starts"
proof -
  assume only: "finish_to_start_only ts"
  have "meets_dependency ts starts t p \<longleftrightarrow> dep_finish ts starts (gp_id p) + or0 (gp_lag p) \<le> starts (gt_id t)"
    if "t \<in> set ts" "p \<in> set (gt_preds t)" for t p
  proof -
    have "gp_type p = None \<or> gp_type p = Some GdFS" using only that by (simp add: finish_to_start_only_def)
    then have "declared_type p = GdFS" by (auto simp: declared_type_def)
    then show ?thesis by (simp add: meets_dependency_def)
  qed
  then show ?thesis by (simp add: feasible_def fs_feasible_def)
qed

lemma topological_distinct: "topological ts \<Longrightarrow> distinct (map gt_id ts)"
  by (induction ts) auto

lemma find_task: "distinct (map gt_id ts) \<Longrightarrow> t \<in> set ts \<Longrightarrow> find (\<lambda>u. gt_id u = gt_id t) ts = Some t"
  by (induction ts) auto

lemma dep_finish_task: "topological ts \<Longrightarrow> t \<in> set ts \<Longrightarrow> dep_finish ts starts (gt_id t) = starts (gt_id t) + task_hours t"
  by (simp add: dep_finish_def find_task topological_distinct)

lemma dep_finish_foreign: "i \<notin> gt_id ` set ts \<Longrightarrow> dep_finish ts starts i = 0"
proof -
  assume "i \<notin> gt_id ` set ts"
  then have "find (\<lambda>t. gt_id t = i) ts = None" by (auto simp: find_None_iff)
  then show ?thesis by (simp add: dep_finish_def)
qed

text \<open>What the calculation returns, over the maps of the two passes.\<close>

lemma calculate_cpm_rows:
  assumes "forward_pass ts = (es, ef)" and "backward_pass ts (project_duration ts ef) = (ls, lf)"
  shows "cpm_tasks (calculate_cpm_schedule ts) = map (cpm_row es ef ls lf) ts"
    and "cpm_duration (calculate_cpm_schedule ts) = project_duration ts ef"
    and "cpm_critical (calculate_cpm_schedule ts) = map ct_id (filter ct_critical (map (cpm_row es ef ls lf) ts))"
  using assms by (auto simp: calculate_cpm_schedule_def Let_def project_duration_def split: prod.splits)

lemma cpm_row_simps [simp]:
  "ct_id (cpm_row es ef ls lf t) = gt_id t" "ct_es (cpm_row es ef ls lf t) = or0 (es (gt_id t))"
  "ct_ef (cpm_row es ef ls lf t) = or0 (ef (gt_id t))" "ct_ls (cpm_row es ef ls lf t) = or0 (ls (gt_id t))"
  "ct_lf (cpm_row es ef ls lf t) = or0 (lf (gt_id t))"
  "ct_free_float (cpm_row es ef ls lf t) = ct_total_float (cpm_row es ef ls lf t)"
  "ct_total_float (cpm_row es ef ls lf t) = max 0 (or0 (ls (gt_id t)) - or0 (es (gt_id t)))"
  "ct_critical (cpm_row es ef ls lf t) \<longleftrightarrow> max 0 (or0 (ls (gt_id t)) - or0 (es (gt_id t))) \<le> 0"
  by (simp_all add: cpm_row_def Let_def)

lemma map_of_rows: "i \<in> gt_id ` set ts \<Longrightarrow> map_of (map (\<lambda>t. (gt_id t, g (gt_id t))) ts) i = Some (g i)"
  by (induction ts) auto

text \<open>The facts of both passes on an ordered list, in one place.\<close>

lemma cpm_passes:
  assumes top: "topological ts"
  obtains es ef ls lf where
    "forward_pass ts = (es, ef)" "backward_pass ts (project_duration ts ef) = (ls, lf)"
    "\<And>t. t \<in> set ts \<Longrightarrow> or0 (es (gt_id t)) = latest_pred ef (gt_preds t)"
    "\<And>t. t \<in> set ts \<Longrightarrow> or0 (ef (gt_id t)) = or0 (es (gt_id t)) + task_hours t"
    "\<And>i. i \<notin> gt_id ` set ts \<Longrightarrow> or0 (ef i) = 0"
    "\<And>t. t \<in> set ts \<Longrightarrow> or0 (lf (gt_id t)) = earliest_succ (project_duration ts ef) ls (successors ts (gt_id t))"
    "\<And>t. t \<in> set ts \<Longrightarrow> or0 (ls (gt_id t)) = or0 (lf (gt_id t)) - task_hours t"
    "\<And>t. t \<in> set ts \<Longrightarrow> ls (gt_id t) = Some (or0 (ls (gt_id t)))"
proof -
  obtain es ef where fp: "forward_pass ts = (es, ef)" by fastforce
  let ?T = "project_duration ts ef"
  obtain ls lf where bp: "backward_pass ts ?T = (ls, lf)" by fastforce
  have F: "dom ef = gt_id ` set ts" "\<forall>t \<in> set ts. es (gt_id t) = Some (latest_pred ef (gt_preds t)) \<and>
    ef (gt_id t) = Some (latest_pred ef (gt_preds t) + task_hours t)"
    using forward_pass_spec [OF top fp] by blast+
  have "fold (backward_step ([] @ ts) ?T) (rev ts) (Map.empty, Map.empty) = (ls, lf)"
    using bp by (simp add: backward_pass_def)
  from backward_suffix [OF _ this] top
  have B: "\<forall>t \<in> set ts. lf (gt_id t) = Some (earliest_succ ?T ls (successors ts (gt_id t))) \<and>
    ls (gt_id t) = Some (earliest_succ ?T ls (successors ts (gt_id t)) - task_hours t)" by simp
  show ?thesis
  proof (rule that [OF fp bp])
    show "\<And>i. i \<notin> gt_id ` set ts \<Longrightarrow> or0 (ef i) = 0" using F(1) by (auto simp: or0_def split: option.splits)
  qed (use F(2) B in \<open>auto simp: or0_def\<close>)
qed

section \<open>The schedule that is computed\<close>

lemma early_starts_rows:
  assumes "topological ts" "forward_pass ts = (es, ef)" "backward_pass ts (project_duration ts ef) = (ls, lf)" "t \<in> set ts"
  shows "early_starts (calculate_cpm_schedule ts) (gt_id t) = or0 (es (gt_id t))"
    and "late_starts (calculate_cpm_schedule ts) (gt_id t) = or0 (ls (gt_id t))"
  using assms(4) map_of_rows [of "gt_id t" ts "\<lambda>i. or0 (es i)"] map_of_rows [of "gt_id t" ts "\<lambda>i. or0 (ls i)"]
  by (simp_all add: early_starts_def late_starts_def calculate_cpm_rows [OF assms(2,3)] comp_def or0_def)

text \<open>A task's early start is at most its start in any feasible schedule.\<close>

lemma early_start_least:
  assumes top: "topological ts" and fp: "forward_pass ts = (es, ef)" and feas: "fs_feasible ts starts"
  shows "\<forall>t \<in> set ts. latest_pred ef (gt_preds t) \<le> starts (gt_id t)"
proof -
  have "\<forall>t \<in> set us. latest_pred ef (gt_preds t) \<le> starts (gt_id t)" if "ts = us @ vs" for us vs
    using that
  proof (induction us arbitrary: vs rule: rev_induct)
    case Nil
    then show ?case by simp
  next
    case (snoc u us)
    from snoc.prems have split: "ts = us @ (u # vs)" by simp
    note IH = snoc.IH [OF split]
    have F: "dom ef = gt_id ` set ts" "\<And>t. t \<in> set ts \<Longrightarrow> ef (gt_id t) = Some (latest_pred ef (gt_preds t) + task_hours t)"
      using forward_pass_spec [OF top fp] by auto
    have u: "0 \<le> starts (gt_id u)" "\<And>p. p \<in> set (gt_preds u) \<Longrightarrow> dep_finish ts starts (gp_id p) + or0 (gp_lag p) \<le> starts (gt_id u)"
      using feas split by (auto simp: fs_feasible_def)
    have "or0 (ef (gp_id p)) \<le> dep_finish ts starts (gp_id p)" if p: "p \<in> set (gt_preds u)" for p
    proof (cases "gp_id p \<in> gt_id ` set ts")
      case False
      then have "ef (gp_id p) = None" using F(1) by (auto simp: dom_def)
      with False show ?thesis by (simp add: dep_finish_foreign or0_def)
    next
      case True
      then obtain t where t: "t \<in> set ts" "gp_id p = gt_id t" by blast
      have "t \<in> set us" using t p top split by (auto simp: topological_append)
      with IH have "latest_pred ef (gt_preds t) \<le> starts (gt_id t)" by blast
      with F(2) [OF t(1)] dep_finish_task [OF top t(1)] t(2) show ?thesis by (simp add: or0_def)
    qed
    then have "or0 (ef (gp_id p)) + or0 (gp_lag p) \<le> starts (gt_id u)" if "p \<in> set (gt_preds u)" for p
      using u(2) [OF that] that by fastforce
    then have "latest_pred ef (gt_preds u) \<le> starts (gt_id u)"
      using latest_pred_spec [of ef "gt_preds u"] u(1) by auto
    with IH show ?case by simp
  qed
  from this [of ts "[]"] show ?thesis by simp
qed

lemma early_start_feasible:
  assumes top: "topological ts"
  shows "fs_feasible ts (early_starts (calculate_cpm_schedule ts))"
    and "finishes_by ts (early_starts (calculate_cpm_schedule ts)) (cpm_duration (calculate_cpm_schedule ts))"
proof -
  from cpm_passes [OF top] obtain es ef ls lf where p: "forward_pass ts = (es, ef)"
    "backward_pass ts (project_duration ts ef) = (ls, lf)"
    "\<And>t. t \<in> set ts \<Longrightarrow> or0 (es (gt_id t)) = latest_pred ef (gt_preds t)"
    "\<And>t. t \<in> set ts \<Longrightarrow> or0 (ef (gt_id t)) = or0 (es (gt_id t)) + task_hours t"
    "\<And>i. i \<notin> gt_id ` set ts \<Longrightarrow> or0 (ef i) = 0" by metis
  let ?s = "early_starts (calculate_cpm_schedule ts)"
  note row = early_starts_rows(1) [OF top p(1,2)]
  have dep: "dep_finish ts ?s i = or0 (ef i)" for i
  proof (cases "i \<in> gt_id ` set ts")
    case True
    then obtain t where "t \<in> set ts" "i = gt_id t" by blast
    then show ?thesis using p(4) row dep_finish_task [OF top] by simp
  qed (simp add: p(5) dep_finish_foreign)
  show "fs_feasible ts ?s" unfolding fs_feasible_def dep using latest_pred_spec [of ef] row p(3) by simp
  show "finishes_by ts ?s (cpm_duration (calculate_cpm_schedule ts))"
    unfolding finishes_by_def calculate_cpm_rows(2) [OF p(1,2)]
    using project_duration_spec [of ts ef] row p(4) by simp
qed

text \<open>A task's late start is at least its start in any feasible schedule that keeps the project's duration.\<close>

lemma late_start_greatest:
  assumes top: "topological ts" and bp: "backward_pass ts T = (ls, lf)"
    and feas: "fs_feasible ts starts" and ends: "finishes_by ts starts T"
  shows "\<forall>t \<in> set ts. starts (gt_id t) \<le> or0 (ls (gt_id t))"
proof -
  have "fold (backward_step ([] @ ts) T) (rev ts) (Map.empty, Map.empty) = (ls, lf)"
    using bp by (simp add: backward_pass_def)
  from backward_suffix [OF _ this] top
  have B: "dom ls = gt_id ` set ts" "\<And>t. t \<in> set ts \<Longrightarrow> ls (gt_id t) = Some (earliest_succ T ls (successors ts (gt_id t)) - task_hours t)"
    by simp_all
  have "\<forall>t \<in> set vs. starts (gt_id t) \<le> or0 (ls (gt_id t))" if "ts = us @ vs" for us vs
    using that
  proof (induction vs arbitrary: us)
    case Nil
    then show ?case by simp
  next
    case (Cons v vs)
    from Cons.prems have "ts = (us @ [v]) @ vs" by simp
    note IH = Cons.IH [OF this]
    have v: "v \<in> set ts" using Cons.prems by simp
    have bound: "starts (gt_id v) + task_hours v \<le> succ_limit T ls s" if s: "s \<in> set (successors ts (gt_id v))" for s
    proof -
      from s obtain u p where u: "u \<in> set ts" "p \<in> set (gt_preds u)" "gp_id p = gt_id v" "s = (gt_id u, gp_lag p)"
        by (auto simp: successors_def)
      have "dep_finish ts starts (gp_id p) + or0 (gp_lag p) \<le> starts (gt_id u)" using feas u(1,2) by (simp add: fs_feasible_def)
      then have 1: "starts (gt_id v) + task_hours v + or0 (gp_lag p) \<le> starts (gt_id u)"
        using dep_finish_task [OF top v] u(3) by simp
      have "fst s \<in> gt_id ` set vs" using successors_later [of us v vs s] top s Cons.prems by simp
      with IH u(4) have "starts (gt_id u) \<le> or0 (ls (gt_id u))" by auto
      with 1 B(2) [OF u(1)] u(4) show ?thesis by (simp add: succ_limit_def or0_def)
    qed
    have "starts (gt_id v) + task_hours v \<le> T" using ends v by (simp add: finishes_by_def)
    then have "starts (gt_id v) + task_hours v \<le> earliest_succ T ls (successors ts (gt_id v))"
      using earliest_succ_spec [of T ls "successors ts (gt_id v)"] bound by auto
    with IH B(2) [OF v] show ?case by (simp add: or0_def)
  qed
  from this [of "[]" ts] show ?thesis by simp
qed

lemma late_start_feasible:
  assumes top: "topological ts"
  shows "fs_feasible ts (late_starts (calculate_cpm_schedule ts))"
    and "finishes_by ts (late_starts (calculate_cpm_schedule ts)) (cpm_duration (calculate_cpm_schedule ts))"
    and "\<forall>t \<in> set ts. early_starts (calculate_cpm_schedule ts) (gt_id t) \<le> late_starts (calculate_cpm_schedule ts) (gt_id t)"
proof -
  from cpm_passes [OF top] obtain es ef ls lf where p: "forward_pass ts = (es, ef)"
    "backward_pass ts (project_duration ts ef) = (ls, lf)"
    "\<And>t. t \<in> set ts \<Longrightarrow> or0 (lf (gt_id t)) = earliest_succ (project_duration ts ef) ls (successors ts (gt_id t))"
    "\<And>t. t \<in> set ts \<Longrightarrow> or0 (ls (gt_id t)) = or0 (lf (gt_id t)) - task_hours t"
    "\<And>t. t \<in> set ts \<Longrightarrow> ls (gt_id t) = Some (or0 (ls (gt_id t)))" by metis
  let ?E = "early_starts (calculate_cpm_schedule ts)" and ?L = "late_starts (calculate_cpm_schedule ts)"
  note row = early_starts_rows [OF top p(1,2)]
  note early = early_start_feasible [OF top]
  show order: "\<forall>t \<in> set ts. ?E (gt_id t) \<le> ?L (gt_id t)"
    using late_start_greatest [OF top p(2) early(1)] early(2) row(2) by (simp add: calculate_cpm_rows(2) [OF p(1,2)])
  have limit: "?L (gt_id t) + task_hours t \<le> x"
    if "t \<in> set ts" "x = project_duration ts ef \<or> (\<exists>s \<in> set (successors ts (gt_id t)). x = succ_limit (project_duration ts ef) ls s)" for t x
    using that earliest_succ_spec [of "project_duration ts ef" ls "successors ts (gt_id t)"] p(3,4) row(2) by auto
  show "finishes_by ts ?L (cpm_duration (calculate_cpm_schedule ts))"
    using limit by (simp add: finishes_by_def calculate_cpm_rows(2) [OF p(1,2)])
  have "dep_finish ts ?L (gp_id p) + or0 (gp_lag p) \<le> ?L (gt_id u)" if u: "u \<in> set ts" "p \<in> set (gt_preds u)" for u p
  proof (cases "gp_id p \<in> gt_id ` set ts")
    case False
    have "dep_finish ts ?E (gp_id p) + or0 (gp_lag p) \<le> ?E (gt_id u)" using early(1) u by (simp add: fs_feasible_def)
    with order u(1) show ?thesis by (fastforce simp: dep_finish_foreign [OF False])
  next
    case True
    then obtain t where t: "t \<in> set ts" "gp_id p = gt_id t" by blast
    have "(gt_id u, gp_lag p) \<in> set (successors ts (gt_id t))" using u t(2) by (force simp: successors_def)
    then have "?L (gt_id t) + task_hours t \<le> succ_limit (project_duration ts ef) ls (gt_id u, gp_lag p)"
      using limit t(1) by blast
    also have "\<dots> = ?L (gt_id u) - or0 (gp_lag p)" using p(5) [OF u(1)] row(2) [OF u(1)] by (simp add: succ_limit_def or0_def split: option.splits)
    finally show ?thesis using dep_finish_task [OF top t(1)] t(2) by simp
  qed
  moreover have "0 \<le> ?L (gt_id u)" if "u \<in> set ts" for u
    using early(1) order that by (fastforce simp: fs_feasible_def)
  ultimately show "fs_feasible ts ?L" by (simp add: fs_feasible_def)
qed

text \<open>
  C11: for tasks listed in topological order the early starts of \<open>calculateCpmSchedule\<close> are a
  feasible schedule, whatever types the dependencies declare, and all tasks end within the
  reported duration. If every dependency is finish-to-start, the schedule is optimal: no
  feasible schedule starts any task earlier, and none of a non-empty list ends before the
  reported duration. For the other types, which the calculation never reads, it need not be:
  see \<open>cpm_order_and_type_unchecked\<close>.
\<close>

theorem cpm_earliest_schedule:
  assumes "topological ts"
  defines "r \<equiv> calculate_cpm_schedule ts"
  shows "feasible ts (early_starts r) \<and> finishes_by ts (early_starts r) (cpm_duration r) \<and>
    (\<forall>starts. finish_to_start_only ts \<and> feasible ts starts \<longrightarrow> (\<forall>t \<in> set ts. early_starts r (gt_id t) \<le> starts (gt_id t)) \<and>
      (\<forall>T. ts \<noteq> [] \<and> finishes_by ts starts T \<longrightarrow> cpm_duration r \<le> T))"
proof -
  from cpm_passes [OF assms(1)] obtain es ef ls lf where p: "forward_pass ts = (es, ef)"
    "backward_pass ts (project_duration ts ef) = (ls, lf)"
    "\<And>t. t \<in> set ts \<Longrightarrow> or0 (es (gt_id t)) = latest_pred ef (gt_preds t)"
    "\<And>t. t \<in> set ts \<Longrightarrow> or0 (ef (gt_id t)) = or0 (es (gt_id t)) + task_hours t" by metis
  note row = early_starts_rows(1) [OF assms(1) p(1,2)]
  have least: "early_starts r (gt_id t) \<le> starts (gt_id t)" if "fs_feasible ts starts" "t \<in> set ts" for starts t
    using early_start_least [OF assms(1) p(1) that(1)] that(2) p(3) row by (simp add: r_def)
  have shortest: "cpm_duration r \<le> T" if feas: "fs_feasible ts starts" and ends: "ts \<noteq> []" "finishes_by ts starts T" for starts T
  proof -
    have "or0 (ef (gt_id t)) \<le> T" if "t \<in> set ts" for t
      using least [OF feas that] ends(2) that p(4) [OF that] row [OF that] by (fastforce simp: r_def finishes_by_def)
    moreover have "0 \<le> T"
    proof -
      obtain t where t: "t \<in> set ts" using ends(1) by (cases ts) auto
      then have "0 \<le> starts (gt_id t)" "starts (gt_id t) + task_hours t \<le> T"
        using feas ends(2) by (auto simp: fs_feasible_def finishes_by_def)
      then show ?thesis using task_hours_nonneg [of t] by linarith
    qed
    ultimately show ?thesis
      using project_duration_spec [of ts ef] by (auto simp: r_def calculate_cpm_rows(2) [OF p(1,2)])
  qed
  have "feasible ts (early_starts r) \<and> finishes_by ts (early_starts r) (cpm_duration r)"
    using early_start_feasible [OF assms(1)] fs_feasible_strictest [of ts] by (simp add: r_def)
  moreover have "(\<forall>t \<in> set ts. early_starts r (gt_id t) \<le> starts (gt_id t)) \<and> (\<forall>T. ts \<noteq> [] \<and> finishes_by ts starts T \<longrightarrow> cpm_duration r \<le> T)"
    if "finish_to_start_only ts \<and> feasible ts starts" for starts
    using that least shortest fs_feasible_only [of ts starts] by blast
  ultimately show ?thesis by blast
qed

text \<open>
  C21: for tasks listed in topological order the late starts are feasible, whatever types the
  dependencies declare, and keep the project's duration; and if every dependency is
  finish-to-start, every feasible schedule that keeps it starts each task between its early and
  its late start. The reported total float is the length of that window (the reported free
  float is the same number), a task is critical exactly when it is zero, and a non-empty list
  has a critical task.
\<close>

theorem cpm_float_is_the_window:
  assumes "topological ts"
  defines "r \<equiv> calculate_cpm_schedule ts"
  shows "feasible ts (late_starts r) \<and> finishes_by ts (late_starts r) (cpm_duration r) \<and>
    (\<forall>starts. finish_to_start_only ts \<and> feasible ts starts \<and> finishes_by ts starts (cpm_duration r) \<longrightarrow>
      (\<forall>t \<in> set ts. early_starts r (gt_id t) \<le> starts (gt_id t) \<and> starts (gt_id t) \<le> late_starts r (gt_id t))) \<and>
    (\<forall>row \<in> set (cpm_tasks r). ct_total_float row = ct_ls row - ct_es row \<and> ct_free_float row = ct_total_float row \<and>
      (ct_critical row \<longleftrightarrow> ct_ls row = ct_es row) \<and> (ct_critical row \<longleftrightarrow> ct_id row \<in> set (cpm_critical r))) \<and>
    (ts \<noteq> [] \<longrightarrow> (\<exists>row \<in> set (cpm_tasks r). ct_critical row))"
proof -
  from cpm_passes [OF assms(1)] obtain es ef ls lf where p: "forward_pass ts = (es, ef)"
    "backward_pass ts (project_duration ts ef) = (ls, lf)"
    "\<And>t. t \<in> set ts \<Longrightarrow> or0 (es (gt_id t)) = latest_pred ef (gt_preds t)"
    "\<And>t. t \<in> set ts \<Longrightarrow> or0 (ef (gt_id t)) = or0 (es (gt_id t)) + task_hours t"
    "\<And>t. t \<in> set ts \<Longrightarrow> or0 (lf (gt_id t)) = earliest_succ (project_duration ts ef) ls (successors ts (gt_id t))"
    "\<And>t. t \<in> set ts \<Longrightarrow> or0 (ls (gt_id t)) = or0 (lf (gt_id t)) - task_hours t" by metis
  note row = early_starts_rows [OF assms(1) p(1,2)] and rows = calculate_cpm_rows [OF p(1,2)]
  note late = late_start_feasible [OF assms(1), folded r_def]
  have order: "or0 (es (gt_id t)) \<le> or0 (ls (gt_id t))" if "t \<in> set ts" for t
    using late(3) row [OF that] that by (auto simp: r_def)
  have window: "early_starts r (gt_id t) \<le> starts (gt_id t) \<and> starts (gt_id t) \<le> late_starts r (gt_id t)"
    if "fs_feasible ts starts \<and> finishes_by ts starts (cpm_duration r)" "t \<in> set ts" for starts t
    using that early_start_least [OF assms(1) p(1), of starts] late_start_greatest [OF assms(1) p(2), of starts]
      row [OF that(2)] p(3) [OF that(2)] by (simp add: r_def rows(2))
  have floats: "\<forall>x \<in> set (cpm_tasks r). ct_total_float x = ct_ls x - ct_es x \<and> ct_free_float x = ct_total_float x \<and>
      (ct_critical x \<longleftrightarrow> ct_ls x = ct_es x)"
    using order by (auto simp: r_def rows(1) max_def intro: order_antisym)
  have crit: "cpm_critical r = map ct_id (filter ct_critical (cpm_tasks r))" by (simp add: r_def rows)
  have listed: "\<forall>x \<in> set (cpm_tasks r). ct_critical x \<longleftrightarrow> ct_id x \<in> set (cpm_critical r)"
  proof
    fix x
    assume x: "x \<in> set (cpm_tasks r)"
    have "ct_critical x" if "y \<in> set (cpm_tasks r)" "ct_critical y" "ct_id x = ct_id y" for y
      using x that by (auto simp: r_def rows(1))
    with x show "ct_critical x \<longleftrightarrow> ct_id x \<in> set (cpm_critical r)" by (auto simp: crit)
  qed
  have "\<exists>x \<in> set (cpm_tasks r). ct_critical x" if "ts \<noteq> []"
  proof -
    obtain t where t: "t \<in> set ts" "or0 (ef (gt_id t)) = project_duration ts ef"
    proof (cases "project_duration ts ef = 0")
      case True
      from \<open>ts \<noteq> []\<close> obtain t where t: "t \<in> set ts" by (cases ts) auto
      then have "or0 (ef (gt_id t)) \<le> 0" using project_duration_spec [of ts ef] True by auto
      moreover have "0 \<le> or0 (ef (gt_id t))" using p(3,4) [OF t] latest_pred_spec [of ef "gt_preds t"] task_hours_nonneg [of t] by linarith
      ultimately show ?thesis using that [OF t] True by simp
    next
      case False
      then show ?thesis using project_duration_spec [of ts ef] that by metis
    qed
    have "or0 (lf (gt_id t)) \<le> project_duration ts ef"
      using earliest_succ_spec [of "project_duration ts ef" ls] p(5) [OF t(1)] by simp
    then have "or0 (ls (gt_id t)) \<le> or0 (es (gt_id t))" using t p(4,6) [OF t(1)] by linarith
    then have "ct_critical (cpm_row es ef ls lf t)" by simp
    with t(1) show ?thesis by (auto simp: r_def rows(1))
  qed
  moreover have "\<forall>t \<in> set ts. early_starts r (gt_id t) \<le> starts (gt_id t) \<and> starts (gt_id t) \<le> late_starts r (gt_id t)"
    if "finish_to_start_only ts \<and> feasible ts starts \<and> finishes_by ts starts (cpm_duration r)" for starts
    using that window fs_feasible_only [of ts starts] by blast
  moreover have "feasible ts (late_starts r)" using fs_feasible_strictest [OF late(1)] .
  ultimately show ?thesis using late(2) floats listed by blast
qed

text \<open>A small plan: rigging (4 h), lighting after it (2 h), and the stage deck 1 h after it (6 h).\<close>

definition task :: "string \<Rightarrow> rat \<Rightarrow> gantt_pred list \<Rightarrow> gantt_task" where
  "task i hours ps = \<lparr>gt_id = i, gt_code = i, gt_title = i, gt_duration = hours, gt_stage = None, gt_preds = ps, gt_milestone = False\<rparr>"

definition show_plan :: "gantt_task list" where
  "show_plan = [task ''rig'' 4 [], task ''light'' 2 [\<lparr>gp_id = ''rig'', gp_type = None, gp_lag = None\<rparr>],
     task ''deck'' 6 [\<lparr>gp_id = ''rig'', gp_type = None, gp_lag = Some 1\<rparr>]]"

lemma show_plan_topological: "topological show_plan"
  by (simp add: show_plan_def task_def)

lemma show_plan_forward:
  "forward_pass show_plan = ([''rig'' \<mapsto> 0, ''light'' \<mapsto> 4, ''deck'' \<mapsto> 5], [''rig'' \<mapsto> 4, ''light'' \<mapsto> 6, ''deck'' \<mapsto> 11])"
  by (simp add: show_plan_def task_def forward_pass_def forward_step_def latest_pred_def or0_def task_hours_def Let_def)

lemma show_plan_duration: "project_duration show_plan [''rig'' \<mapsto> 4, ''light'' \<mapsto> 6, ''deck'' \<mapsto> 11] = 11"
  by (simp add: show_plan_def task_def project_duration_def or0_def)

lemma show_plan_backward:
  "backward_pass show_plan 11 = ([''deck'' \<mapsto> 5, ''light'' \<mapsto> 9, ''rig'' \<mapsto> 0], [''deck'' \<mapsto> 11, ''light'' \<mapsto> 11, ''rig'' \<mapsto> 4])"
  by (simp add: show_plan_def task_def backward_pass_def backward_step_def earliest_succ_def successors_def or0_def task_hours_def Let_def)

lemmas show_plan_rows = calculate_cpm_rows [OF show_plan_forward, unfolded show_plan_duration, OF show_plan_backward]

lemma show_plan_schedule:
  "cpm_duration (calculate_cpm_schedule show_plan) = 11"
  "cpm_critical (calculate_cpm_schedule show_plan) = [''rig'', ''deck'']"
  by (simp_all add: show_plan_rows) (simp add: show_plan_def task_def or0_def)

lemma cpm_earliest_schedule_witness:
  "feasible show_plan (early_starts (calculate_cpm_schedule show_plan)) \<and>
   finishes_by show_plan (early_starts (calculate_cpm_schedule show_plan)) 11 \<and>
   \<not> (\<exists>starts. feasible show_plan starts \<and> finishes_by show_plan starts 10)"
proof -
  have "show_plan \<noteq> []" by (simp add: show_plan_def)
  moreover have "finish_to_start_only show_plan" by (simp add: finish_to_start_only_def show_plan_def task_def)
  ultimately show ?thesis
    using cpm_earliest_schedule [OF show_plan_topological] unfolding show_plan_schedule(1) by fastforce
qed

lemma cpm_float_is_the_window_witness:
  "finishes_by show_plan (late_starts (calculate_cpm_schedule show_plan)) 11 \<and>
   map (\<lambda>x. ct_total_float x = ct_ls x - ct_es x) (cpm_tasks (calculate_cpm_schedule show_plan)) = [True, True, True] \<and>
   cpm_critical (calculate_cpm_schedule show_plan) = [''rig'', ''deck'']"
proof -
  have "length (cpm_tasks (calculate_cpm_schedule show_plan)) = 3"
    by (simp add: show_plan_def calculate_cpm_schedule_def Let_def split: prod.splits)
  then obtain x y z where "cpm_tasks (calculate_cpm_schedule show_plan) = [x, y, z]"
    by (auto simp: numeral_3_eq_3 length_Suc_conv)
  with cpm_float_is_the_window [OF show_plan_topological] show ?thesis
    unfolding show_plan_schedule(1) by (simp add: show_plan_schedule(2))
qed

text \<open>
  Nothing checks the order of the list: when a successor precedes its predecessor, the
  successor is scheduled at hour 0, as if the predecessor had already finished. And the type
  of a dependency is never read: lighting that may start with the rigging is scheduled after
  it, and the reported duration is above that of a feasible schedule.
\<close>

theorem cpm_order_and_type_unchecked:
  defines "plan \<equiv> [task ''rig'' 4 [], task ''light'' 2 [\<lparr>gp_id = ''rig'', gp_type = Some GdSS, gp_lag = None\<rparr>]]"
  shows "map ct_es (cpm_tasks (calculate_cpm_schedule [task ''light'' 2 [\<lparr>gp_id = ''rig'', gp_type = None, gp_lag = None\<rparr>], task ''rig'' 4 []])) = [0, 0]
   \<and> map ct_es (cpm_tasks (calculate_cpm_schedule plan)) = [0, 4] \<and> cpm_duration (calculate_cpm_schedule plan) = 6
   \<and> topological plan \<and> feasible plan (\<lambda>_. 0) \<and> finishes_by plan (\<lambda>_. 0) 4"
  by (simp add: plan_def task_def calculate_cpm_schedule_def forward_pass_def forward_step_def latest_pred_def cpm_row_def or0_def
    Let_def task_hours_def project_duration_def feasible_def meets_dependency_def declared_type_def dep_start_def finishes_by_def split: prod.splits)

end
