(* ===== verification/Operations.thy ===== *)
theory Operations
  imports Time_Util Crypto_Util
begin

text \<open>
  \<open>packages/domain/src/operations.ts\<close>: zone readiness, logistics windows, crew shifts and
  rest, incident projections, venue handover, packing lists, crew conflicts, installation
  status, and the readiness evaluation with the authorization to open. \<open>new Date()\<close> is an
  argument; the message of a thrown error is its code with the values it shows.
\<close>

section \<open>Zone readiness\<close>

datatype checkpoint_status = CpPending | CpPassed | CpFailed

record readiness_checkpoint =
  rc_id :: string
  rc_zone :: string
  rc_title :: string
  rc_critical :: bool
  rc_status :: checkpoint_status
  rc_inspector :: "string option"
  rc_inspected_at :: "js_time option"
  rc_notes :: "string option"

record readiness_evaluation =
  re_zone :: string
  re_total :: nat
  re_passed :: nat
  re_percentage :: int
  re_unresolved :: "readiness_checkpoint list"
  re_can_release :: bool

definition evaluate_readiness :: "string \<Rightarrow> readiness_checkpoint list \<Rightarrow> readiness_evaluation" where
  "evaluate_readiness zone cps =
     (if length cps = 0
      then \<lparr>re_zone = zone, re_total = 0, re_passed = 0, re_percentage = 0, re_unresolved = [], re_can_release = False\<rparr>
      else let passed = length (filter (\<lambda>c. rc_status c = CpPassed) cps);
               unresolved = filter (\<lambda>c. rc_critical c \<and> rc_status c \<noteq> CpPassed) cps
           in \<lparr>re_zone = zone, re_total = length cps, re_passed = passed,
               re_percentage = js_round (of_nat passed / of_nat (length cps) * 100),
               re_unresolved = unresolved, re_can_release = (length unresolved = 0)\<rparr>)"

definition assert_opening_release :: "string \<Rightarrow> readiness_checkpoint list \<Rightarrow> unit res" where
  "assert_opening_release zone cps = (let r = evaluate_readiness zone cps in
     throw_if (\<not> re_can_release r)
       (Thrown ''OPENING_RELEASE_BLOCKED_CRITICAL_UNRESOLVED'' (zone # map rc_title (re_unresolved r))))"

section \<open>Logistics windows\<close>

record logistics_trip =
  lt_id :: string
  lt_project :: string
  lt_vehicle :: string
  lt_driver :: string
  lt_loading_start :: js_time
  lt_travel_start :: js_time
  lt_venue_arrival :: js_time
  lt_event_start :: js_time
  lt_event_end :: js_time
  lt_bump_out_end :: js_time
  lt_return_inspection_end :: js_time

definition full_operational_window :: "logistics_trip \<Rightarrow> time_window" where
  "full_operational_window t = \<lparr>w_start = lt_loading_start t, w_end = lt_return_inspection_end t\<rparr>"

definition check_operational_conflict :: "logistics_trip \<Rightarrow> logistics_trip list \<Rightarrow> unit res" where
  "check_operational_conflict trip = each_res (\<lambda>e.
     bind_res (overlaps (full_operational_window trip) (full_operational_window e)) (\<lambda>b.
       if b then bind_res (throw_if (lt_vehicle trip = lt_vehicle e) (Thrown ''VEHICLE_WINDOW_CONFLICT'' [lt_vehicle trip, lt_id e]))
         (\<lambda>_. throw_if (lt_driver trip = lt_driver e) (Thrown ''DRIVER_WINDOW_CONFLICT'' [lt_driver trip, lt_id e]))
       else Inr ()))"

section \<open>Crew shifts\<close>

record shift =
  sh_id :: string
  sh_worker :: string
  sh_role :: string
  sh_start :: js_time
  sh_end :: js_time

record rest_result =
  rr_violation :: bool
  rr_shift :: "string option"
  rr_hours :: "rat option"

definition no_rest_violation :: rest_result where
  "no_rest_violation = \<lparr>rr_violation = False, rr_shift = None, rr_hours = None\<rparr>"

definition round1 :: "rat \<Rightarrow> rat" where
  "round1 x = of_int (js_round (x * 10)) / 10"

text \<open>
  The gap from \<open>a\<close> to a later \<open>b\<close> when it is shorter than the minimum rest: the rest in hours.
\<close>

definition short_gap :: "rat \<Rightarrow> js_time \<Rightarrow> js_time \<Rightarrow> rat option" where
  "short_gap min_hours a b = (case (a, b) of (Some x, Some y) \<Rightarrow>
       if x \<le> y \<and> of_int (y - x) < min_hours * 60 * 60 * 1000
       then Some (round1 (of_int (y - x) / (60 * 60 * 1000))) else None
     | _ \<Rightarrow> None)"

fun validate_shift_rest_interval :: "shift \<Rightarrow> shift list \<Rightarrow> rat \<Rightarrow> rest_result res" where
  "validate_shift_rest_interval new [] min_hours = Inr no_rest_violation"
| "validate_shift_rest_interval new (s # ss) min_hours =
     (if sh_worker s \<noteq> sh_worker new \<or> sh_id s = sh_id new then validate_shift_rest_interval new ss min_hours
      else if time_lt (sh_start new) (sh_end s) \<and> time_lt (sh_start s) (sh_end new)
      then Inl (Thrown ''CREW_SHIFT_OVERLAP'' [sh_worker new, sh_id s])
      else case short_gap min_hours (sh_end s) (sh_start new) of
          Some h \<Rightarrow> Inr \<lparr>rr_violation = True, rr_shift = Some (sh_id s), rr_hours = Some h\<rparr>
        | None \<Rightarrow> (case short_gap min_hours (sh_end new) (sh_start s) of
            Some h \<Rightarrow> Inr \<lparr>rr_violation = True, rr_shift = Some (sh_id s), rr_hours = Some h\<rparr>
          | None \<Rightarrow> validate_shift_rest_interval new ss min_hours))"

section \<open>Incidents and handover\<close>

datatype incident_severity = SevLow | SevMedium | SevHigh | SevCritical
datatype incident_audience = InternalCommand | ClientPortal | PublicReport

record incident_record =
  in_id :: string
  in_project :: string
  in_title :: string
  in_severity :: incident_severity
  in_impact :: string
  in_narrative :: "string option"
  in_reported_at :: js_time
  in_reported_by :: string

text \<open>The projection; the spread for the internal audience also carries the reporter.\<close>

record incident_view =
  iv_id :: string
  iv_project :: string
  iv_title :: string
  iv_severity :: incident_severity
  iv_impact :: string
  iv_reported_at :: js_time
  iv_narrative :: "string option"
  iv_reported_by :: "string option"

definition project_incident :: "incident_record \<Rightarrow> incident_audience \<Rightarrow> incident_view" where
  "project_incident i a = \<lparr>iv_id = in_id i, iv_project = in_project i, iv_title = in_title i, iv_severity = in_severity i,
     iv_impact = in_impact i, iv_reported_at = in_reported_at i,
     iv_narrative = (if a = InternalCommand then in_narrative i else None),
     iv_reported_by = (if a = InternalCommand then Some (in_reported_by i) else None)\<rparr>"

datatype reinstatement_status = RsPending | RsInspected | RsAccepted | RsRemedial
datatype deposit_status = DepHeld | DepPartial | DepReleased

record damage_claim =
  dc_id :: string
  dc_description :: string
  dc_cost :: rat
  dc_resolved :: bool

record venue_handover =
  vh_id :: string
  vh_project :: string
  vh_delivered :: bool
  vh_reinstatement :: reinstatement_status
  vh_claims :: "damage_claim list"
  vh_deposit :: deposit_status

definition is_financially_settled :: "venue_handover \<Rightarrow> bool" where
  "is_financially_settled r \<longleftrightarrow> vh_delivered r \<and> vh_reinstatement r = RsAccepted \<and>
     \<not> list_ex (\<lambda>c. \<not> dc_resolved c) (vh_claims r) \<and> vh_deposit r = DepReleased"

section \<open>Packing lists\<close>

datatype packing_status = PkDraft | PkPicking | PkPacked | PkReady | PkDispatched | PkInTransit
  | PkDelivered | PkAcknowledged | PkReturned | PkClosed

record packing_item =
  pi_asset :: "string option"
  pi_tag :: "string option"
  pi_description :: string
  pi_quantity :: rat
  pi_cases :: string
  pi_weight :: rat
  pi_volume :: rat

record delivery_discrepancy =
  dd_item :: string
  dd_expected :: rat
  dd_received :: rat
  dd_condition :: string
  dd_notes :: "string option"

record delivery_proof =
  dp_list :: string
  dp_receiver :: string
  dp_signature :: "string option"
  dp_time :: js_time
  dp_photos :: "string list"
  dp_discrepancies :: "delivery_discrepancy list"

record packing_list =
  pk_id :: string
  pk_number :: string
  pk_project :: string
  pk_warehouse :: string
  pk_destination :: string
  pk_vehicle :: "string option"
  pk_driver :: "string option"
  pk_dispatch_date :: js_time
  pk_required_arrival :: js_time
  pk_items :: "packing_item list"
  pk_status :: packing_status
  pk_proof :: "delivery_proof option"
  pk_dispatched_at :: "js_time option"
  pk_delivered_at :: "js_time option"

definition dispatch_packing_list :: "js_time \<Rightarrow> packing_list \<Rightarrow> packing_list res" where
  "dispatch_packing_list now l =
     bind_res (throw_if (pk_status l \<noteq> PkReady \<and> pk_status l \<noteq> PkPacked) (Thrown ''DISPATCH_NOT_READY'' [pk_number l]))
       (\<lambda>_. Inr (l\<lparr>pk_status := PkDispatched, pk_dispatched_at := Some now\<rparr>))"

definition deliver_packing_list :: "js_time \<Rightarrow> packing_list \<Rightarrow> delivery_proof \<Rightarrow> packing_list res" where
  "deliver_packing_list now l proof =
     bind_res (throw_if (pk_status l \<noteq> PkDispatched \<and> pk_status l \<noteq> PkInTransit) (Thrown ''DELIVERY_INVALID_STATE'' []))
       (\<lambda>_. Inr (l\<lparr>pk_status := (if length (dp_discrepancies proof) > 0 then PkAcknowledged else PkDelivered),
          pk_proof := Some proof, pk_delivered_at := Some now\<rparr>))"

section \<open>Labour law and fatigue policy\<close>

record labour_limits =
  ll_ordinary :: rat
  ll_ramadan :: rat
  ll_overtime_max :: rat
  ll_continuous_max :: rat
  ll_break_min :: rat
  ll_break_max :: rat
  ll_weekly_rest :: rat

definition qatar_labour_law_baseline :: labour_limits where
  "qatar_labour_law_baseline = \<lparr>ll_ordinary = 8, ll_ramadan = 6, ll_overtime_max = 10, ll_continuous_max = 5,
     ll_break_min = 1, ll_break_max = 3, ll_weekly_rest = 24\<rparr>"

record fatigue_policy =
  fp_code :: string
  fp_name :: string
  fp_country :: string
  fp_min_rest :: rat
  fp_max_days :: rat
  fp_max_daily :: "rat option"
  fp_dual_signoff :: bool

text \<open>\<open>CONFIGURABLE_CREW_POLICIES\<close>, the provenance texts left out.\<close>

definition configurable_crew_policies :: "(string \<times> fatigue_policy) list" where
  "configurable_crew_policies =
    [(''POL-HSE-FATIGUE-01'', \<lparr>fp_code = ''POL-HSE-FATIGUE-01'', fp_name = ''E3 Live Operations Fatigue Policy (11h Rest Standard)'',
        fp_country = ''Qatar'', fp_min_rest = 11, fp_max_days = 6, fp_max_daily = Some 10, fp_dual_signoff = True\<rparr>),
     (''POLICY-CREW-E3-INTERNAL-v1.0'', \<lparr>fp_code = ''POL-HSE-FATIGUE-01'', fp_name = ''E3 Live Operations Fatigue Policy (11h Rest Standard)'',
        fp_country = ''Qatar'', fp_min_rest = 11, fp_max_days = 6, fp_max_daily = Some 10, fp_dual_signoff = True\<rparr>),
     (''POLICY-CREW-QATAR-LABOUR-v1.0'', \<lparr>fp_code = ''POLICY-CREW-QATAR-LABOUR-v1.0'', fp_name = ''Qatar Labour Extended Rest Standard (14h Rest Profile)'',
        fp_country = ''Qatar'', fp_min_rest = 14, fp_max_days = 6, fp_max_daily = Some 10, fp_dual_signoff = True\<rparr>)]"

definition default_fatigue_policy :: fatigue_policy where
  "default_fatigue_policy = snd (hd configurable_crew_policies)"

datatype statutory_note = OvertimeBreach rat rat | OvertimeApplied rat rat

definition is_breach :: "statutory_note \<Rightarrow> bool" where
  "is_breach n = (case n of OvertimeBreach _ _ \<Rightarrow> True | _ \<Rightarrow> False)"

definition evaluate_statutory_compliance :: "rat \<Rightarrow> bool \<Rightarrow> labour_limits \<Rightarrow> bool \<times> statutory_note list" where
  "evaluate_statutory_compliance hours ramadan limits =
     (let standard = (if ramadan then ll_ramadan limits else ll_ordinary limits);
          notes = (if hours > ll_overtime_max limits then [OvertimeBreach hours (ll_overtime_max limits)]
                   else if hours > standard then [OvertimeApplied hours standard] else [])
      in (length (filter is_breach notes) = 0, notes))"

text \<open>The rest in hours to one decimal place; \<open>None\<close> is \<open>NaN\<close>, which is not below the minimum.\<close>

definition evaluate_rest_interval :: "js_time \<Rightarrow> js_time \<Rightarrow> fatigue_policy \<Rightarrow> bool \<times> rat option" where
  "evaluate_rest_interval prev_end next_start policy = (case (prev_end, next_start) of
       (Some p, Some n) \<Rightarrow> let rest = round1 (of_int (n - p) / 3600000) in (\<not> rest < fp_min_rest policy, Some rest)
     | _ \<Rightarrow> (True, None))"

section \<open>Crew conflicts across projects\<close>

datatype personnel_type = PtEmployee | PtFreelancer | PtVendorCrew | PtTemporary | PtSecurity | PtUshers
  | PtTechnical | PtPerformers | PtDrivers

datatype crew_status = CrScheduled | CrConfirmed | CrCheckedIn | CrCheckedOut | CrConflict

record crew_assignment =
  ca_id :: string
  ca_person :: string
  ca_employer :: string
  ca_role :: string
  ca_department :: string
  ca_project :: string
  ca_shift :: "string option"
  ca_location :: string
  ca_supervisor :: "string option"
  ca_window :: time_window
  ca_accreditation :: string
  ca_permit :: "string option"
  ca_certification :: "string option"
  ca_type :: personnel_type
  ca_status :: crew_status

fun detect_multi_project_conflict :: "crew_assignment \<Rightarrow> crew_assignment list \<Rightarrow> crew_assignment option res" where
  "detect_multi_project_conflict new [] = Inr None"
| "detect_multi_project_conflict new (e # es) =
     (if ca_id e = ca_id new \<or> to_lower (ca_person e) \<noteq> to_lower (ca_person new) \<or> ca_status e = CrCheckedOut
      then detect_multi_project_conflict new es
      else bind_res (overlaps (ca_window new) (ca_window e)) (\<lambda>b.
        if b \<and> ca_project new \<noteq> ca_project e then Inr (Some e) else detect_multi_project_conflict new es))"

section \<open>Daily reports and installation\<close>

record daily_site_report =
  dr_id :: string
  dr_project :: string
  dr_date :: string
  dr_completed :: string
  dr_delayed :: string
  dr_manpower :: rat
  dr_equipment :: string
  dr_deliveries :: string
  dr_incidents :: string
  dr_snags :: string
  dr_instructions :: string
  dr_weather :: string
  dr_photos :: "string list"
  dr_tomorrow :: string
  dr_recorded_by :: string
  dr_recorded_at :: int
  dr_immutable :: bool

text \<open>The identifier, time and flag of the argument are not read.\<close>

definition record_report :: "int \<Rightarrow> daily_site_report \<Rightarrow> daily_site_report" where
  "record_report now p = p\<lparr>dr_id := ''dsr-'' @ dr_project p @ ''-'' @ dr_date p @ ''-'' @ int_str now,
     dr_recorded_at := now, dr_immutable := True\<rparr>"

datatype installation_status = InNotDelivered | InDelivered | InPositioned | InInstalled | InTested | InAccepted

record installation_item =
  ii_id :: string
  ii_project :: string
  ii_package :: "string option"
  ii_asset :: "string option"
  ii_title :: string
  ii_status :: installation_status
  ii_evidence :: "string list"
  ii_notes :: "string option"
  ii_verified_by :: "string option"
  ii_verified_at :: "js_time option"

text \<open>\<open>a || b\<close> for optional strings: the empty string counts as missing.\<close>

definition or_str :: "string option \<Rightarrow> string option \<Rightarrow> string option" where
  "or_str a b = (case a of Some s \<Rightarrow> if s = [] then b else a | None \<Rightarrow> b)"

definition advance_status ::
  "js_time \<Rightarrow> installation_item \<Rightarrow> installation_status \<Rightarrow> string list \<Rightarrow> string option \<Rightarrow> string option \<Rightarrow> installation_item" where
  "advance_status now item target uris notes verifier = item\<lparr>ii_status := target, ii_evidence := ii_evidence item @ uris,
     ii_notes := or_str notes (ii_notes item), ii_verified_by := or_str verifier (ii_verified_by item),
     ii_verified_at := (if target \<in> {InInstalled, InTested, InAccepted} then Some now else ii_verified_at item)\<rparr>"

section \<open>The readiness gate and the authorization to open\<close>

datatype gate_status = Ready | ReadyWithExceptions | NotReady

datatype readiness_dimension = DmScope | DmDesign | DmProduction | DmAssets | DmLogistics | DmInstallation
  | DmHSE | DmPermits | DmStaffing | DmTesting

record dimension_check =
  dk_dimension :: readiness_dimension
  dk_passed :: bool
  dk_critical :: bool
  dk_score :: rat
  dk_details :: string
  dk_exception :: "string option"

record readiness_report =
  rp_project :: string
  rp_status :: gate_status
  rp_score :: int
  rp_evaluated_at :: int
  rp_checks :: "dimension_check list"
  rp_blockers :: "string list"
  rp_exceptions :: "string list"
  rp_eligible :: bool
  rp_can_open :: bool

fun dimension_name :: "readiness_dimension \<Rightarrow> string" where
  "dimension_name DmScope = ''Scope''"
| "dimension_name DmDesign = ''Design''"
| "dimension_name DmProduction = ''Production''"
| "dimension_name DmAssets = ''Assets''"
| "dimension_name DmLogistics = ''Logistics''"
| "dimension_name DmInstallation = ''Installation''"
| "dimension_name DmHSE = ''HSE''"
| "dimension_name DmPermits = ''Permits''"
| "dimension_name DmStaffing = ''Staffing''"
| "dimension_name DmTesting = ''Technical Testing''"

definition blocker_text :: "dimension_check \<Rightarrow> string" where
  "blocker_text c = ''[CRITICAL] '' @ dimension_name (dk_dimension c) @ '': '' @ dk_details c"

definition exception_text :: "dimension_check \<Rightarrow> string" where
  "exception_text c = dimension_name (dk_dimension c) @ '': '' @
     (case dk_exception c of Some e \<Rightarrow> if e = [] then dk_details c else e | None \<Rightarrow> dk_details c)"

definition evaluate_dimensions :: "int \<Rightarrow> string \<Rightarrow> dimension_check list \<Rightarrow> readiness_report" where
  "evaluate_dimensions now project cs =
     (let blockers = map blocker_text (filter (\<lambda>c. \<not> dk_passed c \<and> dk_critical c) cs);
          exceptions = map exception_text (filter (\<lambda>c. \<not> dk_passed c \<and> \<not> dk_critical c) cs);
          score = (if length cs > 0 then js_round (sum_list (map dk_score cs) / of_nat (length cs)) else 0)
      in \<lparr>rp_project = project,
          rp_status = (if length blockers > 0 then NotReady
            else if length exceptions > 0 \<or> score < 95 then ReadyWithExceptions else Ready),
          rp_score = score, rp_evaluated_at = now, rp_checks = cs, rp_blockers = blockers, rp_exceptions = exceptions,
          rp_eligible = (length blockers = 0), rp_can_open = False\<rparr>)"

record opening_params =
  op_acknowledged :: "string list option"
  op_justification :: "string option"
  op_dual_signoff :: "string option"

record opening_authorization =
  oa_id :: string
  oa_project :: string
  oa_by :: string
  oa_role :: string
  oa_at :: int
  oa_status :: gate_status
  oa_score :: int
  oa_acknowledged :: "string list"
  oa_justification :: "string option"
  oa_dual_signoff :: "string option"
  oa_dual_at :: "int option"
  oa_hash :: string

datatype opening_error = OpeningBlocked nat | UnauthorizedRole string | ExceptionsUnacknowledged nat

definition authorized_roles :: "string list" where
  "authorized_roles = [''project_director'', ''executive_producer'', ''operations_director'', ''super_admin'', ''lead_producer'']"

definition snake_case :: "string \<Rightarrow> string" where
  "snake_case s = replace_runs (\<lambda>c. is_space c \<or> c = CHR ''-'') ''_'' (to_lower s)"

fun gate_name :: "gate_status \<Rightarrow> string" where
  "gate_name Ready = ''READY''"
| "gate_name ReadyWithExceptions = ''READY_WITH_EXCEPTIONS''"
| "gate_name NotReady = ''NOT_READY''"

definition opening_payload :: "(int \<Rightarrow> string) \<Rightarrow> int \<Rightarrow> readiness_report \<Rightarrow> string \<Rightarrow> string \<Rightarrow> opening_params \<Rightarrow> json" where
  "opening_payload iso_text now r actor role ps = JObj
     [(''id'', JStr (''auth-open-'' @ rp_project r @ ''-'' @ int_str now)), (''projectId'', JStr (rp_project r)),
      (''authorizedBy'', JStr actor), (''authorizedRole'', JStr role), (''authorizedAt'', JStr (iso_text now)),
      (''readinessStatus'', JStr (gate_name (rp_status r))), (''readinessScorePercent'', JNum (of_int (rp_score r))),
      (''exceptionsAcknowledged'', JArr (map JStr (case op_acknowledged ps of Some a \<Rightarrow> a | None \<Rightarrow> []))),
      (''justification'', JStr (case op_justification ps of Some j \<Rightarrow> j | None \<Rightarrow> [])),
      (''dualSignoffBy'', JStr (case op_dual_signoff ps of Some d \<Rightarrow> d | None \<Rightarrow> []))]"

text \<open>
  The whole of \<open>authorize\<close>: the error it returns, or the authorization with its digest; the
  digest is computed by \<open>safeSha256\<close>, which may throw.
\<close>

definition authorize_opening ::
  "js_host \<Rightarrow> (int \<Rightarrow> string) \<Rightarrow> int \<Rightarrow> readiness_report \<Rightarrow> string \<Rightarrow> string \<Rightarrow> opening_params \<Rightarrow>
     (opening_error + opening_authorization) res" where
  "authorize_opening H iso_text now r actor role ps =
     (let acknowledged = (case op_acknowledged ps of Some a \<Rightarrow> a | None \<Rightarrow> []);
          normal = snake_case role;
          missing = filter (\<lambda>e. e \<notin> set acknowledged) (rp_exceptions r)
      in if \<not> rp_eligible r \<or> rp_status r = NotReady then Inr (Inl (OpeningBlocked (length (rp_blockers r))))
         else if normal \<notin> set authorized_roles then Inr (Inl (UnauthorizedRole role))
         else if rp_status r = ReadyWithExceptions \<and> length missing > 0
         then Inr (Inl (ExceptionsUnacknowledged (length missing)))
         else bind_res (safe_sha256 H (opening_payload iso_text now r actor normal ps)) (\<lambda>h. Inr (Inr
           \<lparr>oa_id = ''auth-open-'' @ rp_project r @ ''-'' @ int_str now, oa_project = rp_project r, oa_by = actor, oa_role = normal,
            oa_at = now, oa_status = rp_status r, oa_score = rp_score r, oa_acknowledged = acknowledged,
            oa_justification = op_justification ps, oa_dual_signoff = op_dual_signoff ps,
            oa_dual_at = (case op_dual_signoff ps of Some d \<Rightarrow> if d = [] then None else Some now | None \<Rightarrow> None),
            oa_hash = h\<rparr>)))"

section \<open>Opening\<close>

lemma safe_sha256_object [simp]: "\<exists>h. safe_sha256 H (JObj kvs) = Inr h"
  by (simp add: safe_sha256_def content_text_def Let_def)

lemma evaluate_dimensions_simps [simp]:
  "rp_eligible (evaluate_dimensions now p cs) \<longleftrightarrow> (\<forall>c \<in> set cs. dk_critical c \<longrightarrow> dk_passed c)"
  "rp_status (evaluate_dimensions now p cs) = NotReady \<longleftrightarrow> \<not> (\<forall>c \<in> set cs. dk_critical c \<longrightarrow> dk_passed c)"
  "set (rp_exceptions (evaluate_dimensions now p cs)) = exception_text ` {c \<in> set cs. \<not> dk_passed c \<and> \<not> dk_critical c}"
  "rp_can_open (evaluate_dimensions now p cs) = False"
  by (auto simp: evaluate_dimensions_def Let_def filter_empty_conv)

lemma ready_no_exceptions:
  "rp_status (evaluate_dimensions now p cs) = Ready \<Longrightarrow> rp_exceptions (evaluate_dimensions now p cs) = []"
  by (simp add: evaluate_dimensions_def Let_def split: if_splits)

lemma authorize_opening_iff:
  "(\<exists>a. authorize_opening H iso_text now r actor role ps = Inr (Inr a)) \<longleftrightarrow>
     rp_eligible r \<and> rp_status r \<noteq> NotReady \<and> snake_case role \<in> set authorized_roles \<and>
     (rp_status r = ReadyWithExceptions \<longrightarrow>
       set (rp_exceptions r) \<subseteq> set (case op_acknowledged ps of Some a \<Rightarrow> a | None \<Rightarrow> []))"
proof -
  obtain h where "safe_sha256 H (opening_payload iso_text now r actor (snake_case role) ps) = Inr h"
    using safe_sha256_object unfolding opening_payload_def by blast
  then show ?thesis by (auto simp: authorize_opening_def Let_def filter_empty_conv)
qed

text \<open>
  C36: an evaluated project can be authorized to open exactly when no failed dimension check is
  critical, the role, in lower case and with blanks and dashes as underscores, is one of the
  authorised ones, and every failed check that is not critical has its text among the
  acknowledged exceptions; no score, justification or second signature matters, and the
  evaluation itself never opens.
\<close>

theorem opening_authorization_exact:
  "(\<exists>a. authorize_opening H iso_text now (evaluate_dimensions noted p cs) actor role ps = Inr (Inr a)) \<longleftrightarrow>
     (\<forall>c \<in> set cs. \<not> dk_passed c \<longrightarrow> \<not> dk_critical c \<and>
        exception_text c \<in> set (case op_acknowledged ps of Some a \<Rightarrow> a | None \<Rightarrow> [])) \<and>
     snake_case role \<in> set authorized_roles"
proof -
  let ?r = "evaluate_dimensions noted p cs"
  obtain ack where ack: "(case op_acknowledged ps of Some a \<Rightarrow> a | None \<Rightarrow> []) = ack" by blast
  have "(rp_status ?r = ReadyWithExceptions \<longrightarrow> set (rp_exceptions ?r) \<subseteq> set ack) \<longleftrightarrow> set (rp_exceptions ?r) \<subseteq> set ack"
    if "rp_status ?r \<noteq> NotReady"
    using that ready_no_exceptions [of noted p cs] by (cases "rp_status ?r") auto
  moreover have "set (rp_exceptions ?r) \<subseteq> set ack \<longleftrightarrow>
      (\<forall>c \<in> set cs. \<not> dk_passed c \<and> \<not> dk_critical c \<longrightarrow> exception_text c \<in> set ack)" by auto
  ultimately show ?thesis unfolding authorize_opening_iff ack by auto
qed

theorem opening_authorization_exact_witness:
  "\<exists>a. authorize_opening \<lparr>jh_num = (\<lambda>_. ''0''), jh_sha256 = None\<rparr> (\<lambda>_. ''now'') 1
     (evaluate_dimensions 0 ''p'' [\<lparr>dk_dimension = DmHSE, dk_passed = False, dk_critical = False, dk_score = 90, dk_details = ''late'', dk_exception = None\<rparr>])
     ''u'' ''super_admin'' \<lparr>op_acknowledged = Some [''HSE: late''], op_justification = None, op_dual_signoff = None\<rparr> = Inr (Inr a)"
proof -
  have "snake_case ''super_admin'' \<in> set authorized_roles" by code_simp
  then show ?thesis unfolding opening_authorization_exact by (simp add: exception_text_def)
qed

text \<open>
  A report that holds no dimension check at all is not \<open>NOT_READY\<close>: it is ready with
  exceptions, lists none, and is authorized without any acknowledgment.
\<close>

theorem opening_without_checks:
  "rp_status (evaluate_dimensions now p []) = ReadyWithExceptions \<and>
   (\<exists>a. authorize_opening H iso_text now (evaluate_dimensions now p []) actor ''Lead-Producer''
      \<lparr>op_acknowledged = None, op_justification = None, op_dual_signoff = None\<rparr> = Inr (Inr a) \<and>
      oa_acknowledged a = [] \<and> oa_score a = 0)"
proof -
  let ?r = "evaluate_dimensions now p []"
  let ?ps = "\<lparr>op_acknowledged = None, op_justification = None, op_dual_signoff = None\<rparr> :: opening_params"
  have role: "snake_case ''Lead-Producer'' \<in> set authorized_roles" by code_simp
  have r: "rp_status ?r = ReadyWithExceptions" "rp_score ?r = 0" "rp_exceptions ?r = []" "rp_eligible ?r"
    by (simp_all add: evaluate_dimensions_def)
  obtain h where "safe_sha256 H (opening_payload iso_text now ?r actor (snake_case ''Lead-Producer'') ?ps) = Inr h"
    using safe_sha256_object unfolding opening_payload_def by blast
  with role r show ?thesis by (simp add: authorize_opening_def Let_def)
qed

section \<open>Rest between shifts\<close>

lemma short_gap_None:
  "short_gap m (Some a) (Some b) = None \<longleftrightarrow> b < a \<or> m * 3600000 \<le> of_int (b - a)"
  by (auto simp: short_gap_def)

text \<open>When a worker's shift \<open>s\<close> leaves the minimum rest to the new one.\<close>

definition rested :: "rat \<Rightarrow> shift \<Rightarrow> shift \<Rightarrow> bool" where
  "rested m new s \<longleftrightarrow> (\<exists>a b c d. sh_start new = Some a \<and> sh_end new = Some b \<and> sh_start s = Some c \<and> sh_end s = Some d \<and>
     (of_int d + m * 3600000 \<le> of_int a \<or> of_int b + m * 3600000 \<le> of_int c))"

definition proper_shift :: "shift \<Rightarrow> bool" where
  "proper_shift s \<longleftrightarrow> time_lt (sh_start s) (sh_end s)"

lemma proper_shiftE:
  assumes "proper_shift s"
  obtains a b where "sh_start s = Some a" "sh_end s = Some b" "a < b"
  using assms by (auto simp: proper_shift_def time_lt_def split: option.splits)

lemma validate_head:
  assumes "proper_shift new" "proper_shift s" "0 \<le> m" "sh_worker s = sh_worker new" "sh_id s \<noteq> sh_id new"
  shows "validate_shift_rest_interval new (s # ss) m = Inr no_rest_violation \<longleftrightarrow>
    rested m new s \<and> validate_shift_rest_interval new ss m = Inr no_rest_violation"
proof -
  obtain a b where new: "sh_start new = Some a" "sh_end new = Some b" "a < b" using assms(1) by (rule proper_shiftE)
  obtain c d where s: "sh_start s = Some c" "sh_end s = Some d" "c < d" using assms(2) by (rule proper_shiftE)
  have m: "0 \<le> m * 3600000" using assms(3) by simp
  have le: "of_int x + m * 3600000 \<le> of_int y \<Longrightarrow> x \<le> y" for x y :: int
    using m by (metis add_increasing2 of_int_le_iff order_refl order_trans)
  have gap: "m * 3600000 \<le> of_int (y - x) \<longleftrightarrow> of_int x + m * 3600000 \<le> of_int y" for x y :: int
    by (auto simp: algebra_simps)
  show ?thesis
  proof (cases "a < d \<and> c < b")
    case True
    then have "\<not> rested m new s" using new s le [of d a] le [of b c] by (auto simp: rested_def)
    with True assms(4,5) new s show ?thesis by (simp add: time_lt_def)
  next
    case False
    have "rested m new s \<longleftrightarrow> short_gap m (Some d) (Some a) = None \<and> short_gap m (Some b) (Some c) = None"
      unfolding short_gap_None gap using False new s le [of d a] le [of b c] by (auto simp: rested_def)
    with False assms(4,5) new s show ?thesis
      by (auto simp: time_lt_def no_rest_violation_def split: option.splits)
  qed
qed

text \<open>
  For shifts that end after they start, a new shift is accepted without a rest violation
  exactly when every other shift of the same worker ends the minimum rest before it or starts
  the minimum rest after it; shifts of other workers and earlier versions of the same shift
  do not count.
\<close>

theorem shift_rest_exact:
  assumes "proper_shift new" and "\<forall>s \<in> set ss. proper_shift s" and "0 \<le> m"
  shows "validate_shift_rest_interval new ss m = Inr no_rest_violation \<longleftrightarrow>
    (\<forall>s \<in> set ss. sh_worker s = sh_worker new \<and> sh_id s \<noteq> sh_id new \<longrightarrow> rested m new s)"
  using assms(2)
proof (induction ss)
  case Nil
  then show ?case by simp
next
  case (Cons s ss)
  then have IH: "validate_shift_rest_interval new ss m = Inr no_rest_violation \<longleftrightarrow>
    (\<forall>s \<in> set ss. sh_worker s = sh_worker new \<and> sh_id s \<noteq> sh_id new \<longrightarrow> rested m new s)" and s: "proper_shift s" by simp_all
  show ?case
  proof (cases "sh_worker s = sh_worker new \<and> sh_id s \<noteq> sh_id new")
    case True
    then show ?thesis using validate_head [OF assms(1) s assms(3)] IH by simp
  next
    case False
    then show ?thesis using IH by auto
  qed
qed

definition day_shift :: "string \<Rightarrow> int \<Rightarrow> int \<Rightarrow> shift" where
  "day_shift i from_hour to_hour = \<lparr>sh_id = i, sh_worker = ''w'', sh_role = ''rigger'',
     sh_start = Some (from_hour * 3600000), sh_end = Some (to_hour * 3600000)\<rparr>"

theorem shift_rest_exact_witness:
  "validate_shift_rest_interval (day_shift ''b'' 27 35) [day_shift ''a'' 8 16] 11 = Inr no_rest_violation"
proof -
  have "proper_shift (day_shift ''b'' 27 35)" "\<forall>s \<in> set [day_shift ''a'' 8 16]. proper_shift s"
    by (simp_all add: proper_shift_def day_shift_def time_lt_def)
  from shift_rest_exact [OF this, of 11] show ?thesis by (simp add: rested_def day_shift_def)
qed

text \<open>
  The rest interval is rounded to a tenth of an hour before it is compared, so under the
  default policy of 11 hours two valid dates are compliant exactly when 10 hours and 57
  minutes lie between them; an invalid date is always compliant.
\<close>

theorem rest_rounding_exact:
  "fst (evaluate_rest_interval (Some a) (Some b) default_fatigue_policy) = (39420000 \<le> b - a) \<and>
   fst (evaluate_rest_interval None t default_fatigue_policy) \<and>
   fst (evaluate_rest_interval t None default_fatigue_policy)"
proof -
  have min_rest: "fp_min_rest default_fatigue_policy = 11"
    by (simp add: default_fatigue_policy_def configurable_crew_policies_def)
  have "\<not> round1 (x / 3600000) < 11 \<longleftrightarrow> 110 \<le> js_round (x / 360000)" for x
  proof -
    have "\<not> round1 (x / 3600000) < 11 \<longleftrightarrow> (of_int 110 :: rat) \<le> of_int (js_round (x / 360000))"
      by (simp add: round1_def divide_less_eq not_less)
    then show ?thesis unfolding of_int_le_iff .
  qed
  from this [of "of_int (b - a)"]
  have "\<not> round1 (of_int (b - a) / 3600000) < 11 \<longleftrightarrow> 110 \<le> js_round (of_int (b - a) / 360000)" .
  also have "\<dots> \<longleftrightarrow> 110 \<le> of_int (b - a) / (360000 :: rat) + 1 / 2"
    by (simp add: js_round_def le_floor_iff)
  also have "\<dots> \<longleftrightarrow> (39420000 :: rat) \<le> of_int (b - a)" by (auto simp: field_simps)
  also have "\<dots> \<longleftrightarrow> 39420000 \<le> b - a" by (metis of_int_le_iff of_int_numeral)
  finally show ?thesis using min_rest by (simp add: evaluate_rest_interval_def Let_def split: option.splits)
qed

end
