(* ===== verification/Rbac.thy ===== *)
theory Rbac
  imports Prelude
begin

text \<open>
  Roles and authority: \<open>packages/domain/src/rbac.ts\<close>. The table of the canonical roles with
  their permissions and ceilings, the normalisation of a role's name, the permission test,
  the commercial authority of a role and the separation of duties. An amount is \<open>None\<close> when
  it is \<open>NaN\<close>. The lists of what a role can and cannot do are texts for people and are left
  out. The table is an object literal, so looking a role up also finds what the object
  inherits from its prototype.
\<close>

section \<open>Roles\<close>

datatype role_category = RcExecutive | RcManagement | RcSpecialist | RcExternal

datatype ceiling = Unlimited | UpTo rat

record role_definition =
  rd_role :: string
  rd_title :: string
  rd_category :: role_category
  rd_ceiling :: ceiling
  rd_permissions :: "string list"

definition role_def :: "string \<Rightarrow> string \<Rightarrow> role_category \<Rightarrow> ceiling \<Rightarrow> string list \<Rightarrow> role_definition" where
  "role_def r t c a ps = \<lparr>rd_role = r, rd_title = t, rd_category = c, rd_ceiling = a, rd_permissions = ps\<rparr>"

definition executive_roles :: "role_definition list" where
  "executive_roles =
    [role_def ''super_admin'' ''Super Admin'' RcExecutive Unlimited [''*''],
     role_def ''executive'' ''Executive Partner'' RcExecutive Unlimited
       [''projects.create'', ''projects.manage'', ''stages.progress'', ''commercial.approve'', ''po.approve'', ''invoices.approve'',
        ''bank_details.read'', ''constraints.verify'', ''portfolio.read'', ''approvals.decide'', ''governance.override'']]"

definition management_roles :: "role_definition list" where
  "management_roles =
    [role_def ''project_director'' ''Project Director'' RcManagement (UpTo 250000)
       [''projects.create'', ''projects.manage'', ''stages.progress'', ''commercial.approve'', ''po.create'', ''po.approve'',
        ''constraints.verify'', ''approvals.decide''],
     role_def ''project_manager'' ''Project Manager (Lead PM)'' RcManagement (UpTo 50000)
       [''projects.create'', ''projects.manage'', ''stages.progress'', ''po.create'', ''po.approve'', ''tasks.manage'',
        ''approvals.request'', ''procurement.request'']]"

definition commercial_roles :: "role_definition list" where
  "commercial_roles =
    [role_def ''finance'' ''Financial Controller'' RcSpecialist (UpTo 250000)
       [''commercial.approve'', ''po.approve'', ''invoices.approve'', ''bank_details.read'', ''finance.manage'', ''boq.manage'',
        ''eac.recalculate''],
     role_def ''procurement'' ''Procurement Manager'' RcSpecialist (UpTo 0)
       [''po.create'', ''bank_details.read'', ''procurement.manage'', ''vendor.manage'', ''rfq.create'']]"

definition delivery_roles :: "role_definition list" where
  "delivery_roles =
    [role_def ''design_production'' ''Design / Production Director'' RcSpecialist (UpTo 0)
       [''constraints.verify'', ''design.approve'', ''design.upload'', ''design.version'', ''production.order'', ''specifications.edit''],
     role_def ''operations'' ''Head of Event Operations'' RcSpecialist (UpTo 0)
       [''zones.clear'', ''operations.manage'', ''runbooks.execute'', ''runs-sheet.edit''],
     role_def ''logistics'' ''Logistics & Fleet Manager'' RcSpecialist (UpTo 0)
       [''inventory.manage'', ''dispatch.create'', ''returns.inspect''],
     role_def ''hse_quality'' ''HSE / Quality Inspector'' RcSpecialist (UpTo 0)
       [''safety.permit'', ''constraints.verify'', ''hse.inspect'', ''incident.log'', ''permit.validate'']]"

definition outer_roles :: "role_definition list" where
  "outer_roles =
    [role_def ''marketing_commercial'' ''Marketing & Commercial Lead'' RcSpecialist (UpTo 0)
       [''commercial.edit'', ''proposals.create'', ''sponsorship.track''],
     role_def ''field_supervisor'' ''Field Supervisor'' RcSpecialist (UpTo 0)
       [''field.inspect'', ''snags.create'', ''attendance.log''],
     role_def ''client_user'' ''Client Stakeholder'' RcExternal (UpTo 0)
       [''portal.read'', ''design.approve'', ''client.signoff'']]"

definition canonical_role_definitions :: "role_definition list" where
  "canonical_role_definitions = executive_roles @ management_roles @ commercial_roles @ delivery_roles @ outer_roles"

text \<open>
  The lookup of a name. \<open>constructor\<close> and \<open>__proto__\<close> are the names in lower case that every
  object inherits; what they give has neither permissions nor a ceiling.
\<close>

datatype role_lookup = RoleFound role_definition | RoleInherited | RoleUnknown

definition lookup_role :: "string \<Rightarrow> role_lookup" where
  "lookup_role r = (case List.find (\<lambda>d. rd_role d = r) canonical_role_definitions of
       Some d \<Rightarrow> RoleFound d
     | None \<Rightarrow> if r = ''constructor'' \<or> r = ''__proto__'' then RoleInherited else RoleUnknown)"

section \<open>Operations\<close>

definition role_key :: "string \<Rightarrow> string" where
  "role_key role = replace_runs (\<lambda>c. is_space c \<or> c = CHR ''-'') ''_'' (to_lower (trim role))"

definition normalize_role :: "string \<Rightarrow> string" where
  "normalize_role role = (let r = role_key role in
     if r = ''financial_controller'' \<or> r = ''finance_controller'' \<or> r = ''cfo'' then ''finance''
     else if r = ''commercial_director'' \<or> r = ''managing_director'' \<or> r = ''executive_partner'' then ''executive''
     else if r = ''director'' then ''project_director''
     else if r = ''lead_pm'' then ''project_manager''
     else r)"

definition has_role_permission :: "string \<Rightarrow> string \<Rightarrow> bool \<Rightarrow> bool res" where
  "has_role_permission role permission super =
     (if super then Inr True
      else if normalize_role role = ''super_admin'' then Inr True
      else case lookup_role (normalize_role role) of
          RoleUnknown \<Rightarrow> Inr False
        | RoleInherited \<Rightarrow> Inl TypeErrorThrown
        | RoleFound d \<Rightarrow> Inr (''*'' \<in> set (rd_permissions d) \<or> permission \<in> set (rd_permissions d)))"

text \<open>The ceiling of a role, \<open>None\<close> for the \<open>undefined\<close> of an inherited name.\<close>

definition role_authority_ceiling :: "string \<Rightarrow> ceiling option" where
  "role_authority_ceiling role = (let r = normalize_role role in
     if r = ''super_admin'' \<or> r = ''executive'' then Some Unlimited
     else case lookup_role r of RoleFound d \<Rightarrow> Some (rd_ceiling d) | RoleInherited \<Rightarrow> None | RoleUnknown \<Rightarrow> Some (UpTo 0))"

definition can_approve_commercial_amount :: "string \<Rightarrow> rat option \<Rightarrow> bool \<Rightarrow> bool" where
  "can_approve_commercial_amount role amount super =
     (if super then True
      else let r = normalize_role role in
        if r = ''super_admin'' then True
        else case (role_authority_ceiling r, amount) of
            (Some Unlimited, Some a) \<Rightarrow> True
          | (Some (UpTo c), Some a) \<Rightarrow> a \<le> c \<and> c > 0
          | _ \<Rightarrow> False)"

datatype duty_conflict = PurchaseAndPayment | InstallAndInspect | ClientAndInternal

definition separation_of_duties :: "string \<Rightarrow> string \<Rightarrow> duty_conflict option" where
  "separation_of_duties primary proposed = (let p = normalize_role primary; q = normalize_role proposed in
     if p = q then None
     else if (p = ''procurement'' \<and> q = ''finance'') \<or> (p = ''finance'' \<and> q = ''procurement'') then Some PurchaseAndPayment
     else if (p = ''operations'' \<and> q = ''hse_quality'') \<or> (p = ''hse_quality'' \<and> q = ''operations'') then Some InstallAndInspect
     else if p = ''client_user'' \<or> q = ''client_user'' then Some ClientAndInternal
     else None)"

definition can_access_bank_details :: "string \<Rightarrow> bool \<Rightarrow> bool" where
  "can_access_bank_details role super =
     (if super then True
      else let r = normalize_role role in
        if r = ''super_admin'' then True else r \<in> set [''executive'', ''finance'', ''procurement''])"

section \<open>Normalised names\<close>

lemma collapse_runs_none: "list_all (\<lambda>c. \<not> p c) s \<Longrightarrow> collapse_runs p r b s = s"
  by (induction s arbitrary: b) auto

lemma collapse_runs_all:
  "list_all q s \<Longrightarrow> list_all q r \<Longrightarrow> list_all q (collapse_runs p r b s)"
  by (induction p r b s rule: collapse_runs.induct) auto

lemma collapse_runs_clear: "list_all (\<lambda>c. \<not> p c) r \<Longrightarrow> list_all (\<lambda>c. \<not> p c) (collapse_runs p r b s)"
  by (induction p r b s rule: collapse_runs.induct) auto

lemma dropWhile_none: "list_all (\<lambda>c. \<not> p c) s \<Longrightarrow> dropWhile p s = s"
  by (cases s) auto

text \<open>Text in lower case without blanks and dashes is its own key.\<close>

definition plain_key :: "string \<Rightarrow> bool" where
  "plain_key s \<longleftrightarrow> list_all (\<lambda>c. \<not> is_space c \<and> c \<noteq> CHR ''-'' \<and> lower_char c = c) s"

lemma plain_key_role_key: "plain_key s \<Longrightarrow> role_key s = s"
proof -
  assume "plain_key s"
  then have "list_all (\<lambda>c. \<not> is_space c) s" "list_all (\<lambda>c. \<not> (is_space c \<or> c = CHR ''-'')) s" "map lower_char s = s"
    by (auto simp: plain_key_def list_all_iff intro: map_idI)
  then show ?thesis
    by (simp add: role_key_def trim_def to_lower_def replace_runs_def collapse_runs_none dropWhile_none list_all_rev)
qed

lemma role_key_plain: "plain_key (role_key s)"
proof -
  let ?p = "\<lambda>c. is_space c \<or> c = CHR ''-''"
  have us: "\<not> is_space (CHR ''_'')" "lower_char (CHR ''_'') = CHR ''_''" by code_simp+
  have "list_all (\<lambda>c. \<not> ?p c) (role_key s)"
    unfolding role_key_def replace_runs_def by (rule collapse_runs_clear) (simp add: us)
  moreover have "list_all (\<lambda>c. lower_char c = c) (role_key s)"
    unfolding role_key_def replace_runs_def by (rule collapse_runs_all) (simp_all add: us to_lower_def list_all_iff)
  ultimately show ?thesis by (simp add: plain_key_def list_all_iff)
qed

lemma plain_aliases: "plain_key ''finance'' \<and> plain_key ''executive'' \<and> plain_key ''project_director'' \<and> plain_key ''project_manager''"
  by code_simp

lemma normalize_role_plain: "plain_key (normalize_role r)"
  using role_key_plain [of r] plain_aliases by (simp add: normalize_role_def Let_def)

lemma normalize_role_idem [simp]: "normalize_role (normalize_role r) = normalize_role r"
proof -
  have "role_key (normalize_role r) = normalize_role r" by (rule plain_key_role_key [OF normalize_role_plain])
  then show ?thesis by (auto simp: normalize_role_def Let_def)
qed

section \<open>Authority\<close>

lemmas role_tables = canonical_role_definitions_def executive_roles_def management_roles_def commercial_roles_def
  delivery_roles_def outer_roles_def role_def_def

lemma role_ceiling_cases:
  "role_authority_ceiling r = (let n = normalize_role r in
     if n = ''super_admin'' \<or> n = ''executive'' then Some Unlimited
     else if n = ''project_director'' \<or> n = ''finance'' then Some (UpTo 250000)
     else if n = ''project_manager'' then Some (UpTo 50000)
     else if n = ''constructor'' \<or> n = ''__proto__'' then None else Some (UpTo 0))"
  by (simp add: role_authority_ceiling_def lookup_role_def role_tables Let_def)

text \<open>
  Who may approve an amount without being a super administrator by flag: a role
  that normalises to super administrator for any amount, the executive for any amount that
  is a number, the project director and finance up to 250,000, the project manager up to
  50,000, and nobody else.
\<close>

theorem commercial_authority_exact:
  "can_approve_commercial_amount role amount False = (let n = normalize_role role in
     n = ''super_admin'' \<or> n = ''executive'' \<and> amount \<noteq> None \<or>
     (\<exists>a. amount = Some a \<and> (n \<in> {''project_director'', ''finance''} \<and> a \<le> 250000 \<or> n = ''project_manager'' \<and> a \<le> 50000)))"
  by (auto simp: can_approve_commercial_amount_def role_ceiling_cases Let_def split: option.splits)

lemma permission_cases:
  assumes "has_role_permission role p False = Inr True"
  shows "normalize_role role = ''super_admin'' \<or>
    (\<exists>d \<in> set canonical_role_definitions. rd_role d = normalize_role role \<and> (''*'' \<in> set (rd_permissions d) \<or> p \<in> set (rd_permissions d)))"
  using assms by (auto simp: has_role_permission_def lookup_role_def split: if_splits option.splits role_lookup.splits
      dest!: find_Some_iff_in)

lemma distinct_roles: "distinct (map rd_role canonical_role_definitions)"
  by code_simp

lemma duties_of_table:
  "list_all (\<lambda>d. rd_role d = ''super_admin'' \<or> ''*'' \<notin> set (rd_permissions d) \<and>
     (''po.create'' \<in> set (rd_permissions d) \<longrightarrow> ''invoices.approve'' \<notin> set (rd_permissions d))) canonical_role_definitions"
  by code_simp

lemma external_of_table:
  "list_all (\<lambda>d. rd_category d = RcExternal \<longrightarrow> list_all (\<lambda>e. rd_category e = RcExternal \<or>
     list_all (\<lambda>p. p = ''design.approve'' \<or> p \<notin> set (rd_permissions e)) (rd_permissions d)) canonical_role_definitions) canonical_role_definitions"
  by code_simp

text \<open>
  No role but the super administrator may both create a purchase order and approve an
  invoice, and none of the external category holds a permission of an internal one except to
  approve a design.
\<close>

theorem purchase_and_payment_separated:
  "(has_role_permission role ''po.create'' False = Inr True \<and> has_role_permission role ''invoices.approve'' False = Inr True \<longrightarrow>
      normalize_role role = ''super_admin'') \<and>
   (\<forall>d \<in> set canonical_role_definitions. \<forall>e \<in> set canonical_role_definitions.
      rd_category d = RcExternal \<and> rd_category e \<noteq> RcExternal \<longrightarrow> set (rd_permissions d) \<inter> set (rd_permissions e) \<subseteq> {''design.approve''})"
proof (intro conjI impI)
  assume a: "has_role_permission role ''po.create'' False = Inr True \<and> has_role_permission role ''invoices.approve'' False = Inr True"
  show "normalize_role role = ''super_admin''"
  proof (rule ccontr)
    assume n: "normalize_role role \<noteq> ''super_admin''"
    from a n obtain d e where d: "d \<in> set canonical_role_definitions" "e \<in> set canonical_role_definitions"
      "rd_role d = normalize_role role" "rd_role e = normalize_role role"
      "''*'' \<in> set (rd_permissions d) \<or> ''po.create'' \<in> set (rd_permissions d)"
      "''*'' \<in> set (rd_permissions e) \<or> ''invoices.approve'' \<in> set (rd_permissions e)"
      by (blast dest: permission_cases)
    then have "d = e" using distinct_roles by (metis distinct_map inj_on_eq_iff)
    with d n duties_of_table show False by (auto simp: list_all_iff)
  qed
next
  show "\<forall>d \<in> set canonical_role_definitions. \<forall>e \<in> set canonical_role_definitions.
      rd_category d = RcExternal \<and> rd_category e \<noteq> RcExternal \<longrightarrow> set (rd_permissions d) \<inter> set (rd_permissions e) \<subseteq> {''design.approve''}"
    using external_of_table by (fastforce simp: list_all_iff)
qed

theorem purchase_and_payment_separated_witness:
  "has_role_permission ''Super-Admin'' ''po.create'' False = Inr True \<and> normalize_role ''Super-Admin'' = ''super_admin''"
proof -
  have n: "normalize_role ''Super-Admin'' = ''super_admin''" by code_simp
  then have p: "has_role_permission ''Super-Admin'' q False = Inr True" for q by (simp add: has_role_permission_def)
  with purchase_and_payment_separated [of "''Super-Admin''"] show ?thesis by blast
qed

lemma separation_of_duties_sym: "separation_of_duties a b = separation_of_duties b a"
  by (auto simp: separation_of_duties_def Let_def)

end
