(* ===== verification/Governance.thy ===== *)
theory Governance
  imports Rbac Approval_Policy
begin

text \<open>
  The governance endpoints of \<open>apps/api/src/governance/governance.controller.ts\<close>: publishing a
  policy, approval requests and their decisions, and the exceptions. The repositories of the
  module are the state. The guards before the endpoints, the database rows written on the
  side and the returned envelopes are left out; the body schemas of
  \<open>packages/contracts/src/commands.ts\<close> are part of the model where an endpoint depends on
  them. SHA-256, the clock and random suffixes are arguments.
\<close>

section \<open>State\<close>

datatype snapshot_status = SnapActive | SnapSuperseded

record stored_snapshot =
  sn_id :: string
  sn_project :: string
  sn_org :: string
  sn_version :: nat
  sn_draft :: string
  sn_impact :: string
  sn_decisions :: "string list"
  sn_hash :: string
  sn_published :: int
  sn_status :: snapshot_status

datatype decision_outcome = Approved | Rejected | ChangesRequested
datatype request_status = Pending | Decided decision_outcome
datatype request_amount = AmountNum rat | AmountText string

record approval_request =
  aq_id :: string
  aq_project :: string
  aq_org :: string
  aq_target_type :: string
  aq_target :: string
  aq_target_version :: string
  aq_target_hash :: string
  aq_required_role :: string
  aq_status :: request_status
  aq_decided_by :: "string option"
  aq_decided_at :: "int option"
  aq_comment :: "string option"
  aq_conditions :: "string list option"
  aq_requester :: "string option"
  aq_amount :: "request_amount option"

datatype exception_status = ExRequested | ExAuthorised | ExActive | ExConsumed | ExInReview | ExRemediation | ExClosed

record exception_scope =
  es_project :: string
  es_record :: string
  es_version :: string
  es_rules :: "string list"
  es_actions :: "string list"
  es_conditions :: "string list option"

datatype review_mode = ReviewRequired | ReviewNotRequired

record review_policy =
  rvp_mode :: review_mode
  rvp_owner :: string
  rvp_due :: string
  rvp_template :: "string option"
  rvp_basis :: "string option"

record exception_record =
  ex_id :: string
  ex_project :: string
  ex_org :: string
  ex_scope :: exception_scope
  ex_reason :: string
  ex_basis :: string
  ex_from :: string
  ex_until :: string
  ex_max_uses :: int
  ex_remaining :: int
  ex_status :: exception_status
  ex_review :: review_policy
  ex_evidence :: "string list"
  ex_created :: int
  ex_authorised_at :: "int option"
  ex_authorised_by :: "string option"
  ex_closed_at :: "int option"
  ex_disposition :: "string option"
  ex_actions_left :: "string list option"

record gov_state =
  gv_projects :: "string \<Rightarrow> string option"
  gv_snapshots :: "(string \<times> stored_snapshot) list"
  gv_requests :: "string \<Rightarrow> approval_request option"
  gv_exceptions :: "string \<Rightarrow> exception_record option"

text \<open>The caller as the tenant guard left it on the request; an empty string counts as missing.\<close>

record caller =
  cl_org :: "string option"
  cl_user :: "string option"
  cl_role :: "string option"
  cl_super :: bool

definition filled :: "string option \<Rightarrow> string option" where
  "filled s = (case s of Some t \<Rightarrow> if t = [] then None else Some t | None \<Rightarrow> None)"

definition or_else :: "string option \<Rightarrow> string \<Rightarrow> string" where
  "or_else s d = (case filled s of Some t \<Rightarrow> t | None \<Rightarrow> d)"

definition org_of :: "caller \<Rightarrow> string" where
  "org_of c = or_else (cl_org c) ''11111111-1111-4111-8111-111111111111''"

definition check_project :: "gov_state \<Rightarrow> caller \<Rightarrow> string \<Rightarrow> unit res" where
  "check_project g c project = throw_if (gv_projects g project \<noteq> Some (org_of c)) (Thrown ''PROJECT_NOT_FOUND'' [])"

section \<open>Publishing a policy\<close>

definition is_hex :: "char \<Rightarrow> bool" where
  "is_hex ch \<longleftrightarrow> is_digit ch \<or> (let n = (of_char ch :: nat) in 97 \<le> n \<and> n \<le> 102 \<or> 65 \<le> n \<and> n \<le> 70)"

text \<open>The shape of a UUID: groups of 8, 4, 4, 4 and 12 hexadecimal digits.\<close>

definition is_uuid :: "string \<Rightarrow> bool" where
  "is_uuid s \<longleftrightarrow> length s = 36 \<and> list_all (\<lambda>i. if i \<in> {8, 13, 18, 23} then s ! i = CHR ''-'' else is_hex (s ! i)) [0..<36]"

record publish_body =
  pb_expected :: "string option"
  pb_draft :: string
  pb_impact :: string
  pb_decisions :: "string list"

definition policy_publish_schema :: "publish_body \<Rightarrow> bool" where
  "policy_publish_schema b \<longleftrightarrow> (case pb_expected b of Some e \<Rightarrow> is_uuid e | None \<Rightarrow> True) \<and>
     is_uuid (pb_draft b) \<and> is_uuid (pb_impact b) \<and> list_all is_uuid (pb_decisions b) \<and> length (pb_decisions b) \<ge> 1"

definition is_active :: "string \<Rightarrow> stored_snapshot \<Rightarrow> bool" where
  "is_active project s \<longleftrightarrow> sn_project s = project \<and> sn_status s = SnapActive"

definition active_snapshots :: "gov_state \<Rightarrow> string \<Rightarrow> stored_snapshot list" where
  "active_snapshots g project = filter (is_active project) (map snd (gv_snapshots g))"

definition supersede :: "string \<Rightarrow> stored_snapshot \<Rightarrow> stored_snapshot" where
  "supersede project s = (if is_active project s then s\<lparr>sn_status := SnapSuperseded\<rparr> else s)"

definition publish_policy ::
  "(string \<Rightarrow> string) \<Rightarrow> int \<Rightarrow> string \<Rightarrow> caller \<Rightarrow> string \<Rightarrow> string \<Rightarrow> publish_body \<Rightarrow> gov_state \<Rightarrow> gov_state res" where
  "publish_policy sha now rnd c project draft b g =
     bind_res (throw_if (\<not> policy_publish_schema b) (Thrown ''VALIDATION_FAILED'' [])) (\<lambda>_.
     bind_res (check_project g c project) (\<lambda>_.
     let active = active_snapshots g project in
     bind_res (case pb_expected b of None \<Rightarrow> Inr ()
         | Some e \<Rightarrow> throw_if (\<not> list_ex (\<lambda>s. sn_id s = e) active) (Thrown ''CONCURRENCY_CONFLICT'' [])) (\<lambda>_.
     let version = length active + 1;
         i = ''pol-'' @ int_str now @ ''-'' @ rnd;
         s = \<lparr>sn_id = i, sn_project = project, sn_org = org_of c, sn_version = version, sn_draft = pb_draft b,
              sn_impact = pb_impact b, sn_decisions = pb_decisions b,
              sn_hash = sha (project @ '':'' @ draft @ '':'' @ nat_str version @ '':'' @ int_str now),
              sn_published = now, sn_status = SnapActive\<rparr>
     in Inr (g\<lparr>gv_snapshots := map_set i s (map (\<lambda>(k, v). (k, supersede project v)) (gv_snapshots g))\<rparr>))))"

section \<open>Approval requests\<close>

record decision_body =
  db_version :: string
  db_hash :: string
  db_outcome :: decision_outcome
  db_conditions :: "string list"
  db_comment :: "string option"

definition decision_schema :: "decision_body \<Rightarrow> bool" where
  "decision_schema b \<longleftrightarrow> is_uuid (db_version b) \<and> length (db_hash b) = 64 \<and> list_all is_hex (db_hash b) \<and>
     (case db_comment b of Some t \<Rightarrow> length t \<le> 2000 | None \<Rightarrow> True)"

text \<open>\<open>parseFloat\<close> of an amount that is a text is an argument; infinite amounts are not modelled.\<close>

definition amount_value :: "(string \<Rightarrow> rat option) \<Rightarrow> request_amount \<Rightarrow> rat option" where
  "amount_value parse_float a = (case a of AmountNum x \<Rightarrow> Some x | AmountText t \<Rightarrow> parse_float t)"

definition check_authority :: "(string \<Rightarrow> rat option) \<Rightarrow> caller \<Rightarrow> string \<Rightarrow> string \<Rightarrow> decision_outcome \<Rightarrow> approval_request \<Rightarrow> unit res" where
  "check_authority parse_float c decider role outcome r =
     bind_res (throw_if (outcome = Approved \<and> filled (aq_requester r) = Some decider) (Thrown ''SELF_APPROVAL_PROHIBITED'' [])) (\<lambda>_.
     bind_res (throw_if (outcome = Approved \<and> (case aq_amount r of None \<Rightarrow> False
         | Some a \<Rightarrow> \<not> can_approve_commercial_amount role (amount_value parse_float a) (cl_super c)))
         (Thrown ''INSUFFICIENT_APPROVAL_AUTHORITY'' [role])) (\<lambda>_.
     bind_res (throw_if (aq_required_role r = [] \<or> normalize_role role \<noteq> normalize_role (aq_required_role r))
         (Thrown ''REQUIRED_APPROVER_ROLE'' [])) (\<lambda>_.
     throw_if (outcome = Approved \<and> filled (aq_requester r) = None) (Thrown ''REQUESTER_IDENTITY_REQUIRED'' []))))"

definition decide_approval ::
  "(string \<Rightarrow> rat option) \<Rightarrow> int \<Rightarrow> caller \<Rightarrow> string \<Rightarrow> string \<Rightarrow> decision_body \<Rightarrow> gov_state \<Rightarrow> gov_state res" where
  "decide_approval parse_float now c project i b g =
     bind_res (throw_if (\<not> decision_schema b) (Thrown ''VALIDATION_FAILED'' [])) (\<lambda>_.
     bind_res (check_project g c project) (\<lambda>_.
     case gv_requests g i of
       None \<Rightarrow> Inl (Thrown ''APPROVAL_REQUEST_NOT_FOUND'' [])
     | Some r \<Rightarrow>
       bind_res (throw_if (aq_project r \<noteq> project \<or> aq_org r \<noteq> org_of c) (Thrown ''APPROVAL_REQUEST_NOT_FOUND'' [])) (\<lambda>_.
       bind_res (throw_if (aq_status r \<noteq> Pending) (Thrown ''APPROVAL_ALREADY_DECIDED'' [])) (\<lambda>_.
       bind_res (throw_if (aq_target_version r \<noteq> db_version b) (Thrown ''TARGET_VERSION_MISMATCH'' [])) (\<lambda>_.
       bind_res (throw_if (aq_target_hash r = [] \<or> to_lower (aq_target_hash r) \<noteq> to_lower (db_hash b)) (Thrown ''TARGET_HASH_MISMATCH'' [])) (\<lambda>_.
       case (filled (cl_user c), filled (cl_role c)) of
         (Some decider, Some role) \<Rightarrow>
           bind_res (check_authority parse_float c decider role (db_outcome b) r) (\<lambda>_.
           Inr (g\<lparr>gv_requests := (gv_requests g)(i \<mapsto> r\<lparr>aq_status := Decided (db_outcome b), aq_decided_by := Some decider,
             aq_decided_at := Some now, aq_comment := db_comment b, aq_conditions := Some (db_conditions b)\<rparr>)\<rparr>))
       | _ \<Rightarrow> Inl (Thrown ''AUTHENTICATED_DECIDER_REQUIRED'' [])))))))"

record request_body =
  rb_id :: "string option"
  rb_target_type :: "string option"
  rb_target :: "string option"
  rb_version :: "string option"
  rb_hash :: "string option"
  rb_role :: "string option"
  rb_amount :: "request_amount option"

text \<open>The body is not validated; a fresh identifier is used unless the body names a UUID.\<close>

definition request_approval ::
  "(string \<Rightarrow> string) \<Rightarrow> int \<Rightarrow> string \<Rightarrow> caller \<Rightarrow> string \<Rightarrow> request_body \<Rightarrow> gov_state \<Rightarrow> gov_state res" where
  "request_approval sha now fresh c project b g =
     (let i = (case filled (rb_id b) of Some s \<Rightarrow> if is_uuid s then s else fresh | None \<Rightarrow> fresh) in
      Inr (g\<lparr>gv_requests := (gv_requests g)(i \<mapsto>
        \<lparr>aq_id = i, aq_project = project, aq_org = org_of c, aq_target_type = or_else (rb_target_type b) ''task'',
         aq_target = or_else (rb_target b) ''target-01'',
         aq_target_version = or_else (rb_version b) ''00000000-0000-4000-8000-000000000001'',
         aq_target_hash = or_else (rb_hash b) (sha (project @ '':'' @ int_str now)),
         aq_required_role = or_else (rb_role b) ''executive'', aq_status = Pending, aq_decided_by = None,
         aq_decided_at = None, aq_comment = None, aq_conditions = None, aq_requester = cl_user c,
         aq_amount = rb_amount b\<rparr>)\<rparr>))"

section \<open>Exceptions\<close>

record exception_body =
  xb_scope :: exception_scope
  xb_reason :: string
  xb_basis :: string
  xb_from :: string
  xb_until :: string
  xb_max_uses :: int
  xb_review :: review_policy
  xb_evidence :: "string list"

definition exception_request_schema :: "exception_body \<Rightarrow> bool" where
  "exception_request_schema b \<longleftrightarrow> is_uuid (es_project (xb_scope b)) \<and> is_uuid (es_record (xb_scope b)) \<and> is_uuid (es_version (xb_scope b)) \<and>
     length (es_rules (xb_scope b)) \<ge> 1 \<and> length (es_actions (xb_scope b)) \<ge> 1 \<and> length (xb_reason b) \<ge> 1 \<and>
     is_uuid (xb_basis b) \<and> xb_max_uses b \<ge> 1 \<and> is_uuid (rvp_owner (xb_review b)) \<and>
     (case rvp_template (xb_review b) of Some t \<Rightarrow> is_uuid t | None \<Rightarrow> True) \<and> list_all is_uuid (xb_evidence b)"

definition request_exception :: "int \<Rightarrow> string \<Rightarrow> caller \<Rightarrow> string \<Rightarrow> exception_body \<Rightarrow> gov_state \<Rightarrow> gov_state res" where
  "request_exception now rnd c project b g =
     bind_res (throw_if (\<not> exception_request_schema b) (Thrown ''VALIDATION_FAILED'' [])) (\<lambda>_.
     bind_res (check_project g c project) (\<lambda>_.
     let i = ''exc-'' @ int_str now @ ''-'' @ rnd in
     Inr (g\<lparr>gv_exceptions := (gv_exceptions g)(i \<mapsto>
       \<lparr>ex_id = i, ex_project = project, ex_org = org_of c, ex_scope = xb_scope b, ex_reason = xb_reason b,
        ex_basis = xb_basis b, ex_from = xb_from b, ex_until = xb_until b, ex_max_uses = xb_max_uses b,
        ex_remaining = xb_max_uses b, ex_status = ExRequested, ex_review = xb_review b, ex_evidence = xb_evidence b, ex_created = now,
        ex_authorised_at = None, ex_authorised_by = None, ex_closed_at = None, ex_disposition = None,
        ex_actions_left = None\<rparr>)\<rparr>)))"

definition find_exception :: "gov_state \<Rightarrow> caller \<Rightarrow> string \<Rightarrow> string \<Rightarrow> exception_record res" where
  "find_exception g c project i = (case gv_exceptions g i of
       None \<Rightarrow> Inl (Thrown ''EXCEPTION_NOT_FOUND'' [])
     | Some x \<Rightarrow> if ex_project x \<noteq> project \<or> ex_org x \<noteq> org_of c then Inl (Thrown ''EXCEPTION_NOT_FOUND'' []) else Inr x)"

record authorise_body =
  ab_version :: string
  ab_hash :: string
  ab_decisions :: "string list"
  ab_rule :: string
  ab_max_uses :: int
  ab_from :: string
  ab_until :: string

definition authorise_schema :: "authorise_body \<Rightarrow> bool" where
  "authorise_schema b \<longleftrightarrow> is_uuid (ab_version b) \<and> length (ab_hash b) = 64 \<and> list_all is_hex (ab_hash b) \<and>
     list_all is_uuid (ab_decisions b) \<and> length (ab_decisions b) \<ge> 1 \<and> ab_max_uses b > 0"

definition authorise_exception :: "int \<Rightarrow> caller \<Rightarrow> string \<Rightarrow> string \<Rightarrow> authorise_body \<Rightarrow> gov_state \<Rightarrow> gov_state res" where
  "authorise_exception now c project i b g =
     bind_res (throw_if (\<not> authorise_schema b) (Thrown ''VALIDATION_FAILED'' [])) (\<lambda>_.
     bind_res (check_project g c project) (\<lambda>_.
     bind_res (find_exception g c project i) (\<lambda>x.
     Inr (g\<lparr>gv_exceptions := (gv_exceptions g)(i \<mapsto> x\<lparr>ex_status := ExAuthorised, ex_authorised_at := Some now,
       ex_authorised_by := Some (or_else (cl_user c) ''usr-commercial-governance''),
       ex_scope := (ex_scope x)\<lparr>es_rules := [ab_rule b]\<rparr>, ex_from := ab_from b, ex_until := ab_until b,
       ex_max_uses := ab_max_uses b, ex_remaining := ab_max_uses b\<rparr>)\<rparr>))))"

datatype review_outcome = RvInReview | RvRemediation | RvClosed

fun review_status :: "review_outcome \<Rightarrow> exception_status" where
  "review_status RvInReview = ExInReview"
| "review_status RvRemediation = ExRemediation"
| "review_status RvClosed = ExClosed"

record review_body =
  vb_outcome :: review_outcome
  vb_disposition :: string
  vb_evidence :: "string list"
  vb_actions :: "string list"

definition review_schema :: "review_body \<Rightarrow> bool" where
  "review_schema b \<longleftrightarrow> length (vb_disposition b) \<ge> 1 \<and> list_all is_uuid (vb_evidence b) \<and> list_all is_uuid (vb_actions b)"

definition review_exception :: "int \<Rightarrow> caller \<Rightarrow> string \<Rightarrow> string \<Rightarrow> review_body \<Rightarrow> gov_state \<Rightarrow> gov_state res" where
  "review_exception now c project i b g =
     bind_res (throw_if (\<not> review_schema b) (Thrown ''VALIDATION_FAILED'' [])) (\<lambda>_.
     bind_res (check_project g c project) (\<lambda>_.
     bind_res (find_exception g c project i) (\<lambda>x.
     Inr (g\<lparr>gv_exceptions := (gv_exceptions g)(i \<mapsto> x\<lparr>ex_status := review_status (vb_outcome b),
       ex_disposition := Some (vb_disposition b), ex_closed_at := Some now, ex_evidence := ex_evidence x @ vb_evidence b,
       ex_actions_left := Some (vb_actions b)\<rparr>)\<rparr>))))"

section \<open>The endpoints as one machine\<close>

text \<open>A command carries what its endpoint reads: the clock, fresh values, the caller and the body.\<close>

datatype (plugins only: code size) gov_command =
    PublishPolicy int string caller string string publish_body
  | RequestApproval int string caller string request_body
  | DecideApproval int caller string string decision_body
  | RequestException int string caller string exception_body
  | AuthoriseException int caller string string authorise_body
  | ReviewException int caller string string review_body

fun gov_step :: "(string \<Rightarrow> string) \<Rightarrow> (string \<Rightarrow> rat option) \<Rightarrow> gov_state \<Rightarrow> gov_command \<Rightarrow> gov_state res" where
  "gov_step sha pf g (PublishPolicy now rnd c p d b) = publish_policy sha now rnd c p d b g"
| "gov_step sha pf g (RequestApproval now fresh c p b) = request_approval sha now fresh c p b g"
| "gov_step sha pf g (DecideApproval now c p i b) = decide_approval pf now c p i b g"
| "gov_step sha pf g (RequestException now rnd c p b) = request_exception now rnd c p b g"
| "gov_step sha pf g (AuthoriseException now c p i b) = authorise_exception now c p i b g"
| "gov_step sha pf g (ReviewException now c p i b) = review_exception now c p i b g"

section \<open>The seeded server\<close>

text \<open>
  \<open>seedInitialGovernance\<close> runs when the module is loaded: a pending approval request and an
  authorised exception of the demonstration project. The text of an instant is an argument.
\<close>

definition seeded_request :: "(string \<Rightarrow> string) \<Rightarrow> approval_request" where
  "seeded_request sha = \<lparr>aq_id = ''appr-req-001'', aq_project = ''00000000-0000-4000-8000-000000000001'',
     aq_org = ''11111111-1111-4111-8111-111111111111'', aq_target_type = ''proposal'', aq_target = ''prop-2026-v2'',
     aq_target_version = ''00000000-0000-4000-8000-000000000002'', aq_target_hash = sha ''prop-2026-v2-target-content'',
     aq_required_role = ''Commercial Director'', aq_status = Pending, aq_decided_by = None, aq_decided_at = None,
     aq_comment = None, aq_conditions = None, aq_requester = None, aq_amount = None\<rparr>"

definition seeded_exception :: "(int \<Rightarrow> string) \<Rightarrow> int \<Rightarrow> exception_record" where
  "seeded_exception date_text now = \<lparr>ex_id = ''exc-req-001'', ex_project = ''00000000-0000-4000-8000-000000000001'',
     ex_org = ''11111111-1111-4111-8111-111111111111'',
     ex_scope = \<lparr>es_project = ''00000000-0000-4000-8000-000000000001'', es_record = ''00000000-0000-4000-8000-000000000010'',
       es_version = ''00000000-0000-4000-8000-000000000020'', es_rules = [''vendor.comparison.required''],
       es_actions = [''purchase_order.release''], es_conditions = None\<rparr>,
     ex_reason = ''Urgent specialized kinetic truss motor sourcing for Main Stage Qatar National Day'',
     ex_basis = ''00000000-0000-4000-8000-000000000099'', ex_from = date_text (now - 3600000), ex_until = date_text (now + 86400000 * 3),
     ex_max_uses = 1, ex_remaining = 1, ex_status = ExAuthorised,
     ex_review = \<lparr>rvp_mode = ReviewRequired, rvp_owner = ''00000000-0000-4000-8000-000000000005'',
       rvp_due = date_text (now + 86400000 * 7), rvp_template = None, rvp_basis = None\<rparr>,
     ex_evidence = [''00000000-0000-4000-8000-000000000088''], ex_created = now - 3600000, ex_authorised_at = Some now,
     ex_authorised_by = Some ''Governance & Commercial Authority'', ex_closed_at = None, ex_disposition = None, ex_actions_left = None\<rparr>"

definition seed_initial_governance :: "(string \<Rightarrow> string) \<Rightarrow> (int \<Rightarrow> string) \<Rightarrow> int \<Rightarrow> gov_state \<Rightarrow> gov_state" where
  "seed_initial_governance sha date_text now g =
     (let g1 = (if gv_requests g ''appr-req-001'' = None
          then g\<lparr>gv_requests := (gv_requests g)(''appr-req-001'' \<mapsto> seeded_request sha)\<rparr> else g)
      in if gv_exceptions g1 ''exc-req-001'' = None
         then g1\<lparr>gv_exceptions := (gv_exceptions g1)(''exc-req-001'' \<mapsto> seeded_exception date_text now)\<rparr> else g1)"

text \<open>The state a server starts in, whatever projects it knows.\<close>

definition initial_governance :: "(string \<Rightarrow> string) \<Rightarrow> (int \<Rightarrow> string) \<Rightarrow> int \<Rightarrow> (string \<Rightarrow> string option) \<Rightarrow> gov_state" where
  "initial_governance sha date_text now projects = seed_initial_governance sha date_text now
     \<lparr>gv_projects = projects, gv_snapshots = [], gv_requests = Map.empty, gv_exceptions = Map.empty\<rparr>"

lemma initial_governance_simps [simp]:
  "gv_projects (initial_governance sha date_text now projects) = projects"
  "gv_snapshots (initial_governance sha date_text now projects) = []"
  "gv_requests (initial_governance sha date_text now projects) = [''appr-req-001'' \<mapsto> seeded_request sha]"
  "gv_exceptions (initial_governance sha date_text now projects) = [''exc-req-001'' \<mapsto> seeded_exception date_text now]"
  by (simp_all add: initial_governance_def seed_initial_governance_def)

section \<open>Publishing keeps one active policy\<close>

text \<open>Every stored snapshot is filed under its own identifier, which the endpoint made.\<close>

definition snapshots_wf :: "gov_state \<Rightarrow> bool" where
  "snapshots_wf g \<longleftrightarrow> (\<forall>p \<in> set (gv_snapshots g). sn_id (snd p) = fst p \<and> take 4 (fst p) = ''pol-'' \<and> sn_version (snd p) \<in> {1, 2}) \<and>
     (\<forall>project. length (active_snapshots g project) \<le> 1)"

lemma filter_map_set:
  "length (filter P (map snd (map_set k v xs))) \<le> length (filter P (map snd xs)) + (if P v then 1 else 0)"
  by (induction k v xs rule: map_set.induct) auto

lemma map_set_subset: "set (map_set k v xs) \<subseteq> insert (k, v) (set xs)"
  by (induction k v xs rule: map_set.induct) auto

lemma supersede_simps [simp]:
  "sn_id (supersede p s) = sn_id s" "sn_version (supersede p s) = sn_version s" "sn_project (supersede p s) = sn_project s"
  "is_active q (supersede p s) \<longleftrightarrow> is_active q s \<and> q \<noteq> p"
  by (auto simp: supersede_def is_active_def)

lemma filter_supersede:
  "filter (is_active q) (map snd (map (\<lambda>(k, v). (k, supersede p v)) xs)) = (if q = p then [] else filter (is_active q) (map snd xs))"
proof -
  have "is_active q v \<Longrightarrow> q \<noteq> p \<Longrightarrow> supersede p v = v" for v by (auto simp: supersede_def is_active_def)
  then show ?thesis by (induction xs) (auto simp del: supersede_simps(3))
qed

lemma publish_policy_state:
  assumes "publish_policy sha now rnd c p d b g = Inr g'"
  obtains s where "g' = g\<lparr>gv_snapshots := map_set (sn_id s) s (map (\<lambda>(k, v). (k, supersede p v)) (gv_snapshots g))\<rparr>"
    "sn_project s = p" "sn_version s = length (active_snapshots g p) + 1" "sn_id s = ''pol-'' @ int_str now @ ''-'' @ rnd"
    "sn_status s = SnapActive"
  using assms by (auto simp: publish_policy_def Let_def)

lemma publish_policy_wf:
  assumes "snapshots_wf g" and "publish_policy sha now rnd c p d b g = Inr g'"
  shows "snapshots_wf g'"
proof -
  from assms(2) obtain s where g': "g' = g\<lparr>gv_snapshots := map_set (sn_id s) s (map (\<lambda>(k, v). (k, supersede p v)) (gv_snapshots g))\<rparr>"
    and s: "sn_project s = p" "sn_version s = length (active_snapshots g p) + 1" "sn_id s = ''pol-'' @ int_str now @ ''-'' @ rnd"
      "sn_status s = SnapActive" by (rule publish_policy_state)
  let ?old = "map (\<lambda>(k, v). (k, supersede p v)) (gv_snapshots g)"
  have one: "length (active_snapshots g q) \<le> 1" for q using assms(1) by (simp add: snapshots_wf_def)
  have old: "sn_id (snd e) = fst e \<and> take 4 (fst e) = ''pol-'' \<and> sn_version (snd e) \<in> {1, 2}" if "e \<in> set ?old" for e
  proof -
    from that obtain k v where "(k, v) \<in> set (gv_snapshots g)" "e = (k, supersede p v)" by auto
    with assms(1) show ?thesis unfolding snapshots_wf_def by fastforce
  qed
  have new: "take 4 (sn_id s) = ''pol-''" "sn_version s \<in> {1, 2}"
    using s one [of p] by (simp_all add: numeral_2_eq_2 le_Suc_eq)
  have entries: "sn_id (snd e) = fst e \<and> take 4 (fst e) = ''pol-'' \<and> sn_version (snd e) \<in> {1, 2}"
    if e: "e \<in> set (gv_snapshots g')" for e
  proof (cases "e = (sn_id s, s)")
    case True
    with new show ?thesis by simp
  next
    case False
    with e have "e \<in> set ?old" using map_set_subset [of "sn_id s" s ?old] unfolding g' by auto
    then show ?thesis by (rule old)
  qed
  have "length (active_snapshots g' q) \<le> 1" for q
  proof -
    have "length (active_snapshots g' q) \<le> length (filter (is_active q) (map snd ?old)) + (if is_active q s then 1 else 0)"
      unfolding active_snapshots_def g' using filter_map_set [of "is_active q" "sn_id s" s ?old] by simp
    then show ?thesis unfolding filter_supersede using one [of q] s(1) by (auto simp: active_snapshots_def is_active_def split: if_splits)
  qed
  with entries show ?thesis by (simp add: snapshots_wf_def)
qed

text \<open>The other endpoints do not touch the snapshots.\<close>

lemma other_steps_snapshots:
  "request_approval sha now fresh c p rb g = Inr g' \<Longrightarrow> gv_snapshots g' = gv_snapshots g"
  "decide_approval pf now c p i db g = Inr g' \<Longrightarrow> gv_snapshots g' = gv_snapshots g"
  "request_exception now rnd c p xb g = Inr g' \<Longrightarrow> gv_snapshots g' = gv_snapshots g"
  "authorise_exception now c p i ab g = Inr g' \<Longrightarrow> gv_snapshots g' = gv_snapshots g"
  "review_exception now c p i vb g = Inr g' \<Longrightarrow> gv_snapshots g' = gv_snapshots g"
  by (auto simp: request_approval_def decide_approval_def request_exception_def authorise_exception_def review_exception_def
      Let_def split: option.splits)

lemma snapshots_wf_cong: "gv_snapshots g' = gv_snapshots g \<Longrightarrow> snapshots_wf g' = snapshots_wf g"
  by (simp add: snapshots_wf_def active_snapshots_def)

lemma gov_step_wf: "snapshots_wf g \<Longrightarrow> gov_step sha pf g cmd = Inr g' \<Longrightarrow> snapshots_wf g'"
  by (cases cmd) (auto dest: publish_policy_wf other_steps_snapshots snapshots_wf_cong)

interpretation gov_policy: guarded_run "gov_step sha pf" snapshots_wf "\<lambda>_. True" for sha pf
  by unfold_locales (rule gov_step_wf)

text \<open>
  In whatever order the governance commands arrive, accepted or rejected, a project
  never has two active policies; but the version given to a published policy counts the
  active ones instead of all, so it is 1 or 2 for ever.
\<close>

theorem one_active_policy:
  assumes "gv_snapshots g = []"
  shows "length (active_snapshots (attempts (gov_step sha pf) g cmds) project) \<le> 1 \<and>
    (\<forall>p \<in> set (gv_snapshots (attempts (gov_step sha pf) g cmds)). sn_version (snd p) \<le> 2)"
proof -
  have "snapshots_wf g" using assms by (simp add: snapshots_wf_def active_snapshots_def)
  then have "snapshots_wf (attempts (gov_step sha pf) g cmds)" by (rule gov_policy.attempts_inv) simp
  then show ?thesis unfolding snapshots_wf_def by fastforce
qed

text \<open>
  The optimistic concurrency check can never be passed: the schema wants a UUID and the
  published policies have identifiers that are not, so a request that names the policy it
  expects to be active is refused in every state the endpoints reach.
\<close>

theorem expected_policy_never_matches:
  assumes "gv_snapshots g = []" and "pb_expected b = Some e"
  shows "\<not> returns (publish_policy sha now rnd c p d b (attempts (gov_step sha pf) g cmds))"
proof -
  let ?h = "attempts (gov_step sha pf) g cmds"
  have "snapshots_wf g" using assms(1) by (simp add: snapshots_wf_def active_snapshots_def)
  then have wf: "snapshots_wf ?h" by (rule gov_policy.attempts_inv) simp
  have "\<not> list_ex (\<lambda>s. sn_id s = e) (active_snapshots ?h p)" if u: "is_uuid e"
  proof
    assume "list_ex (\<lambda>s. sn_id s = e) (active_snapshots ?h p)"
    then obtain k v where "(k, v) \<in> set (gv_snapshots ?h)" "sn_id v = e" by (auto simp: list_ex_iff active_snapshots_def)
    with wf have "take 4 e = ''pol-''" unfolding snapshots_wf_def by fastforce
    then have "e ! 0 = CHR ''p''" by (cases e) auto
    moreover have "is_hex (e ! 0)" using u by (simp add: is_uuid_def upt_rec [of 0 36])
    moreover have "\<not> is_hex (CHR ''p'')" by code_simp
    ultimately show False by simp
  qed
  then show ?thesis using assms(2)
    by (auto simp: returns_conv publish_policy_def policy_publish_schema_def Let_def)
qed

section \<open>Decisions\<close>

lemma decide_approvalE:
  assumes "decide_approval pf now c project i b g = Inr g'"
  obtains r decider role where "gv_requests g i = Some r" "aq_project r = project" "aq_org r = org_of c" "aq_status r = Pending"
    "aq_target_version r = db_version b" "to_lower (aq_target_hash r) = to_lower (db_hash b)"
    "filled (cl_user c) = Some decider" "filled (cl_role c) = Some role"
    "check_authority pf c decider role (db_outcome b) r = Inr ()"
    "g' = g\<lparr>gv_requests := (gv_requests g)(i \<mapsto> r\<lparr>aq_status := Decided (db_outcome b), aq_decided_by := Some decider,
       aq_decided_at := Some now, aq_comment := db_comment b, aq_conditions := Some (db_conditions b)\<rparr>)\<rparr>"
  using assms by (auto simp: decide_approval_def split: option.splits)

lemma check_authority_approved:
  assumes "check_authority pf c decider role Approved r = Inr u"
  shows "(\<exists>q. filled (aq_requester r) = Some q \<and> q \<noteq> decider) \<and> normalize_role role = normalize_role (aq_required_role r) \<and>
    (\<forall>a. aq_amount r = Some a \<longrightarrow> can_approve_commercial_amount role (amount_value pf a) (cl_super c))"
  using assms by (auto simp: check_authority_def split: option.splits)

text \<open>
  C6: an accepted approval had a pending request of the caller's tenant and project, was for
  exactly the version and content that was requested, was given by someone else than the
  recorded requester, in the required role after normalisation and, where the request has an
  amount, within that role's commercial authority; it changes that request only.
\<close>

theorem approval_needs_authority:
  assumes "decide_approval pf now c project i b g = Inr g'" and "db_outcome b = Approved"
  shows "\<exists>r r' q decider role. gv_requests g i = Some r \<and> aq_status r = Pending \<and> aq_project r = project \<and> aq_org r = org_of c \<and>
    aq_target_version r = db_version b \<and> to_lower (aq_target_hash r) = to_lower (db_hash b) \<and>
    aq_requester r = Some q \<and> cl_user c = Some decider \<and> q \<noteq> decider \<and> cl_role c = Some role \<and>
    normalize_role role = normalize_role (aq_required_role r) \<and>
    (\<forall>a. aq_amount r = Some a \<longrightarrow> can_approve_commercial_amount role (amount_value pf a) (cl_super c)) \<and>
    g' = g\<lparr>gv_requests := (gv_requests g)(i \<mapsto> r')\<rparr> \<and> aq_status r' = Decided Approved \<and> aq_decided_by r' = Some decider"
proof -
  have filled: "filled x = Some y \<Longrightarrow> x = Some y" for x y by (auto simp: filled_def split: option.splits if_splits)
  from assms(1) show ?thesis
  proof (rule decide_approvalE)
    fix r decider role
    assume *: "gv_requests g i = Some r" "aq_project r = project" "aq_org r = org_of c" "aq_status r = Pending"
      "aq_target_version r = db_version b" "to_lower (aq_target_hash r) = to_lower (db_hash b)"
      "filled (cl_user c) = Some decider" "filled (cl_role c) = Some role"
      "check_authority pf c decider role (db_outcome b) r = Inr ()"
      "g' = g\<lparr>gv_requests := (gv_requests g)(i \<mapsto> r\<lparr>aq_status := Decided (db_outcome b), aq_decided_by := Some decider,
         aq_decided_at := Some now, aq_comment := db_comment b, aq_conditions := Some (db_conditions b)\<rparr>)\<rparr>"
    let ?r' = "r\<lparr>aq_status := Decided (db_outcome b), aq_decided_by := Some decider, aq_decided_at := Some now,
       aq_comment := db_comment b, aq_conditions := Some (db_conditions b)\<rparr>"
    have auth: "check_authority pf c decider role Approved r = Inr ()" using *(9) assms(2) by simp
    from check_authority_approved [OF auth] obtain q where q: "aq_requester r = Some q" "q \<noteq> decider"
      "normalize_role role = normalize_role (aq_required_role r)"
      "\<forall>a. aq_amount r = Some a \<longrightarrow> can_approve_commercial_amount role (amount_value pf a) (cl_super c)"
      using filled by blast
    have "aq_status ?r' = Decided Approved" "aq_decided_by ?r' = Some decider" using assms(2) by simp_all
    with * q filled [OF *(7)] filled [OF *(8)] show ?thesis by blast
  qed
qed

text \<open>Every approved request of the store was decided by someone else than its requester.\<close>

definition approvals_independent :: "gov_state \<Rightarrow> bool" where
  "approvals_independent g \<longleftrightarrow> (\<forall>i r. gv_requests g i = Some r \<and> aq_status r = Decided Approved \<longrightarrow>
     (\<exists>d q. aq_decided_by r = Some d \<and> filled (aq_requester r) = Some q \<and> q \<noteq> d))"

lemma decide_independent:
  assumes "approvals_independent g" and "decide_approval pf now c project i b g = Inr g'"
  shows "approvals_independent g'"
  using assms(2)
proof (rule decide_approvalE)
  fix r decider role
  assume auth: "check_authority pf c decider role (db_outcome b) r = Inr ()"
    and g': "g' = g\<lparr>gv_requests := (gv_requests g)(i \<mapsto> r\<lparr>aq_status := Decided (db_outcome b), aq_decided_by := Some decider,
       aq_decided_at := Some now, aq_comment := db_comment b, aq_conditions := Some (db_conditions b)\<rparr>)\<rparr>"
  have "db_outcome b = Approved \<Longrightarrow> \<exists>q. filled (aq_requester r) = Some q \<and> q \<noteq> decider"
    using auth check_authority_approved [of pf c decider role r "()"] by simp
  with assms(1) show ?thesis by (auto simp: approvals_independent_def g')
qed

lemma other_steps_requests:
  "publish_policy sha now rnd c p d pb g = Inr g' \<Longrightarrow> gv_requests g' = gv_requests g"
  "request_exception now rnd c p xb g = Inr g' \<Longrightarrow> gv_requests g' = gv_requests g"
  "authorise_exception now c p i ab g = Inr g' \<Longrightarrow> gv_requests g' = gv_requests g"
  "review_exception now c p i vb g = Inr g' \<Longrightarrow> gv_requests g' = gv_requests g"
  by (auto simp: publish_policy_def request_exception_def authorise_exception_def review_exception_def Let_def split: option.splits)

lemma request_approval_state:
  assumes "request_approval sha now fresh c p b g = Inr g'"
  obtains j r where "g' = g\<lparr>gv_requests := (gv_requests g)(j \<mapsto> r)\<rparr>" "aq_status r = Pending"
  by (rule that [OF assms [unfolded request_approval_def Let_def sum.inject, symmetric]]) simp

lemma request_independent:
  assumes "approvals_independent g" and "request_approval sha now fresh c p b g = Inr g'"
  shows "approvals_independent g'"
  using assms(2)
proof (rule request_approval_state)
  fix j r
  assume "g' = g\<lparr>gv_requests := (gv_requests g)(j \<mapsto> r)\<rparr>" "aq_status r = Pending"
  with assms(1) show ?thesis by (auto simp: approvals_independent_def)
qed

lemma approvals_independent_cong: "gv_requests g' = gv_requests g \<Longrightarrow> approvals_independent g' = approvals_independent g"
  by (simp add: approvals_independent_def)

lemma gov_step_independent: "approvals_independent g \<Longrightarrow> gov_step sha pf g cmd = Inr g' \<Longrightarrow> approvals_independent g'"
  by (cases cmd) (auto dest: decide_independent request_independent other_steps_requests approvals_independent_cong)

interpretation gov_approvals: guarded_run "gov_step sha pf" approvals_independent "\<lambda>_. True" for sha pf
  by unfold_locales (rule gov_step_independent)

text \<open>
  C25: whatever sequence of governance commands is attempted on a server from its start, which
  stores a pending request of its own, an approved request was decided by someone who is not
  its recorded requester.
\<close>

theorem no_self_approval:
  assumes "gv_requests (attempts (gov_step sha pf) (initial_governance sha date_text start projects) cmds) i = Some r"
    and "aq_status r = Decided Approved"
  shows "\<exists>d q. aq_decided_by r = Some d \<and> aq_requester r = Some q \<and> q \<noteq> d"
proof -
  have "approvals_independent (initial_governance sha date_text start projects)"
    by (simp add: approvals_independent_def seeded_request_def)
  then have "approvals_independent (attempts (gov_step sha pf) (initial_governance sha date_text start projects) cmds)"
    by (rule gov_approvals.attempts_inv) simp
  with assms obtain d q where "aq_decided_by r = Some d" "filled (aq_requester r) = Some q" "q \<noteq> d"
    unfolding approvals_independent_def by blast
  then show ?thesis by (auto simp: filled_def split: option.splits if_splits)
qed

text \<open>
  A request for approval may name the identifier of a request that exists: whatever its
  state, tenant and project, it is replaced by a pending one with the requirements the new
  body states, so a decided request is reopened.
\<close>

theorem decided_request_reopened:
  assumes "gv_requests g i = Some r" and "is_uuid i" and "rb_id b = Some i"
  shows "\<exists>g' r'. request_approval sha now fresh c p b g = Inr g' \<and> gv_requests g' i = Some r' \<and> aq_status r' = Pending \<and>
    aq_decided_by r' = None \<and> aq_org r' = org_of c \<and> aq_project r' = p \<and> aq_amount r' = rb_amount b \<and>
    aq_required_role r' = or_else (rb_role b) ''executive''"
proof -
  have "i \<noteq> []" using assms(2) by (auto simp: is_uuid_def)
  then show ?thesis using assms(2,3) by (simp add: request_approval_def Let_def filled_def)
qed

text \<open>
  An exception of the caller's project is authorised with its uses renewed whatever its
  status, also after it was consumed or closed, and whoever the caller is; the authority
  decisions the body names are not looked up.
\<close>

theorem exception_always_authorisable:
  assumes "gv_exceptions g i = Some x" and "ex_project x = project" and "ex_org x = org_of c"
    and "gv_projects g project = Some (org_of c)" and "authorise_schema b"
  shows "\<exists>g' x'. authorise_exception now c project i b g = Inr g' \<and> gv_exceptions g' i = Some x' \<and> ex_status x' = ExAuthorised \<and>
    ex_remaining x' = ab_max_uses b \<and> es_rules (ex_scope x') = [ab_rule b]"
  using assms by (simp add: authorise_exception_def check_project_def find_exception_def)

section \<open>Policies and ceilings\<close>

fun approver_role_name :: "approver_role \<Rightarrow> string" where
  "approver_role_name ProjectManager = ''project_manager''"
| "approver_role_name FinanceRole = ''finance''"
| "approver_role_name ExecutiveRole = ''executive''"

lemma approver_role_names: "normalize_role (approver_role_name x) = approver_role_name x"
  by (cases x; simp only: approver_role_name.simps; code_simp)

text \<open>
  The approver the default policy resolves for an amount has the commercial authority for
  it; but the tiers begin where the ceilings end, so at exactly 50,000 and 250,000 the ceiling
  still admits the role below the one the policy requires.
\<close>

theorem required_approver_has_authority:
  "can_approve_commercial_amount (approver_role_name (rv_role (resolve_required_approver reg (Some a) None))) (Some a) False \<and>
   rv_role (resolve_required_approver reg (Some 50000) None) = FinanceRole \<and>
   can_approve_commercial_amount ''project_manager'' (Some 50000) False \<and>
   rv_role (resolve_required_approver reg (Some 250000) None) = ExecutiveRole \<and>
   can_approve_commercial_amount ''finance'' (Some 250000) False"
proof -
  have n: "normalize_role ''project_manager'' = ''project_manager''" "normalize_role ''finance'' = ''finance''"
    "normalize_role ''executive'' = ''executive''"
    using approver_role_names [of ProjectManager] approver_role_names [of FinanceRole] approver_role_names [of ExecutiveRole] by simp_all
  have role: "rv_role (resolve_required_approver reg (Some x) None) =
    (if x < 50000 then ProjectManager else if x < 250000 then FinanceRole else ExecutiveRole)" for x
    using default_bands [of reg "Some x" 0] by (auto simp: numeric_amount_def max_def)
  show ?thesis unfolding role
    by (simp add: can_approve_commercial_amount_def role_ceiling_cases n Let_def)
qed

section \<open>Witnesses\<close>

definition some_uuid :: string where
  "some_uuid = ''00000000-0000-4000-8000-000000000001''"

definition some_hash :: string where
  "some_hash = concat (replicate 8 ''0123abcd'')"

definition new_project :: gov_state where
  "new_project = \<lparr>gv_projects = [''p'' \<mapsto> ''e3''], gv_snapshots = [], gv_requests = Map.empty, gv_exceptions = Map.empty\<rparr>"

definition staff :: "string \<Rightarrow> string \<Rightarrow> caller" where
  "staff user role = \<lparr>cl_org = Some ''e3'', cl_user = Some user, cl_role = Some role, cl_super = False\<rparr>"

definition ask_finance :: gov_command where
  "ask_finance = RequestApproval 0 ''fresh'' (staff ''pm'' ''project_manager'') ''p''
     \<lparr>rb_id = Some some_uuid, rb_target_type = None, rb_target = None, rb_version = Some some_uuid, rb_hash = Some some_hash,
      rb_role = Some ''finance'', rb_amount = Some (AmountNum 60000)\<rparr>"

definition approve :: decision_body where
  "approve = \<lparr>db_version = some_uuid, db_hash = some_hash, db_outcome = Approved, db_conditions = [], db_comment = None\<rparr>"

definition publish :: publish_body where
  "publish = \<lparr>pb_expected = None, pb_draft = some_uuid, pb_impact = some_uuid, pb_decisions = [some_uuid]\<rparr>"

lemma sample_facts:
  "is_uuid some_uuid" "length some_hash = 64" "list_all is_hex some_hash" "some_uuid \<noteq> []" "some_hash \<noteq> []"
  "normalize_role ''finance'' = ''finance''" "filled (Some ''CFO'') = Some ''CFO''" "normalize_role ''CFO'' = ''finance''"
  by code_simp+

lemma staff_simps [simp]:
  "org_of (staff u r) = ''e3''" "cl_user (staff u r) = Some u" "cl_role (staff u r) = Some r" "\<not> cl_super (staff u r)"
  by (simp_all add: staff_def org_of_def or_else_def filled_def)

definition asked :: gov_state where
  "asked = attempts (gov_step (\<lambda>x. x) (\<lambda>_. None)) new_project [ask_finance]"

definition the_request :: approval_request where
  "the_request = \<lparr>aq_id = some_uuid, aq_project = ''p'', aq_org = ''e3'', aq_target_type = ''task'', aq_target = ''target-01'',
     aq_target_version = some_uuid, aq_target_hash = some_hash, aq_required_role = ''finance'', aq_status = Pending,
     aq_decided_by = None, aq_decided_at = None, aq_comment = None, aq_conditions = None, aq_requester = Some ''pm'',
     aq_amount = Some (AmountNum 60000)\<rparr>"

lemma asked_state: "asked = new_project\<lparr>gv_requests := [some_uuid \<mapsto> the_request]\<rparr>"
  using sample_facts(1,4,5)
  by (simp add: asked_def ask_finance_def request_approval_def Let_def filled_def or_else_def new_project_def the_request_def)

lemma asked_approved:
  "decide_approval (\<lambda>_. None) 1 (staff ''fc'' ''CFO'') ''p'' some_uuid approve asked =
     Inr (asked\<lparr>gv_requests := (gv_requests asked)(some_uuid \<mapsto> the_request\<lparr>aq_status := Decided Approved, aq_decided_by := Some ''fc'',
       aq_decided_at := Some 1, aq_comment := None, aq_conditions := Some []\<rparr>)\<rparr>)"
proof -
  have "can_approve_commercial_amount ''CFO'' (Some 60000) False"
    by (simp add: can_approve_commercial_amount_def role_ceiling_cases sample_facts Let_def)
  then have "check_authority (\<lambda>_. None) (staff ''fc'' ''CFO'') ''fc'' ''CFO'' Approved the_request = Inr ()"
    by (simp add: check_authority_def the_request_def filled_def amount_value_def sample_facts)
  then show ?thesis
    by (simp add: decide_approval_def asked_state approve_def decision_schema_def sample_facts check_project_def new_project_def
        the_request_def filled_def)
qed

theorem approval_needs_authority_witness:
  "\<exists>r q decider. gv_requests asked some_uuid = Some r \<and> aq_requester r = Some q \<and>
     cl_user (staff ''fc'' ''CFO'') = Some decider \<and> q \<noteq> decider"
proof -
  have "db_outcome approve = Approved" by (simp add: approve_def)
  from approval_needs_authority [OF asked_approved this] show ?thesis by blast
qed

definition started :: gov_state where
  "started = initial_governance (\<lambda>x. x) (\<lambda>_. []) 0 (gv_projects new_project)"

lemma started_asked:
  "gov_step (\<lambda>x. x) (\<lambda>_. None) started ask_finance = Inr (started\<lparr>gv_requests := (gv_requests started)(some_uuid \<mapsto> the_request)\<rparr>)"
  using sample_facts(1,4,5)
  by (simp add: ask_finance_def request_approval_def Let_def filled_def or_else_def the_request_def)

lemma started_approved:
  "gov_step (\<lambda>x. x) (\<lambda>_. None) (started\<lparr>gv_requests := (gv_requests started)(some_uuid \<mapsto> the_request)\<rparr>)
       (DecideApproval 1 (staff ''fc'' ''CFO'') ''p'' some_uuid approve) =
     Inr (started\<lparr>gv_requests := (gv_requests started)(some_uuid \<mapsto> the_request\<lparr>aq_status := Decided Approved, aq_decided_by := Some ''fc'',
       aq_decided_at := Some 1, aq_comment := None, aq_conditions := Some []\<rparr>)\<rparr>)"
proof -
  have "can_approve_commercial_amount ''CFO'' (Some 60000) False"
    by (simp add: can_approve_commercial_amount_def role_ceiling_cases sample_facts Let_def)
  then have "check_authority (\<lambda>_. None) (staff ''fc'' ''CFO'') ''fc'' ''CFO'' Approved the_request = Inr ()"
    by (simp add: check_authority_def the_request_def filled_def amount_value_def sample_facts)
  then show ?thesis
    by (simp add: decide_approval_def approve_def decision_schema_def sample_facts check_project_def new_project_def started_def
        the_request_def filled_def)
qed

theorem no_self_approval_witness:
  "\<exists>r d q. gv_requests (attempts (gov_step (\<lambda>x. x) (\<lambda>_. None)) started
       [ask_finance, DecideApproval 1 (staff ''fc'' ''CFO'') ''p'' some_uuid approve]) some_uuid = Some r \<and>
     aq_decided_by r = Some d \<and> aq_requester r = Some q \<and> q \<noteq> d \<and> gv_requests started ''appr-req-001'' \<noteq> None"
proof -
  let ?r = "the_request\<lparr>aq_status := Decided Approved, aq_decided_by := Some ''fc'', aq_decided_at := Some 1,
       aq_comment := None, aq_conditions := Some []\<rparr>"
  have r: "gv_requests (attempts (gov_step (\<lambda>x. x) (\<lambda>_. None)) started
      [ask_finance, DecideApproval 1 (staff ''fc'' ''CFO'') ''p'' some_uuid approve]) some_uuid = Some ?r"
    by (simp only: attempts.simps started_asked started_approved sum.case) simp
  have "aq_status ?r = Decided Approved" by simp
  from no_self_approval [OF r [unfolded started_def] this] r show ?thesis by (auto simp: started_def)
qed

theorem decided_request_reopened_witness:
  "\<exists>g' r'. request_approval (\<lambda>x. x) 2 ''fresh'' (staff ''pm'' ''project_manager'') ''p''
      \<lparr>rb_id = Some some_uuid, rb_target_type = None, rb_target = None, rb_version = None, rb_hash = None,
       rb_role = Some ''project_manager'', rb_amount = None\<rparr>
      (asked\<lparr>gv_requests := [some_uuid \<mapsto> the_request\<lparr>aq_status := Decided Rejected\<rparr>]\<rparr>) = Inr g' \<and>
    gv_requests g' some_uuid = Some r' \<and> aq_status r' = Pending"
proof -
  let ?g = "asked\<lparr>gv_requests := [some_uuid \<mapsto> the_request\<lparr>aq_status := Decided Rejected\<rparr>]\<rparr>"
  have "gv_requests ?g some_uuid = Some (the_request\<lparr>aq_status := Decided Rejected\<rparr>)" by simp
  from decided_request_reopened [OF this sample_facts(1), where c = "staff ''pm'' ''project_manager''" and p = "''p''"
      and sha = "\<lambda>x. x" and now = 2 and fresh = "''fresh''"
      and b = "\<lparr>rb_id = Some some_uuid, rb_target_type = None, rb_target = None, rb_version = None, rb_hash = None,
        rb_role = Some ''project_manager'', rb_amount = None\<rparr>"]
  show ?thesis by simp blast
qed

theorem one_active_policy_witness:
  "length (active_snapshots (attempts (gov_step (\<lambda>x. x) (\<lambda>_. None)) new_project
     [PublishPolicy 0 ''a'' (staff ''u'' ''executive'') ''p'' ''d'' publish,
      PublishPolicy 1 ''b'' (staff ''u'' ''executive'') ''p'' ''d'' publish]) ''p'') \<le> 1"
  by (rule one_active_policy [THEN conjunct1]) (simp add: new_project_def)

theorem expected_policy_never_matches_witness:
  "\<not> returns (publish_policy (\<lambda>x. x) 1 ''b'' (staff ''u'' ''executive'') ''p'' ''d'' (publish\<lparr>pb_expected := Some some_uuid\<rparr>)
     (attempts (gov_step (\<lambda>x. x) (\<lambda>_. None)) new_project [PublishPolicy 0 ''a'' (staff ''u'' ''executive'') ''p'' ''d'' publish]))"
  by (rule expected_policy_never_matches) (simp_all add: new_project_def)

definition closed_exception :: exception_record where
  "closed_exception = \<lparr>ex_id = ''x'', ex_project = ''p'', ex_org = ''e3'',
     ex_scope = \<lparr>es_project = some_uuid, es_record = some_uuid, es_version = some_uuid, es_rules = [''r''], es_actions = [''a''], es_conditions = None\<rparr>,
     ex_reason = ''r'', ex_basis = some_uuid, ex_from = [], ex_until = [], ex_max_uses = 1, ex_remaining = 0,
     ex_status = ExClosed, ex_review = \<lparr>rvp_mode = ReviewRequired, rvp_owner = some_uuid, rvp_due = [], rvp_template = None, rvp_basis = None\<rparr>, ex_evidence = [], ex_created = 0, ex_authorised_at = None, ex_authorised_by = None,
     ex_closed_at = Some 1, ex_disposition = None, ex_actions_left = None\<rparr>"

theorem exception_always_authorisable_witness:
  "\<exists>g' x'. authorise_exception 2 (staff ''client'' ''client_user'') ''p'' ''x''
      \<lparr>ab_version = some_uuid, ab_hash = some_hash, ab_decisions = [some_uuid], ab_rule = ''r'', ab_max_uses = 5, ab_from = [], ab_until = []\<rparr>
      (new_project\<lparr>gv_exceptions := [''x'' \<mapsto> closed_exception]\<rparr>) = Inr g' \<and>
    gv_exceptions g' ''x'' = Some x' \<and> ex_status x' = ExAuthorised \<and> ex_remaining x' = 5"
proof -
  let ?g = "new_project\<lparr>gv_exceptions := [''x'' \<mapsto> closed_exception]\<rparr>" and ?c = "staff ''client'' ''client_user''"
  let ?b = "\<lparr>ab_version = some_uuid, ab_hash = some_hash, ab_decisions = [some_uuid], ab_rule = ''r'', ab_max_uses = 5, ab_from = [], ab_until = []\<rparr>"
  have "gv_exceptions ?g ''x'' = Some closed_exception" "ex_project closed_exception = ''p''" "ex_org closed_exception = org_of ?c"
    "gv_projects ?g ''p'' = Some (org_of ?c)" "authorise_schema ?b"
    by (simp_all add: closed_exception_def new_project_def authorise_schema_def sample_facts)
  from exception_always_authorisable [OF this, of 2] show ?thesis by auto
qed

end
