(* ===== verification/Constraints.thy ===== *)
theory Constraints
  imports Prelude
begin

text \<open>
  The life cycle of operational constraints and the choice of a profile:
  \<open>packages/domain/src/constraints.ts\<close>. The clock and \<open>Date.parse\<close> are arguments. An optional
  text is an option; the empty text counts as missing where the code tests for truth. The
  contents of the seeded profiles are data and are not modelled.
\<close>

section \<open>Constraints\<close>

datatype verification_status = VsDraft | VsSourceAttached | VsUnderReview | VsVerified | VsSuperseded | VsUnverified
datatype constraint_source_type = CsVenue | CsMunicipality | CsAuthority | CsPermit | CsClient | CsCountry
datatype constraint_priority = CpLow | CpMedium | CpHigh | CpStatutory
datatype limit_value = LimitNum rat | LimitText string

record verification_record =
  vr_document :: string
  vr_revision :: string
  vr_sha :: string
  vr_source_number :: string
  vr_source_title :: string
  vr_revision_code :: string
  vr_clause :: string
  vr_rule_value :: string
  vr_applicability :: string
  vr_reviewer :: string
  vr_role :: string
  vr_at :: string
  vr_comment :: string
  vr_audit :: "string option"

record op_constraint =
  oc_id :: string
  oc_type :: string
  oc_source_type :: constraint_source_type
  oc_organization :: string
  oc_document :: string
  oc_document_hash :: "string option"
  oc_verified_by :: "string option"
  oc_verified_at :: "string option"
  oc_evidence :: "string option"
  oc_controlled_doc :: "string option"
  oc_doc_revision :: "string option"
  oc_sha :: "string option"
  oc_record :: "verification_record option"
  oc_revision_date :: string
  oc_zone :: string
  oc_period :: string
  oc_time_window :: string
  oc_limit :: limit_value
  oc_unit :: string
  oc_applicability :: bool
  oc_priority :: constraint_priority
  oc_override :: string
  oc_status :: verification_status
  oc_notes :: "string option"

definition authorized_verifier_roles :: "string list" where
  "authorized_verifier_roles = [''technical_director'', ''hse_director'', ''structural_engineer'', ''project_director'', ''super_admin'']"

definition has_constraint_verify_permission :: "string option \<Rightarrow> bool \<Rightarrow> bool" where
  "has_constraint_verify_permission role super = (super \<or> text_given role \<and> the role \<in> set authorized_verifier_roles)"

text \<open>
  The parameter type of \<open>createConstraint\<close> has no verification fields: the constraint given here
  has none either, and its status is the initial one.
\<close>

definition create_constraint :: "op_constraint \<Rightarrow> verification_status option \<Rightarrow> op_constraint" where
  "create_constraint params initial = params\<lparr>oc_record := None, oc_document_hash := None, oc_verified_by := None,
     oc_verified_at := None, oc_controlled_doc := None, oc_doc_revision := None, oc_sha := None,
     oc_status := (case initial of Some s \<Rightarrow> s | None \<Rightarrow> VsDraft)\<rparr>"

definition clean_hash :: "string \<Rightarrow> string" where
  "clean_hash h = (if starts_with h ''sha256:'' then h else ''sha256:'' @ h)"

record source_doc =
  sd_document :: string
  sd_revision :: string
  sd_sha :: string
  sd_number :: string
  sd_title :: string
  sd_code :: string
  sd_clause :: "string option"

definition attach_source :: "op_constraint \<Rightarrow> source_doc \<Rightarrow> op_constraint res" where
  "attach_source c s =
     bind_res (throw_if (oc_status c = VsVerified) (Thrown ''Cannot modify source on an already Verified constraint'' [])) (\<lambda>_.
     bind_res (throw_if (sd_sha s = [] \<or> length (trim (sd_sha s)) < 32) (Thrown ''Cannot attach source document'' [])) (\<lambda>_.
     Inr (c\<lparr>oc_controlled_doc := Some (sd_document s), oc_doc_revision := Some (sd_revision s), oc_sha := Some (sd_sha s),
       oc_document := sd_number s @ '' ('' @ sd_title s @ '')'', oc_document_hash := Some (clean_hash (sd_sha s)),
       oc_revision_date := sd_code s,
       oc_evidence := (if text_given (sd_clause s) then Some (''Cited in '' @ the (sd_clause s)) else None),
       oc_status := VsSourceAttached\<rparr>)))"

definition submit_for_review :: "op_constraint \<Rightarrow> op_constraint res" where
  "submit_for_review c =
     bind_res (throw_if (oc_status c \<noteq> VsSourceAttached \<and> oc_status c \<noteq> VsDraft) (Thrown ''Cannot submit constraint for review'' [])) (\<lambda>_.
     bind_res (throw_if (\<not> text_given (oc_controlled_doc c) \<or> \<not> text_given (oc_sha c)) (Thrown ''Constraint must have a valid controlled source document'' [])) (\<lambda>_.
     Inr (c\<lparr>oc_status := VsUnderReview\<rparr>)))"

record review =
  rw_identity :: string
  rw_role :: string
  rw_clause :: string
  rw_value :: string
  rw_applicability :: string
  rw_comment :: string
  rw_audit :: "string option"
  rw_at :: "string option"

definition verify_constraint :: "string \<Rightarrow> op_constraint \<Rightarrow> review \<Rightarrow> op_constraint res" where
  "verify_constraint now c r =
     bind_res (throw_if (oc_status c \<noteq> VsUnderReview) (Thrown ''Only constraints in Under Review status'' [])) (\<lambda>_.
     bind_res (throw_if (rw_role r = [] \<or> rw_role r \<notin> set authorized_verifier_roles) (Thrown ''Role is not authorized to verify'' [rw_role r])) (\<lambda>_.
     bind_res (throw_if (\<not> text_given (oc_controlled_doc c) \<or> \<not> text_given (oc_doc_revision c) \<or> \<not> text_given (oc_sha c))
       (Thrown ''Constraint lacks controlled document provenance'' [])) (\<lambda>_.
     bind_res (throw_if (rw_clause r = [] \<or> rw_value r = [] \<or> rw_applicability r = [])
       (Thrown ''Verification requires pageClauseSection, extractedRuleValue, and applicabilityStatement'' [])) (\<lambda>_.
     let at_time = (if text_given (rw_at r) then the (rw_at r) else now);
         h = clean_hash (the (oc_sha c));
         rec = \<lparr>vr_document = the (oc_controlled_doc c), vr_revision = the (oc_doc_revision c), vr_sha = h,
           vr_source_number = oc_document c, vr_source_title = oc_document c, vr_revision_code = oc_revision_date c,
           vr_clause = rw_clause r, vr_rule_value = rw_value r, vr_applicability = rw_applicability r,
           vr_reviewer = rw_identity r, vr_role = rw_role r, vr_at = at_time, vr_comment = rw_comment r, vr_audit = rw_audit r\<rparr>
     in Inr (c\<lparr>oc_status := VsVerified, oc_record := Some rec,
       oc_verified_by := Some (rw_identity r @ '' ('' @ rw_role r @ '')''), oc_verified_at := Some at_time,
       oc_document_hash := Some h, oc_evidence := Some (rw_clause r @ '': '' @ rw_value r)\<rparr>)))))"

definition supersede_constraint :: "op_constraint \<Rightarrow> string option \<Rightarrow> op_constraint" where
  "supersede_constraint c reason = c\<lparr>oc_status := VsSuperseded,
     oc_notes := (if text_given reason
       then Some (trim ((case oc_notes c of Some n \<Rightarrow> n | None \<Rightarrow> []) @ '' [Superseded: '' @ the reason @ '']''))
       else oc_notes c)\<rparr>"

datatype verification_error = NoRecord | NoDocument | NoHash | NoReviewer | NoDate

definition validate_verification :: "(string \<Rightarrow> bool) \<Rightarrow> op_constraint \<Rightarrow> bool \<times> verification_error list" where
  "validate_verification parses c =
     (let hash = (if text_given (oc_sha c) then oc_sha c else oc_document_hash c);
          errors = (if oc_status c = VsVerified then
            (if oc_record c = None then [NoRecord] else []) @
            (if oc_document c = [] \<or> length (trim (oc_document c)) = 0 then [NoDocument] else []) @
            (if \<not> text_given hash \<or> \<not> starts_with (the hash) ''sha256:'' \<and> length (the hash) < 32 then [NoHash] else []) @
            (if \<not> text_given (oc_verified_by c) \<or> length (trim (the (oc_verified_by c))) = 0 then [NoReviewer] else []) @
            (if \<not> text_given (oc_verified_at c) \<or> \<not> parses (the (oc_verified_at c)) then [NoDate] else [])
            else [])
      in (length errors = 0, errors))"

definition is_verified_with_evidence :: "(string \<Rightarrow> bool) \<Rightarrow> op_constraint \<Rightarrow> bool" where
  "is_verified_with_evidence parses c = (if oc_status c \<noteq> VsVerified then False else fst (validate_verification parses c))"

definition filter_enforceable :: "(string \<Rightarrow> bool) \<Rightarrow> op_constraint list \<Rightarrow> verification_status list \<Rightarrow> op_constraint list" where
  "filter_enforceable parses cs allowed = filter (\<lambda>c. if \<not> oc_applicability c then False
     else if oc_status c \<notin> set allowed then False
     else if oc_status c = VsVerified \<and> \<not> is_verified_with_evidence parses c then False else True) cs"

section \<open>The choice of a profile\<close>

datatype seed_profile = DohaDecc | QatarCivilDefence | DubaiDwtc | RiyadhArena | GenericVenue | UnverifiedDraft

record resolve_options =
  ro_venue :: "string option"
  ro_country :: "string option"
  ro_profile :: "string option"

text \<open>The base profile of \<open>resolveOperationalConstraints\<close>; \<open>ids\<close> are the identifiers of the seeded profiles.\<close>

definition seed_profiles :: "seed_profile list" where
  "seed_profiles = [DohaDecc, QatarCivilDefence, DubaiDwtc, RiyadhArena, GenericVenue, UnverifiedDraft]"

definition resolve_base :: "(seed_profile \<Rightarrow> string) \<Rightarrow> resolve_options \<Rightarrow> seed_profile" where
  "resolve_base ids ro =
     (if text_given (ro_profile ro)
      then (case List.find (\<lambda>p. ids p = the (ro_profile ro)) seed_profiles of Some p \<Rightarrow> p | None \<Rightarrow> GenericVenue)
      else if text_given (ro_venue ro)
      then (let v = to_lower (the (ro_venue ro)) in
        if str_includes v ''decc'' \<or> str_includes v ''doha exhibition'' then DohaDecc
        else if str_includes v ''lusail'' \<or> str_includes v ''boulevard'' \<or> str_includes v ''civil defence'' then QatarCivilDefence
        else if str_includes v ''dwtc'' \<or> str_includes v ''dubai'' then DubaiDwtc
        else if str_includes v ''riyadh'' \<or> str_includes v ''ksa'' \<or> str_includes v ''boulevard city'' then RiyadhArena
        else GenericVenue)
      else if text_given (ro_country ro)
      then (let c = to_upper (the (ro_country ro)) in
        if c = ''QA'' then DohaDecc else if c = ''AE'' then DubaiDwtc else if c = ''SA'' then RiyadhArena else GenericVenue)
      else GenericVenue)"

section \<open>The life cycle\<close>

text \<open>The constraints that the operations make, with the one they came from.\<close>

inductive constraint_reachable :: "op_constraint \<Rightarrow> bool" where
  created: "initial \<in> {None, Some VsDraft, Some VsUnverified} \<Longrightarrow> constraint_reachable (create_constraint params initial)"
| attached: "constraint_reachable c \<Longrightarrow> attach_source c s = Inr c' \<Longrightarrow> constraint_reachable c'"
| submitted: "constraint_reachable c \<Longrightarrow> submit_for_review c = Inr c' \<Longrightarrow> constraint_reachable c'"
| verified: "constraint_reachable c \<Longrightarrow> verify_constraint now c r = Inr c' \<Longrightarrow> constraint_reachable c'"
| superseded: "constraint_reachable c \<Longrightarrow> constraint_reachable (supersede_constraint c reason)"

lemma attach_sourceE:
  assumes "attach_source c s = Inr c'"
  obtains "oc_status c \<noteq> VsVerified" "32 \<le> length (trim (sd_sha s))" "oc_status c' = VsSourceAttached"
    "oc_sha c' = Some (sd_sha s)" "oc_document_hash c' = Some (clean_hash (sd_sha s))"
    "oc_document c' = sd_number s @ '' ('' @ sd_title s @ '')''"
    "oc_record c' = oc_record c" "oc_verified_by c' = oc_verified_by c" "oc_verified_at c' = oc_verified_at c"
  using assms by (auto simp: attach_source_def)

lemma submit_for_reviewE:
  assumes "submit_for_review c = Inr c'"
  obtains "c' = c\<lparr>oc_status := VsUnderReview\<rparr>" "text_given (oc_sha c)" "text_given (oc_controlled_doc c)"
  using assms by (auto simp: submit_for_review_def)

lemma verify_constraintE:
  assumes "verify_constraint now c r = Inr c'"
  obtains h where "oc_status c = VsUnderReview" "rw_role r \<in> set authorized_verifier_roles" "oc_sha c = Some h" "h \<noteq> []"
    "oc_status c' = VsVerified" "oc_sha c' = Some h" "oc_document c' = oc_document c"
    "oc_document_hash c' = Some (clean_hash h)" "oc_verified_by c' = Some (rw_identity r @ '' ('' @ rw_role r @ '')'')"
    "oc_verified_at c' = Some (if text_given (rw_at r) then the (rw_at r) else now)"
    "\<exists>v. oc_record c' = Some v \<and> vr_sha v = clean_hash h \<and> vr_role v = rw_role r \<and>
       Some (vr_document v) = oc_controlled_doc c' \<and> Some (vr_revision v) = oc_doc_revision c' \<and> vr_clause v \<noteq> [] \<and> vr_rule_value v \<noteq> []"
  using assms by (auto simp: verify_constraint_def Let_def text_given_def split: option.splits)

text \<open>
  The invariant: once a source was attached its hash is long enough and the document has a
  name, and a verified constraint carries the record of an authorised reviewer for exactly
  the source it has.
\<close>

definition constraint_ok :: "op_constraint \<Rightarrow> bool" where
  "constraint_ok c \<longleftrightarrow>
     (\<forall>h. oc_sha c = Some h \<longrightarrow> 32 \<le> length (trim h) \<and> (\<exists>a b. oc_document c = a @ '' ('' @ b @ '')'')) \<and>
     (oc_status c = VsVerified \<longrightarrow> (\<exists>h v t. oc_sha c = Some h \<and> oc_document_hash c = Some (clean_hash h) \<and> oc_record c = Some v \<and>
        vr_sha v = clean_hash h \<and> vr_role v \<in> set authorized_verifier_roles \<and> Some (vr_document v) = oc_controlled_doc c \<and>
        Some (vr_revision v) = oc_doc_revision c \<and> vr_clause v \<noteq> [] \<and> vr_rule_value v \<noteq> [] \<and> oc_verified_at c = Some t \<and>
        (\<exists>who. oc_verified_by c = Some (who @ '' ('' @ vr_role v @ '')''))))"

lemma reachable_constraint_ok: "constraint_reachable c \<Longrightarrow> constraint_ok c"
proof (induction rule: constraint_reachable.induct)
  case (created initial params)
  then show ?case by (auto simp: constraint_ok_def create_constraint_def)
next
  case (attached c s c')
  from attached.hyps(2) show ?case by (rule attach_sourceE) (auto simp: constraint_ok_def)
next
  case (submitted c c')
  from submitted.hyps(2) show ?case by (rule submit_for_reviewE) (use submitted.IH in \<open>auto simp: constraint_ok_def\<close>)
next
  case (verified c now r c')
  from verified.hyps(2) show ?case
  proof (rule verify_constraintE)
    fix h
    assume *: "oc_sha c = Some h" "oc_sha c' = Some h" "oc_document c' = oc_document c" "rw_role r \<in> set authorized_verifier_roles"
      "oc_document_hash c' = Some (clean_hash h)" "oc_verified_by c' = Some (rw_identity r @ '' ('' @ rw_role r @ '')'')"
      "oc_verified_at c' = Some (if text_given (rw_at r) then the (rw_at r) else now)"
      "\<exists>v. oc_record c' = Some v \<and> vr_sha v = clean_hash h \<and> vr_role v = rw_role r \<and>
         Some (vr_document v) = oc_controlled_doc c' \<and> Some (vr_revision v) = oc_doc_revision c' \<and> vr_clause v \<noteq> [] \<and> vr_rule_value v \<noteq> []"
    then obtain v where "oc_record c' = Some v" "vr_sha v = clean_hash h" "vr_role v = rw_role r"
      "Some (vr_document v) = oc_controlled_doc c'" "Some (vr_revision v) = oc_doc_revision c'" "vr_clause v \<noteq> []" "vr_rule_value v \<noteq> []"
      by blast
    moreover have "32 \<le> length (trim h) \<and> (\<exists>a b. oc_document c' = a @ '' ('' @ b @ '')'')"
      using verified.IH *(1,3) by (simp add: constraint_ok_def)
    ultimately show ?thesis using * by (simp add: constraint_ok_def)
  qed
next
  case (superseded c reason)
  then show ?case by (auto simp: constraint_ok_def supersede_constraint_def)
qed

section \<open>Evidence\<close>

lemma trim_nonempty: "c \<in> set s \<Longrightarrow> \<not> is_space c \<Longrightarrow> trim s \<noteq> []"
proof -
  assume c: "c \<in> set s" "\<not> is_space c"
  then have "c \<in> set (dropWhile is_space s)" by (induction s) auto
  then have "c \<in> set (rev (dropWhile is_space s))" by simp
  with c(2) have "dropWhile is_space (rev (dropWhile is_space s)) \<noteq> []" by (auto simp: dropWhile_eq_Nil_conv)
  then show ?thesis by (simp add: trim_def)
qed

lemma length_trim_le: "length (trim s) \<le> length s"
  unfolding trim_def by (metis length_dropWhile_le length_rev order_trans)

lemma closing_bracket: "trim (a @ '' ('' @ b @ '')'') \<noteq> []" "a @ '' ('' @ b @ '')'' \<noteq> []"
proof -
  have "\<not> is_space (CHR '')'')" by code_simp
  then show "trim (a @ '' ('' @ b @ '')'') \<noteq> []" by (intro trim_nonempty [of "CHR '')''"]) auto
qed simp

text \<open>
  C40: however a constraint came about, once it is verified it carries the record of a reviewer
  in an authorised role for exactly the document, revision and hash it is attached to; and it
  counts as verified with evidence exactly when the time of its review is a date.
\<close>

theorem verified_constraint_has_evidence:
  assumes "constraint_reachable c" and "oc_status c = VsVerified"
  shows "(\<exists>v h. oc_record c = Some v \<and> oc_sha c = Some h \<and> vr_sha v = clean_hash h \<and> 32 \<le> length (trim h) \<and>
      vr_role v \<in> set authorized_verifier_roles \<and> Some (vr_document v) = oc_controlled_doc c \<and>
      Some (vr_revision v) = oc_doc_revision c) \<and>
    is_verified_with_evidence parses c = (\<exists>t. oc_verified_at c = Some t \<and> t \<noteq> [] \<and> parses t)"
proof -
  from reachable_constraint_ok [OF assms(1)] assms(2) obtain h v t who a b where
    h: "oc_sha c = Some h" "oc_document_hash c = Some (clean_hash h)" "oc_record c = Some v" "vr_sha v = clean_hash h"
      "vr_role v \<in> set authorized_verifier_roles" "Some (vr_document v) = oc_controlled_doc c"
      "Some (vr_revision v) = oc_doc_revision c" "oc_verified_at c = Some t" "oc_verified_by c = Some (who @ '' ('' @ vr_role v @ '')'')"
      "32 \<le> length (trim h)" "oc_document c = a @ '' ('' @ b @ '')''"
    unfolding constraint_ok_def by blast
  have "h \<noteq> []" "32 \<le> length h" using h(10) length_trim_le [of h] by (auto simp: trim_def)
  then have "fst (validate_verification parses c) \<longleftrightarrow> t \<noteq> [] \<and> parses t"
    using h closing_bracket assms(2) by (auto simp: validate_verification_def Let_def text_given_def)
  then show ?thesis using h assms(2) by (auto simp: is_verified_with_evidence_def)
qed

lemma attach_source_ok:
  assumes "oc_status c \<noteq> VsVerified" and "32 \<le> length (trim (sd_sha s))"
  obtains c1 where "attach_source c s = Inr c1" "oc_status c1 = VsSourceAttached" "oc_controlled_doc c1 = Some (sd_document s)"
    "oc_doc_revision c1 = Some (sd_revision s)" "oc_sha c1 = Some (sd_sha s)" "sd_sha s \<noteq> []"
proof -
  have "sd_sha s \<noteq> []" using assms(2) by (auto simp: trim_def)
  with assms that show thesis by (simp add: attach_source_def)
qed

lemma verify_constraint_ok:
  assumes "oc_status c = VsUnderReview" and "text_given (oc_controlled_doc c)" and "text_given (oc_doc_revision c)" and "text_given (oc_sha c)"
    and "rw_role r \<in> set authorized_verifier_roles" and "rw_clause r \<noteq> []" and "rw_value r \<noteq> []" and "rw_applicability r \<noteq> []"
  obtains c1 where "verify_constraint now c r = Inr c1" "oc_status c1 = VsVerified" "oc_sha c1 = oc_sha c"
proof -
  have "rw_role r \<noteq> []" using assms(5) by (auto simp: authorized_verifier_roles_def)
  with assms that show thesis by (simp add: verify_constraint_def Let_def)
qed

text \<open>
  Any constraint that is not verified, a superseded one included, becomes verified by
  attaching a source with a hash, submitting it and a complete review by an authorised role;
  none of these steps can fail.
\<close>

theorem review_path:
  assumes "oc_status c \<noteq> VsVerified" and "32 \<le> length (trim (sd_sha s))" and "sd_document s \<noteq> []" and "sd_revision s \<noteq> []"
    and "rw_role r \<in> set authorized_verifier_roles" and "rw_clause r \<noteq> []" and "rw_value r \<noteq> []" and "rw_applicability r \<noteq> []"
  shows "\<exists>c1 c2 c3. attach_source c s = Inr c1 \<and> submit_for_review c1 = Inr c2 \<and> verify_constraint now c2 r = Inr c3 \<and>
    oc_status c3 = VsVerified \<and> oc_sha c3 = Some (sd_sha s)"
proof -
  from assms(1,2) obtain c1 where c1: "attach_source c s = Inr c1" "oc_status c1 = VsSourceAttached"
    "oc_controlled_doc c1 = Some (sd_document s)" "oc_doc_revision c1 = Some (sd_revision s)" "oc_sha c1 = Some (sd_sha s)" "sd_sha s \<noteq> []"
    by (rule attach_source_ok)
  have submit: "submit_for_review c1 = Inr (c1\<lparr>oc_status := VsUnderReview\<rparr>)"
    using c1 assms(3) by (simp add: submit_for_review_def text_given_def)
  obtain c3 where "verify_constraint now (c1\<lparr>oc_status := VsUnderReview\<rparr>) r = Inr c3" "oc_status c3 = VsVerified"
    "oc_sha c3 = oc_sha (c1\<lparr>oc_status := VsUnderReview\<rparr>)"
    by (rule verify_constraint_ok [OF _ _ _ _ assms(5-8), of "c1\<lparr>oc_status := VsUnderReview\<rparr>" now])
      (use c1 assms(3,4) in \<open>simp_all add: text_given_def\<close>)
  with c1 submit show ?thesis by auto
qed

section \<open>Witnesses\<close>

definition draft_limit :: op_constraint where
  "draft_limit = \<lparr>oc_id = ''noise-day'', oc_type = ''noise_day'', oc_source_type = CsAuthority, oc_organization = ''MECC'', oc_document = ''Law 30'',
     oc_document_hash = None, oc_verified_by = None, oc_verified_at = None, oc_evidence = None, oc_controlled_doc = None,
     oc_doc_revision = None, oc_sha = None, oc_record = None, oc_revision_date = ''2005'', oc_zone = ''boundary'', oc_period = ''permanent'',
     oc_time_window = ''04:00 - 22:00'', oc_limit = LimitNum 65, oc_unit = ''dB'', oc_applicability = True, oc_priority = CpStatutory,
     oc_override = ''MECC'', oc_status = VsDraft, oc_notes = None\<rparr>"

definition law_document :: source_doc where
  "law_document = \<lparr>sd_document = ''doc'', sd_revision = ''rev'', sd_sha = replicate 64 (CHR ''a''), sd_number = ''N'', sd_title = ''T'',
     sd_code = ''R0'', sd_clause = None\<rparr>"

definition full_review :: review where
  "full_review = \<lparr>rw_identity = ''Mariam'', rw_role = ''hse_director'', rw_clause = ''Annex 3'', rw_value = ''65'', rw_applicability = ''boundary'',
     rw_comment = ''ok'', rw_audit = None, rw_at = None\<rparr>"

lemma law_document_hash: "32 \<le> length (trim (sd_sha law_document))"
proof -
  have "\<not> is_space (CHR ''a'')" by code_simp
  then have "dropWhile is_space (replicate n (CHR ''a'')) = replicate n (CHR ''a'')" for n by (cases n) auto
  then show ?thesis by (simp add: law_document_def trim_def)
qed

theorem review_path_witness:
  "\<exists>c1 c2 c3. attach_source (supersede_constraint draft_limit None) law_document = Inr c1 \<and> submit_for_review c1 = Inr c2 \<and>
     verify_constraint ''2026-01-01'' c2 full_review = Inr c3 \<and> oc_status c3 = VsVerified"
proof -
  have "rw_role full_review \<in> set authorized_verifier_roles" by (simp add: full_review_def authorized_verifier_roles_def)
  from review_path [OF _ law_document_hash _ _ this, of "supersede_constraint draft_limit None" "''2026-01-01''"] show ?thesis
    by (auto simp: supersede_constraint_def law_document_def full_review_def)
qed

theorem verified_constraint_has_evidence_witness:
  "\<exists>(c :: op_constraint) (v :: verification_record). oc_status c = VsVerified \<and> oc_record c = Some v \<and> vr_role v \<in> set authorized_verifier_roles"
proof -
  let ?c = "create_constraint draft_limit None"
  have start: "constraint_reachable ?c" by (rule constraint_reachable.created) simp
  have "oc_status ?c \<noteq> VsVerified" by (simp add: create_constraint_def)
  then obtain c1 where c1: "attach_source ?c law_document = Inr c1" "oc_status c1 = VsSourceAttached"
    "oc_controlled_doc c1 = Some (sd_document law_document)" "oc_doc_revision c1 = Some (sd_revision law_document)"
    "oc_sha c1 = Some (sd_sha law_document)" "sd_sha law_document \<noteq> []"
    using law_document_hash by (rule attach_source_ok)
  let ?c2 = "c1\<lparr>oc_status := VsUnderReview\<rparr>"
  have full: "rw_role full_review \<in> set authorized_verifier_roles" "rw_clause full_review \<noteq> []" "rw_value full_review \<noteq> []"
    "rw_applicability full_review \<noteq> []" "sd_document law_document \<noteq> []" "sd_revision law_document \<noteq> []"
    by (simp_all add: full_review_def authorized_verifier_roles_def law_document_def)
  have submit: "submit_for_review c1 = Inr ?c2" using c1 full by (simp add: submit_for_review_def text_given_def)
  obtain c3 where ver: "verify_constraint ''2026-01-01'' ?c2 full_review = Inr c3" and v: "oc_status c3 = VsVerified"
    by (rule verify_constraint_ok [OF _ _ _ _ full(1-4), of ?c2 "''2026-01-01''"]) (use c1 full in \<open>simp_all add: text_given_def\<close>)
  have "constraint_reachable c3"
    by (rule constraint_reachable.verified [OF constraint_reachable.submitted [OF constraint_reachable.attached [OF start c1(1)] submit] ver])
  from verified_constraint_has_evidence [OF this v, THEN conjunct1] obtain w where
    "oc_record c3 = Some w" "vr_role w \<in> set authorized_verifier_roles" by blast
  with v show ?thesis by blast
qed

end
