(* ===== verification/Shift_Plan.thy ===== *)
theory Shift_Plan
  imports Constraints
begin

text \<open>
  The plan of the shifts of a bump-in window: \<open>generateBumpInShifts\<close> of
  \<open>packages/domain/src/gantt.ts\<close>, called with a constraint profile. Hours are whole numbers;
  \<open>Number\<close> of a limit that is a text and \<open>Date.parse\<close> are arguments, \<open>None\<close> is \<open>NaN\<close>. The call
  with two numbers instead of a profile, which builds a profile from the seeded data, is not
  modelled.
\<close>

section \<open>Profiles and slots\<close>

record noise_limits =
  nl_occupational :: "rat option"
  nl_curfew_start :: int
  nl_curfew_end :: int

record shift_profile =
  sp_id :: string
  sp_source :: string
  sp_reference :: string
  sp_constraints :: "op_constraint list"
  sp_noise :: noise_limits
  sp_shift_hours :: int

datatype shift_type = DayRigging | OvernightHeavyLift

record shift_slot =
  ss_number :: int
  ss_label :: string
  ss_start :: int
  ss_end :: int
  ss_type :: shift_type
  ss_noise :: "rat option"
  ss_occupational :: "rat option"
  ss_curfew :: bool
  ss_floor_load :: "rat option option"
  ss_floor_verified :: bool
  ss_blocked :: bool
  ss_profile :: string
  ss_profile_source :: string
  ss_status :: verification_status
  ss_document :: string
  ss_organization :: string

section \<open>The limits in force\<close>

definition has_prefix :: "string \<Rightarrow> string list \<Rightarrow> bool" where
  "has_prefix w ps \<longleftrightarrow> w \<noteq> [] \<and> list_ex (starts_with w) ps"

definition is_night_noise :: "op_constraint \<Rightarrow> bool" where
  "is_night_noise c \<longleftrightarrow> oc_type c = ''environmental_noise_night'' \<or> oc_type c = ''noise_night'' \<or>
     str_includes (to_lower (oc_id c)) ''night'' \<or> has_prefix (oc_time_window c) [''22:00'', ''23:00'', ''24:00'']"

definition is_day_noise :: "op_constraint \<Rightarrow> bool" where
  "is_day_noise c \<longleftrightarrow> (oc_type c = ''environmental_noise_day'' \<or> oc_type c = ''noise_day'' \<or>
     str_includes (to_lower (oc_id c)) ''day'' \<or> has_prefix (oc_time_window c) [''04:00'', ''06:00'', ''07:00'', ''08:00'']) \<and>
     \<not> is_night_noise c"

definition in_force :: "(string \<Rightarrow> bool) \<Rightarrow> verification_status list \<Rightarrow> op_constraint \<Rightarrow> bool" where
  "in_force parses allowed c \<longleftrightarrow> oc_applicability c \<and> oc_status c \<in> set allowed \<and> is_verified_with_evidence parses c"

definition find_day_noise :: "(string \<Rightarrow> bool) \<Rightarrow> verification_status list \<Rightarrow> op_constraint list \<Rightarrow> op_constraint option" where
  "find_day_noise parses allowed = List.find (\<lambda>c.
     oc_type c \<in> {''environmental_boundary_noise'', ''environmental_noise_day'', ''noise_day''} \<and> is_day_noise c \<and> in_force parses allowed c)"

definition find_night_noise :: "(string \<Rightarrow> bool) \<Rightarrow> verification_status list \<Rightarrow> op_constraint list \<Rightarrow> op_constraint option" where
  "find_night_noise parses allowed = List.find (\<lambda>c.
     oc_type c \<in> {''environmental_boundary_noise'', ''environmental_noise_night'', ''noise_night''} \<and> is_night_noise c \<and> in_force parses allowed c)"

definition find_occupational :: "(string \<Rightarrow> bool) \<Rightarrow> verification_status list \<Rightarrow> op_constraint list \<Rightarrow> op_constraint option" where
  "find_occupational parses allowed = List.find (\<lambda>c.
     oc_type c \<in> {''occupational_noise_exposure'', ''occupational_noise''} \<and> in_force parses allowed c)"

definition find_floor_load :: "(string \<Rightarrow> bool) \<Rightarrow> verification_status list \<Rightarrow> op_constraint list \<Rightarrow> op_constraint option" where
  "find_floor_load parses allowed = List.find (\<lambda>c. oc_type c = ''floor_load'' \<and> in_force parses allowed c)"

definition limit_number :: "(string \<Rightarrow> rat option) \<Rightarrow> op_constraint \<Rightarrow> rat option" where
  "limit_number num c = (case oc_limit c of LimitNum x \<Rightarrow> Some x | LimitText t \<Rightarrow> num t)"

text \<open>\<open>p.noise.occupationalMaxDb || 85\<close>.\<close>

definition occupational_default :: "noise_limits \<Rightarrow> rat option" where
  "occupational_default n = (case nl_occupational n of Some x \<Rightarrow> if x = 0 then Some 85 else Some x | None \<Rightarrow> Some 85)"

section \<open>The shifts\<close>

definition is_curfew_hour :: "noise_limits \<Rightarrow> int \<Rightarrow> bool" where
  "is_curfew_hour n h = (let d = h mod 24 in
     if nl_curfew_start n > nl_curfew_end n then d \<ge> nl_curfew_start n \<or> d < nl_curfew_end n
     else d \<ge> nl_curfew_start n \<and> d < nl_curfew_end n)"

definition curfew_overlap :: "noise_limits \<Rightarrow> int \<Rightarrow> int \<Rightarrow> nat" where
  "curfew_overlap n start finish = length (filter (is_curfew_hour n) [start..finish - 1])"

definition text_or :: "string \<Rightarrow> string \<Rightarrow> string" where
  "text_or a b = (if a = [] then b else a)"

definition shift_slot_of ::
  "(string \<Rightarrow> bool) \<Rightarrow> (string \<Rightarrow> rat option) \<Rightarrow> verification_status list \<Rightarrow> shift_profile \<Rightarrow> int \<Rightarrow> int \<Rightarrow> shift_slot" where
  "shift_slot_of parses num allowed p len i =
     (let cs = sp_constraints p;
          day = find_day_noise parses allowed cs;
          night = find_night_noise parses allowed cs;
          occ = find_occupational parses allowed cs;
          floor = find_floor_load parses allowed cs;
          day_limit = (case day of Some c \<Rightarrow> limit_number num c | None \<Rightarrow> Some 65);
          night_limit = (case night of Some c \<Rightarrow> limit_number num c | None \<Rightarrow> Some 55);
          start = i * len; finish = start + len;
          curfew = curfew_overlap (sp_noise p) start finish > 0
      in \<lparr>ss_number = i + 1,
          ss_label = ''Shift '' @ int_str (i + 1) @ '' ('' @ int_str start @ '':00 - '' @ int_str finish @ '':00)'',
          ss_start = start, ss_end = finish,
          ss_type = (if curfew then OvernightHeavyLift else DayRigging),
          ss_noise = (if curfew then night_limit else day_limit),
          ss_occupational = (case occ of Some c \<Rightarrow> limit_number num c | None \<Rightarrow> occupational_default (sp_noise p)),
          ss_curfew = curfew,
          ss_floor_load = map_option (limit_number num) floor,
          ss_floor_verified = (floor \<noteq> None), ss_blocked = (floor = None),
          ss_profile = sp_id p, ss_profile_source = sp_source p,
          ss_status = (if day \<noteq> None \<and> night \<noteq> None \<and> floor \<noteq> None then VsVerified else VsUnverified),
          ss_document = (case floor of Some c \<Rightarrow> text_or (oc_document c) (sp_reference p) | None \<Rightarrow> ''Verification Required''),
          ss_organization = (case floor of Some c \<Rightarrow> text_or (oc_organization c) (sp_source p) | None \<Rightarrow> ''Structural Authority Unverified'')\<rparr>)"

definition shift_length :: "shift_profile \<Rightarrow> int" where
  "shift_length p = (if sp_shift_hours p = 0 then 8 else sp_shift_hours p)"

definition shift_count :: "int \<Rightarrow> int \<Rightarrow> int" where
  "shift_count window len = \<lceil>of_int window / (of_int len :: rat)\<rceil>"

definition generate_bump_in_shifts ::
  "(string \<Rightarrow> bool) \<Rightarrow> (string \<Rightarrow> rat option) \<Rightarrow> int \<Rightarrow> shift_profile \<Rightarrow> verification_status list \<Rightarrow> shift_slot list" where
  "generate_bump_in_shifts parses num window p allowed =
     map (shift_slot_of parses num allowed p (shift_length p)) [0..shift_count window (shift_length p) - 1]"

section \<open>The window is covered\<close>

lemma shift_slot_simps [simp]:
  "ss_start (shift_slot_of parses num allowed p len i) = i * len"
  "ss_end (shift_slot_of parses num allowed p len i) = i * len + len"
  "ss_curfew (shift_slot_of parses num allowed p len i) \<longleftrightarrow> curfew_overlap (sp_noise p) (i * len) (i * len + len) > 0"
  by (simp_all add: shift_slot_of_def Let_def)

lemma shift_count_bounds:
  assumes "0 < len"
  shows "window \<le> shift_count window len * len" and "(shift_count window len - 1) * len < window"
proof -
  let ?q = "of_int window / (of_int len :: rat)"
  have q: "of_int window = ?q * of_int len" using assms by simp
  have "?q \<le> of_int (shift_count window len)" by (simp add: shift_count_def)
  then have "of_int window \<le> (of_int (shift_count window len * len) :: rat)"
    using assms q by (simp add: pos_divide_le_eq)
  then show "window \<le> shift_count window len * len" by (simp only: of_int_le_iff)
  have "of_int (shift_count window len) - 1 < ?q" unfolding shift_count_def by linarith
  then have "of_int ((shift_count window len - 1) * len) < (of_int window :: rat)"
    using assms by (simp add: pos_less_divide_eq)
  then show "(shift_count window len - 1) * len < window" by (simp only: of_int_less_iff)
qed

lemma curfew_overlap_pos: "0 < curfew_overlap n a b \<longleftrightarrow> (\<exists>h. a \<le> h \<and> h < b \<and> is_curfew_hour n h)"
proof -
  have "0 < curfew_overlap n a b \<longleftrightarrow> filter (is_curfew_hour n) [a..b - 1] \<noteq> []"
    by (simp add: curfew_overlap_def)
  also have "\<dots> \<longleftrightarrow> (\<exists>h \<in> set [a..b - 1]. is_curfew_hour n h)" by (simp add: filter_empty_conv)
  also have "\<dots> \<longleftrightarrow> (\<exists>h. a \<le> h \<and> h < b \<and> is_curfew_hour n h)" by auto
  finally show ?thesis .
qed

text \<open>
  For a positive shift length the shifts tile the window: each hour of it lies in exactly
  one shift, every shift has the profile's length and begins inside the window, and a shift
  is marked as curfew, with the night's noise limit, exactly when one of its hours is a curfew
  hour of the day.
\<close>

theorem shifts_tile_the_window:
  fixes parses :: "string \<Rightarrow> bool" and num :: "string \<Rightarrow> rat option" and window :: int and allowed :: "verification_status list"
  assumes "0 < shift_length p"
  defines "slots \<equiv> generate_bump_in_shifts parses num window p allowed"
  shows "(\<forall>h. 0 \<le> h \<and> h < window \<longrightarrow> (\<exists>!s. s \<in> set slots \<and> ss_start s \<le> h \<and> h < ss_end s)) \<and>
    (\<forall>s \<in> set slots. ss_end s = ss_start s + shift_length p \<and> 0 \<le> ss_start s \<and> ss_start s < window \<and>
      ss_curfew s = (\<exists>h. ss_start s \<le> h \<and> h < ss_end s \<and> is_curfew_hour (sp_noise p) h))"
proof -
  let ?len = "shift_length p" and ?slot = "shift_slot_of parses num allowed p (shift_length p)"
  have slots: "set slots = ?slot ` {0..shift_count window ?len - 1}"
    by (simp add: slots_def generate_bump_in_shifts_def)
  have "\<exists>!s. s \<in> set slots \<and> ss_start s \<le> h \<and> h < ss_end s" if h: "0 \<le> h" "h < window" for h
  proof (rule ex1I)
    let ?i = "h div ?len"
    have "?i * ?len \<le> h" "h < ?i * ?len + ?len" using assms(1) by (simp_all add: minus_mod_eq_div_mult [symmetric])
    moreover have "0 \<le> ?i" using h assms(1) by (simp add: pos_imp_zdiv_nonneg_iff)
    moreover have "?i < shift_count window ?len"
    proof (rule ccontr)
      assume "\<not> ?i < shift_count window ?len"
      then have "shift_count window ?len * ?len \<le> ?i * ?len" using assms(1) by (simp add: mult_right_mono)
      with \<open>?i * ?len \<le> h\<close> h shift_count_bounds(1) [OF assms(1), of window] show False by linarith
    qed
    ultimately show "?slot ?i \<in> set slots \<and> ss_start (?slot ?i) \<le> h \<and> h < ss_end (?slot ?i)" by (simp add: slots)
    fix s
    assume s: "s \<in> set slots \<and> ss_start s \<le> h \<and> h < ss_end s"
    then obtain j where "s = ?slot j" by (auto simp: slots)
    with s have "j * ?len \<le> h" "h < (j + 1) * ?len" by (simp_all add: algebra_simps)
    then have "?i = j"
      by (intro int_div_pos_eq [where r = "h - j * ?len"]) (simp_all add: algebra_simps)
    with \<open>s = ?slot j\<close> show "s = ?slot ?i" by simp
  qed
  moreover have "ss_start s < window" "0 \<le> ss_start s" if s: "s \<in> set slots" for s
  proof -
    from s obtain j where j: "s = ?slot j" "0 \<le> j" "j \<le> shift_count window ?len - 1" by (auto simp: slots)
    then have "j * ?len \<le> (shift_count window ?len - 1) * ?len" using assms(1) by (simp add: mult_right_mono)
    then have "j * ?len < window" using shift_count_bounds(2) [OF assms(1), of window] by linarith
    with j assms(1) show "ss_start s < window" "0 \<le> ss_start s" by simp_all
  qed
  ultimately show ?thesis by (auto simp: slots curfew_overlap_pos)
qed

section \<open>Only verified limits\<close>

lemma find_in_force:
  "find_day_noise parses allowed cs = Some c \<Longrightarrow> c \<in> set cs \<and> in_force parses allowed c"
  "find_night_noise parses allowed cs = Some c \<Longrightarrow> c \<in> set cs \<and> in_force parses allowed c"
  "find_occupational parses allowed cs = Some c \<Longrightarrow> c \<in> set cs \<and> in_force parses allowed c"
  "find_floor_load parses allowed cs = Some c \<Longrightarrow> c \<in> set cs \<and> in_force parses allowed c \<and> oc_type c = ''floor_load''"
  by (auto simp: find_day_noise_def find_night_noise_def find_occupational_def find_floor_load_def dest: find_Some_iff_in)

text \<open>
  A floor load in a plan is the limit of a floor load constraint of the profile that is
  applicable, allowed by the policy and verified with evidence, and without one the structural
  work of every shift is blocked; the noise limit is that of such a constraint or the
  statutory 65 by day and 55 in a curfew.
\<close>

theorem plan_uses_verified_limits:
  assumes "s \<in> set (generate_bump_in_shifts parses num window p allowed)"
  shows "(\<forall>v. ss_floor_load s = Some v \<longrightarrow> (\<exists>c \<in> set (sp_constraints p). oc_type c = ''floor_load'' \<and> oc_applicability c \<and>
        oc_status c \<in> set allowed \<and> is_verified_with_evidence parses c \<and> v = limit_number num c)) \<and>
    (ss_blocked s \<longleftrightarrow> \<not> (\<exists>c \<in> set (sp_constraints p). oc_type c = ''floor_load'' \<and> oc_applicability c \<and>
        oc_status c \<in> set allowed \<and> is_verified_with_evidence parses c)) \<and>
    (ss_noise s = Some (if ss_curfew s then 55 else 65) \<or>
       (\<exists>c \<in> set (sp_constraints p). is_verified_with_evidence parses c \<and> oc_status c \<in> set allowed \<and> ss_noise s = limit_number num c))"
proof -
  let ?cs = "sp_constraints p"
  from assms obtain i where s: "s = shift_slot_of parses num allowed p (shift_length p) i"
    by (auto simp: generate_bump_in_shifts_def)
  have floor: "ss_floor_load s = map_option (limit_number num) (find_floor_load parses allowed ?cs)"
    "ss_blocked s \<longleftrightarrow> find_floor_load parses allowed ?cs = None"
    by (simp_all add: s shift_slot_of_def Let_def)
  have noise: "ss_noise s = (if ss_curfew s
      then (case find_night_noise parses allowed ?cs of Some c \<Rightarrow> limit_number num c | None \<Rightarrow> Some 55)
      else (case find_day_noise parses allowed ?cs of Some c \<Rightarrow> limit_number num c | None \<Rightarrow> Some 65))"
    unfolding s by (simp add: shift_slot_of_def Let_def)
  have none: "find_floor_load parses allowed ?cs = None \<longleftrightarrow> \<not> (\<exists>c \<in> set ?cs. oc_type c = ''floor_load'' \<and> in_force parses allowed c)"
    by (auto simp: find_floor_load_def find_None_iff)
  have "\<exists>c \<in> set ?cs. oc_type c = ''floor_load'' \<and> in_force parses allowed c \<and> v = limit_number num c" if "ss_floor_load s = Some v" for v
    using that find_in_force(4) unfolding floor by blast
  moreover have "ss_noise s = Some (if ss_curfew s then 55 else 65) \<or> (\<exists>c \<in> set ?cs. in_force parses allowed c \<and> ss_noise s = limit_number num c)"
    unfolding noise using find_in_force(1,2) [of parses allowed ?cs] by (auto split: option.splits dest!: find_in_force(1,2))
  ultimately show ?thesis unfolding floor(2) none in_force_def by blast
qed

section \<open>Witnesses\<close>

definition sample_profile :: shift_profile where
  "sample_profile = \<lparr>sp_id = ''P'', sp_source = ''venue'', sp_reference = ''ref'', sp_constraints = [],
     sp_noise = \<lparr>nl_occupational = None, nl_curfew_start = 22, nl_curfew_end = 4\<rparr>, sp_shift_hours = 8\<rparr>"

theorem shifts_tile_the_window_witness:
  "\<exists>s. s \<in> set (generate_bump_in_shifts (\<lambda>_. True) (\<lambda>_. None) 72 sample_profile [VsVerified]) \<and> ss_start s \<le> 23 \<and> 23 < ss_end s"
proof -
  have "0 < shift_length sample_profile" by (simp add: shift_length_def sample_profile_def)
  from shifts_tile_the_window [OF this, of 72 "\<lambda>_. True" "\<lambda>_. None" "[VsVerified]", THEN conjunct1, rule_format, of 23]
  show ?thesis by (rule ex1E) auto
qed

theorem plan_uses_verified_limits_witness:
  "\<exists>s. s \<in> set (generate_bump_in_shifts (\<lambda>_. True) (\<lambda>_. None) 72 sample_profile [VsVerified]) \<and> ss_blocked s"
proof -
  let ?slots = "generate_bump_in_shifts (\<lambda>_. True) (\<lambda>_. None) 72 sample_profile [VsVerified]"
  have "shift_length sample_profile = 8" by (simp add: shift_length_def sample_profile_def)
  then have "?slots \<noteq> []" by (simp add: generate_bump_in_shifts_def shift_count_def)
  then obtain s where s: "s \<in> set ?slots" by (cases ?slots) auto
  have "ss_blocked s" using plan_uses_verified_limits [OF s] by (simp add: sample_profile_def)
  with s show ?thesis by blast
qed

end
