(* ===== verification/Boq.thy ===== *)
theory Boq
  imports Money Half_Up
begin

text \<open>
  Bills of quantities: \<open>packages/domain/src/boq.ts\<close>. The unit conversions, the profit
  metrics, the decomposition of lump sums, the estimate and its projection for the client.
  The decimal package is the parameter of \<open>Decimals\<close>. A value the code hands to
  \<open>new Decimal\<close> is a number, a text or a decimal; the number 0 and the empty text count as
  missing where the code writes \<open>x || d\<close>, the text \<open>0\<close> does not.
\<close>

section \<open>Decimal arithmetic\<close>

datatype dec_value = DvNum rat | DvText string | DvDec rat

definition dv_truthy :: "dec_value \<Rightarrow> bool" where
  "dv_truthy v = (case v of DvNum x \<Rightarrow> x \<noteq> 0 | DvText s \<Rightarrow> s \<noteq> [] | DvDec x \<Rightarrow> True)"

fun to_decimal :: "decimal_pkg \<Rightarrow> dec_value \<Rightarrow> rat res" where
  "to_decimal D (DvNum x) = Inr x"
| "to_decimal D (DvText s) = (case dp_parse D s of None \<Rightarrow> Inl (DecimalError s) | Some x \<Rightarrow> Inr x)"
| "to_decimal D (DvDec x) = Inr x"

definition decimal_or :: "decimal_pkg \<Rightarrow> dec_value option \<Rightarrow> rat \<Rightarrow> rat res" where
  "decimal_or D v d = (case v of Some x \<Rightarrow> if dv_truthy x then to_decimal D x else Inr d | None \<Rightarrow> Inr d)"

definition d_mul :: "decimal_pkg \<Rightarrow> rat \<Rightarrow> rat \<Rightarrow> rat" where "d_mul D a b = dp_round D (a * b)"
definition d_add :: "decimal_pkg \<Rightarrow> rat \<Rightarrow> rat \<Rightarrow> rat" where "d_add D a b = dp_round D (a + b)"
definition d_sub :: "decimal_pkg \<Rightarrow> rat \<Rightarrow> rat \<Rightarrow> rat" where "d_sub D a b = dp_round D (a - b)"
definition d_div :: "decimal_pkg \<Rightarrow> rat \<Rightarrow> rat \<Rightarrow> rat" where "d_div D a b = dp_round D (a / b)"

section \<open>Unit conversions\<close>

definition hourly_to_shift :: "decimal_pkg \<Rightarrow> dec_value \<Rightarrow> dec_value \<Rightarrow> rat res" where
  "hourly_to_shift D rate hours = bind_res (to_decimal D rate) (\<lambda>r. bind_res (to_decimal D hours) (\<lambda>h.
     bind_res (throw_if (h \<le> 0) HoursNotPositive) (\<lambda>_. Inr (d_mul D r h))))"

definition shift_to_hourly :: "decimal_pkg \<Rightarrow> dec_value \<Rightarrow> dec_value \<Rightarrow> rat res" where
  "shift_to_hourly D rate hours = bind_res (to_decimal D rate) (\<lambda>r. bind_res (to_decimal D hours) (\<lambda>h.
     bind_res (throw_if (h \<le> 0) HoursNotPositive) (\<lambda>_. Inr (d_div D r h))))"

definition convert_quantity :: "decimal_pkg \<Rightarrow> dec_value \<Rightarrow> dec_value \<Rightarrow> rat res" where
  "convert_quantity D quantity factor = bind_res (to_decimal D quantity) (\<lambda>q. bind_res (to_decimal D factor) (\<lambda>f.
     Inr (d_mul D q f)))"

section \<open>Lines and summaries\<close>

record boq_line =
  bl_id :: string
  bl_code :: string
  bl_description :: string
  bl_description_ar :: "string option"
  bl_quantity :: dec_value
  bl_uom :: string
  bl_unit_cost :: dec_value
  bl_unit_sell :: dec_value
  bl_duration :: "dec_value option"
  bl_lump_sum :: bool
  bl_parent :: "string option"
  bl_portion :: "dec_value option"
  bl_discount :: "dec_value option"
  bl_tax_rate :: "dec_value option"
  bl_requirement :: "string option"

record calculated_line =
  cl_id :: string
  cl_code :: string
  cl_description :: string
  cl_description_ar :: "string option"
  cl_quantity :: rat
  cl_uom :: string
  cl_duration :: rat
  cl_unit_cost :: money
  cl_unit_sell :: money
  cl_total_cost :: money
  cl_gross_sell :: money
  cl_discount :: money
  cl_net_sell :: money
  cl_tax :: money
  cl_total_sell :: money
  cl_lump_sum :: bool
  cl_parent :: "string option"

record profit_metrics =
  pm_profit :: rat
  pm_margin :: "rat option"
  pm_markup :: "rat option"

record estimate_summary =
  em_currency :: string
  em_subtotal_cost :: money
  em_subtotal_sell :: money
  em_discount :: money
  em_discounted :: money
  em_fee :: money
  em_fee_rate :: rat
  em_taxable :: money
  em_tax :: money
  em_tax_rate :: rat
  em_total_cost :: money
  em_total_sell :: money
  em_profit :: money
  em_markup :: "rat option"
  em_margin :: "rat option"
  em_lines :: "calculated_line list"

record estimate_options =
  eo_discount :: "dec_value option"
  eo_fee :: "dec_value option"
  eo_tax :: "dec_value option"

section \<open>Profit and lump sums\<close>

text \<open>A percentage that is not applicable is \<open>None\<close>.\<close>

definition calculate_profit_metrics :: "decimal_pkg \<Rightarrow> rat \<Rightarrow> rat \<Rightarrow> profit_metrics" where
  "calculate_profit_metrics D cost revenue = (let profit = d_sub D revenue cost in
     \<lparr>pm_profit = profit,
      pm_margin = (if revenue \<le> 0 then None else Some (dp_places D 4 (d_mul D (d_div D profit revenue) 100))),
      pm_markup = (if cost \<le> 0 then None else Some (dp_places D 4 (d_mul D (d_div D profit cost) 100)))\<rparr>)"

text \<open>The unit price of a line times its quantity and duration, both 1 when missing.\<close>

definition priced :: "decimal_pkg \<Rightarrow> boq_line \<Rightarrow> rat res" where
  "priced D c = bind_res (to_decimal D (bl_unit_sell c)) (\<lambda>u. bind_res (decimal_or D (Some (bl_quantity c)) 1) (\<lambda>q.
     bind_res (decimal_or D (bl_duration c) 1) (\<lambda>d. Inr (d_mul D (d_mul D u q) d))))"

definition child_sell :: "decimal_pkg \<Rightarrow> boq_line \<Rightarrow> rat res" where
  "child_sell D c = (case bl_portion c of
       Some p \<Rightarrow> if dv_truthy p then to_decimal D p else priced D c
     | None \<Rightarrow> priced D c)"

record decomposition =
  dn_parent :: money
  dn_children :: money
  dn_fully :: bool

definition validate_lump_sum :: "decimal_pkg \<Rightarrow> boq_line \<Rightarrow> boq_line list \<Rightarrow> string \<Rightarrow> decomposition res" where
  "validate_lump_sum D parent children currency =
     bind_res (throw_if (\<not> bl_lump_sum parent) (NotALumpSum (bl_code parent))) (\<lambda>_.
     bind_res (to_decimal D (bl_unit_sell parent)) (\<lambda>u.
     bind_res (decimal_or D (Some (bl_quantity parent)) 1) (\<lambda>q.
     let total = d_mul D u q in
     bind_res (fold_res (\<lambda>acc c. bind_res (child_sell D c) (\<lambda>x. Inr (d_add D acc x))) 0 children) (\<lambda>sum.
     bind_res (throw_if (sum > total) (LumpSumExceeded sum total)) (\<lambda>_.
     Inr \<lparr>dn_parent = mk_money total currency, dn_children = mk_money sum currency, dn_fully = (sum = total)\<rparr>)))))"

section \<open>The estimate\<close>

definition parent_of :: "boq_line \<Rightarrow> string option" where
  "parent_of l = (case bl_parent l of Some p \<Rightarrow> if p = [] then None else Some p | None \<Rightarrow> None)"

definition lump_sum_ids :: "boq_line list \<Rightarrow> string list" where
  "lump_sum_ids ls = remdups (map bl_id (filter (\<lambda>l. bl_lump_sum l \<and> parent_of l = None) ls))"

definition check_parent :: "decimal_pkg \<Rightarrow> boq_line list \<Rightarrow> string \<Rightarrow> string \<Rightarrow> unit res" where
  "check_parent D ls currency i = (let children = filter (\<lambda>l. bl_parent l = Some i) ls in
     if length children > 0
     then (case List.find (\<lambda>l. bl_id l = i) ls of
         Some p \<Rightarrow> bind_res (validate_lump_sum D p children currency) (\<lambda>_. Inr ())
       | None \<Rightarrow> Inl TypeErrorThrown)
     else Inr ())"

definition line_tax_rate :: "decimal_pkg \<Rightarrow> dec_value option \<Rightarrow> boq_line \<Rightarrow> rat res" where
  "line_tax_rate D default_tax l = (case bl_tax_rate l of Some t \<Rightarrow> to_decimal D t | None \<Rightarrow> decimal_or D default_tax 0)"

definition percent :: "decimal_pkg \<Rightarrow> dec_value option \<Rightarrow> rat res" where
  "percent D v = (case v of
       Some x \<Rightarrow> if dv_truthy x then bind_res (to_decimal D x) (\<lambda>y. Inr (d_div D y 100)) else Inr 0
     | None \<Rightarrow> Inr 0)"

definition calculate_line :: "decimal_pkg \<Rightarrow> string \<Rightarrow> dec_value option \<Rightarrow> boq_line \<Rightarrow> calculated_line res" where
  "calculate_line D currency default_tax l =
     bind_res (decimal_or D (Some (bl_quantity l)) 1) (\<lambda>qty.
     bind_res (decimal_or D (bl_duration l) 1) (\<lambda>duration.
     bind_res (decimal_or D (Some (bl_unit_cost l)) 0) (\<lambda>cost.
     bind_res (decimal_or D (Some (bl_unit_sell l)) 0) (\<lambda>sell.
     let n = d_mul D qty duration; line_cost = d_mul D cost n; gross = d_mul D sell n in
     bind_res (percent D (bl_discount l)) (\<lambda>rate.
     let discount = d_mul D gross rate; net = d_sub D gross discount in
     bind_res (line_tax_rate D default_tax l) (\<lambda>tax_rate.
     let tax = d_mul D net tax_rate in
     Inr \<lparr>cl_id = bl_id l, cl_code = bl_code l, cl_description = bl_description l, cl_description_ar = bl_description_ar l,
       cl_quantity = qty, cl_uom = bl_uom l, cl_duration = duration, cl_unit_cost = mk_money cost currency,
       cl_unit_sell = mk_money sell currency, cl_total_cost = mk_money line_cost currency,
       cl_gross_sell = mk_money gross currency, cl_discount = mk_money discount currency, cl_net_sell = mk_money net currency,
       cl_tax = mk_money tax currency, cl_total_sell = mk_money (d_add D net tax) currency, cl_lump_sum = bl_lump_sum l,
       cl_parent = bl_parent l\<rparr>))))))"

text \<open>A line counts unless it is a child of an included lump sum.\<close>

definition counts :: "string list \<Rightarrow> calculated_line \<Rightarrow> bool" where
  "counts parents c = (case cl_parent c of Some p \<Rightarrow> p = [] \<or> p \<notin> set parents | None \<Rightarrow> True)"

record boq_sums =
  bs_cost :: rat
  bs_sell :: rat
  bs_discount :: rat

definition add_line :: "decimal_pkg \<Rightarrow> string list \<Rightarrow> calculated_line \<Rightarrow> boq_sums \<Rightarrow> boq_sums" where
  "add_line D parents c s = (if counts parents c
     then \<lparr>bs_cost = d_add D (bs_cost s) (m_amount (cl_total_cost c)), bs_sell = d_add D (bs_sell s) (m_amount (cl_net_sell c)),
           bs_discount = d_add D (bs_discount s) (m_amount (cl_discount c))\<rparr>
     else s)"

definition summarize ::
  "decimal_pkg \<Rightarrow> string \<Rightarrow> rat \<Rightarrow> rat \<Rightarrow> rat \<Rightarrow> boq_sums \<Rightarrow> calculated_line list \<Rightarrow> estimate_summary" where
  "summarize D currency discount_rate fee_rate tax_rate s cs =
     (let discount = d_mul D (bs_sell s) discount_rate;
          discounted = d_sub D (bs_sell s) discount;
          fee = d_mul D discounted fee_rate;
          taxable = d_add D discounted fee;
          tax = d_mul D taxable tax_rate;
          total = d_add D taxable tax;
          metrics = calculate_profit_metrics D (bs_cost s) total
      in \<lparr>em_currency = currency, em_subtotal_cost = mk_money (bs_cost s) currency, em_subtotal_sell = mk_money (bs_sell s) currency,
          em_discount = mk_money (d_add D (bs_discount s) discount) currency, em_discounted = mk_money discounted currency,
          em_fee = mk_money fee currency, em_fee_rate = fee_rate, em_taxable = mk_money taxable currency,
          em_tax = mk_money tax currency, em_tax_rate = tax_rate, em_total_cost = mk_money (bs_cost s) currency,
          em_total_sell = mk_money total currency, em_profit = mk_money (pm_profit metrics) currency,
          em_markup = pm_markup metrics, em_margin = pm_margin metrics, em_lines = cs\<rparr>)"

definition calculate_estimate :: "decimal_pkg \<Rightarrow> boq_line list \<Rightarrow> string \<Rightarrow> estimate_options \<Rightarrow> estimate_summary res" where
  "calculate_estimate D ls currency opts = (let parents = lump_sum_ids ls in
     bind_res (each_res (check_parent D ls currency) parents) (\<lambda>_.
     bind_res (map_res (calculate_line D currency (eo_tax opts)) ls) (\<lambda>cs.
     bind_res (percent D (eo_discount opts)) (\<lambda>discount_rate.
     bind_res (percent D (eo_fee opts)) (\<lambda>fee_rate.
     bind_res (decimal_or D (eo_tax opts) 0) (\<lambda>tax_rate.
     Inr (summarize D currency discount_rate fee_rate tax_rate
       (fold (add_line D parents) cs \<lparr>bs_cost = 0, bs_sell = 0, bs_discount = 0\<rparr>) cs)))))))"

section \<open>The client's proposal\<close>

record proposal_line =
  pl_code :: string
  pl_description :: string
  pl_description_ar :: "string option"
  pl_quantity :: string
  pl_uom :: string
  pl_duration :: string
  pl_unit_sell :: money_json
  pl_net_sell :: money_json
  pl_tax :: money_json
  pl_total_sell :: money_json

record client_proposal =
  cp_id :: string
  cp_project :: string
  cp_currency :: string
  cp_subtotal_sell :: money_json
  cp_discount :: money_json
  cp_fee :: money_json
  cp_tax :: money_json
  cp_total_sell :: money_json
  cp_lines :: "proposal_line list"

definition project_line :: "decimal_pkg \<Rightarrow> calculated_line \<Rightarrow> proposal_line" where
  "project_line D l = \<lparr>pl_code = cl_code l, pl_description = cl_description l, pl_description_ar = cl_description_ar l,
     pl_quantity = dp_string D (cl_quantity l), pl_uom = cl_uom l, pl_duration = dp_string D (cl_duration l),
     pl_unit_sell = money_to_json D (cl_unit_sell l), pl_net_sell = money_to_json D (cl_net_sell l),
     pl_tax = money_to_json D (cl_tax l), pl_total_sell = money_to_json D (cl_total_sell l)\<rparr>"

definition project_client_proposal :: "decimal_pkg \<Rightarrow> string \<Rightarrow> string \<Rightarrow> estimate_summary \<Rightarrow> client_proposal" where
  "project_client_proposal D proposal project s = \<lparr>cp_id = proposal, cp_project = project, cp_currency = em_currency s,
     cp_subtotal_sell = money_to_json D (em_subtotal_sell s), cp_discount = money_to_json D (em_discount s),
     cp_fee = money_to_json D (em_fee s), cp_tax = money_to_json D (em_tax s), cp_total_sell = money_to_json D (em_total_sell s),
     cp_lines = map (project_line D) (em_lines s)\<rparr>"


section \<open>The totals\<close>

definition no_sums :: boq_sums where
  "no_sums = \<lparr>bs_cost = 0, bs_sell = 0, bs_discount = 0\<rparr>"

text \<open>What an estimate that is returned consists of.\<close>

lemma calculate_estimateE:
  assumes "calculate_estimate D ls cur opts = Inr s"
  obtains cs dr fr tr where
    "each_res (check_parent D ls cur) (lump_sum_ids ls) = Inr ()"
    "map_res (calculate_line D cur (eo_tax opts)) ls = Inr cs"
    "percent D (eo_discount opts) = Inr dr" "percent D (eo_fee opts) = Inr fr" "decimal_or D (eo_tax opts) 0 = Inr tr"
    "s = summarize D cur dr fr tr (fold (add_line D (lump_sum_ids ls)) cs no_sums) cs"
  using assms by (auto simp: calculate_estimate_def Let_def no_sums_def)

lemma calculate_estimateI:
  assumes "each_res (check_parent D ls cur) (lump_sum_ids ls) = Inr ()"
    and "map_res (calculate_line D cur (eo_tax opts)) ls = Inr cs"
    and "percent D (eo_discount opts) = Inr dr" "percent D (eo_fee opts) = Inr fr" "decimal_or D (eo_tax opts) 0 = Inr tr"
  shows "calculate_estimate D ls cur opts =
    Inr (summarize D cur dr fr tr (fold (add_line D (lump_sum_ids ls)) cs no_sums) cs)"
  using assms by (simp add: calculate_estimate_def Let_def no_sums_def)

text \<open>The sell side of the sums depends on the sell side of the lines.\<close>

definition same_sell :: "calculated_line \<Rightarrow> calculated_line \<Rightarrow> bool" where
  "same_sell c d \<longleftrightarrow> cl_net_sell c = cl_net_sell d \<and> cl_discount c = cl_discount d \<and> cl_parent c = cl_parent d"

lemma fold_same_sell:
  assumes "list_all2 same_sell cs ds" and "bs_sell s = bs_sell t" and "bs_discount s = bs_discount t"
  shows "bs_sell (fold (add_line D ps) cs s) = bs_sell (fold (add_line D ps) ds t) \<and>
    bs_discount (fold (add_line D ps) cs s) = bs_discount (fold (add_line D ps) ds t)"
  using assms
proof (induction arbitrary: s t rule: list_all2_induct)
  case Nil
  then show ?case by simp
next
  case (Cons c cs d ds)
  have "bs_sell (add_line D ps c s) = bs_sell (add_line D ps d t)"
    and "bs_discount (add_line D ps c s) = bs_discount (add_line D ps d t)"
    using Cons.hyps(1) Cons.prems by (simp_all add: add_line_def counts_def same_sell_def)
  then show ?case by (simp add: Cons.IH)
qed

lemma map_res_map: "map_res f (map g xs) = map_res (\<lambda>x. f (g x)) xs"
  by (induction xs) auto

lemma map_res_all2:
  assumes "map_res f xs = Inr ys" and "map_res g xs = Inr zs"
    and "\<And>x y z. x \<in> set xs \<Longrightarrow> f x = Inr y \<Longrightarrow> g x = Inr z \<Longrightarrow> R y z"
  shows "list_all2 R ys zs"
proof -
  have 1: "length xs = length ys" "\<And>i. i < length xs \<Longrightarrow> f (xs ! i) = Inr (ys ! i)"
    using map_res_Inr_all2 [OF assms(1)] by (simp_all add: list_all2_conv_all_nth)
  have 2: "length xs = length zs" "\<And>i. i < length xs \<Longrightarrow> g (xs ! i) = Inr (zs ! i)"
    using map_res_Inr_all2 [OF assms(2)] by (simp_all add: list_all2_conv_all_nth)
  show ?thesis
    unfolding list_all2_conv_all_nth using 1 2 by (auto intro: assms(3) [OF nth_mem])
qed

lemma summarize_sell_cong:
  assumes "bs_sell s = bs_sell t" and "bs_discount s = bs_discount t"
  shows "em_subtotal_sell (summarize D cur dr fr tr s cs) = em_subtotal_sell (summarize D cur dr fr tr t ds)"
    and "em_discount (summarize D cur dr fr tr s cs) = em_discount (summarize D cur dr fr tr t ds)"
    and "em_fee (summarize D cur dr fr tr s cs) = em_fee (summarize D cur dr fr tr t ds)"
    and "em_tax (summarize D cur dr fr tr s cs) = em_tax (summarize D cur dr fr tr t ds)"
    and "em_total_sell (summarize D cur dr fr tr s cs) = em_total_sell (summarize D cur dr fr tr t ds)"
  using assms by (simp_all add: summarize_def Let_def)

text \<open>An edit of the lines that keeps what makes a line a lump sum.\<close>

lemma lump_sum_ids_map:
  assumes "\<And>l. bl_id (g l) = bl_id l" "\<And>l. bl_lump_sum (g l) = bl_lump_sum l" "\<And>l. bl_parent (g l) = bl_parent l"
  shows "lump_sum_ids (map g ls) = lump_sum_ids ls"
proof -
  have "filter (\<lambda>l. bl_lump_sum l \<and> parent_of l = None) (map g ls) =
      map g (filter (\<lambda>l. bl_lump_sum l \<and> parent_of l = None) ls)"
    by (simp add: filter_map comp_def parent_of_def assms)
  then show ?thesis by (simp add: lump_sum_ids_def comp_def assms)
qed

section \<open>Secrecy of the proposal\<close>

lemma project_line_cost:
  assumes "calculate_line D cur t l = Inr c" and "calculate_line D cur t (l\<lparr>bl_unit_cost := x\<rparr>) = Inr d"
  shows "same_sell c d \<and> project_line D c = project_line D d"
  using assms by (auto simp: calculate_line_def Let_def same_sell_def project_line_def line_tax_rate_def)

lemma map_all2_eq: "list_all2 (\<lambda>x y. f x = f y) xs ys \<Longrightarrow> map f xs = map f ys"
  by (induction rule: list_all2_induct) auto

text \<open>
  The client's proposal reveals nothing of the costs (AT-002, AT-035). If an estimate and
  the estimate of the same lines with any other unit costs are both returned, their
  proposals are the same.
\<close>

theorem proposal_hides_costs:
  assumes "calculate_estimate D ls cur opts = Inr s"
    and "calculate_estimate D (map (\<lambda>l. l\<lparr>bl_unit_cost := cost l\<rparr>) ls) cur opts = Inr s'"
  shows "project_client_proposal D proposal project s' = project_client_proposal D proposal project s"
proof -
  let ?g = "\<lambda>l. l\<lparr>bl_unit_cost := cost l\<rparr>"
  obtain cs dr fr tr where 1: "map_res (calculate_line D cur (eo_tax opts)) ls = Inr cs"
      "percent D (eo_discount opts) = Inr dr" "percent D (eo_fee opts) = Inr fr" "decimal_or D (eo_tax opts) 0 = Inr tr"
      "s = summarize D cur dr fr tr (fold (add_line D (lump_sum_ids ls)) cs no_sums) cs"
    by (rule calculate_estimateE [OF assms(1)])
  obtain ds dr' fr' tr' where 2: "map_res (calculate_line D cur (eo_tax opts)) (map ?g ls) = Inr ds"
      "percent D (eo_discount opts) = Inr dr'" "percent D (eo_fee opts) = Inr fr'" "decimal_or D (eo_tax opts) 0 = Inr tr'"
      "s' = summarize D cur dr' fr' tr' (fold (add_line D (lump_sum_ids (map ?g ls))) ds no_sums) ds"
    by (rule calculate_estimateE [OF assms(2)])
  have ids: "lump_sum_ids (map ?g ls) = lump_sum_ids ls" by (rule lump_sum_ids_map) simp_all
  have eq: "dr' = dr" "fr' = fr" "tr' = tr" using 1 2 by simp_all
  have all: "list_all2 (\<lambda>c d. same_sell c d \<and> project_line D c = project_line D d) cs ds"
    by (rule map_res_all2 [OF 1(1) 2(1) [unfolded map_res_map]]) (rule project_line_cost)
  then have sell: "list_all2 same_sell cs ds" and "map (project_line D) cs = map (project_line D) ds"
    by (auto intro!: map_all2_eq elim: list_all2_mono)
  moreover note fold_same_sell [OF sell refl refl, of D "lump_sum_ids ls" no_sums]
  ultimately show ?thesis
    unfolding 1(5) 2(5) eq ids project_client_proposal_def
    by (simp add: summarize_sell_cong [of _ _ D cur dr fr tr cs ds]) (simp add: summarize_def Let_def)
qed


lemma calculate_line_tax:
  assumes "calculate_line D cur t l = Inr c" and "calculate_line D cur t (l\<lparr>bl_tax_rate := x\<rparr>) = Inr d"
  shows "same_sell c d"
  using assms by (auto simp: calculate_line_def Let_def same_sell_def)

text \<open>
  The tax rate of a line is shown on the line and never charged. Changing the tax rates
  of the lines changes neither the tax nor the total of the estimate.
\<close>

theorem line_tax_never_charged:
  assumes "calculate_estimate D ls cur opts = Inr s"
    and "calculate_estimate D (map (\<lambda>l. l\<lparr>bl_tax_rate := rate l\<rparr>) ls) cur opts = Inr s'"
  shows "em_tax s' = em_tax s \<and> em_total_sell s' = em_total_sell s"
proof -
  let ?g = "\<lambda>l. l\<lparr>bl_tax_rate := rate l\<rparr>"
  obtain cs dr fr tr where 1: "map_res (calculate_line D cur (eo_tax opts)) ls = Inr cs"
      "percent D (eo_discount opts) = Inr dr" "percent D (eo_fee opts) = Inr fr" "decimal_or D (eo_tax opts) 0 = Inr tr"
      "s = summarize D cur dr fr tr (fold (add_line D (lump_sum_ids ls)) cs no_sums) cs"
    by (rule calculate_estimateE [OF assms(1)])
  obtain ds dr' fr' tr' where 2: "map_res (calculate_line D cur (eo_tax opts)) (map ?g ls) = Inr ds"
      "percent D (eo_discount opts) = Inr dr'" "percent D (eo_fee opts) = Inr fr'" "decimal_or D (eo_tax opts) 0 = Inr tr'"
      "s' = summarize D cur dr' fr' tr' (fold (add_line D (lump_sum_ids (map ?g ls))) ds no_sums) ds"
    by (rule calculate_estimateE [OF assms(2)])
  have ids: "lump_sum_ids (map ?g ls) = lump_sum_ids ls" by (rule lump_sum_ids_map) simp_all
  have eq: "dr' = dr" "fr' = fr" "tr' = tr" using 1 2 by simp_all
  have sell: "list_all2 same_sell cs ds"
    by (rule map_res_all2 [OF 1(1) 2(1) [unfolded map_res_map]]) (rule calculate_line_tax)
  from fold_same_sell [OF sell refl refl, of D "lump_sum_ids ls" no_sums] show ?thesis
    unfolding 1(5) 2(5) eq ids by (simp add: summarize_sell_cong [of _ _ D cur dr fr tr cs ds])
qed

section \<open>Lump sums\<close>

definition outside :: "string list \<Rightarrow> boq_line \<Rightarrow> bool" where
  "outside ps l = (case parent_of l of Some p \<Rightarrow> p \<notin> set ps | None \<Rightarrow> True)"

lemma calculate_line_counts:
  "calculate_line D cur t l = Inr c \<Longrightarrow> counts ps c = outside ps l"
  by (auto simp: calculate_line_def Let_def counts_def outside_def parent_of_def split: option.splits)

lemma fold_add_line_filter:
  "fold (add_line D ps) (filter (counts ps) cs) s = fold (add_line D ps) cs s"
  by (induction cs arbitrary: s) (simp_all add: add_line_def)

lemma map_res_filter:
  assumes "map_res f xs = Inr ys" and "\<And>x y. f x = Inr y \<Longrightarrow> Q y = P x"
  shows "map_res f (filter P xs) = Inr (filter Q ys)"
  using assms(1) by (induction xs arbitrary: ys) (auto simp: assms(2))

lemma lump_sum_ids_outside: "lump_sum_ids (filter (outside ps) ls) = lump_sum_ids ls"
proof -
  have "filter (\<lambda>l. bl_lump_sum l \<and> parent_of l = None) (filter (outside ps) ls) =
      filter (\<lambda>l. bl_lump_sum l \<and> parent_of l = None) ls"
    by (induction ls) (auto simp: outside_def)
  then show ?thesis by (simp add: lump_sum_ids_def)
qed

lemma check_parent_outside:
  assumes "i \<in> set ps" and "i \<noteq> []"
  shows "check_parent D (filter (outside ps) ls) cur i = Inr ()"
proof -
  have "filter (\<lambda>l. bl_parent l = Some i) (filter (outside ps) ls) = []"
    using assms by (auto simp: filter_empty_conv outside_def parent_of_def)
  then show ?thesis by (simp add: check_parent_def)
qed

text \<open>
  The lines that break a lump sum down add nothing to it (AT-037). With every child of an
  included lump sum deleted, the estimate is returned again with the same totals, cost,
  discount, fee, tax and metrics; only the list of lines is shorter.
\<close>

theorem breakdown_never_counted:
  assumes "calculate_estimate D ls cur opts = Inr s" and "\<forall>l \<in> set ls. bl_id l \<noteq> []"
  shows "calculate_estimate D (filter (outside (lump_sum_ids ls)) ls) cur opts =
    Inr (s\<lparr>em_lines := filter (counts (lump_sum_ids ls)) (em_lines s)\<rparr>)"
proof -
  let ?ps = "lump_sum_ids ls"
  obtain cs dr fr tr where 1: "map_res (calculate_line D cur (eo_tax opts)) ls = Inr cs"
      "percent D (eo_discount opts) = Inr dr" "percent D (eo_fee opts) = Inr fr" "decimal_or D (eo_tax opts) 0 = Inr tr"
      "s = summarize D cur dr fr tr (fold (add_line D ?ps) cs no_sums) cs"
    by (rule calculate_estimateE [OF assms(1)])
  have "\<forall>i \<in> set ?ps. i \<noteq> []" using assms(2) by (auto simp: lump_sum_ids_def)
  then have "each_res (check_parent D (filter (outside ?ps) ls) cur) ?ps = Inr ()"
    by (simp add: each_res_Inr_conv check_parent_outside)
  moreover have "map_res (calculate_line D cur (eo_tax opts)) (filter (outside ?ps) ls) = Inr (filter (counts ?ps) cs)"
    using 1(1) by (rule map_res_filter) (rule calculate_line_counts)
  ultimately have "calculate_estimate D (filter (outside ?ps) ls) cur opts =
      Inr (summarize D cur dr fr tr (fold (add_line D ?ps) (filter (counts ?ps) cs) no_sums) (filter (counts ?ps) cs))"
    using calculate_estimateI [of D "filter (outside ?ps) ls" cur opts "filter (counts ?ps) cs" dr fr tr] 1(2,3,4)
    by (simp add: lump_sum_ids_outside)
  then show ?thesis unfolding 1(5) by (simp add: fold_add_line_filter summarize_def Let_def)
qed


section \<open>Examples\<close>

definition boq_example :: "string \<Rightarrow> rat \<Rightarrow> bool \<Rightarrow> string option \<Rightarrow> boq_line" where
  "boq_example i sell lump parent = \<lparr>bl_id = i, bl_code = i, bl_description = i, bl_description_ar = None,
     bl_quantity = DvNum 1, bl_uom = ''lot'', bl_unit_cost = DvNum 50, bl_unit_sell = DvNum sell, bl_duration = None,
     bl_lump_sum = lump, bl_parent = parent, bl_portion = None, bl_discount = None, bl_tax_rate = None, bl_requirement = None\<rparr>"

definition no_options :: estimate_options where
  "no_options = \<lparr>eo_discount = None, eo_fee = None, eo_tax = None\<rparr>"

lemma round_numeral_rat [simp]: "numeral n \<le> (1000000000000 :: rat) \<Longrightarrow> dp_round decimal24 (numeral n) = numeral n"
  by (rule d24.round_scaled [where k = 1]) simp_all

lemma round_one [simp]: "dp_round decimal24 1 = 1"
  by (rule d24.round_scaled [where k = 1]) (simp_all add: scaled_def)

lemmas boq_eval = calculate_estimate_def Let_def lump_sum_ids_def parent_of_def check_parent_def
  validate_lump_sum_def child_sell_def priced_def decimal_or_def dv_truthy_def d_mul_def d_add_def d_sub_def
  calculate_line_def percent_def line_tax_rate_def no_options_def boq_example_def

theorem proposal_hides_costs_witness:
  "\<exists>s s'. calculate_estimate decimal24 [boq_example ''A'' 100 False None] ''QAR'' no_options = Inr s \<and>
     calculate_estimate decimal24 [boq_example ''A'' 100 False None\<lparr>bl_unit_cost := DvNum 90\<rparr>] ''QAR'' no_options = Inr s' \<and>
     m_amount (em_subtotal_cost s) = 50 \<and> m_amount (em_subtotal_cost s') = 90 \<and>
     project_client_proposal decimal24 ''P'' ''X'' s' = project_client_proposal decimal24 ''P'' ''X'' s"
proof -
  let ?l = "boq_example ''A'' 100 False None"
  obtain s where s: "calculate_estimate decimal24 [?l] ''QAR'' no_options = Inr s" "m_amount (em_subtotal_cost s) = 50"
    by (simp add: boq_eval summarize_def add_line_def counts_def)
  obtain s' where s': "calculate_estimate decimal24 [?l\<lparr>bl_unit_cost := DvNum 90\<rparr>] ''QAR'' no_options = Inr s'"
      "m_amount (em_subtotal_cost s') = 90"
    by (simp add: boq_eval summarize_def add_line_def counts_def)
  from proposal_hides_costs [OF s(1), of "\<lambda>_. DvNum 90" s' "''P''" "''X''"] s s' show ?thesis by auto
qed

theorem line_tax_never_charged_witness:
  "\<exists>s s'. calculate_estimate decimal24 [boq_example ''A'' 100 False None] ''QAR'' no_options = Inr s \<and>
     calculate_estimate decimal24 [boq_example ''A'' 100 False None\<lparr>bl_tax_rate := Some (DvNum 5)\<rparr>] ''QAR'' no_options = Inr s' \<and>
     map cl_tax (em_lines s') \<noteq> map cl_tax (em_lines s) \<and> em_tax s' = em_tax s \<and> em_total_sell s' = em_total_sell s"
proof -
  let ?l = "boq_example ''A'' 100 False None"
  obtain s where s: "calculate_estimate decimal24 [?l] ''QAR'' no_options = Inr s"
      "map cl_tax (em_lines s) = [mk_money 0 ''QAR'']"
    by (simp add: boq_eval summarize_def)
  obtain s' where s': "calculate_estimate decimal24 [?l\<lparr>bl_tax_rate := Some (DvNum 5)\<rparr>] ''QAR'' no_options = Inr s'"
      "map cl_tax (em_lines s') = [mk_money 500 ''QAR'']"
    by (simp add: boq_eval summarize_def)
  have "mk_money 0 ''QAR'' \<noteq> mk_money 500 ''QAR''" by (simp add: mk_money_def)
  with line_tax_never_charged [OF s(1), of "\<lambda>_. Some (DvNum 5)" s'] s s' show ?thesis by auto
qed

theorem breakdown_never_counted_witness:
  "\<exists>s. calculate_estimate decimal24 [boq_example ''L'' 100 True None, boq_example ''C'' 60 False (Some ''L'')] ''QAR'' no_options = Inr s \<and>
     length (em_lines s) = 2 \<and> m_amount (em_subtotal_sell s) = 100 \<and>
     calculate_estimate decimal24 [boq_example ''L'' 100 True None] ''QAR'' no_options = Inr (s\<lparr>em_lines := take 1 (em_lines s)\<rparr>)"
proof -
  let ?ls = "[boq_example ''L'' 100 True None, boq_example ''C'' 60 False (Some ''L'')]"
  obtain s where s: "calculate_estimate decimal24 ?ls ''QAR'' no_options = Inr s" "length (em_lines s) = 2"
      "m_amount (em_subtotal_sell s) = 100" "map cl_parent (em_lines s) = [None, Some ''L'']"
    by (simp add: boq_eval summarize_def add_line_def counts_def)
  have ids: "lump_sum_ids ?ls = [''L'']" by (simp add: lump_sum_ids_def parent_of_def boq_example_def)
  have "filter (outside [''L'']) ?ls = [boq_example ''L'' 100 True None]"
    by (simp add: outside_def parent_of_def boq_example_def)
  moreover have "filter (counts [''L'']) (em_lines s) = take 1 (em_lines s)"
    using s(2,4) by (auto simp: counts_def length_Suc_conv numeral_2_eq_2)
  ultimately show ?thesis
    using breakdown_never_counted [OF s(1)] s by (simp add: ids) (simp add: boq_example_def)
qed

text \<open>
  A lump sum that is itself a line of a lump sum is not an included parent, so its own
  breakdown counts: the 100 of the nested package below are estimated as 200.
\<close>

lemma nested_lump_sum_counted_twice:
  "\<exists>s. calculate_estimate decimal24 [boq_example ''L'' 100 True None, boq_example ''M'' 100 True (Some ''L''),
       boq_example ''C'' 100 False (Some ''M'')] ''QAR'' no_options = Inr s \<and> m_amount (em_subtotal_sell s) = 200"
  by (simp add: boq_eval summarize_def add_line_def counts_def)

end
