(* ===== verification/Run_Sheet.thy ===== *)
theory Run_Sheet
  imports Time_Util
begin

text \<open>
  The live run sheet: \<open>packages/domain/src/run-sheet-engine.ts\<close> and the endpoint that uses it
  (\<open>updateRunSheetItem\<close> of \<open>apps/api/src/live-ops/live-ops.controller.ts\<close>). A delay of a cue
  is propagated to its dependents by a queue. Planned times are instants in milliseconds
  (\<open>None\<close> for a text that is not a date), delays whole minutes.
\<close>

section \<open>Cues\<close>

datatype cue_status = CuePending | CueInProgress | CueCompleted | CueDelayed | CueSkipped

record live_cue =
  lc_id :: string
  lc_project :: string
  lc_number :: string
  lc_title :: string
  lc_department :: string
  lc_start :: js_time
  lc_end :: js_time
  lc_actual_start :: "string option"
  lc_actual_end :: "string option"
  lc_delay :: int
  lc_status :: cue_status
  lc_depends :: "string list"
  lc_responsible :: string
  lc_notes :: "string option"
  lc_critical :: bool

record cue_options =
  co_start :: "string option"
  co_end :: "string option"
  co_status :: "cue_status option"
  co_notes :: "string option"

record cue_result =
  px_updated :: live_cue
  px_moved :: "live_cue list"
  px_minutes :: int
  px_count :: nat
  px_critical :: bool

section \<open>The propagation\<close>

text \<open>\<open>new Date(old + delay).toISOString()\<close>, which throws outside the range of a date.\<close>

definition shift_time :: "int \<Rightarrow> js_time \<Rightarrow> js_time res" where
  "shift_time minutes t = (case t of
       None \<Rightarrow> Inl (Thrown ''RangeError'' [])
     | Some ms \<Rightarrow> let shifted = ms + minutes * 60 * 1000 in
         if \<bar>shifted\<bar> \<le> 8640000000000000 then Inr (Some shifted) else Inl (Thrown ''RangeError'' []))"

definition delay_note :: "string \<Rightarrow> int \<Rightarrow> string" where
  "delay_note upstream minutes = ''Delayed by +'' @ int_str minutes @ ''m via upstream cue '' @ upstream"

definition delay_cue :: "string \<Rightarrow> int \<Rightarrow> live_cue \<Rightarrow> live_cue res" where
  "delay_cue upstream minutes c =
     bind_res (shift_time minutes (lc_start c)) (\<lambda>s. bind_res (shift_time minutes (lc_end c)) (\<lambda>e.
     Inr (c\<lparr>lc_delay := max (lc_delay c) minutes, lc_start := s, lc_end := e,
       lc_status := (if lc_status c = CuePending \<and> 0 < minutes then CueDelayed else lc_status c),
       lc_notes := Some (if text_given (lc_notes c)
         then the (lc_notes c) @ '' ('' @ delay_note upstream minutes @ '')''
         else delay_note upstream minutes)\<rparr>)))"

text \<open>The state of the loop: the map of the copies, the visited numbers, the queue and what was moved.\<close>

record delay_spread =
  ds_cues :: "(string \<times> live_cue) list"
  ds_visited :: "string list"
  ds_queue :: "string list"
  ds_moved :: "live_cue list"

definition visit_cue :: "string \<Rightarrow> int \<Rightarrow> delay_spread \<Rightarrow> string \<Rightarrow> delay_spread res" where
  "visit_cue current minutes st k = (case map_of (ds_cues st) k of
       None \<Rightarrow> Inr st
     | Some c \<Rightarrow> if current \<in> set (lc_depends c) \<and> k \<notin> set (ds_visited st)
         then bind_res (delay_cue current minutes c) (\<lambda>c'.
           Inr \<lparr>ds_cues = map_set k c' (ds_cues st), ds_visited = k # ds_visited st,
             ds_queue = ds_queue st @ [k], ds_moved = ds_moved st @ [c']\<rparr>)
         else Inr st)"

definition spread_round :: "string \<Rightarrow> delay_spread \<Rightarrow> delay_spread res" where
  "spread_round current st = (case map_of (ds_cues st) current of
       None \<Rightarrow> Inl TypeErrorThrown
     | Some c \<Rightarrow> fold_res (visit_cue current (lc_delay c)) st (map fst (ds_cues st)))"

text \<open>Each round takes a number off the queue and puts there only numbers it visits first.\<close>

definition unvisited :: "delay_spread \<Rightarrow> nat" where
  "unvisited st = length (filter (\<lambda>k. k \<notin> set (ds_visited st)) (map fst (ds_cues st)))"

lemma keys_map_set: "map_of xs k \<noteq> None \<Longrightarrow> map fst (map_set k v xs) = map fst xs"
  by (induction k v xs rule: map_set.induct) auto

lemma unvisited_visit:
  assumes "k \<in> set ks" and "k \<notin> set vs"
  shows "Suc (length (filter (\<lambda>j. j \<notin> set (k # vs)) ks)) \<le> length (filter (\<lambda>j. j \<notin> set vs) ks)"
  using assms
proof (induction ks)
  case (Cons a ks)
  have "length (filter (\<lambda>j. j \<notin> set (k # vs)) ks) \<le> length (filter (\<lambda>j. j \<notin> set vs) ks)"
    by (induction ks) auto
  with Cons show ?case by auto
qed simp

lemma visit_cue_measure:
  assumes "visit_cue current minutes st k = Inr st'"
  shows "unvisited st' + length (ds_queue st') \<le> unvisited st + length (ds_queue st)"
proof (cases "st' = st")
  case False
  with assms obtain c c' where c: "map_of (ds_cues st) k = Some c" "k \<notin> set (ds_visited st)" and
      st': "st' = \<lparr>ds_cues = map_set k c' (ds_cues st), ds_visited = k # ds_visited st,
        ds_queue = ds_queue st @ [k], ds_moved = ds_moved st @ [c']\<rparr>"
    by (auto simp: visit_cue_def split: option.splits if_splits)
  have "k \<in> set (map fst (ds_cues st))" using map_of_SomeD [OF c(1)] by force
  from unvisited_visit [OF this c(2)] c(1) show ?thesis
    by (simp add: st' unvisited_def keys_map_set del: list.set(2))
qed simp

lemma spread_round_measure:
  assumes "spread_round current st = Inr st'"
  shows "unvisited st' + length (ds_queue st') \<le> unvisited st + length (ds_queue st)"
proof -
  from assms have "\<exists>c. map_of (ds_cues st) current = Some c \<and>
      fold_res (visit_cue current (lc_delay c)) st (map fst (ds_cues st)) = Inr st'"
    by (auto simp: spread_round_def split: option.splits)
  then obtain c :: live_cue where "fold_res (visit_cue current (lc_delay c)) st (map fst (ds_cues st)) = Inr st'" by blast
  then show ?thesis
    by (rule fold_res_invariant [where I = "\<lambda>s. unvisited s + length (ds_queue s) \<le> unvisited st + length (ds_queue st)"])
      (auto dest: visit_cue_measure)
qed

lemma bind_res_cong [fundef_cong]:
  "m = n \<Longrightarrow> (\<And>x. n = Inr x \<Longrightarrow> f x = g x) \<Longrightarrow> bind_res m f = bind_res n g"
  by (cases n) simp_all

function spread :: "delay_spread \<Rightarrow> delay_spread res" where
  "spread st = (case ds_queue st of
       [] \<Rightarrow> Inr st
     | current # rest \<Rightarrow> bind_res (spread_round current (st\<lparr>ds_queue := rest\<rparr>)) (\<lambda>st'. spread st'))"
  by pat_completeness auto
termination
proof (relation "measure (\<lambda>st. unvisited st + length (ds_queue st))")
  fix st st' current rest
  assume "ds_queue st = current # rest" and "spread_round current (st\<lparr>ds_queue := rest\<rparr>) = Inr st'"
  from this(1) spread_round_measure [OF this(2)] show "(st', st) \<in> measure (\<lambda>st. unvisited st + length (ds_queue st))"
    by (simp add: unvisited_def)
qed simp

declare spread.simps [simp del]

section \<open>The operations\<close>

definition index_cues :: "live_cue list \<Rightarrow> (string \<times> live_cue) list" where
  "index_cues items = fold (\<lambda>c m. map_set (lc_number c) c m) items []"

definition update_target :: "int \<Rightarrow> cue_options \<Rightarrow> live_cue \<Rightarrow> live_cue" where
  "update_target minutes opts c = c\<lparr>lc_delay := minutes,
     lc_status := (case co_status opts of Some s \<Rightarrow> s | None \<Rightarrow> if 0 < minutes then CueDelayed else lc_status c),
     lc_actual_start := (if text_given (co_start opts) then co_start opts else lc_actual_start c),
     lc_actual_end := (if text_given (co_end opts) then co_end opts else lc_actual_end c),
     lc_notes := (if text_given (co_notes opts) then co_notes opts else lc_notes c)\<rparr>"

definition apply_cue_delay :: "string \<Rightarrow> int \<Rightarrow> live_cue list \<Rightarrow> cue_options \<Rightarrow> cue_result res" where
  "apply_cue_delay number minutes items opts = (let cues = index_cues items in
     case map_of cues number of
       None \<Rightarrow> Inl (Thrown ''CUE_NOT_FOUND'' [number])
     | Some c \<Rightarrow> let target = update_target minutes opts c in
         bind_res (spread \<lparr>ds_cues = map_set number target cues, ds_visited = [number], ds_queue = [number], ds_moved = []\<rparr>)
         (\<lambda>st. Inr \<lparr>px_updated = target, px_moved = ds_moved st, px_minutes = minutes,
            px_count = length (ds_moved st) + 1, px_critical = list_ex lc_critical (target # ds_moved st)\<rparr>))"

record run_sheet_overview =
  ro_total :: nat
  ro_completed :: nat
  ro_pending :: nat
  ro_delayed :: nat
  ro_active :: "live_cue option"
  ro_next_critical :: "live_cue option"
  ro_delay :: int

definition active_run_sheet_overview :: "live_cue list \<Rightarrow> js_time \<Rightarrow> run_sheet_overview" where
  "active_run_sheet_overview items now = \<lparr>ro_total = length items,
     ro_completed = length (filter (\<lambda>c. lc_status c = CueCompleted) items),
     ro_pending = length (filter (\<lambda>c. lc_status c = CuePending) items),
     ro_delayed = length (filter (\<lambda>c. lc_status c = CueDelayed) items),
     ro_active = (case List.find (\<lambda>c. lc_status c = CueInProgress) items of
         Some c \<Rightarrow> Some c
       | None \<Rightarrow> List.find (\<lambda>c. time_le (lc_start c) now \<and> time_le now (lc_end c)) items),
     ro_next_critical = List.find (\<lambda>c. lc_critical c \<and> lc_status c \<noteq> CueCompleted \<and> lc_status c \<noteq> CueSkipped) items,
     ro_delay = foldl (\<lambda>m c. max m (lc_delay c)) 0 items\<rparr>"

datatype reported_status = RsUpcoming | RsReady | RsActive | RsDelayed | RsComplete | RsSkipped | RsCancelled | RsBlocked

record cue_update =
  cu_status :: reported_status
  cu_time :: "string option"
  cu_minutes :: "int option"
  cu_reason :: "string option"
  cu_notes :: "string option"

fun status_map :: "reported_status \<Rightarrow> cue_status" where
  "status_map RsActive = CueInProgress"
| "status_map RsReady = CuePending"
| "status_map RsUpcoming = CuePending"
| "status_map RsComplete = CueCompleted"
| "status_map RsDelayed = CueDelayed"
| "status_map RsSkipped = CueSkipped"
| "status_map RsCancelled = CueSkipped"
| "status_map RsBlocked = CueDelayed"

text \<open>The repository of the endpoint holds the cues of every project, by number.\<close>

type_synonym cue_repo = "(string \<times> live_cue) list"

definition minutes_of :: "cue_update \<Rightarrow> int" where
  "minutes_of body = (case cu_minutes body of Some m \<Rightarrow> m | None \<Rightarrow> 0)"

definition update_run_sheet_item :: "cue_repo \<Rightarrow> string \<Rightarrow> cue_update \<Rightarrow> (cue_repo \<times> cue_result) res" where
  "update_run_sheet_item repo number body =
     bind_res (apply_cue_delay number (minutes_of body) (map snd repo)
       \<lparr>co_start = cu_time body, co_end = (if cu_status body = RsComplete then cu_time body else None),
        co_status = Some (status_map (cu_status body)),
        co_notes = (if text_given (cu_notes body) then cu_notes body else cu_reason body)\<rparr>) (\<lambda>r.
     Inr (fold (\<lambda>c m. map_set (lc_number c) c m) (px_moved r) (map_set (lc_number (px_updated r)) (px_updated r) repo), r))"


section \<open>What the propagation reaches\<close>

definition numbered :: "(string \<times> live_cue) list \<Rightarrow> bool" where
  "numbered cues \<longleftrightarrow> (\<forall>(k, c) \<in> set cues. lc_number c = k)"

text \<open>\<open>(a, b)\<close>: the cue \<open>b\<close> depends on the number \<open>a\<close>.\<close>

definition depends_on :: "(string \<times> live_cue) list \<Rightarrow> (string \<times> string) set" where
  "depends_on cues = {(a, b). \<exists>c. map_of cues b = Some c \<and> a \<in> set (lc_depends c)}"

text \<open>A moved cue is the cue of the list, delayed by the delay of a cue it depends on.\<close>

definition moved_by :: "(string \<times> live_cue) list \<Rightarrow> live_cue \<Rightarrow> live_cue \<Rightarrow> bool" where
  "moved_by cues p c' \<longleftrightarrow> (\<exists>c. map_of cues (lc_number c') = Some c \<and> lc_number p \<in> set (lc_depends c) \<and>
     delay_cue (lc_number p) (lc_delay p) c = Inr c')"

definition spread_ok :: "(string \<times> live_cue) list \<Rightarrow> live_cue \<Rightarrow> delay_spread \<Rightarrow> bool" where
  "spread_ok cues t st \<longleftrightarrow>
     map fst (ds_cues st) = map fst cues \<and>
     (\<forall>k. k \<notin> set (ds_visited st) \<longrightarrow> map_of (ds_cues st) k = map_of cues k) \<and>
     (\<forall>c \<in> set (t # ds_moved st). map_of (ds_cues st) (lc_number c) = Some c) \<and>
     distinct (map lc_number (t # ds_moved st)) \<and>
     set (ds_visited st) = lc_number ` set (t # ds_moved st) \<and>
     set (ds_queue st) \<subseteq> set (ds_visited st) \<and>
     (\<forall>c \<in> set (ds_moved st). \<exists>p \<in> set (t # ds_moved st). moved_by cues p c) \<and>
     (\<forall>k \<in> set (ds_visited st). (lc_number t, k) \<in> (depends_on cues)\<^sup>*)"

definition spread_closed :: "(string \<times> live_cue) list \<Rightarrow> delay_spread \<Rightarrow> bool" where
  "spread_closed cues st \<longleftrightarrow> (\<forall>a \<in> set (ds_visited st) - set (ds_queue st). \<forall>b.
     (a, b) \<in> depends_on cues \<longrightarrow> b \<in> set (ds_visited st))"

lemma delay_cue_number: "delay_cue u d c = Inr c' \<Longrightarrow> lc_number c' = lc_number c"
  by (auto simp: delay_cue_def)

lemma numbered_lookup: "numbered cues \<Longrightarrow> map_of cues k = Some c \<Longrightarrow> lc_number c = k"
  by (auto simp: numbered_def dest: map_of_SomeD)

text \<open>What one visit does.\<close>

definition grows :: "(string \<times> live_cue) list \<Rightarrow> live_cue \<Rightarrow> string set \<Rightarrow> delay_spread \<Rightarrow> delay_spread \<Rightarrow> bool" where
  "grows cues p ks st st' \<longleftrightarrow>
     set (ds_visited st') = set (ds_visited st) \<union> {k \<in> ks. (lc_number p, k) \<in> depends_on cues} \<and>
     set (ds_queue st') = set (ds_queue st) \<union> (set (ds_visited st') - set (ds_visited st)) \<and>
     set (ds_moved st) \<subseteq> set (ds_moved st') \<and>
     (\<forall>c \<in> set (ds_moved st') - set (ds_moved st). moved_by cues p c)"

lemma grows_refl: "grows cues p {} st st"
  by (auto simp: grows_def)

lemma grows_trans: "grows cues p A s t \<Longrightarrow> grows cues p B t u \<Longrightarrow> grows cues p (A \<union> B) s u"
  by (auto simp: grows_def)

lemma visit_cue_step:
  assumes "numbered cues" and ok: "spread_ok cues t st" and p: "p \<in> set (t # ds_moved st)"
    and v: "visit_cue (lc_number p) (lc_delay p) st k = Inr st'"
  shows "spread_ok cues t st' \<and> grows cues p {k} st st'"
proof (cases "k \<notin> set (ds_visited st) \<and> (lc_number p, k) \<in> depends_on cues")
  case True
  then have same: "map_of (ds_cues st) k = map_of cues k" using ok by (simp add: spread_ok_def)
  from True obtain c where c: "map_of cues k = Some c" "lc_number p \<in> set (lc_depends c)"
    by (auto simp: depends_on_def)
  from v True same c obtain c' where c': "delay_cue (lc_number p) (lc_delay p) c = Inr c'" and
    st': "st' = \<lparr>ds_cues = map_set k c' (ds_cues st), ds_visited = k # ds_visited st,
        ds_queue = ds_queue st @ [k], ds_moved = ds_moved st @ [c']\<rparr>"
    by (auto simp: visit_cue_def)
  have k: "lc_number c' = k" using delay_cue_number [OF c'] numbered_lookup [OF assms(1) c(1)] by simp
  have m: "moved_by cues p c'" using c c' by (simp add: moved_by_def k)
  have new: "k \<notin> lc_number ` set (t # ds_moved st)" using ok True by (simp add: spread_ok_def)
  have "(lc_number t, lc_number p) \<in> (depends_on cues)\<^sup>*" using ok p by (auto simp: spread_ok_def)
  with True have r: "(lc_number t, k) \<in> (depends_on cues)\<^sup>*" by (blast intro: rtrancl_into_rtrancl)
  have "spread_ok cues t st'"
    using ok new m p r same c(1) unfolding spread_ok_def st'
    by (auto simp: k keys_map_set image_iff)
  moreover have "grows cues p {k} st st'"
    using True m by (auto simp: grows_def st')
  ultimately show ?thesis ..
next
  case False
  have "st' = st"
  proof (cases "map_of (ds_cues st) k")
    case (Some c)
    with v ok False show ?thesis
      by (auto simp: visit_cue_def depends_on_def spread_ok_def split: if_splits)
  qed (use v in \<open>simp add: visit_cue_def\<close>)
  with ok False show ?thesis by (auto simp: grows_def)
qed

lemma visit_cues_step:
  assumes "numbered cues" and "spread_ok cues t st" and "p \<in> set (t # ds_moved st)"
    and "fold_res (visit_cue (lc_number p) (lc_delay p)) st ks = Inr st'"
  shows "spread_ok cues t st' \<and> grows cues p (set ks) st st'"
  using assms(2-)
proof (induction ks arbitrary: st)
  case Nil
  then show ?case by (simp add: grows_refl)
next
  case (Cons k ks)
  from Cons.prems(3) obtain s where s: "visit_cue (lc_number p) (lc_delay p) st k = Inr s"
    and rest: "fold_res (visit_cue (lc_number p) (lc_delay p)) s ks = Inr st'" by auto
  note 1 = visit_cue_step [OF assms(1) Cons.prems(1,2) s]
  then have "p \<in> set (t # ds_moved s)" using Cons.prems(2) by (auto simp: grows_def)
  with 1 rest Cons.IH [of s] have "spread_ok cues t st' \<and> grows cues p (set ks) s st'" by simp
  with 1 grows_trans [of cues p "{k}" st s "set ks" st'] show ?case by simp
qed

lemma spread_round_step:
  assumes "numbered cues" and ok: "spread_ok cues t (st\<lparr>ds_queue := rest\<rparr>)" and "current \<in> set (ds_visited st)"
    and "spread_round current (st\<lparr>ds_queue := rest\<rparr>) = Inr st'"
  shows "\<exists>p \<in> set (t # ds_moved st). lc_number p = current \<and> spread_ok cues t st' \<and>
    grows cues p (set (map fst cues)) (st\<lparr>ds_queue := rest\<rparr>) st'"
proof -
  from ok assms(3) obtain p where p: "p \<in> set (t # ds_moved st)" "lc_number p = current"
    and look: "map_of (ds_cues st) current = Some p" by (auto simp: spread_ok_def)
  with assms(4) have run: "fold_res (visit_cue (lc_number p) (lc_delay p)) (st\<lparr>ds_queue := rest\<rparr>) (map fst (ds_cues st)) = Inr st'"
    by (simp add: spread_round_def)
  have keys: "map fst (ds_cues st) = map fst cues" using ok by (simp add: spread_ok_def)
  have "p \<in> set (t # ds_moved (st\<lparr>ds_queue := rest\<rparr>))" using p(1) by simp
  from visit_cues_step [OF assms(1) ok this run] p show ?thesis unfolding keys by blast
qed

lemma depends_on_keys: "(a, b) \<in> depends_on cues \<Longrightarrow> b \<in> fst ` set cues"
  by (auto simp: depends_on_def dest!: map_of_SomeD intro: rev_image_eqI)

lemma spread_invariant:
  assumes "numbered cues" and "spread_ok cues t st" and "spread_closed cues st" and "spread st = Inr st'"
  shows "spread_ok cues t st' \<and> spread_closed cues st' \<and> ds_queue st' = [] \<and> set (ds_moved st) \<subseteq> set (ds_moved st')"
  using assms(2-)
proof (induction st rule: spread.induct)
  case (1 st)
  show ?case
  proof (cases "ds_queue st")
    case Nil
    with 1 show ?thesis by (simp add: spread.simps [of st])
  next
    case (Cons current rest)
    with 1(4) obtain s where s: "spread_round current (st\<lparr>ds_queue := rest\<rparr>) = Inr s" and rec: "spread s = Inr st'"
      by (auto simp: spread.simps [of st])
    have ok: "spread_ok cues t (st\<lparr>ds_queue := rest\<rparr>)" and cur: "current \<in> set (ds_visited st)"
      using 1(2) Cons by (auto simp: spread_ok_def)
    obtain p where p: "lc_number p = current" "spread_ok cues t s"
        "grows cues p (set (map fst cues)) (st\<lparr>ds_queue := rest\<rparr>) s"
      using spread_round_step [OF assms(1) ok cur s] by blast
    have "b \<in> set (ds_visited s)" if "a \<in> set (ds_visited s) - set (ds_queue s)" "(a, b) \<in> depends_on cues" for a b
    proof (cases "a = current")
      case True
      then show ?thesis using p(1,3) that(2) depends_on_keys [OF that(2)] by (auto simp: grows_def)
    next
      case False
      with that p(3) have "a \<in> set (ds_visited st) - set (ds_queue st)" by (auto simp: grows_def Cons)
      with 1(3) that(2) have "b \<in> set (ds_visited st)" by (auto simp: spread_closed_def)
      then show ?thesis using p(3) by (auto simp: grows_def)
    qed
    then have "spread_closed cues s" by (auto simp: spread_closed_def)
    from 1(1) [OF Cons s p(2) this rec] p(3) show ?thesis by (auto simp: grows_def)
  qed
qed


section \<open>The map of the cues\<close>

definition store_cues :: "live_cue list \<Rightarrow> (string \<times> live_cue) list \<Rightarrow> (string \<times> live_cue) list" where
  "store_cues cs m = fold (\<lambda>c m. map_set (lc_number c) c m) cs m"

lemma store_cues_simps [simp]: "store_cues [] m = m" "store_cues (c # cs) m = store_cues cs (map_set (lc_number c) c m)"
  by (simp_all add: store_cues_def)

lemma numbered_map_set: "numbered m \<Longrightarrow> lc_number c = k \<Longrightarrow> numbered (map_set k c m)"
  by (induction k c m rule: map_set.induct) (auto simp: numbered_def)

lemma store_cues_ok:
  "numbered m \<and> distinct (map fst m) \<Longrightarrow> numbered (store_cues cs m) \<and> distinct (map fst (store_cues cs m))"
  by (induction cs arbitrary: m) (auto simp: numbered_map_set)

lemma store_cues_keep: "k \<notin> lc_number ` set cs \<Longrightarrow> map_of (store_cues cs m) k = map_of m k"
  by (induction cs arbitrary: m) auto

lemma store_cues_new:
  "c \<in> set cs \<Longrightarrow> distinct (map lc_number cs) \<Longrightarrow> map_of (store_cues cs m) (lc_number c) = Some c"
  by (induction cs arbitrary: m) (auto simp: store_cues_keep)

lemma store_cues_domain: "fst ` set (store_cues cs m) = fst ` set m \<union> lc_number ` set cs"
  by (induction cs arbitrary: m) (auto simp: fst_map_set)

lemma store_cues_values: "map_of (store_cues cs m) k = Some c \<Longrightarrow> c \<in> set cs \<or> map_of m k = Some c"
  by (induction cs arbitrary: m) (fastforce split: if_splits)+

lemma index_cues_store: "index_cues items = store_cues items []"
  by (simp add: index_cues_def store_cues_def)

lemma index_cues_ok: "numbered (index_cues items)" "distinct (map fst (index_cues items))"
  using store_cues_ok [of "[]" items] by (simp_all add: index_cues_store numbered_def)

lemma index_of_repo:
  assumes "numbered repo" and "distinct (map fst repo)"
  shows "map_of (index_cues (map snd repo)) = map_of repo"
proof
  fix k
  have eq: "map lc_number (map snd repo) = map fst repo"
    using assms(1) by (simp add: numbered_def case_prod_beta)
  have keys: "lc_number ` set (map snd repo) = fst ` set repo"
    using arg_cong [OF eq, of set] by (simp add: image_image)
  have dist: "distinct (map lc_number (map snd repo))" unfolding eq by (rule assms(2))
  show "map_of (index_cues (map snd repo)) k = map_of repo k"
  proof (cases "map_of repo k")
    case None
    then have "k \<notin> lc_number ` set (map snd repo)" unfolding keys by (simp add: map_of_eq_None_iff)
    from store_cues_keep [OF this] None show ?thesis by (simp add: index_cues_store)
  next
    case (Some c)
    then have "c \<in> set (map snd repo)" by (force dest: map_of_SomeD)
    from store_cues_new [OF this dist] numbered_lookup [OF assms(1) Some] Some show ?thesis
      by (simp add: index_cues_store)
  qed
qed

section \<open>A delay reaches exactly the dependents\<close>

definition spread_start :: "(string \<times> live_cue) list \<Rightarrow> live_cue \<Rightarrow> delay_spread" where
  "spread_start cues t = \<lparr>ds_cues = map_set (lc_number t) t cues, ds_visited = [lc_number t], ds_queue = [lc_number t], ds_moved = []\<rparr>"

lemma update_target_simps [simp]:
  "lc_number (update_target m opts c) = lc_number c" "lc_delay (update_target m opts c) = m"
  by (simp_all add: update_target_def)

lemma apply_cue_delayE:
  assumes "apply_cue_delay n m items opts = Inr r"
  obtains c st where "map_of (index_cues items) n = Some c" "lc_number (px_updated r) = n" "lc_delay (px_updated r) = m"
    "px_updated r = update_target m opts c" "spread (spread_start (index_cues items) (px_updated r)) = Inr st"
    "px_moved r = ds_moved st"
proof -
  from assms obtain c where c: "map_of (index_cues items) n = Some c"
    by (auto simp: apply_cue_delay_def Let_def split: option.splits)
  with numbered_lookup [OF index_cues_ok(1)] have "lc_number c = n" by blast
  with assms c that show ?thesis by (auto simp: apply_cue_delay_def Let_def spread_start_def)
qed

lemma spread_start_ok:
  assumes "map_of cues (lc_number t) \<noteq> None"
  shows "spread_ok cues t (spread_start cues t)" "spread_closed cues (spread_start cues t)"
  using assms by (simp_all add: spread_ok_def spread_closed_def spread_start_def keys_map_set)

lemma closed_reaches:
  assumes "(a, b) \<in> (depends_on cues)\<^sup>*" and "spread_closed cues st" and "ds_queue st = []" and "a \<in> set (ds_visited st)"
  shows "b \<in> set (ds_visited st)"
  using assms(1,4) by (induction rule: rtrancl_induct) (use assms(2,3) in \<open>auto simp: spread_closed_def\<close>)

text \<open>The cues the engine moves are those that depend on the delayed one, each once.\<close>

lemma moved_cues:
  assumes "apply_cue_delay n m items opts = Inr r"
  shows "set (map lc_number (px_moved r)) = {k. (n, k) \<in> (depends_on (index_cues items))\<^sup>* \<and> k \<noteq> n} \<and>
    distinct (map lc_number (px_moved r)) \<and>
    (\<forall>c \<in> set (px_moved r). \<exists>p \<in> set (px_updated r # px_moved r). moved_by (index_cues items) p c)"
proof -
  let ?cues = "index_cues items" and ?t = "px_updated r"
  obtain c st where c: "map_of ?cues n = Some c" and t: "lc_number ?t = n"
    and st: "spread (spread_start ?cues ?t) = Inr st" and moved: "px_moved r = ds_moved st"
    by (rule apply_cue_delayE [OF assms])
  have ok: "spread_ok ?cues ?t st" and closed: "spread_closed ?cues st" and empty: "ds_queue st = []"
    using spread_invariant [OF index_cues_ok(1) spread_start_ok st] c t by auto
  have "set (ds_visited st) = {k. (n, k) \<in> (depends_on ?cues)\<^sup>*}"
  proof
    show "set (ds_visited st) \<subseteq> {k. (n, k) \<in> (depends_on ?cues)\<^sup>*}" using ok t by (auto simp: spread_ok_def)
    have "n \<in> set (ds_visited st)" using ok t by (simp add: spread_ok_def)
    then show "{k. (n, k) \<in> (depends_on ?cues)\<^sup>*} \<subseteq> set (ds_visited st)"
      using closed_reaches [OF _ closed empty] by blast
  qed
  moreover have "set (map lc_number (px_moved r)) = set (ds_visited st) - {n}"
    and "distinct (map lc_number (px_moved r))"
    and "\<forall>c \<in> set (px_moved r). \<exists>p \<in> set (?t # px_moved r). moved_by ?cues p c"
    using ok t by (auto simp: spread_ok_def moved)
  ultimately show ?thesis by auto
qed


lemma shift_timeD: "shift_time m t = Inr u \<Longrightarrow> \<exists>s. t = Some s \<and> u = Some (s + m * 60000)"
  by (auto simp: shift_time_def Let_def split: option.splits if_splits)

lemma delay_cue_times:
  "delay_cue u m c = Inr c' \<Longrightarrow> \<exists>a e. lc_start c = Some a \<and> lc_start c' = Some (a + m * 60000) \<and>
     lc_end c = Some e \<and> lc_end c' = Some (e + m * 60000) \<and> lc_delay c' = max (lc_delay c) m"
  by (auto simp: delay_cue_def dest!: shift_timeD)

lemma update_run_sheet_itemE:
  assumes "update_run_sheet_item repo n body = Inr (repo', r)"
  obtains opts where "apply_cue_delay n (minutes_of body) (map snd repo) opts = Inr r"
    "repo' = store_cues (px_updated r # px_moved r) repo"
  using assms by (auto simp: update_run_sheet_item_def store_cues_def)

text \<open>
  C23: a reported delay moves exactly the cues that depend on the delayed one, directly or
  through others, cyclic dependencies included, each once. After an accepted report of the
  endpoint the sheet holds the reported cue with the delay and its planned times as they were;
  each cue that depends on it is planned later by the whole delay of a cue it depends on and
  has at least that delay; and every other cue is the one that was there. A dependency
  is an entry of \<open>dependentOnCues\<close> that is a cue's number: an entry that is an identifier has no
  effect, see \<open>identifier_entries_ignored\<close>.
\<close>

theorem delay_reaches_exactly_the_dependents:
  assumes repo: "numbered repo" "distinct (map fst repo)" and update: "update_run_sheet_item repo n body = Inr (repo', r)"
  shows "let reached = {k. (n, k) \<in> (depends_on repo)\<^sup>* \<and> k \<noteq> n}; t = px_updated r in
    set (map lc_number (px_moved r)) = reached \<and> distinct (map lc_number (px_moved r)) \<and>
    (\<exists>c. map_of repo n = Some c \<and> map_of repo' n = Some t \<and> lc_delay t = minutes_of body \<and>
       lc_start t = lc_start c \<and> lc_end t = lc_end c) \<and>
    (\<forall>k \<in> reached. \<exists>c c' p a e. map_of repo k = Some c \<and> map_of repo' k = Some c' \<and> p \<in> set (t # px_moved r) \<and>
       lc_number p \<in> set (lc_depends c) \<and> lc_start c = Some a \<and> lc_start c' = Some (a + lc_delay p * 60000) \<and>
       lc_end c = Some e \<and> lc_end c' = Some (e + lc_delay p * 60000) \<and> lc_delay c' = max (lc_delay c) (lc_delay p)) \<and>
    (\<forall>k. k \<notin> insert n reached \<longrightarrow> map_of repo' k = map_of repo k) \<and> numbered repo' \<and> distinct (map fst repo')"
proof -
  let ?cues = "index_cues (map snd repo)" and ?t = "px_updated r" and ?reached = "{k. (n, k) \<in> (depends_on repo)\<^sup>* \<and> k \<noteq> n}"
  obtain opts where run: "apply_cue_delay n (minutes_of body) (map snd repo) opts = Inr r"
    and repo': "repo' = store_cues (?t # px_moved r) repo"
    by (rule update_run_sheet_itemE [OF update])
  note same = index_of_repo [OF repo]
  have dep: "depends_on ?cues = depends_on repo" by (simp add: depends_on_def same)
  have moved: "set (map lc_number (px_moved r)) = ?reached" "distinct (map lc_number (px_moved r))"
      "\<forall>c \<in> set (px_moved r). \<exists>p \<in> set (?t # px_moved r). moved_by ?cues p c"
    using moved_cues [OF run] unfolding dep by blast+
  obtain c where c: "map_of repo n = Some c" and t: "lc_number ?t = n" "lc_delay ?t = minutes_of body" "?t = update_target (minutes_of body) opts c"
    by (rule apply_cue_delayE [OF run]) (simp add: same)
  have dist: "distinct (map lc_number (?t # px_moved r))" using moved(1,2) t(1) by simp
  have stored: "map_of repo' (lc_number d) = Some d" if "d \<in> set (?t # px_moved r)" for d
    using store_cues_new [OF that dist, of repo] by (simp add: repo')
  have times: "lc_start ?t = lc_start c" "lc_end ?t = lc_end c" by (simp_all add: t(3) update_target_def)
  have target: "\<exists>c. map_of repo n = Some c \<and> map_of repo' n = Some ?t \<and> lc_delay ?t = minutes_of body \<and>
      lc_start ?t = lc_start c \<and> lc_end ?t = lc_end c"
    using stored [of ?t] c t(1,2) times by auto
  have each: "\<exists>c c' p a e. map_of repo k = Some c \<and> map_of repo' k = Some c' \<and> p \<in> set (?t # px_moved r) \<and>
       lc_number p \<in> set (lc_depends c) \<and> lc_start c = Some a \<and> lc_start c' = Some (a + lc_delay p * 60000) \<and>
       lc_end c = Some e \<and> lc_end c' = Some (e + lc_delay p * 60000) \<and> lc_delay c' = max (lc_delay c) (lc_delay p)"
    if "k \<in> ?reached" for k
  proof -
    have "k \<in> lc_number ` set (px_moved r)" using that unfolding moved(1) [symmetric] by simp
    then obtain c' where c': "c' \<in> set (px_moved r)" "lc_number c' = k" by (elim imageE) simp
    with moved(3) obtain p c where p: "p \<in> set (?t # px_moved r)" "map_of ?cues k = Some c" "lc_number p \<in> set (lc_depends c)"
        "delay_cue (lc_number p) (lc_delay p) c = Inr c'"
      unfolding moved_by_def by blast
    from delay_cue_times [OF p(4)] obtain a e where "lc_start c = Some a" "lc_start c' = Some (a + lc_delay p * 60000)"
        "lc_end c = Some e" "lc_end c' = Some (e + lc_delay p * 60000)" "lc_delay c' = max (lc_delay c) (lc_delay p)" by blast
    moreover have "map_of repo' k = Some c'" using stored [of c'] c' by simp
    ultimately show ?thesis using p(1-3) unfolding same by blast
  qed
  have others: "map_of repo' k = map_of repo k" if "k \<notin> insert n ?reached" for k
  proof -
    have "k \<notin> lc_number ` set (?t # px_moved r)" using that moved(1) t(1) by auto
    from store_cues_keep [OF this, of repo] show ?thesis unfolding repo' .
  qed
  have "numbered repo'" "distinct (map fst repo')" using store_cues_ok [of repo "?t # px_moved r"] repo unfolding repo' by blast+
  with moved(1,2) target each others show ?thesis unfolding Let_def by blast
qed

section \<open>A delay always returns\<close>

definition time_within :: "int \<Rightarrow> js_time \<Rightarrow> bool" where
  "time_within b t \<longleftrightarrow> (case t of Some ms \<Rightarrow> \<bar>ms\<bar> \<le> b | None \<Rightarrow> False)"

definition modest :: "int \<Rightarrow> int \<Rightarrow> live_cue \<Rightarrow> bool" where
  "modest b d c \<longleftrightarrow> time_within b (lc_start c) \<and> time_within b (lc_end c) \<and> \<bar>lc_delay c\<bar> \<le> d"

lemma shift_time_returns:
  assumes "time_within b t" and "\<bar>m\<bar> \<le> d" and "b + d * 60000 \<le> 8640000000000000"
  shows "\<exists>u. shift_time m t = Inr u"
proof -
  from assms(1) obtain ms where "t = Some ms" "\<bar>ms\<bar> \<le> b" by (auto simp: time_within_def split: option.splits)
  with assms(2,3) show ?thesis by (auto simp: shift_time_def Let_def)
qed

lemma delay_cue_returns:
  assumes "modest b d c" and "\<bar>m\<bar> \<le> d" and "b + d * 60000 \<le> 8640000000000000"
  shows "\<exists>c'. delay_cue u m c = Inr c' \<and> \<bar>lc_delay c'\<bar> \<le> d"
proof -
  obtain s e where "shift_time m (lc_start c) = Inr s" "shift_time m (lc_end c) = Inr e"
    using assms shift_time_returns unfolding modest_def by metis
  with assms(1,2) show ?thesis by (auto simp: delay_cue_def modest_def)
qed

definition calm :: "int \<Rightarrow> int \<Rightarrow> delay_spread \<Rightarrow> bool" where
  "calm b d st \<longleftrightarrow> (\<forall>k c. map_of (ds_cues st) k = Some c \<longrightarrow>
     \<bar>lc_delay c\<bar> \<le> d \<and> (k \<notin> set (ds_visited st) \<longrightarrow> modest b d c)) \<and> set (ds_queue st) \<subseteq> fst ` set (ds_cues st)"

lemma visit_cue_returns:
  assumes "calm b d st" and "\<bar>m\<bar> \<le> d" and "b + d * 60000 \<le> 8640000000000000"
  shows "\<exists>st'. visit_cue u m st k = Inr st' \<and> calm b d st'"
proof (cases "\<exists>c. map_of (ds_cues st) k = Some c \<and> u \<in> set (lc_depends c) \<and> k \<notin> set (ds_visited st)")
  case True
  then obtain c where c: "map_of (ds_cues st) k = Some c" "u \<in> set (lc_depends c)" "k \<notin> set (ds_visited st)" by blast
  with assms(1) have "modest b d c" by (simp add: calm_def)
  from delay_cue_returns [OF this assms(2,3)] obtain c' where "delay_cue u m c = Inr c'" "\<bar>lc_delay c'\<bar> \<le> d" by blast
  with c assms(1) show ?thesis by (simp add: visit_cue_def calm_def fst_map_set) blast
next
  case False
  then have "visit_cue u m st k = Inr st" by (auto simp: visit_cue_def split: option.splits)
  with assms(1) show ?thesis by blast
qed

lemma visit_cues_return:
  assumes "\<bar>m\<bar> \<le> d" and "b + d * 60000 \<le> 8640000000000000" and "calm b d st"
  shows "\<exists>st'. fold_res (visit_cue u m) st ks = Inr st' \<and> calm b d st'"
  using assms(3)
proof (induction ks arbitrary: st)
  case (Cons k ks)
  obtain s where "visit_cue u m st k = Inr s" "calm b d s"
    using visit_cue_returns [OF Cons.prems assms(1,2)] by blast
  with Cons.IH [of s] show ?case by simp
qed simp

lemma spread_returns:
  assumes "b + d * 60000 \<le> 8640000000000000" and "calm b d st"
  shows "\<exists>st'. spread st = Inr st'"
  using assms(2)
proof (induction st rule: spread.induct)
  case (1 st)
  show ?case
  proof (cases "ds_queue st")
    case Nil
    then show ?thesis by (simp add: spread.simps [of st])
  next
    case (Cons n rest)
    let ?st = "st\<lparr>ds_queue := rest\<rparr>"
    have calm: "calm b d ?st" using 1(2) Cons by (simp add: calm_def)
    have "n \<in> fst ` set (ds_cues st)" using 1(2) Cons by (simp add: calm_def)
    then obtain c where c: "map_of (ds_cues st) n = Some c"
      by (metis map_of_eq_None_iff not_Some_eq)
    then have "\<bar>lc_delay c\<bar> \<le> d" using 1(2) by (auto simp: calm_def)
    from visit_cues_return [OF this assms(1) calm] c
    obtain s where s: "spread_round n ?st = Inr s" "calm b d s" by (auto simp: spread_round_def)
    from 1(1) [OF Cons s] s(1) Cons show ?thesis by (simp add: spread.simps [of st])
  qed
qed

text \<open>
  C37: propagation ends, on cyclic sheets too. Where the planned times are dates that stay in
  the range of dates when shifted by the largest delay on the sheet, the operation returns
  for every cue of the sheet, and throws only for a number that is not there.
\<close>

theorem delay_always_returns:
  assumes "\<forall>c \<in> set items. modest b d c" and "\<bar>m\<bar> \<le> d" and "b + d * 60000 \<le> 8640000000000000"
  shows "returns (apply_cue_delay n m items opts) \<longleftrightarrow> n \<in> lc_number ` set items"
proof (cases "map_of (index_cues items) n")
  case None
  then have "n \<notin> lc_number ` set items"
    using store_cues_domain [of items "[]"] by (auto simp: map_of_eq_None_iff index_cues_store)
  with None show ?thesis by (simp add: apply_cue_delay_def)
next
  case (Some c)
  let ?t = "update_target m opts c"
  have dom: "n \<in> fst ` set (index_cues items)" using Some by (force dest: map_of_SomeD)
  then have "n \<in> lc_number ` set items" using store_cues_domain [of items "[]"] by (simp add: index_cues_store)
  moreover have n: "lc_number c = n" using numbered_lookup [OF index_cues_ok(1) Some] .
  have "modest b d e" if "map_of (index_cues items) k = Some e" for k e
    using store_cues_values [of items "[]" k e] that assms(1) by (auto simp: index_cues_store)
  then have "calm b d (spread_start (index_cues items) ?t)"
    using assms(2) dom n by (auto simp: calm_def spread_start_def fst_map_set modest_def)
  from spread_returns [OF assms(3) this] Some n have "returns (apply_cue_delay n m items opts)"
    by (auto simp: apply_cue_delay_def returns_conv spread_start_def Let_def)
  ultimately show ?thesis by simp
qed

section \<open>A repeated report\<close>

lemma direct_dependent_moved:
  assumes "apply_cue_delay n m items opts = Inr r" and "map_of (index_cues items) k = Some c"
    and "n \<in> set (lc_depends c)" and "k \<noteq> n"
  shows "\<exists>c' \<in> set (px_moved r). lc_number c' = k \<and> delay_cue n m c = Inr c'"
proof -
  let ?cues = "index_cues items" and ?t = "px_updated r" and ?st = "spread_start (index_cues items) (px_updated r)"
  obtain d st where d: "map_of ?cues n = Some d" and t: "lc_number ?t = n" "lc_delay ?t = m"
    and st: "spread ?st = Inr st" and moved: "px_moved r = ds_moved st"
    by (rule apply_cue_delayE [OF assms(1)])
  have start: "spread_ok ?cues ?t ?st" "spread_closed ?cues ?st" by (simp_all add: spread_start_ok d t)
  have q: "ds_queue ?st = [n]" "ds_moved ?st = []" "ds_visited ?st = [n]" by (simp_all add: spread_start_def t)
  with st obtain s where s: "spread_round n (?st\<lparr>ds_queue := []\<rparr>) = Inr s" and rest: "spread s = Inr st"
    by (auto simp: spread.simps [of ?st])
  have ok: "spread_ok ?cues ?t (?st\<lparr>ds_queue := []\<rparr>)" using start(1) by (simp add: spread_ok_def)
  from spread_round_step [OF index_cues_ok(1) ok _ s] q t
  have s_ok: "spread_ok ?cues ?t s" and grow: "grows ?cues ?t (set (map fst ?cues)) (?st\<lparr>ds_queue := []\<rparr>) s" by auto
  have edge: "(n, k) \<in> depends_on ?cues" using assms(2,3) by (auto simp: depends_on_def)
  have visited: "set (ds_visited s) = insert n {k \<in> fst ` set ?cues. (n, k) \<in> depends_on ?cues}"
    using grow q t by (auto simp: grows_def)
  then have "k \<in> set (ds_visited s)" using edge depends_on_keys [OF edge] by simp
  then obtain c' where c': "c' \<in> set (ds_moved s)" "lc_number c' = k"
    using s_ok assms(4) t by (auto simp: spread_ok_def)
  then have "moved_by ?cues ?t c'" using grow q by (simp add: grows_def)
  then have "delay_cue n m c = Inr c'" using assms(2) c' t by (simp add: moved_by_def)
  moreover have "set (ds_queue s) = set (ds_visited s) - {n}" using grow q by (simp add: grows_def)
  then have "a = n" if "a \<in> set (ds_visited s) - set (ds_queue s)" for a using that by simp
  then have "spread_closed ?cues s"
    unfolding spread_closed_def by (auto simp: visited dest: depends_on_keys)
  from spread_invariant [OF index_cues_ok(1) s_ok this rest] have "c' \<in> set (px_moved r)"
    using c'(1) moved by auto
  ultimately show ?thesis using c'(2) by blast
qed


lemma update_moves_dependent:
  assumes "numbered repo" and "distinct (map fst repo)" and "update_run_sheet_item repo n body = Inr (repo', r)"
    and "map_of repo k = Some c" and "n \<in> set (lc_depends c)" and "k \<noteq> n"
  shows "numbered repo' \<and> distinct (map fst repo') \<and>
    (\<exists>c'. map_of repo' k = Some c' \<and> delay_cue n (minutes_of body) c = Inr c')"
proof -
  obtain opts where r: "apply_cue_delay n (minutes_of body) (map snd repo) opts = Inr r"
    and repo': "repo' = store_cues (px_updated r # px_moved r) repo"
    using assms(3) by (auto simp: update_run_sheet_item_def store_cues_def)
  have look: "map_of (index_cues (map snd repo)) k = Some c" using assms(4) by (simp add: index_of_repo [OF assms(1,2)])
  from direct_dependent_moved [OF r look assms(5,6)]
  obtain c' where c': "c' \<in> set (px_moved r)" "lc_number c' = k" "delay_cue n (minutes_of body) c = Inr c'" by blast
  let ?cues = "index_cues (map snd repo)"
  obtain d st where d: "map_of ?cues n = Some d" and t: "lc_number (px_updated r) = n"
    and st: "spread (spread_start ?cues (px_updated r)) = Inr st" and moved: "px_moved r = ds_moved st"
    by (rule apply_cue_delayE [OF r])
  have "spread_ok ?cues (px_updated r) st"
    using spread_invariant [OF index_cues_ok(1) spread_start_ok st] d t by auto
  then have dist: "distinct (map lc_number (px_updated r # px_moved r))" by (simp add: spread_ok_def moved)
  have "map_of repo' k = Some c'"
    using store_cues_new [OF _ dist, of c' repo] c' by (simp add: repo')
  with c'(3) assms(1,2) store_cues_ok [of repo "px_updated r # px_moved r"] show ?thesis
    by (simp add: repo')
qed

text \<open>
  A delay reported twice is applied twice. After the same update of a cue has been
  accepted two times, every cue that depends on it is planned later by twice the delay.
\<close>

theorem repeated_report_shifts_again:
  assumes "numbered repo" and "distinct (map fst repo)"
    and "update_run_sheet_item repo n body = Inr (repo1, r1)" and "update_run_sheet_item repo1 n body = Inr (repo2, r2)"
    and "map_of repo k = Some c" and "n \<in> set (lc_depends c)" and "k \<noteq> n"
  shows "\<exists>c2 s. map_of repo2 k = Some c2 \<and> lc_start c = Some s \<and> lc_start c2 = Some (s + 2 * (minutes_of body * 60000))"
proof -
  from update_moves_dependent [OF assms(1,2,3,5,6,7)] obtain c1 where
    repo1: "numbered repo1" "distinct (map fst repo1)" and
    c1: "map_of repo1 k = Some c1" "delay_cue n (minutes_of body) c = Inr c1" by blast
  then have "n \<in> set (lc_depends c1)" using assms(6) by (auto simp: delay_cue_def)
  from update_moves_dependent [OF repo1 assms(4) c1(1) this assms(7)] obtain c2 where
    c2: "map_of repo2 k = Some c2" "delay_cue n (minutes_of body) c1 = Inr c2" by blast
  from c1(2) obtain s where s: "lc_start c = Some s" "lc_start c1 = Some (s + minutes_of body * 60000)"
    by (auto simp: delay_cue_def dest!: shift_timeD)
  from c2(2) s(2) have "lc_start c2 = Some (s + minutes_of body * 60000 + minutes_of body * 60000)"
    by (auto simp: delay_cue_def dest!: shift_timeD)
  with s(1) c2(1) show ?thesis by simp
qed

section \<open>Examples\<close>

definition example_cue :: "string \<Rightarrow> int \<Rightarrow> int \<Rightarrow> string list \<Rightarrow> live_cue" where
  "example_cue n start delay deps = \<lparr>lc_id = n, lc_project = ''P'', lc_number = n, lc_title = n, lc_department = ''AV'',
     lc_start = Some start, lc_end = Some (start + 600000), lc_actual_start = None, lc_actual_end = None, lc_delay = delay,
     lc_status = CuePending, lc_depends = deps, lc_responsible = ''R'', lc_notes = None, lc_critical = False\<rparr>"

definition example_sheet :: "live_cue list" where
  "example_sheet = [example_cue ''A'' 0 0 [''C''], example_cue ''B'' 600000 0 [''A''], example_cue ''C'' 1200000 0 [''B''],
     example_cue ''D'' 0 0 []]"

definition example_repo :: cue_repo where
  "example_repo = map (\<lambda>c. (lc_number c, c)) example_sheet"

definition no_cue_options :: cue_options where
  "no_cue_options = \<lparr>co_start = None, co_end = None, co_status = None, co_notes = None\<rparr>"

definition ten_minutes :: cue_update where
  "ten_minutes = \<lparr>cu_status = RsDelayed, cu_time = None, cu_minutes = Some 10, cu_reason = None, cu_notes = None\<rparr>"

lemma example_repo_ok: "numbered example_repo" "distinct (map fst example_repo)"
  by (simp_all add: numbered_def example_repo_def example_sheet_def example_cue_def)

lemma example_report: "map_res (\<lambda>u. bind_res (update_run_sheet_item example_repo ''A'' ten_minutes)
   (\<lambda>(repo, r). Inr (map lc_number (px_moved r)))) [()] = Inr [[''B'', ''C'']]"
  by code_simp

theorem delay_reaches_exactly_the_dependents_witness:
  "\<exists>repo' r c. update_run_sheet_item example_repo ''A'' ten_minutes = Inr (repo', r) \<and>
     {k. (''A'', k) \<in> (depends_on example_repo)\<^sup>* \<and> k \<noteq> ''A''} = {''B'', ''C''} \<and>
     map_of repo' ''B'' = Some c \<and> 0 \<le> lc_delay c \<and> map_of repo' ''D'' = map_of example_repo ''D''"
proof -
  obtain repo' r where r: "update_run_sheet_item example_repo ''A'' ten_minutes = Inr (repo', r)" "map lc_number (px_moved r) = [''B'', ''C'']"
    using example_report by auto
  let ?reached = "{k. (''A'', k) \<in> (depends_on example_repo)\<^sup>* \<and> k \<noteq> ''A''}"
  note all = delay_reaches_exactly_the_dependents [OF example_repo_ok r(1), unfolded Let_def r(2)]
  then have reached: "?reached = {''B'', ''C''}" by simp
  have cue: "map_of example_repo ''B'' = Some (example_cue ''B'' 600000 0 [''A''])"
    by (simp add: example_repo_def example_sheet_def example_cue_def)
  have "''B'' \<in> ?reached" unfolding reached by simp
  from bspec [OF conjunct1 [OF conjunct2 [OF conjunct2 [OF conjunct2 [OF all]]]] this]
  have "\<exists>c c' (p :: live_cue). map_of example_repo ''B'' = Some c \<and> map_of repo' ''B'' = Some c' \<and> lc_delay c' = max (lc_delay c) (lc_delay p)"
    by blast
  then obtain c' where "map_of repo' ''B'' = Some c'" "0 \<le> lc_delay c'" unfolding cue by (auto simp: example_cue_def)
  moreover have "map_of repo' ''D'' = map_of example_repo ''D''" using all unfolding reached by simp
  ultimately show ?thesis using r(1) reached by blast
qed

text \<open>
  The comment on \<open>dependentOnCues\<close> allows cue numbers or identifiers, but entries are compared
  with numbers: a cue that names the other by its identifier is not moved.
\<close>

lemma identifier_entries_ignored:
  "(case apply_cue_delay ''A'' 10 [(example_cue ''A'' 0 0 [])\<lparr>lc_id := ''cue-1''\<rparr>, example_cue ''B'' 600000 0 [''cue-1'']]
       no_cue_options of Inl e \<Rightarrow> None | Inr r \<Rightarrow> Some (map lc_number (px_moved r))) = Some []"
  by code_simp

theorem delay_always_returns_witness:
  "returns (apply_cue_delay ''A'' 10 example_sheet no_cue_options) \<and> \<not> returns (apply_cue_delay ''X'' 10 example_sheet no_cue_options)"
proof -
  have "\<forall>c \<in> set example_sheet. modest 2000000 10 c"
    by (simp add: example_sheet_def example_cue_def modest_def time_within_def)
  note delay_always_returns [OF this, of 10 "''A''" no_cue_options] delay_always_returns [OF this, of 10 "''X''" no_cue_options]
  then show ?thesis by (simp add: example_sheet_def example_cue_def)
qed

lemma example_updates:
  "(case update_run_sheet_item example_repo ''A'' ten_minutes of Inl e \<Rightarrow> False
     | Inr (repo1, r1) \<Rightarrow> returns (update_run_sheet_item repo1 ''A'' ten_minutes))"
  by code_simp

theorem repeated_report_shifts_again_witness:
  "\<exists>repo1 r1 repo2 r2 c. update_run_sheet_item example_repo ''A'' ten_minutes = Inr (repo1, r1) \<and>
     update_run_sheet_item repo1 ''A'' ten_minutes = Inr (repo2, r2) \<and> map_of repo2 ''B'' = Some c \<and>
     lc_start c = Some (600000 + 2 * 600000)"
proof -
  obtain repo1 r1 repo2 r2 where 1: "update_run_sheet_item example_repo ''A'' ten_minutes = Inr (repo1, r1)"
    and 2: "update_run_sheet_item repo1 ''A'' ten_minutes = Inr (repo2, r2)"
    using example_updates by (auto simp: returns_conv split: sum.splits)
  have "numbered example_repo" "distinct (map fst example_repo)"
    and "map_of example_repo ''B'' = Some (example_cue ''B'' 600000 0 [''A''])"
    by (simp_all add: numbered_def example_repo_def example_sheet_def example_cue_def)
  from repeated_report_shifts_again [OF this(1,2) 1 2 this(3)] 1 2 show ?thesis
    by (auto simp: example_cue_def minutes_of_def ten_minutes_def)
qed

text \<open>
  A delay that an earlier report already propagated is propagated again with the next report
  of any cue before it: marking A complete without a delay moves C by the 10 minutes of B.
\<close>

lemma settled_delay_propagated_again:
  "(case apply_cue_delay ''A'' 0 [example_cue ''A'' 0 0 [], example_cue ''B'' 600000 10 [''A''], example_cue ''C'' 1200000 10 [''B'']]
       no_cue_options of Inl e \<Rightarrow> None | Inr r \<Rightarrow> Some (map lc_start (px_moved r))) = Some [Some 600000, Some 1800000]"
  by code_simp

end
