(* ===== verification/Project_Access.thy ===== *)
theory Project_Access
  imports Rbac Crypto_Util
begin

text \<open>
  Authority over a project: \<open>apps/api/src/projects/project-access.service.ts\<close>. The rows of
  the database that decide it, the check \<open>withAccess\<close> makes before every project operation,
  and the commands that create, change and revoke grants. An operation runs in a transaction
  that locks the organisation's row, so the operations of an organisation are serial, and an
  error rolls back: an operation is a function from the database to an error or the new
  database with a result. A query that takes the first row finds the first in table order.
  The clock and the fresh identifiers are part of a request; SHA-256 and the text of a
  number are arguments. A lost connection is not modelled. The identifiers in the tables are
  UUIDs as the database prints them, in lower case; a request may give one in any case, and
  the database compares it as a UUID: its lower case with the identifier of the row.
\<close>

section \<open>Text\<close>

record hasher =
  hs_sha :: "string \<Rightarrow> string"
  hs_num :: "rat \<Rightarrow> string"

definition is_hex :: "char \<Rightarrow> bool" where
  "is_hex c = (let n = (of_char (lower_char c) :: nat) in 48 \<le> n \<and> n \<le> 57 \<or> 97 \<le> n \<and> n \<le> 102)"

definition uuid_text :: "string \<Rightarrow> bool" where
  "uuid_text s = (length s = 36 \<and> list_all (\<lambda>(i, c). if i \<in> set [8, 13, 18, 23] then c = CHR ''-'' else is_hex c)
     (zip [0..<36] s))"

definition text_json :: "string option \<Rightarrow> json" where
  "text_json t = (case t of Some s \<Rightarrow> JStr s | None \<Rightarrow> JNull)"

text \<open>\<open>new Date(ms).toISOString()\<close>: the date of the proleptic calendar and the time of day.\<close>

definition pad :: "nat \<Rightarrow> int \<Rightarrow> string" where
  "pad n i = (let s = nat_str (nat i) in replicate (n - length s) (CHR ''0'') @ s)"

definition civil_date :: "int \<Rightarrow> int \<times> int \<times> int" where
  "civil_date days = (let z = days + 719468; era = z div 146097; doe = z - era * 146097;
       yoe = (doe - doe div 1460 + doe div 36524 - doe div 146096) div 365;
       doy = doe - (365 * yoe + yoe div 4 - yoe div 100); mp = (5 * doy + 2) div 153;
       d = doy - (153 * mp + 2) div 5 + 1; m = (if mp < 10 then mp + 3 else mp - 9)
     in (yoe + era * 400 + (if m \<le> 2 then 1 else 0), m, d))"

definition year_text :: "int \<Rightarrow> string" where
  "year_text y = (if 0 \<le> y \<and> y \<le> 9999 then pad 4 y else (if y < 0 then ''-'' else ''+'') @ pad 6 \<bar>y\<bar>)"

definition iso_text :: "int \<Rightarrow> string" where
  "iso_text ms = (case civil_date (ms div 86400000) of (y, m, d) \<Rightarrow>
     let t = ms mod 86400000 in
     year_text y @ ''-'' @ pad 2 m @ ''-'' @ pad 2 d @ ''T'' @ pad 2 (t div 3600000) @ '':'' @ pad 2 (t div 60000 mod 60) @
     '':'' @ pad 2 (t div 1000 mod 60) @ ''.'' @ pad 3 (t mod 1000) @ ''Z'')"

definition time_json :: "int option \<Rightarrow> json" where
  "time_json t = (case t of Some ms \<Rightarrow> JStr (iso_text ms) | None \<Rightarrow> JNull)"

definition digest_json :: "hasher \<Rightarrow> json \<Rightarrow> string" where
  "digest_json H v = hs_sha H (case stringify (hs_num H) None v of Some t \<Rightarrow> t | None \<Rightarrow> [])"

section \<open>The rows\<close>

record user_row =
  us_id :: string
  us_name :: string
  us_email :: string
  us_super :: bool

record session_row =
  ss_token :: string
  ss_user :: string
  ss_expires :: int

record membership_row =
  mb_id :: string
  mb_org :: string
  mb_user :: string
  mb_role :: string
  mb_audience :: string
  mb_revoked :: bool
  mb_version :: int

record project_row =
  pj_id :: string
  pj_org :: string
  pj_code :: string
  pj_title :: string
  pj_description :: string
  pj_origin :: string
  pj_owner :: string
  pj_client :: "string option"
  pj_programme :: "string option"
  pj_template :: "string option"
  pj_maturity :: string
  pj_outcome :: string
  pj_by :: string
  pj_metadata :: json
  pj_created :: int

datatype access_level = Viewer | Editor

record grant_row =
  gr_id :: string
  gr_org :: string
  gr_project :: string
  gr_membership :: string
  gr_level :: access_level
  gr_version :: int
  gr_revoked :: bool
  gr_by :: string
  gr_at :: int
  gr_updated :: int
  gr_revoked_by :: "string option"
  gr_revoked_at :: "int option"
  gr_reason :: string

record receipt_row =
  rc_org :: string
  rc_actor :: string
  rc_key :: string
  rc_operation :: string
  rc_hash :: string
  rc_response :: json

record audit_row =
  au_id :: string
  au_org :: string
  au_actor :: string
  au_action :: string
  au_type :: string
  au_target :: string
  au_version :: "int option"
  au_digest :: string
  au_previous :: "string option"
  au_at :: int

record outbox_row =
  ob_event :: string
  ob_org :: string
  ob_type :: string
  ob_payload :: json

text \<open>The tables of the core; the components extend the record by their own.\<close>

record core_db =
  db_orgs :: "string list"
  db_users :: "user_row list"
  db_sessions :: "session_row list"
  db_memberships :: "membership_row list"
  db_projects :: "project_row list"
  db_grants :: "grant_row list"
  db_receipts :: "receipt_row list"
  db_audit :: "audit_row list"
  db_outbox :: "outbox_row list"

record api_request =
  rq_org :: "string option"
  rq_token :: "string option"
  rq_key :: "string option"
  rq_now :: int
  rq_ids :: "nat \<Rightarrow> string"

definition fail :: "string \<Rightarrow> 'a res" where
  "fail code = Inl (Thrown code [])"

text \<open>An insert into a table with a key: a row whose key is taken is refused by the database.\<close>

definition insert_row :: "('a \<Rightarrow> 'k) \<Rightarrow> 'a \<Rightarrow> 'a list \<Rightarrow> 'a list res" where
  "insert_row k row rows = (if k row \<in> k ` set rows then fail ''PROJECT_ACCESS_STORAGE_UNAVAILABLE'' else Inr (rows @ [row]))"

definition first_row :: "'a list \<Rightarrow> 'a option" where
  "first_row xs = (case xs of [] \<Rightarrow> None | x # _ \<Rightarrow> Some x)"

definition some_res :: "('a \<Rightarrow> bool res) \<Rightarrow> 'a list \<Rightarrow> bool res" where
  "some_res p xs = foldr (\<lambda>x r. bind_res (p x) (\<lambda>b. if b then Inr True else r)) xs (Inr False)"

section \<open>Who is asking\<close>

record member =
  me_user :: string
  me_super :: bool
  me_membership :: string
  me_role :: string
  me_audience :: string

definition canonical_roles :: "string list" where
  "canonical_roles = [''super_admin'', ''executive'', ''project_director'', ''project_manager'', ''finance'', ''procurement'',
     ''design_production'', ''operations'', ''logistics'', ''hse_quality'', ''marketing_commercial'', ''field_supervisor'',
     ''client_user'']"

definition request_scope :: "api_request \<Rightarrow> string res" where
  "request_scope rq = (case (rq_org rq, rq_token rq) of
       (Some org, Some token) \<Rightarrow> if uuid_text org \<and> token \<noteq> [] then Inr (to_lower org) else fail ''UNAUTHENTICATED''
     | _ \<Rightarrow> fail ''UNAUTHENTICATED'')"

text \<open>
  \<open>transaction\<close>: the organisation must be there, and an error that is not one of the code's own
  becomes the storage error.
\<close>

definition in_transaction :: "'d core_db_scheme \<Rightarrow> string \<Rightarrow> 'r res \<Rightarrow> 'r res" where
  "in_transaction db org r = (if org \<notin> set (db_orgs db) then fail ''UNAUTHENTICATED''
     else case r of Inl TypeErrorThrown \<Rightarrow> fail ''PROJECT_ACCESS_STORAGE_UNAVAILABLE'' | _ \<Rightarrow> r)"

definition member_rows :: "'d core_db_scheme \<Rightarrow> api_request \<Rightarrow> string \<Rightarrow> member list" where
  "member_rows db rq org = concat (map (\<lambda>s. concat (map (\<lambda>u.
       map (\<lambda>m. \<lparr>me_user = us_id u, me_super = us_super u, me_membership = mb_id m, me_role = mb_role m, me_audience = mb_audience m\<rparr>)
         (filter (\<lambda>m. mb_user m = us_id u \<and> mb_org m = org \<and> \<not> mb_revoked m) (db_memberships db)))
       (filter (\<lambda>u. us_id u = ss_user s) (db_users db))))
     (filter (\<lambda>s. Some (ss_token s) = rq_token rq \<and> rq_now rq < ss_expires s) (db_sessions db)))"

definition current_member :: "'d core_db_scheme \<Rightarrow> api_request \<Rightarrow> string \<Rightarrow> member res" where
  "current_member db rq org = (case first_row (member_rows db rq org) of
     None \<Rightarrow> fail ''UNAUTHENTICATED'' | Some m \<Rightarrow> Inr m)"

definition admin_member :: "'d core_db_scheme \<Rightarrow> api_request \<Rightarrow> string \<Rightarrow> member res" where
  "admin_member db rq org = bind_res (current_member db rq org) (\<lambda>m.
     if me_audience m \<noteq> ''internal'' \<or> (\<not> me_super m \<and> normalize_role (me_role m) \<noteq> ''super_admin'')
     then fail ''PROJECT_ACCESS_ADMIN_REQUIRED'' else Inr m)"

definition audience_conflict :: "string \<Rightarrow> string \<Rightarrow> bool" where
  "audience_conflict audience role \<longleftrightarrow> role \<notin> set canonical_roles \<or>
     (audience = ''internal'' \<and> role = ''client_user'') \<or> (audience = ''client'' \<and> role \<noteq> ''client_user'')"

section \<open>Access to a project\<close>

record access_options =
  ao_level :: access_level
  ao_permissions :: "string list option"
  ao_audiences :: "string list option"

record access_context =
  ac_org :: string
  ac_user :: string
  ac_membership :: string
  ac_role :: string
  ac_audience :: string
  ac_project :: project_row
  ac_level :: access_level
  ac_super :: bool

definition granted_projects :: "'d core_db_scheme \<Rightarrow> string \<Rightarrow> string \<Rightarrow> (project_row \<times> access_level) list" where
  "granted_projects db org membership = concat (map (\<lambda>p. map (\<lambda>g. (p, gr_level g))
       (filter (\<lambda>g. gr_project g = pj_id p \<and> gr_org g = pj_org p \<and> gr_membership g = membership \<and> \<not> gr_revoked g) (db_grants db)))
     (filter (\<lambda>p. pj_org p = org) (db_projects db)))"

definition needed_permissions :: "access_options \<Rightarrow> string list" where
  "needed_permissions opts = (case ao_permissions opts of Some ps \<Rightarrow> ps
     | None \<Rightarrow> if ao_level opts = Editor then [''projects.manage''] else [])"

definition allowed_audiences :: "access_options \<Rightarrow> string list" where
  "allowed_audiences opts = (case ao_audiences opts of Some a \<Rightarrow> a | None \<Rightarrow> [''internal''])"

definition check_access :: "'d core_db_scheme \<Rightarrow> api_request \<Rightarrow> string \<Rightarrow> access_options \<Rightarrow> access_context res" where
  "check_access db rq reference opts =
     bind_res (request_scope rq) (\<lambda>org.
     bind_res (throw_if (trim reference = [] \<or> length reference > 200) (Thrown ''VALIDATION_ERROR'' [])) (\<lambda>_.
     in_transaction db org (
     bind_res (current_member db rq org) (\<lambda>m.
     let role = normalize_role (me_role m) in
     bind_res (throw_if (me_audience m \<notin> set (allowed_audiences opts) \<or>
       audience_conflict (me_audience m) role) (Thrown ''PROJECT_AUDIENCE_FORBIDDEN'' [])) (\<lambda>_.
     case first_row (filter (\<lambda>(p, l). pj_id p = reference \<or> pj_code p = reference) (granted_projects db org (me_membership m))) of
       None \<Rightarrow> fail ''PROJECT_NOT_FOUND''
     | Some (p, level) \<Rightarrow>
         bind_res (throw_if ((ao_level opts = Editor \<and> level \<noteq> Editor) \<or>
           (me_audience m = ''client'' \<and> (level \<noteq> Viewer \<or> ao_level opts \<noteq> Viewer))) (Thrown ''PROJECT_ACCESS_LEVEL_REQUIRED'' [])) (\<lambda>_.
         bind_res (some_res (\<lambda>p. has_role_permission role p (me_super m)) (needed_permissions opts)) (\<lambda>permitted.
         bind_res (throw_if (needed_permissions opts \<noteq> [] \<and> \<not> permitted) (Thrown ''PROJECT_ROLE_PERMISSION_REQUIRED'' [])) (\<lambda>_.
         Inr \<lparr>ac_org = org, ac_user = me_user m, ac_membership = me_membership m, ac_role = role,
           ac_audience = me_audience m, ac_project = p, ac_level = level, ac_super = me_super m\<rparr>))))))))"

definition with_access :: "'d core_db_scheme \<Rightarrow> api_request \<Rightarrow> string \<Rightarrow> access_options \<Rightarrow>
    ('d core_db_scheme \<Rightarrow> access_context \<Rightarrow> ('d core_db_scheme \<times> 'r) res) \<Rightarrow> ('d core_db_scheme \<times> 'r) res" where
  "with_access db rq reference opts op =
     bind_res (check_access db rq reference opts) (\<lambda>ctx. in_transaction db (ac_org ctx) (op db ctx))"


section \<open>Commands on grants\<close>

definition command_key :: "api_request \<Rightarrow> string res" where
  "command_key rq = (case rq_key rq of
       Some k \<Rightarrow> if trim k = [] \<or> length k > 200 then fail ''MISSING_IDEMPOTENCY_KEY'' else Inr k
     | None \<Rightarrow> fail ''MISSING_IDEMPOTENCY_KEY'')"

definition valid_reason :: "string option \<Rightarrow> string res" where
  "valid_reason r = (case r of
       Some t \<Rightarrow> if trim t = [] \<or> length (trim t) > 2000 then fail ''VALIDATION_ERROR'' else Inr (trim t)
     | None \<Rightarrow> fail ''VALIDATION_ERROR'')"

definition valid_level :: "string option \<Rightarrow> access_level res" where
  "valid_level l = (if l = Some ''viewer'' then Inr Viewer else if l = Some ''editor'' then Inr Editor else fail ''VALIDATION_ERROR'')"

definition valid_id :: "string option \<Rightarrow> string res" where
  "valid_id i = (case i of Some t \<Rightarrow> if uuid_text t then Inr t else fail ''VALIDATION_ERROR'' | None \<Rightarrow> fail ''VALIDATION_ERROR'')"

definition valid_version :: "int option \<Rightarrow> int res" where
  "valid_version v = (case v of
       Some n \<Rightarrow> if n < 1 \<or> n > 9007199254740991 then fail ''VALIDATION_ERROR'' else Inr n
     | None \<Rightarrow> fail ''VALIDATION_ERROR'')"

definition level_text :: "access_level \<Rightarrow> string" where
  "level_text l = (case l of Viewer \<Rightarrow> ''viewer'' | Editor \<Rightarrow> ''editor'')"

definition may_read_portal :: "string \<Rightarrow> bool" where
  "may_read_portal role \<longleftrightarrow> has_role_permission role ''portal.read'' False = Inr True"

definition allow_target :: "membership_row option \<Rightarrow> access_level \<Rightarrow> unit res" where
  "allow_target m level = (case m of
       None \<Rightarrow> fail ''PROJECT_ACCESS_TARGET_NOT_FOUND''
     | Some m \<Rightarrow> if mb_revoked m then fail ''PROJECT_ACCESS_TARGET_NOT_FOUND''
         else throw_if (normalize_role (mb_role m) \<notin> set canonical_roles \<or>
           (mb_audience m = ''internal'' \<and> normalize_role (mb_role m) = ''client_user'') \<or>
           (mb_audience m \<noteq> ''internal'' \<and> \<not> (mb_audience m = ''client'' \<and> level = Viewer \<and>
             normalize_role (mb_role m) = ''client_user'' \<and> may_read_portal (mb_role m))))
           (Thrown ''PROJECT_ACCESS_AUDIENCE_UNSUPPORTED'' []))"

definition find_receipt :: "'d core_db_scheme \<Rightarrow> string \<Rightarrow> string \<Rightarrow> receipt_row option" where
  "find_receipt db org key = List.find (\<lambda>r. rc_org r = org \<and> rc_key r = key) (db_receipts db)"

definition replay :: "'d core_db_scheme \<Rightarrow> string \<Rightarrow> string \<Rightarrow> string \<Rightarrow> string \<Rightarrow> string \<Rightarrow> receipt_row option res" where
  "replay db org actor key operation hash = (case find_receipt db org key of
       None \<Rightarrow> Inr None
     | Some r \<Rightarrow> if rc_actor r \<noteq> actor \<or> rc_operation r \<noteq> operation \<or> rc_hash r \<noteq> hash
         then fail ''IDEMPOTENCY_CONFLICT'' else Inr (Some r))"

text \<open>\<open>ORDER BY created_at DESC, id DESC LIMIT 1\<close>.\<close>

definition later_audit :: "audit_row \<Rightarrow> audit_row \<Rightarrow> bool" where
  "later_audit a b \<longleftrightarrow> au_at b < au_at a \<or> (au_at b = au_at a \<and> au_id b < au_id a)"

definition latest_digest :: "'d core_db_scheme \<Rightarrow> string \<Rightarrow> string option" where
  "latest_digest db org = map_option au_digest (foldl (\<lambda>m a. case m of None \<Rightarrow> Some a
     | Some b \<Rightarrow> if later_audit a b then Some a else Some b) None (filter (\<lambda>a. au_org a = org) (db_audit db)))"

definition grant_json :: "grant_row \<Rightarrow> project_row \<Rightarrow> membership_row \<Rightarrow> user_row \<Rightarrow> (string \<times> json) list" where
  "grant_json g p m u = (let role = normalize_role (mb_role m) in
     [(''id'', JStr (gr_id g)), (''organisationId'', JStr (gr_org g)), (''projectId'', JStr (gr_project g)),
      (''projectCode'', JStr (pj_code p)), (''projectTitle'', JStr (pj_title p)), (''membershipId'', JStr (gr_membership g)),
      (''userId'', JStr (mb_user m)), (''userName'', JStr (us_name u)), (''email'', JStr (us_email u)),
      (''accessLevel'', JStr (level_text (gr_level g))), (''isRevoked'', JBool (gr_revoked g)),
      (''membershipRevoked'', JBool (mb_revoked m)),
      (''effectiveAccess'', JBool (\<not> gr_revoked g \<and> \<not> mb_revoked m \<and> role \<in> set canonical_roles \<and>
        ((mb_audience m = ''internal'' \<and> role \<noteq> ''client_user'') \<or>
         (mb_audience m = ''client'' \<and> gr_level g = Viewer \<and> role = ''client_user'' \<and> may_read_portal (mb_role m))))),
      (''rowVersion'', JNum (of_int (gr_version g))), (''grantedBy'', JStr (gr_by g)), (''grantedAt'', JStr (iso_text (gr_at g))),
      (''updatedAt'', JStr (iso_text (gr_updated g))), (''revokedBy'', text_json (gr_revoked_by g)),
      (''revokedAt'', time_json (gr_revoked_at g))])"

definition summary_row :: "'d core_db_scheme \<Rightarrow> string \<Rightarrow> string \<Rightarrow> (grant_row \<times> project_row \<times> membership_row \<times> user_row) option" where
  "summary_row db org i = first_row (concat (map (\<lambda>g. concat (map (\<lambda>p. concat (map (\<lambda>m. map (\<lambda>u. (g, p, m, u))
         (filter (\<lambda>u. us_id u = mb_user m) (db_users db)))
       (filter (\<lambda>m. mb_id m = gr_membership g \<and> mb_org m = gr_org g) (db_memberships db))))
     (filter (\<lambda>p. pj_id p = gr_project g \<and> pj_org p = gr_org g) (db_projects db))))
   (filter (\<lambda>g. gr_id g = i \<and> gr_org g = org) (db_grants db))))"

definition complete_grant :: "hasher \<Rightarrow> 'd core_db_scheme \<Rightarrow> api_request \<Rightarrow> string \<Rightarrow> string \<Rightarrow> string \<Rightarrow> string \<Rightarrow> string \<Rightarrow>
    string \<Rightarrow> string \<Rightarrow> (string \<times> json) list \<Rightarrow> ('d core_db_scheme \<times> json) res" where
  "complete_grant H db rq org actor key operation hash i action payload = (case summary_row db org (to_lower i) of
       None \<Rightarrow> Inl TypeErrorThrown
     | Some (g, p, m, u) \<Rightarrow>
         let event = payload @ [(''grantId'', JStr i), (''projectId'', JStr (gr_project g)), (''membershipId'', JStr (gr_membership g)),
               (''rowVersion'', JNum (of_int (gr_version g)))];
             audit = \<lparr>au_id = rq_ids rq 0, au_org = org, au_actor = actor, au_action = action, au_type = ''project_access_grant'',
               au_target = i, au_version = None, au_digest = digest_json H (JObj event), au_previous = latest_digest db org, au_at = rq_now rq\<rparr>;
             outbox = \<lparr>ob_event = rq_ids rq 1, ob_org = org, ob_type = action @ ''.v1'',
               ob_payload = JObj (event @ [(''auditEventId'', JStr (rq_ids rq 0))])\<rparr>;
             response = JObj [(''data'', JObj (grant_json g p m u @ [(''auditEventId'', JStr (rq_ids rq 0)), (''eventId'', JStr (rq_ids rq 1))]))]
         in bind_res (insert_row au_id audit (db_audit db)) (\<lambda>audits. bind_res (insert_row ob_event outbox (db_outbox db)) (\<lambda>events.
            bind_res (insert_row (\<lambda>r. (rc_org r, rc_key r)) \<lparr>rc_org = org, rc_actor = actor, rc_key = key, rc_operation = operation,
                rc_hash = hash, rc_response = response\<rparr> (db_receipts db)) (\<lambda>receipts.
            Inr (db\<lparr>db_audit := audits, db_outbox := events, db_receipts := receipts\<rparr>, response)))))"

record grant_body =
  gb_project :: "string option"
  gb_membership :: "string option"
  gb_level :: "string option"
  gb_reason :: "string option"
  gb_version :: "int option"

definition create_grant :: "hasher \<Rightarrow> 'd core_db_scheme \<Rightarrow> api_request \<Rightarrow> grant_body \<Rightarrow> ('d core_db_scheme \<times> json) res" where
  "create_grant H db rq body =
     bind_res (request_scope rq) (\<lambda>org. bind_res (command_key rq) (\<lambda>key.
     bind_res (valid_id (gb_project body)) (\<lambda>project. bind_res (valid_id (gb_membership body)) (\<lambda>membership.
     bind_res (valid_level (gb_level body)) (\<lambda>level. bind_res (valid_reason (gb_reason body)) (\<lambda>reason.
     let operation = ''POST /project-access'';
         hash = digest_json H (JObj [(''projectId'', JStr project), (''membershipId'', JStr membership),
           (''accessLevel'', JStr (level_text level)), (''reason'', JStr reason)])
     in in_transaction db org (
       bind_res (admin_member db rq org) (\<lambda>actor.
       bind_res (replay db org (me_user actor) key operation hash) (\<lambda>prior. case prior of
           Some r \<Rightarrow> Inr (db, rc_response r)
         | None \<Rightarrow>
             bind_res (throw_if (\<not> list_ex (\<lambda>p. pj_id p = to_lower project \<and> pj_org p = org) (db_projects db)) (Thrown ''PROJECT_NOT_FOUND'' [])) (\<lambda>_.
             bind_res (allow_target (List.find (\<lambda>m. mb_id m = to_lower membership \<and> mb_org m = org) (db_memberships db)) level) (\<lambda>_.
             bind_res (throw_if (list_ex (\<lambda>g. gr_org g = org \<and> gr_project g = to_lower project \<and> gr_membership g = to_lower membership \<and>
               \<not> gr_revoked g) (db_grants db)) (Thrown ''PROJECT_ACCESS_ALREADY_EXISTS'' [])) (\<lambda>_.
             let grant = \<lparr>gr_id = rq_ids rq 2, gr_org = org, gr_project = to_lower project, gr_membership = to_lower membership, gr_level = level,
                   gr_version = 1, gr_revoked = False, gr_by = me_user actor, gr_at = rq_now rq, gr_updated = rq_now rq,
                   gr_revoked_by = None, gr_revoked_at = None, gr_reason = reason\<rparr>
             in bind_res (insert_row gr_id grant (db_grants db)) (\<lambda>grants.
                complete_grant H (db\<lparr>db_grants := grants\<rparr>) rq org (me_user actor) key operation hash (rq_ids rq 2)
                  ''project_access.created'' [(''accessLevel'', JStr (level_text level)), (''reason'', JStr reason)])))))))))))))"

definition revoke_row :: "string \<Rightarrow> int \<Rightarrow> string \<Rightarrow> grant_row \<Rightarrow> grant_row" where
  "revoke_row actor now reason g = g\<lparr>gr_revoked := True, gr_revoked_by := Some actor, gr_revoked_at := Some now,
     gr_version := gr_version g + 1, gr_updated := now, gr_reason := reason\<rparr>"

definition relevel_row :: "access_level \<Rightarrow> int \<Rightarrow> string \<Rightarrow> grant_row \<Rightarrow> grant_row" where
  "relevel_row level now reason g = g\<lparr>gr_level := level, gr_version := gr_version g + 1, gr_updated := now, gr_reason := reason\<rparr>"

definition change_grant :: "hasher \<Rightarrow> 'd core_db_scheme \<Rightarrow> api_request \<Rightarrow> string \<Rightarrow> grant_body \<Rightarrow> bool \<Rightarrow>
    ('d core_db_scheme \<times> json) res" where
  "change_grant H db rq i body revoke =
     bind_res (request_scope rq) (\<lambda>org. bind_res (command_key rq) (\<lambda>key. bind_res (valid_id (Some i)) (\<lambda>_.
     bind_res (valid_version (gb_version body)) (\<lambda>expected. bind_res (valid_reason (gb_reason body)) (\<lambda>reason.
     bind_res (if revoke then Inr None else bind_res (valid_level (gb_level body)) (\<lambda>l. Inr (Some l))) (\<lambda>level.
     let operation = ''POST /project-access/'' @ i @ ''/'' @ (if revoke then ''revoke'' else ''change'');
         hash = digest_json H (JObj ([(''id'', JStr i), (''expectedVersion'', JNum (of_int expected)), (''reason'', JStr reason)] @
           (case level of Some l \<Rightarrow> [(''accessLevel'', JStr (level_text l))] | None \<Rightarrow> [])))
     in in_transaction db org (
       bind_res (admin_member db rq org) (\<lambda>actor.
       bind_res (replay db org (me_user actor) key operation hash) (\<lambda>prior. case prior of
           Some r \<Rightarrow> Inr (db, rc_response r)
         | None \<Rightarrow> (case List.find (\<lambda>g. gr_id g = to_lower i \<and> gr_org g = org) (db_grants db) of
             None \<Rightarrow> fail ''PROJECT_ACCESS_NOT_FOUND''
           | Some g \<Rightarrow>
               bind_res (throw_if (gr_version g \<noteq> expected) (Thrown ''PROJECT_ACCESS_VERSION_CONFLICT'' [])) (\<lambda>_.
               bind_res (throw_if (gr_revoked g) (Thrown ''PROJECT_ACCESS_REVOKED'' [])) (\<lambda>_.
               bind_res (case level of None \<Rightarrow> Inr ()
                 | Some l \<Rightarrow> allow_target (List.find (\<lambda>m. mb_id m = gr_membership g \<and> mb_org m = org) (db_memberships db)) l) (\<lambda>_.
               let update = (case level of None \<Rightarrow> revoke_row (me_user actor) (rq_now rq) reason
                     | Some l \<Rightarrow> relevel_row l (rq_now rq) reason)
               in complete_grant H (db\<lparr>db_grants := map (\<lambda>g. if gr_id g = to_lower i then update g else g) (db_grants db)\<rparr>) rq org (me_user actor)
                    key operation hash i (if revoke then ''project_access.revoked'' else ''project_access.changed'')
                    [(''previousAccessLevel'', JStr (level_text (gr_level g))),
                     (''accessLevel'', JStr (level_text (case level of Some l \<Rightarrow> l | None \<Rightarrow> gr_level g))), (''reason'', JStr reason)])))))))))))))"


section \<open>What access needs\<close>

lemma fail_simps [simp]: "fail c = Inr x \<longleftrightarrow> False" "fail c = Inl e \<longleftrightarrow> e = Thrown c []"
  by (auto simp: fail_def)

lemma first_row_in: "first_row xs = Some x \<Longrightarrow> x \<in> set xs"
  by (cases xs) (simp_all add: first_row_def)

lemma insert_row_Inr [simp]: "insert_row k row rows = Inr rows' \<longleftrightarrow> k row \<notin> k ` set rows \<and> rows' = rows @ [row]"
  by (auto simp: insert_row_def)

lemma in_transaction_Inr [simp]: "in_transaction db org r = Inr x \<longleftrightarrow> org \<in> set (db_orgs db) \<and> r = Inr x"
  by (auto simp: in_transaction_def split: sum.splits eos_error.splits)

lemma some_res_True: "some_res p xs = Inr True \<Longrightarrow> \<exists>x \<in> set xs. p x = Inr True"
  by (induction xs) (auto simp: some_res_def split: if_splits)

lemma request_scope_Inr: "request_scope rq = Inr org \<Longrightarrow> map_option to_lower (rq_org rq) = Some org"
  by (auto simp: request_scope_def split: option.splits if_splits)

text \<open>The session and the membership a request acts under.\<close>

definition live_member :: "'d core_db_scheme \<Rightarrow> api_request \<Rightarrow> string \<Rightarrow> string \<Rightarrow> string \<Rightarrow> bool" where
  "live_member db rq org user membership \<longleftrightarrow>
     (\<exists>s \<in> set (db_sessions db). Some (ss_token s) = rq_token rq \<and> rq_now rq < ss_expires s \<and> ss_user s = user) \<and>
     (\<exists>m \<in> set (db_memberships db). mb_id m = membership \<and> mb_user m = user \<and> mb_org m = org \<and> \<not> mb_revoked m)"

definition live_grant :: "'d core_db_scheme \<Rightarrow> string \<Rightarrow> string \<Rightarrow> string \<Rightarrow> access_level \<Rightarrow> bool" where
  "live_grant db org project membership level \<longleftrightarrow> (\<exists>g \<in> set (db_grants db). gr_org g = org \<and> gr_project g = project \<and>
     gr_membership g = membership \<and> \<not> gr_revoked g \<and> gr_level g = level)"

lemma current_member_live:
  "current_member db rq org = Inr m \<Longrightarrow> live_member db rq org (me_user m) (me_membership m)"
  by (auto simp: current_member_def member_rows_def live_member_def split: option.splits dest!: first_row_in) blast+

lemma granted_projects_live:
  "(p, l) \<in> set (granted_projects db org membership) \<Longrightarrow>
     p \<in> set (db_projects db) \<and> pj_org p = org \<and> live_grant db org (pj_id p) membership l"
  by (auto simp: granted_projects_def live_grant_def)

lemma check_accessE:
  assumes "check_access db rq reference opts = Inr ctx"
  obtains m where "map_option to_lower (rq_org rq) = Some (ac_org ctx)" "current_member db rq (ac_org ctx) = Inr m"
    "ac_user ctx = me_user m" "ac_membership ctx = me_membership m" "ac_role ctx = normalize_role (me_role m)"
    "ac_audience ctx = me_audience m" "ac_super ctx = me_super m" "\<not> audience_conflict (me_audience m) (ac_role ctx)"
    "(ac_project ctx, ac_level ctx) \<in> set (granted_projects db (ac_org ctx) (me_membership m))"
    "reference \<in> {pj_id (ac_project ctx), pj_code (ac_project ctx)}"
    "ao_level opts = Editor \<Longrightarrow> ac_level ctx = Editor \<and> ac_audience ctx \<noteq> ''client''"
    "me_audience m \<in> set (allowed_audiences opts)"
    "needed_permissions opts = [] \<or> (\<exists>p \<in> set (needed_permissions opts). has_role_permission (ac_role ctx) p (ac_super ctx) = Inr True)"
proof -
  from assms obtain org m p l permitted where *: "request_scope rq = Inr org" "current_member db rq org = Inr m"
      "me_audience m \<in> set (allowed_audiences opts)"
      "\<not> audience_conflict (me_audience m) (normalize_role (me_role m))"
      "first_row (filter (\<lambda>(p, l). pj_id p = reference \<or> pj_code p = reference) (granted_projects db org (me_membership m))) = Some (p, l)"
      "\<not> ((ao_level opts = Editor \<and> l \<noteq> Editor) \<or> (me_audience m = ''client'' \<and> (l \<noteq> Viewer \<or> ao_level opts \<noteq> Viewer)))"
      "some_res (\<lambda>p. has_role_permission (normalize_role (me_role m)) p (me_super m)) (needed_permissions opts) = Inr permitted"
      "needed_permissions opts \<noteq> [] \<longrightarrow> permitted"
      and ctx: "ctx = \<lparr>ac_org = org, ac_user = me_user m, ac_membership = me_membership m, ac_role = normalize_role (me_role m),
           ac_audience = me_audience m, ac_project = p, ac_level = l, ac_super = me_super m\<rparr>"
    by (auto simp: check_access_def Let_def split: option.splits prod.splits)
  have "(p, l) \<in> set (granted_projects db org (me_membership m))" and "reference \<in> {pj_id p, pj_code p}"
    using first_row_in [OF *(5)] by auto
  moreover have "needed_permissions opts = [] \<or>
      (\<exists>p \<in> set (needed_permissions opts). has_role_permission (normalize_role (me_role m)) p (me_super m) = Inr True)"
  proof (cases "needed_permissions opts = []")
    case False
    with *(7,8) have "some_res (\<lambda>p. has_role_permission (normalize_role (me_role m)) p (me_super m)) (needed_permissions opts) = Inr True"
      by simp
    from some_res_True [OF this] show ?thesis by blast
  qed simp
  ultimately show ?thesis
    using *(2-4,6) request_scope_Inr [OF *(1)] by (intro that [of m]) (auto simp: ctx)
qed


text \<open>What a session, its user and its membership give a request.\<close>

lemma current_member_rows:
  assumes "current_member db rq org = Inr m"
  obtains s u r where "s \<in> set (db_sessions db)" "Some (ss_token s) = rq_token rq" "rq_now rq < ss_expires s"
    "u \<in> set (db_users db)" "us_id u = ss_user s"
    "r \<in> set (db_memberships db)" "mb_user r = us_id u" "mb_org r = org" "\<not> mb_revoked r"
    "m = \<lparr>me_user = us_id u, me_super = us_super u, me_membership = mb_id r, me_role = mb_role r, me_audience = mb_audience r\<rparr>"
proof -
  from assms have "m \<in> set (member_rows db rq org)"
    by (auto simp: current_member_def split: option.splits dest!: first_row_in)
  then show ?thesis unfolding member_rows_def by (auto intro: that)
qed

lemma check_access_level:
  "check_access db rq reference opts = Inr ctx \<Longrightarrow> ac_org ctx \<in> set (db_orgs db) \<and>
     (ac_audience ctx = ''client'' \<longrightarrow> ac_level ctx = Viewer \<and> ao_level opts = Viewer)"
  by (auto simp: check_access_def Let_def split: option.splits prod.splits)

text \<open>
  C3: nobody acts on a project without a current grant. A request that is let through
  carries the token of an unexpired session; the user of the session has a live membership in
  the organisation, and the context the operation gets is that user's and that membership's:
  its super-admin flag, role and audience are those of the rows. The audience is one of those
  the operation names (the internal one if it names none) and fits the role, which is one of
  the thirteen. The membership has a live grant of the project, at the level the context
  carries; only an editor's grant permits editing, and a client neither edits nor holds an
  editor's grant. One of the permissions the operation names (for editing, the management
  of projects if it names none) is held by the member's role.
\<close>

theorem access_needs_live_grant:
  assumes "check_access db rq reference opts = Inr ctx"
  shows "map_option to_lower (rq_org rq) = Some (ac_org ctx) \<and> ac_org ctx \<in> set (db_orgs db) \<and>
    (\<exists>s \<in> set (db_sessions db). \<exists>u \<in> set (db_users db). \<exists>r \<in> set (db_memberships db).
      Some (ss_token s) = rq_token rq \<and> rq_now rq < ss_expires s \<and> us_id u = ss_user s \<and>
      mb_user r = us_id u \<and> mb_org r = ac_org ctx \<and> \<not> mb_revoked r \<and>
      ac_user ctx = us_id u \<and> ac_super ctx = us_super u \<and> ac_membership ctx = mb_id r \<and>
      ac_role ctx = normalize_role (mb_role r) \<and> ac_audience ctx = mb_audience r) \<and>
    ac_audience ctx \<in> set (case ao_audiences opts of Some a \<Rightarrow> a | None \<Rightarrow> [''internal'']) \<and>
    ac_role ctx \<in> set canonical_roles \<and> (ac_audience ctx = ''internal'' \<longrightarrow> ac_role ctx \<noteq> ''client_user'') \<and>
    (ac_audience ctx = ''client'' \<longrightarrow> ac_role ctx = ''client_user'' \<and> ac_level ctx = Viewer \<and> ao_level opts = Viewer) \<and>
    ac_project ctx \<in> set (db_projects db) \<and> pj_org (ac_project ctx) = ac_org ctx \<and>
    reference \<in> {pj_id (ac_project ctx), pj_code (ac_project ctx)} \<and>
    (\<exists>g \<in> set (db_grants db). gr_org g = ac_org ctx \<and> gr_project g = pj_id (ac_project ctx) \<and>
      gr_membership g = ac_membership ctx \<and> \<not> gr_revoked g \<and> gr_level g = ac_level ctx) \<and>
    (ao_level opts = Editor \<longrightarrow> ac_level ctx = Editor) \<and>
    (let needed = (case ao_permissions opts of Some ps \<Rightarrow> ps | None \<Rightarrow> if ao_level opts = Editor then [''projects.manage''] else [])
     in needed = [] \<or> (\<exists>p \<in> set needed. has_role_permission (ac_role ctx) p (ac_super ctx) = Inr True))"
proof (rule check_accessE [OF assms], goal_cases)
  case (1 m)
  obtain s u r where rows: "s \<in> set (db_sessions db)" "Some (ss_token s) = rq_token rq" "rq_now rq < ss_expires s"
      "u \<in> set (db_users db)" "us_id u = ss_user s"
      "r \<in> set (db_memberships db)" "mb_user r = us_id u" "mb_org r = ac_org ctx" "\<not> mb_revoked r"
      "m = \<lparr>me_user = us_id u, me_super = us_super u, me_membership = mb_id r, me_role = mb_role r, me_audience = mb_audience r\<rparr>"
    by (rule current_member_rows [OF 1(2)])
  have who: "\<exists>s \<in> set (db_sessions db). \<exists>u \<in> set (db_users db). \<exists>r \<in> set (db_memberships db).
      Some (ss_token s) = rq_token rq \<and> rq_now rq < ss_expires s \<and> us_id u = ss_user s \<and>
      mb_user r = us_id u \<and> mb_org r = ac_org ctx \<and> \<not> mb_revoked r \<and>
      ac_user ctx = us_id u \<and> ac_super ctx = us_super u \<and> ac_membership ctx = mb_id r \<and>
      ac_role ctx = normalize_role (mb_role r) \<and> ac_audience ctx = mb_audience r"
    using rows 1(3-7) by (intro bexI [of _ s] bexI [of _ u] bexI [of _ r]) simp_all
  have level: "ac_org ctx \<in> set (db_orgs db)" "ac_audience ctx = ''client'' \<longrightarrow> ac_level ctx = Viewer \<and> ao_level opts = Viewer"
    using check_access_level [OF assms] by blast+
  have role: "ac_role ctx \<in> set canonical_roles" "ac_audience ctx = ''internal'' \<longrightarrow> ac_role ctx \<noteq> ''client_user''"
      "ac_audience ctx = ''client'' \<longrightarrow> ac_role ctx = ''client_user''"
    using 1(8) by (simp_all add: audience_conflict_def 1(6))
  have "ac_project ctx \<in> set (db_projects db) \<and> pj_org (ac_project ctx) = ac_org ctx \<and>
      live_grant db (ac_org ctx) (pj_id (ac_project ctx)) (ac_membership ctx) (ac_level ctx)"
    using granted_projects_live [OF 1(9)] by (simp add: 1(4))
  with who level role 1 show ?case
    unfolding live_grant_def needed_permissions_def allowed_audiences_def Let_def by simp
qed

section \<open>One active grant\<close>

definition grant_slot :: "grant_row \<Rightarrow> string \<times> string \<times> string" where
  "grant_slot g = (gr_org g, gr_project g, gr_membership g)"

definition active_grants :: "grant_row list \<Rightarrow> grant_row list" where
  "active_grants gs = filter (\<lambda>g. \<not> gr_revoked g) gs"

definition grants_ok :: "grant_row list \<Rightarrow> bool" where
  "grants_ok gs \<longleftrightarrow> distinct (map gr_id gs) \<and> distinct (map grant_slot (active_grants gs))"

datatype grant_command = CreateGrant api_request grant_body | ChangeGrant api_request string grant_body | RevokeGrant api_request string grant_body

fun grant_step :: "hasher \<Rightarrow> 'd core_db_scheme \<Rightarrow> grant_command \<Rightarrow> 'd core_db_scheme res" where
  "grant_step H db (CreateGrant rq body) = bind_res (create_grant H db rq body) (\<lambda>(db', _). Inr db')"
| "grant_step H db (ChangeGrant rq i body) = bind_res (change_grant H db rq i body False) (\<lambda>(db', _). Inr db')"
| "grant_step H db (RevokeGrant rq i body) = bind_res (change_grant H db rq i body True) (\<lambda>(db', _). Inr db')"

lemma complete_grant_grants:
  "complete_grant H db rq org actor key operation hash i action payload = Inr (db', resp) \<Longrightarrow> db_grants db' = db_grants db"
  by (auto simp: complete_grant_def Let_def split: option.splits prod.splits)

lemma create_grant_grants:
  assumes "create_grant H db rq body = Inr (db', resp)"
  shows "db_grants db' = db_grants db \<or> (\<exists>g. db_grants db' = db_grants db @ [g] \<and> gr_id g \<notin> gr_id ` set (db_grants db) \<and>
    \<not> (\<exists>h \<in> set (db_grants db). gr_org h = gr_org g \<and> gr_project h = gr_project g \<and> gr_membership h = gr_membership g \<and> \<not> gr_revoked h))"
  using assms by (auto simp: create_grant_def Let_def list_ex_iff split: option.splits dest!: complete_grant_grants)

lemma change_grant_grants:
  assumes "change_grant H db rq i body revoke = Inr (db', resp)"
  shows "db' = db \<or> (\<exists>update g. db_grants db' = map (\<lambda>g. if gr_id g = to_lower i then update g else g) (db_grants db) \<and>
    g \<in> set (db_grants db) \<and> gr_id g = to_lower i \<and> map_option to_lower (rq_org rq) = Some (gr_org g) \<and> \<not> gr_revoked g \<and> (\<forall>g. gr_id (update g) = gr_id g \<and> gr_org (update g) = gr_org g \<and>
      gr_project (update g) = gr_project g \<and> gr_membership (update g) = gr_membership g \<and> gr_revoked (update g) = (revoke \<or> gr_revoked g)))"
proof (cases "db' = db")
  case False
  with assms show ?thesis
    by (cases revoke) (auto simp: change_grant_def Let_def revoke_row_def relevel_row_def
        split: option.splits dest!: complete_grant_grants find_Some_iff_in request_scope_Inr intro!: exI)
qed simp


lemma grants_ok_snoc:
  assumes "grants_ok gs" and "gr_id g \<notin> gr_id ` set gs"
    and "\<not> (\<exists>h \<in> set gs. gr_org h = gr_org g \<and> gr_project h = gr_project g \<and> gr_membership h = gr_membership g \<and> \<not> gr_revoked h)"
  shows "grants_ok (gs @ [g])"
  using assms by (auto simp: grants_ok_def active_grants_def grant_slot_def)

lemma grants_ok_update:
  assumes "grants_ok gs" and keep: "\<forall>g. gr_id (update g) = gr_id g \<and> gr_org (update g) = gr_org g \<and>
      gr_project (update g) = gr_project g \<and> gr_membership (update g) = gr_membership g \<and> (gr_revoked g \<longrightarrow> gr_revoked (update g))"
  shows "grants_ok (map (\<lambda>g. if gr_id g = i then update g else g) gs)"
proof -
  define f where "f = (\<lambda>g. if gr_id g = i then update g else g)"
  have f: "gr_id (f g) = gr_id g" "grant_slot (f g) = grant_slot g" "gr_revoked g \<Longrightarrow> gr_revoked (f g)" for g
    using keep [rule_format, of g] by (auto simp: grant_slot_def f_def)
  have sub: "grant_slot ` set (active_grants (map f xs)) \<subseteq> grant_slot ` set (active_grants xs)" for xs
    by (auto simp: active_grants_def f(2)) (metis (mono_tags, lifting) f(3) imageI mem_Collect_eq)
  have "distinct (map grant_slot (active_grants (map f xs)))" if "distinct (map grant_slot (active_grants xs))" for xs
    using that
  proof (induction xs)
    case (Cons x xs)
    then have "distinct (map grant_slot (active_grants (map f xs)))" by (simp add: active_grants_def split: if_splits)
    moreover have "grant_slot x \<notin> grant_slot ` set (active_grants (map f xs))" if "\<not> gr_revoked (f x)"
    proof -
      from that f(3) have "\<not> gr_revoked x" by blast
      with Cons.prems have "grant_slot x \<notin> grant_slot ` set (active_grants xs)" by (simp add: active_grants_def)
      with sub [of xs] show ?thesis by blast
    qed
    ultimately show ?case by (simp add: active_grants_def f(2))
  qed (simp add: active_grants_def)
  moreover have "map gr_id (map f gs) = map gr_id gs" by (simp add: f(1))
  ultimately show ?thesis
    using assms(1) unfolding grants_ok_def f_def [symmetric] by (simp del: map_map)
qed

lemma grants_ok_unique:
  assumes "grants_ok gs" and "g \<in> set gs" "h \<in> set gs" and "\<not> gr_revoked g" "\<not> gr_revoked h" and "grant_slot g = grant_slot h"
  shows "g = h"
  using assms by (auto simp: grants_ok_def active_grants_def distinct_map inj_on_def)

lemma grants_ok_id: "grants_ok gs \<Longrightarrow> g \<in> set gs \<Longrightarrow> h \<in> set gs \<Longrightarrow> gr_id g = gr_id h \<Longrightarrow> g = h"
  by (auto simp: grants_ok_def distinct_map inj_on_def)

lemma grant_step_ok:
  assumes ok: "grants_ok (db_grants db)" and "grant_step H db c = Inr db'"
  shows "grants_ok (db_grants db')"
proof (cases c)
  case (CreateGrant rq body)
  with assms obtain resp where "create_grant H db rq body = Inr (db', resp)" by auto
  from create_grant_grants [OF this] show ?thesis
    by (elim disjE exE conjE) (simp_all add: ok grants_ok_snoc)
next
  case (ChangeGrant rq i body)
  with assms obtain resp where "change_grant H db rq i body False = Inr (db', resp)" by auto
  from change_grant_grants [OF this] show ?thesis
    by (elim disjE exE conjE) (simp_all add: ok grants_ok_update)
next
  case (RevokeGrant rq i body)
  with assms obtain resp where "change_grant H db rq i body True = Inr (db', resp)" by auto
  from change_grant_grants [OF this] show ?thesis
    by (elim disjE exE conjE) (simp_all add: ok grants_ok_update)
qed

interpretation grant_commands: guarded_run "grant_step H" "\<lambda>db. grants_ok (db_grants db)" "\<lambda>_. True" for H
  by unfold_locales (rule grant_step_ok)

text \<open>
  C34: however many grant commands are attempted from a database without grants, a
  membership never has two active grants of the same project.
\<close>

theorem one_active_grant:
  assumes "db_grants db = []" and "g \<in> set (db_grants (attempts (grant_step H) db cs))" and "h \<in> set (db_grants (attempts (grant_step H) db cs))"
    and "\<not> gr_revoked g" and "\<not> gr_revoked h"
    and "gr_org g = gr_org h" and "gr_project g = gr_project h" and "gr_membership g = gr_membership h"
  shows "g = h"
proof -
  have "grants_ok (db_grants (attempts (grant_step H) db cs))"
    by (rule grant_commands.attempts_inv) (simp_all add: assms(1) grants_ok_def active_grants_def)
  from grants_ok_unique [OF this assms(2-5)] assms(6-) show ?thesis by (simp add: grant_slot_def)
qed

text \<open>
  C15: revocation takes effect at once. After an accepted revocation, no request acts under
  the membership on the project of the grant, whatever it asks for.
\<close>

theorem revocation_cuts_access:
  assumes "grants_ok (db_grants db)" and "change_grant H db rq i body True = Inr (db', resp)" and "db' \<noteq> db"
    and "g \<in> set (db_grants db)" and "gr_id g = to_lower i" and "check_access db' rq' reference opts = Inr ctx"
  shows "ac_org ctx \<noteq> gr_org g \<or> pj_id (ac_project ctx) \<noteq> gr_project g \<or> ac_membership ctx \<noteq> gr_membership g"
proof (rule ccontr)
  assume same: "\<not> ?thesis"
  obtain update and g' :: grant_row where u: "db_grants db' = map (\<lambda>g. if gr_id g = to_lower i then update g else g) (db_grants db)"
    and g': "g' \<in> set (db_grants db)" "gr_id g' = to_lower i" "\<not> gr_revoked g'"
    and keep: "\<forall>g. gr_id (update g) = gr_id g \<and> gr_org (update g) = gr_org g \<and> gr_project (update g) = gr_project g \<and>
      gr_membership (update g) = gr_membership g \<and> gr_revoked (update g)"
    using change_grant_grants [OF assms(2)] assms(3) by auto
  have "g' = g" using grants_ok_id [OF assms(1) g'(1) assms(4)] g'(2) assms(5) by simp
  have "(ac_project ctx, ac_level ctx) \<in> set (granted_projects db' (ac_org ctx) (ac_membership ctx))"
    by (rule check_accessE [OF assms(6)]) simp
  from granted_projects_live [OF this] same obtain h :: grant_row where h: "h \<in> set (db_grants db')" "\<not> gr_revoked h"
      "gr_org h = gr_org g" "gr_project h = gr_project g" "gr_membership h = gr_membership g"
    by (auto simp: live_grant_def)
  from h(1,2) u keep have "h \<in> set (db_grants db)" "gr_id h \<noteq> to_lower i" by auto
  moreover have "h = g"
    using grants_ok_unique [OF assms(1) calculation(1) assms(4)] h g'(3) \<open>g' = g\<close> by (simp add: grant_slot_def)
  ultimately show False using assms(5) by simp
qed


section \<open>Examples\<close>

definition uid :: "char \<Rightarrow> string" where
  "uid c = replicate 8 c @ ''-'' @ replicate 4 c @ ''-'' @ replicate 4 c @ ''-'' @ replicate 4 c @ ''-'' @ replicate 12 c"

definition example_hasher :: hasher where
  "example_hasher = \<lparr>hs_sha = (\<lambda>s. s), hs_num = (\<lambda>x. nat_str (nat \<lfloor>x\<rfloor>))\<rparr>"

definition gala :: project_row where
  "gala = \<lparr>pj_id = uid (CHR ''b''), pj_org = uid (CHR ''a''), pj_code = ''PRJ-1'', pj_title = ''Gala'', pj_description = ''Dinner'',
     pj_origin = ''TENDER'', pj_owner = ''u2'', pj_client = None, pj_programme = None, pj_template = None, pj_maturity = ''draft'',
     pj_outcome = ''undetermined'', pj_by = ''u1'', pj_metadata = JNull, pj_created = 0\<rparr>"

lemma gala_simps [simp]: "pj_id gala = uid (CHR ''b'')" "pj_org gala = uid (CHR ''a'')" "pj_code gala = ''PRJ-1''"
  by (simp_all add: gala_def)

text \<open>An organisation with a super admin (session \<open>adm\<close>) and a project manager (session \<open>pm\<close>).\<close>

definition example_core :: core_db where
  "example_core = \<lparr>db_orgs = [uid (CHR ''a'')],
     db_users = [\<lparr>us_id = ''u1'', us_name = ''Ann'', us_email = ''a@e3'', us_super = True\<rparr>,
       \<lparr>us_id = ''u2'', us_name = ''Bob'', us_email = ''b@e3'', us_super = False\<rparr>],
     db_sessions = [\<lparr>ss_token = ''adm'', ss_user = ''u1'', ss_expires = 1000\<rparr>, \<lparr>ss_token = ''pm'', ss_user = ''u2'', ss_expires = 1000\<rparr>],
     db_memberships = [\<lparr>mb_id = uid (CHR ''1''), mb_org = uid (CHR ''a''), mb_user = ''u1'', mb_role = ''super_admin'', mb_audience = ''internal'', mb_revoked = False, mb_version = 1\<rparr>,
       \<lparr>mb_id = uid (CHR ''2''), mb_org = uid (CHR ''a''), mb_user = ''u2'', mb_role = ''project_manager'', mb_audience = ''internal'', mb_revoked = False, mb_version = 1\<rparr>],
     db_projects = [gala],
     db_grants = [], db_receipts = [], db_audit = [], db_outbox = []\<rparr>"

definition example_request :: "string \<Rightarrow> string \<Rightarrow> char list \<Rightarrow> int \<Rightarrow> api_request" where
  "example_request token key cs now = \<lparr>rq_org = Some (uid (CHR ''a'')), rq_token = Some token, rq_key = Some key, rq_now = now,
     rq_ids = (\<lambda>n. uid (cs ! n))\<rparr>"

definition example_body :: grant_body where
  "example_body = \<lparr>gb_project = Some (uid (CHR ''b'')), gb_membership = Some (uid (CHR ''2'')), gb_level = Some ''editor'',
     gb_reason = Some ''lead'', gb_version = Some 1\<rparr>"

definition editor_access :: access_options where
  "editor_access = \<lparr>ao_level = Editor, ao_permissions = None, ao_audiences = None\<rparr>"

lemma uid_eq [simp]: "uid c = uid d \<longleftrightarrow> c = d"
  by (auto simp: uid_def)

lemma uid_lower: "lower_char c = c \<Longrightarrow> to_lower (uid c) = uid c"
  by (simp add: uid_def to_lower_def lower_char_def)

lemma uid_uuid: "is_hex c \<Longrightarrow> uuid_text (uid c)"
  by (simp add: uuid_text_def uid_def eval_nat_numeral upt_conv_Cons)

lemma uid_lowers [simp]: "to_lower (uid (CHR ''a'')) = uid (CHR ''a'')" "to_lower (uid (CHR ''b'')) = uid (CHR ''b'')"
    "to_lower (uid (CHR ''2'')) = uid (CHR ''2'')" "to_lower (uid (CHR ''3'')) = uid (CHR ''3'')"
  by (rule uid_lower; simp add: lower_char_def)+

lemma uid_uuids [simp]: "uuid_text (uid (CHR ''a''))" "uuid_text (uid (CHR ''b''))" "uuid_text (uid (CHR ''2''))" "uuid_text (uid (CHR ''3''))"
  by (rule uid_uuid; simp add: is_hex_def lower_char_def)+

lemma example_roles [simp]: "normalize_role ''super_admin'' = ''super_admin''" "normalize_role ''project_manager'' = ''project_manager''"
  "has_role_permission ''project_manager'' ''projects.manage'' False = Inr True"
  by code_simp+

lemma example_texts [simp]: "trim ''k1'' = ''k1''" "trim ''k2'' = ''k2''" "trim ''lead'' = ''lead''" "trim ''PRJ-1'' = ''PRJ-1''"
  by code_simp+

lemmas grant_eval = create_grant_def change_grant_def complete_grant_def request_scope_def command_key_def valid_id_def valid_level_def
  valid_reason_def valid_version_def in_transaction_def admin_member_def current_member_def member_rows_def first_row_def replay_def
  find_receipt_def allow_target_def canonical_roles_def insert_row_def summary_row_def example_core_def example_request_def
  example_body_def Let_def

definition granted_core :: core_db where
  "granted_core = attempts (grant_step example_hasher) example_core [CreateGrant (example_request ''adm'' ''k1'' ''123'' 10) example_body]"

definition editor_grant :: grant_row where
  "editor_grant = \<lparr>gr_id = uid (CHR ''3''), gr_org = uid (CHR ''a''), gr_project = uid (CHR ''b''), gr_membership = uid (CHR ''2''), gr_level = Editor,
     gr_version = 1, gr_revoked = False, gr_by = ''u1'', gr_at = 10, gr_updated = 10, gr_revoked_by = None, gr_revoked_at = None, gr_reason = ''lead''\<rparr>"

lemma granted_core_eq: "\<exists>a e r. granted_core = example_core\<lparr>db_grants := [editor_grant], db_audit := [a], db_outbox := [e], db_receipts := [r]\<rparr> \<and>
    au_id a = uid (CHR ''1'') \<and> ob_event e = uid (CHR ''2'') \<and> rc_key r = ''k1''"
  by (simp add: granted_core_def grant_eval editor_grant_def)

lemma granted_core_grants: "db_grants granted_core = [editor_grant]" "grants_ok (db_grants granted_core)"
proof -
  obtain a e r where eq: "granted_core = example_core\<lparr>db_grants := [editor_grant], db_audit := [a], db_outbox := [e], db_receipts := [r]\<rparr>"
    using granted_core_eq by blast
  show "db_grants granted_core = [editor_grant]" unfolding eq by simp
  then show "grants_ok (db_grants granted_core)" by (simp add: grants_ok_def active_grants_def)
qed

definition editor_context :: access_context where
  "editor_context = \<lparr>ac_org = uid (CHR ''a''), ac_user = ''u2'', ac_membership = uid (CHR ''2''), ac_role = ''project_manager'',
     ac_audience = ''internal'', ac_project = gala,
     ac_level = Editor, ac_super = False\<rparr>"

lemma editor_access_granted:
  "check_access granted_core (example_request ''pm'' ''k2'' ''456'' 20) ''PRJ-1'' editor_access = Inr editor_context"
proof -
  obtain a e r where eq: "granted_core = example_core\<lparr>db_grants := [editor_grant], db_audit := [a], db_outbox := [e], db_receipts := [r]\<rparr>"
    using granted_core_eq by blast
  show ?thesis unfolding eq
    by (simp add: check_access_def grant_eval editor_access_def granted_projects_def editor_grant_def allowed_audiences_def
        needed_permissions_def audience_conflict_def some_res_def editor_context_def)
qed

theorem access_needs_live_grant_witness:
  "(\<exists>r \<in> set (db_memberships granted_core). \<not> mb_revoked r \<and> mb_id r = uid (CHR ''2'') \<and> mb_audience r = ''internal'') \<and>
   (\<exists>g \<in> set (db_grants granted_core). gr_membership g = uid (CHR ''2'') \<and> \<not> gr_revoked g \<and> gr_level g = Editor)"
  using access_needs_live_grant [OF editor_access_granted] by (auto simp: editor_context_def)

theorem one_active_grant_witness:
  "db_grants granted_core = [editor_grant] \<and> (\<exists>g \<in> set (db_grants granted_core). g = editor_grant)"
proof -
  have empty: "db_grants example_core = []" by (simp add: example_core_def)
  have "editor_grant \<in> set (db_grants granted_core)" by (simp add: granted_core_grants)
  note in_run = this [unfolded granted_core_def]
  have "\<not> gr_revoked editor_grant" by (simp add: editor_grant_def)
  from one_active_grant [OF empty in_run in_run this this refl refl refl] show ?thesis by (simp add: granted_core_grants)
qed

lemma revoke_accepted: "\<exists>db' resp. change_grant example_hasher granted_core (example_request ''adm'' ''k2'' ''456'' 20) (uid (CHR ''3'')) example_body True
    = Inr (db', resp) \<and> length (db_audit db') = 2 \<and> length (db_audit granted_core) = 1"
proof -
  obtain a e r where eq: "granted_core = example_core\<lparr>db_grants := [editor_grant], db_audit := [a], db_outbox := [e], db_receipts := [r]\<rparr>"
      and fresh: "au_id a = uid (CHR ''1'')" "ob_event e = uid (CHR ''2'')" "rc_key r = ''k1''"
    using granted_core_eq by blast
  show ?thesis unfolding eq
    by (simp add: grant_eval editor_grant_def revoke_row_def fresh)
qed

theorem revocation_cuts_access_witness:
  "\<exists>db' resp. change_grant example_hasher granted_core (example_request ''adm'' ''k2'' ''456'' 20) (uid (CHR ''3'')) example_body True
     = Inr (db', resp) \<and> check_access db' (example_request ''pm'' ''k2'' ''456'' 20) ''PRJ-1'' editor_access \<noteq> Inr editor_context"
proof -
  obtain db' resp where run: "change_grant example_hasher granted_core (example_request ''adm'' ''k2'' ''456'' 20) (uid (CHR ''3'')) example_body True
      = Inr (db', resp)" "length (db_audit db') = 2" "length (db_audit granted_core) = 1"
    using revoke_accepted by blast
  then have changed: "db' \<noteq> granted_core" by auto
  have "editor_grant \<in> set (db_grants granted_core)" "gr_id editor_grant = to_lower (uid (CHR ''3''))"
    by (simp_all add: granted_core_grants editor_grant_def)
  from revocation_cuts_access [OF granted_core_grants(2) run(1) changed this, of _ _ _ editor_context] run(1) show ?thesis
    by (auto simp: editor_context_def editor_grant_def)
qed

end
