(* ===== verification/Durable_Command.thy ===== *)
theory Durable_Command
  imports Project_Access
begin

text \<open>
  The durable command of a project: \<open>apps/api/src/projects/durable-project-command.ts\<close>. A
  command checks the caller's access, answers a repeated key from the stored receipt, and
  otherwise commits the change of a register together with an audit event that is linked to
  the one before it, an outbox event and the receipt. The registers state what they promise
  in return as the locale \<open>project_mutation\<close>.
\<close>

section \<open>Texts that do not depend on the order of keys\<close>

fun stable :: "json \<Rightarrow> json" where
  "stable (JArr xs) = JArr (map stable xs)"
| "stable (JObj kvs) = JObj (sort_key fst (filter (\<lambda>(k, v). v \<noteq> JUndef) (map (\<lambda>(k, v). (k, stable v)) kvs)))"
| "stable v = v"

definition stable_hash :: "hasher \<Rightarrow> json \<Rightarrow> string" where
  "stable_hash H v = digest_json H (stable v)"

section \<open>The command\<close>

record project_command =
  cm_operation :: string
  cm_action :: string
  cm_type :: string
  cm_input :: json

record mutation =
  mu_id :: string
  mu_data :: "(string \<times> json) list"
  mu_event :: "(string \<times> json) list"
  mu_version :: "int option"

definition version_or_1 :: "mutation \<Rightarrow> int" where
  "version_or_1 m = (case mu_version m of Some v \<Rightarrow> if v = 0 then 1 else v | None \<Rightarrow> 1)"

definition event_fields :: "access_context \<Rightarrow> mutation \<Rightarrow> (string \<times> json) list" where
  "event_fields ctx m = map_set ''targetVersion'' (JNum (of_int (version_or_1 m)))
     (map_set ''targetId'' (JStr (mu_id m)) (map_set ''projectId'' (JStr (pj_id (ac_project ctx))) (mu_event m)))"

definition response_of :: "api_request \<Rightarrow> mutation \<Rightarrow> json" where
  "response_of rq m = JObj [(''data'', JObj (map_set ''eventId'' (JStr (rq_ids rq 1)) (map_set ''auditEventId'' (JStr (rq_ids rq 0))
       (map_set ''id'' (JStr (mu_id m)) (mu_data m))))),
     (''meta'', JObj [(''requestId'', JStr (rq_ids rq 0)), (''dataAsOf'', JStr (iso_text (rq_now rq)))])]"

definition audit_of :: "hasher \<Rightarrow> 'd core_db_scheme \<Rightarrow> api_request \<Rightarrow> access_context \<Rightarrow> project_command \<Rightarrow> mutation \<Rightarrow> audit_row" where
  "audit_of H db rq ctx cmd m = \<lparr>au_id = rq_ids rq 0, au_org = ac_org ctx, au_actor = ac_user ctx, au_action = cm_action cmd,
     au_type = cm_type cmd, au_target = mu_id m, au_version = Some (version_or_1 m), au_digest = stable_hash H (JObj (event_fields ctx m)),
     au_previous = latest_digest db (ac_org ctx), au_at = rq_now rq\<rparr>"

definition outbox_of :: "api_request \<Rightarrow> access_context \<Rightarrow> project_command \<Rightarrow> mutation \<Rightarrow> outbox_row" where
  "outbox_of rq ctx cmd m = \<lparr>ob_event = rq_ids rq 1, ob_org = ac_org ctx, ob_type = cm_action cmd @ ''.v1'',
     ob_payload = JObj (map_set ''auditEventId'' (JStr (rq_ids rq 0)) (event_fields ctx m))\<rparr>"

definition request_hash :: "hasher \<Rightarrow> access_context \<Rightarrow> project_command \<Rightarrow> string" where
  "request_hash H ctx cmd = stable_hash H (JObj [(''projectId'', JStr (pj_id (ac_project ctx))), (''input'', cm_input cmd)])"

definition receipt_of :: "hasher \<Rightarrow> api_request \<Rightarrow> string \<Rightarrow> access_context \<Rightarrow> project_command \<Rightarrow> mutation \<Rightarrow> receipt_row" where
  "receipt_of H rq key ctx cmd m = \<lparr>rc_org = ac_org ctx, rc_actor = ac_user ctx, rc_key = key, rc_operation = cm_operation cmd,
     rc_hash = request_hash H ctx cmd, rc_response = response_of rq m\<rparr>"

definition commit_mutation ::
  "hasher \<Rightarrow> 'd core_db_scheme \<Rightarrow> api_request \<Rightarrow> string \<Rightarrow> access_context \<Rightarrow> project_command \<Rightarrow> mutation \<Rightarrow> ('d core_db_scheme \<times> json) res" where
  "commit_mutation H db rq key ctx cmd m =
     bind_res (insert_row au_id (audit_of H db rq ctx cmd m) (db_audit db)) (\<lambda>audits.
     bind_res (insert_row ob_event (outbox_of rq ctx cmd m) (db_outbox db)) (\<lambda>events.
     bind_res (insert_row (\<lambda>r. (rc_org r, rc_key r)) (receipt_of H rq key ctx cmd m) (db_receipts db)) (\<lambda>receipts.
     Inr (db\<lparr>db_audit := audits, db_outbox := events, db_receipts := receipts\<rparr>, response_of rq m))))"

definition run_command ::
  "hasher \<Rightarrow> 'd core_db_scheme \<Rightarrow> api_request \<Rightarrow> string \<Rightarrow> access_options \<Rightarrow> project_command \<Rightarrow>
     ('d core_db_scheme \<Rightarrow> access_context \<Rightarrow> unit res) \<Rightarrow> ('d core_db_scheme \<Rightarrow> access_context \<Rightarrow> ('d core_db_scheme \<times> mutation) res) \<Rightarrow>
     ('d core_db_scheme \<times> json) res" where
  "run_command H db rq reference opts cmd authorize mutate =
     bind_res (command_key rq) (\<lambda>key. with_access db rq reference opts (\<lambda>db ctx.
     bind_res (authorize db ctx) (\<lambda>_.
     bind_res (replay db (ac_org ctx) (ac_user ctx) key (cm_operation cmd) (request_hash H ctx cmd)) (\<lambda>prior. case prior of
         Some r \<Rightarrow> Inr (db, rc_response r)
       | None \<Rightarrow> bind_res (mutate db ctx) (\<lambda>(db1, m). commit_mutation H db1 rq key ctx cmd m)))))"

text \<open>An error of the change is the answer, and nothing is written.\<close>

lemma refused_command:
  assumes "command_key rq = Inr key" and "check_access db rq reference opts = Inr ctx" and "authorize db ctx = Inr ()"
    and "find_receipt db (ac_org ctx) key = None" and "mutate db ctx = Inl (Thrown code details)"
  shows "run_command H db rq reference opts cmd authorize mutate = Inl (Thrown code details)"
  using assms check_access_level [OF assms(2)]
  by (simp add: run_command_def with_access_def replay_def in_transaction_def)

section \<open>At most once\<close>

text \<open>
  The contract of a consumer that recognises what it has taken: an accepted message is
  recorded, nothing recorded is forgotten, and a message that is recorded changes nothing.
\<close>

fun effects :: "('s \<Rightarrow> 'm \<Rightarrow> 's res) \<Rightarrow> ('m \<Rightarrow> 'i) \<Rightarrow> ('s \<Rightarrow> 'i set) \<Rightarrow> 's \<Rightarrow> 'm list \<Rightarrow> 'i list" where
  "effects step ident seen s [] = []"
| "effects step ident seen s (m # ms) = (case step s m of
       Inl _ \<Rightarrow> effects step ident seen s ms
     | Inr s' \<Rightarrow> (if ident m \<in> seen s then [] else [ident m]) @ effects step ident seen s' ms)"

locale idempotent_consumer =
  fixes step :: "'s \<Rightarrow> 'm \<Rightarrow> 's res" and ident :: "'m \<Rightarrow> 'i" and seen :: "'s \<Rightarrow> 'i set"
  assumes recorded: "step s m = Inr s' \<Longrightarrow> seen s' = insert (ident m) (seen s)"
    and recognised: "step s m = Inr s' \<Longrightarrow> ident m \<in> seen s \<Longrightarrow> s' = s"
begin

lemma effects_once: "distinct (effects step ident seen s ms) \<and> set (effects step ident seen s ms) \<inter> seen s = {}"
  by (induction ms arbitrary: s) (auto dest: recorded split: sum.splits)

lemma seen_after: "seen (attempts step s ms) = seen s \<union> set (effects step ident seen s ms)"
  by (induction ms arbitrary: s) (auto dest: recorded split: sum.splits)

text \<open>Delivering a sequence again, while it is recorded, changes nothing.\<close>

lemma redelivery:
  assumes "\<And>m. m \<in> set ms \<Longrightarrow> ident m \<in> seen s"
  shows "attempts step s ms = s"
  using assms by (induction ms) (auto dest: recognised split: sum.splits)

end

section \<open>What a register promises\<close>

locale project_mutation =
  fixes mutate :: "'d core_db_scheme \<Rightarrow> access_context \<Rightarrow> ('d core_db_scheme \<times> mutation) res"
  assumes core_kept: "mutate db ctx = Inr (db1, m) \<Longrightarrow> core_db.truncate db1 = core_db.truncate db"
begin

lemma tables_kept:
  assumes "mutate db ctx = Inr (db1, m)"
  shows "db_orgs db1 = db_orgs db" "db_users db1 = db_users db" "db_sessions db1 = db_sessions db"
    "db_memberships db1 = db_memberships db" "db_projects db1 = db_projects db" "db_grants db1 = db_grants db"
    "db_receipts db1 = db_receipts db" "db_audit db1 = db_audit db" "db_outbox db1 = db_outbox db"
  using core_kept [OF assms] by (simp_all add: core_db.truncate_def)

text \<open>An accepted command either answers from a receipt or commits exactly one of each record.\<close>

lemma accepted_command:
  assumes "run_command H db rq reference opts cmd authorize mutate = Inr (db', response)"
  obtains (replayed) key ctx r where "command_key rq = Inr key" "check_access db rq reference opts = Inr ctx"
      "find_receipt db (ac_org ctx) key = Some r" "rc_actor r = ac_user ctx" "rc_operation r = cm_operation cmd"
      "rc_hash r = request_hash H ctx cmd" "response = rc_response r" "db' = db"
  | (executed) key ctx db1 m where "command_key rq = Inr key" "check_access db rq reference opts = Inr ctx"
      "find_receipt db (ac_org ctx) key = None" "authorize db ctx = Inr ()" "mutate db ctx = Inr (db1, m)" "response = response_of rq m"
      "db' = db1\<lparr>db_audit := db_audit db @ [audit_of H db rq ctx cmd m], db_outbox := db_outbox db @ [outbox_of rq ctx cmd m],
         db_receipts := db_receipts db @ [receipt_of H rq key ctx cmd m]\<rparr>"
proof -
  from assms obtain key ctx prior where *: "command_key rq = Inr key" "check_access db rq reference opts = Inr ctx"
      "authorize db ctx = Inr ()" "replay db (ac_org ctx) (ac_user ctx) key (cm_operation cmd) (request_hash H ctx cmd) = Inr prior"
      and rest: "(case prior of Some r \<Rightarrow> Inr (db, rc_response r)
        | None \<Rightarrow> bind_res (mutate db ctx) (\<lambda>(db1, m). commit_mutation H db1 rq key ctx cmd m)) = Inr (db', response)"
    by (auto simp: run_command_def with_access_def)
  show ?thesis
  proof (cases prior)
    case (Some r)
    then have "find_receipt db (ac_org ctx) key = Some r" "rc_actor r = ac_user ctx" "rc_operation r = cm_operation cmd"
        "rc_hash r = request_hash H ctx cmd"
      using *(4) by (auto simp: replay_def split: option.splits if_splits)
    moreover have "response = rc_response r" "db' = db" using Some rest by auto
    ultimately show ?thesis by (rule replayed [OF *(1,2)])
  next
    case None
    with rest obtain db1 m where m: "mutate db ctx = Inr (db1, m)" and c: "commit_mutation H db1 rq key ctx cmd m = Inr (db', response)"
      by (auto simp only: option.case bind_res_Inr_conv split_paired_Ex case_prod_conv)
    have "find_receipt db (ac_org ctx) key = None" using *(4) None by (auto simp: replay_def split: option.splits if_splits)
    moreover have "audit_of H db1 rq ctx cmd m = audit_of H db rq ctx cmd m"
      using tables_kept(8) [OF m] by (simp add: audit_of_def latest_digest_def)
    moreover have "response = response_of rq m"
      and "db' = db1\<lparr>db_audit := db_audit db1 @ [audit_of H db1 rq ctx cmd m], db_outbox := db_outbox db1 @ [outbox_of rq ctx cmd m],
         db_receipts := db_receipts db1 @ [receipt_of H rq key ctx cmd m]\<rparr>"
      using c by (simp_all add: commit_mutation_def)
    ultimately show ?thesis
      using executed [OF *(1,2) _ *(3) m] by (simp add: tables_kept(7-9) [OF m])
  qed
qed

lemma find_snoc: "List.find P xs = None \<Longrightarrow> P x \<Longrightarrow> List.find P (xs @ [x]) = Some x"
  by (induction xs) (auto split: if_splits)

text \<open>What makes a command be executed.\<close>

lemma executed_command:
  assumes "command_key rq = Inr key" and "check_access db rq reference opts = Inr ctx" and "authorize db ctx = Inr ()"
    and "find_receipt db (ac_org ctx) key = None" and m: "mutate db ctx = Inr (db1, m)"
    and "rq_ids rq 0 \<notin> au_id ` set (db_audit db)" and "rq_ids rq 1 \<notin> ob_event ` set (db_outbox db)"
  shows "run_command H db rq reference opts cmd authorize mutate = Inr (db1\<lparr>db_audit := db_audit db @ [audit_of H db rq ctx cmd m],
    db_outbox := db_outbox db @ [outbox_of rq ctx cmd m], db_receipts := db_receipts db @ [receipt_of H rq key ctx cmd m]\<rparr>, response_of rq m)"
proof -
  have org: "ac_org ctx \<in> set (db_orgs db)"
    using assms(2) by (auto simp: check_access_def Let_def split: option.splits)
  have "audit_of H db1 rq ctx cmd m = audit_of H db rq ctx cmd m"
    using tables_kept(8) [OF m] by (simp add: audit_of_def latest_digest_def)
  moreover have "au_id (audit_of H db rq ctx cmd m) = rq_ids rq 0" "ob_event (outbox_of rq ctx cmd m) = rq_ids rq 1"
      "(rc_org (receipt_of H rq key ctx cmd m), rc_key (receipt_of H rq key ctx cmd m)) = (ac_org ctx, key)"
    by (simp_all add: audit_of_def outbox_of_def receipt_of_def)
  moreover have "(ac_org ctx, key) \<notin> (\<lambda>r. (rc_org r, rc_key r)) ` set (db_receipts db)"
    using assms(4) by (auto simp: find_receipt_def find_None_iff)
  ultimately show ?thesis
    using assms org by (simp add: run_command_def with_access_def replay_def commit_mutation_def tables_kept(7-9) [OF m])
qed

text \<open>With access, an unused key and fresh identifiers, a command is accepted exactly when its change is possible.\<close>

lemma fresh_command_returns:
  assumes "command_key rq = Inr key" and "check_access db rq reference opts = Inr ctx" and "authorize db ctx = Inr ()"
    and "find_receipt db (ac_org ctx) key = None"
    and "rq_ids rq 0 \<notin> au_id ` set (db_audit db)" and "rq_ids rq 1 \<notin> ob_event ` set (db_outbox db)"
  shows "returns (run_command H db rq reference opts cmd authorize mutate) \<longleftrightarrow> (\<exists>db1 m. mutate db ctx = Inr (db1, m))"
proof
  assume "returns (run_command H db rq reference opts cmd authorize mutate)"
  then obtain db' response where "run_command H db rq reference opts cmd authorize mutate = Inr (db', response)"
    by (auto simp: returns_conv)
  then show "\<exists>db1 m. mutate db ctx = Inr (db1, m)"
    by (cases rule: accepted_command) (use assms in auto)
next
  assume "\<exists>db1 m. mutate db ctx = Inr (db1, m)"
  then obtain db1 m where "mutate db ctx = Inr (db1, m)" by blast
  from executed_command [where authorize = authorize, OF assms(1-4) this assms(5,6)] show "returns (run_command H db rq reference opts cmd authorize mutate)"
    by simp
qed

text \<open>A retry, at whatever time and with whatever fresh identifiers, gets the response of the first.\<close>

lemma retry:
  assumes "run_command H db rq reference opts cmd authorize mutate = Inr (db', response)"
    and "check_access db rq reference opts = Inr ctx" and "rq_key rq' = rq_key rq" and "check_access db' rq' reference' opts' = Inr ctx'"
    and "ac_org ctx' = ac_org ctx" "ac_user ctx' = ac_user ctx" "pj_id (ac_project ctx') = pj_id (ac_project ctx)"
    and "authorize' db' ctx' = Inr ()"
  shows "run_command H db' rq' reference' opts' cmd authorize' mutate' = Inr (db', response)"
proof -
  have org: "ac_org ctx' \<in> set (db_orgs db')"
    using assms(4) by (auto simp: check_access_def Let_def split: option.splits)
  have hash: "request_hash H ctx' cmd = request_hash H ctx cmd" using assms(7) by (simp add: request_hash_def)
  have key: "command_key rq' = command_key rq" using assms(3) by (simp add: command_key_def)
  from assms(1) show ?thesis
  proof (cases rule: accepted_command)
    case (replayed k c r)
    with assms(2) have "c = ctx" by simp
    with replayed assms(4-8) key org hash show ?thesis
      by (simp add: run_command_def with_access_def replay_def)
  next
    case (executed k c db1 m)
    with assms(2) have c: "c = ctx" by simp
    have "find_receipt db' (ac_org ctx) k = Some (receipt_of H rq k ctx cmd m)"
      using executed(3,7) by (simp add: find_receipt_def c find_snoc receipt_of_def)
    with executed c assms(4-8) key org hash show ?thesis
      by (simp add: run_command_def with_access_def replay_def receipt_of_def)
  qed
qed

end

section \<open>What a command can throw\<close>

text \<open>An operation that throws only the codes of a list; the rules follow the shape of the code.\<close>

definition coded :: "string list \<Rightarrow> 'a res \<Rightarrow> bool" where
  "coded cs r \<longleftrightarrow> (\<forall>c xs. r = Inl (Thrown c xs) \<longrightarrow> c \<in> set cs)"

named_theorems codes

lemma coded_Inr [codes]: "coded cs (Inr x)"
  by (simp add: coded_def)

lemma coded_fail [codes]: "c \<in> set cs \<Longrightarrow> coded cs (fail c)"
  by (simp add: coded_def fail_def)

lemma coded_throw_if [codes]: "c \<in> set cs \<Longrightarrow> coded cs (throw_if b (Thrown c xs))"
  by (auto simp: coded_def)

lemma coded_bind [codes]: "coded cs m \<Longrightarrow> (\<And>x. m = Inr x \<Longrightarrow> coded cs (f x)) \<Longrightarrow> coded cs (bind_res m f)"
  by (auto simp: coded_def bind_res_Inl_conv)

lemma coded_if [codes]: "(b \<Longrightarrow> coded cs x) \<Longrightarrow> (\<not> b \<Longrightarrow> coded cs y) \<Longrightarrow> coded cs (if b then x else y)"
  by simp

lemma coded_option [codes]: "(v = None \<Longrightarrow> coded cs x) \<Longrightarrow> (\<And>a. v = Some a \<Longrightarrow> coded cs (f a)) \<Longrightarrow> coded cs (case v of None \<Rightarrow> x | Some a \<Rightarrow> f a)"
  by (cases v) simp_all

lemma coded_prod [codes]: "(\<And>a b. v = (a, b) \<Longrightarrow> coded cs (f a b)) \<Longrightarrow> coded cs (case v of (a, b) \<Rightarrow> f a b)"
  by (cases v) simp

lemma coded_transaction [codes]:
  "''UNAUTHENTICATED'' \<in> set cs \<Longrightarrow> ''PROJECT_ACCESS_STORAGE_UNAVAILABLE'' \<in> set cs \<Longrightarrow> coded cs r \<Longrightarrow> coded cs (in_transaction db org r)"
  by (auto simp: in_transaction_def coded_def fail_def split: sum.splits eos_error.splits)

lemma coded_insert [codes]: "''PROJECT_ACCESS_STORAGE_UNAVAILABLE'' \<in> set cs \<Longrightarrow> coded cs (insert_row k row rows)"
  by (simp add: insert_row_def coded_if coded_Inr coded_fail)

lemma coded_role [codes]: "coded cs (has_role_permission r p s)"
  by (auto simp: has_role_permission_def coded_def split: role_lookup.splits)

lemma coded_some [codes]: "(\<And>x. coded cs (p x)) \<Longrightarrow> coded cs (some_res p ys)"
  by (induction ys) (auto simp: some_res_def intro!: codes)

definition access_codes :: "string list" where
  "access_codes = [''UNAUTHENTICATED'', ''VALIDATION_ERROR'', ''PROJECT_ACCESS_STORAGE_UNAVAILABLE'', ''PROJECT_AUDIENCE_FORBIDDEN'',
     ''PROJECT_NOT_FOUND'', ''PROJECT_ACCESS_LEVEL_REQUIRED'', ''PROJECT_ROLE_PERMISSION_REQUIRED'', ''MISSING_IDEMPOTENCY_KEY'', ''IDEMPOTENCY_CONFLICT'']"

lemma coded_check_access [codes]: "set access_codes \<subseteq> set cs \<Longrightarrow> coded cs (check_access db rq ref opts)"
  unfolding check_access_def Let_def request_scope_def current_member_def
  by (intro codes) (simp_all add: access_codes_def)

lemma coded_run_command [codes]:
  assumes "set access_codes \<subseteq> set cs" and "\<And>ctx. coded cs (authorize db ctx)" and "\<And>ctx. coded cs (mutate db ctx)"
  shows "coded cs (run_command H db rq ref opts cmd authorize mutate)"
  unfolding run_command_def with_access_def command_key_def replay_def commit_mutation_def
  by (intro codes assms) (use assms(1) in \<open>simp_all add: access_codes_def\<close>)

section \<open>The audit chain\<close>

definition org_audit :: "'d core_db_scheme \<Rightarrow> string \<Rightarrow> audit_row list" where
  "org_audit db org = filter (\<lambda>a. au_org a = org) (db_audit db)"

text \<open>Each event of an organisation carries the digest of the one before it, the first none.\<close>

fun linked :: "string option \<Rightarrow> audit_row list \<Rightarrow> bool" where
  "linked d [] \<longleftrightarrow> True"
| "linked d (a # as) \<longleftrightarrow> au_previous a = d \<and> linked (Some (au_digest a)) as"

definition audit_chain :: "audit_row list \<Rightarrow> bool" where
  "audit_chain as \<longleftrightarrow> linked None as \<and> sorted_wrt (\<lambda>a b. au_at a < au_at b) as"

definition last_digest :: "string option \<Rightarrow> audit_row list \<Rightarrow> string option" where
  "last_digest d as = (if as = [] then d else Some (au_digest (last as)))"

lemma linked_snoc: "linked d (as @ [a]) \<longleftrightarrow> linked d as \<and> au_previous a = last_digest d as"
  by (induction as arbitrary: d) (auto simp: last_digest_def)

lemma latest_is_last:
  assumes "sorted_wrt (\<lambda>a b. au_at a < au_at b) (org_audit db org)"
  shows "latest_digest db org = last_digest None (org_audit db org)"
proof -
  have "foldl (\<lambda>m a. case m of None \<Rightarrow> Some a | Some b \<Rightarrow> if later_audit a b then Some a else Some b) None as =
      (if as = [] then None else Some (last as))" if "sorted_wrt (\<lambda>a b. au_at a < au_at b) as" for as
    using that
  proof (induction as rule: rev_induct)
    case (snoc a as)
    then have "as \<noteq> [] \<Longrightarrow> au_at (last as) < au_at a" by (simp add: sorted_wrt_append)
    with snoc show ?case by (auto simp: sorted_wrt_append later_audit_def)
  qed simp
  from this [OF assms] show ?thesis by (simp add: latest_digest_def last_digest_def org_audit_def)
qed

lemma audit_chain_snoc:
  assumes "audit_chain (org_audit db org)" and "\<forall>a \<in> set (org_audit db org). au_at a < au_at e"
    and "au_previous e = latest_digest db org"
  shows "audit_chain (org_audit db org @ [e])"
  using assms latest_is_last [of db org] by (simp add: audit_chain_def linked_snoc sorted_wrt_append)

end
