(* ===== verification/Work.thy ===== *)
theory Work
  imports Durable_Command
begin

text \<open>
  Work packages and tasks: \<open>apps/api/src/work/work.service.ts\<close>, on top of the durable command.
  A body is its fields after the schema's types; the schema's other rules and the removal of
  surrounding white space are the \<open>parse\<close> functions. The columns of a forecast, which
  another service writes, are part of a task's row.
\<close>

section \<open>The tables\<close>

record package_row =
  wp_id :: string
  wp_org :: string
  wp_project :: string
  wp_stage :: "string option"
  wp_name :: string
  wp_owner :: string
  wp_status :: string
  wp_acceptance :: string
  wp_version :: int
  wp_created :: int
  wp_updated :: int

record task_row =
  ti_id :: string
  ti_package :: string
  ti_org :: string
  ti_project :: string
  ti_title :: string
  ti_assignee :: "string option"
  ti_state :: string
  ti_completed :: bool
  ti_completed_at :: "int option"
  ti_completed_by :: "string option"
  ti_evidence :: "string option"
  ti_version :: int
  ti_created :: int
  ti_updated :: int
  ti_start :: "int option"
  ti_finish :: "int option"
  ti_zone :: "string option"
  ti_forecast :: int
  ti_revision :: "string option"

record stage_row =
  sg_id :: string
  sg_org :: string
  sg_project :: string

record work_db = core_db +
  wd_stages :: "stage_row list"
  wd_packages :: "package_row list"
  wd_tasks :: "task_row list"

section \<open>Input\<close>

record package_body =
  kb_name :: string
  kb_owner :: string
  kb_stage :: "string option"
  kb_reason :: string

record task_body =
  tb_package :: string
  tb_title :: string
  tb_assignee :: "string option"
  tb_reason :: string

record completion_body =
  cb_version :: "int option"
  cb_reason :: string
  cb_evidence :: "string option"

definition sized :: "nat \<Rightarrow> nat \<Rightarrow> string \<Rightarrow> bool" where
  "sized a b s \<longleftrightarrow> a \<le> length (trim s) \<and> length (trim s) \<le> b"

definition opt_all :: "('a \<Rightarrow> bool) \<Rightarrow> 'a option \<Rightarrow> bool" where
  "opt_all p x = (case x of Some y \<Rightarrow> p y | None \<Rightarrow> True)"

definition parse_package :: "package_body \<Rightarrow> package_body res" where
  "parse_package b = (if sized 3 200 (kb_name b) \<and> uuid_text (kb_owner b) \<and> opt_all uuid_text (kb_stage b) \<and> sized 1 2000 (kb_reason b)
     then Inr (b\<lparr>kb_name := trim (kb_name b), kb_reason := trim (kb_reason b)\<rparr>) else fail ''WORK_VALIDATION_ERROR'')"

definition parse_task :: "task_body \<Rightarrow> task_body res" where
  "parse_task b = (if uuid_text (tb_package b) \<and> sized 3 250 (tb_title b) \<and> opt_all uuid_text (tb_assignee b) \<and> sized 1 2000 (tb_reason b)
     then Inr (b\<lparr>tb_title := trim (tb_title b), tb_reason := trim (tb_reason b)\<rparr>) else fail ''WORK_VALIDATION_ERROR'')"

definition parse_completion :: "completion_body \<Rightarrow> completion_body res" where
  "parse_completion b = (if opt_all (\<lambda>v. 0 < v) (cb_version b) \<and> sized 1 2000 (cb_reason b) \<and> opt_all (sized 1 4000) (cb_evidence b)
     then Inr (b\<lparr>cb_reason := trim (cb_reason b), cb_evidence := map_option trim (cb_evidence b)\<rparr>) else fail ''WORK_VALIDATION_ERROR'')"

definition opt_field :: "string \<Rightarrow> string option \<Rightarrow> string \<times> json" where
  "opt_field k v = (k, case v of Some s \<Rightarrow> JStr s | None \<Rightarrow> JUndef)"

definition package_input :: "package_body \<Rightarrow> json" where
  "package_input b = JObj [(''name'', JStr (kb_name b)), (''ownerId'', JStr (kb_owner b)), opt_field ''stageInstanceId'' (kb_stage b),
     (''reason'', JStr (kb_reason b))]"

definition task_input :: "task_body \<Rightarrow> json" where
  "task_input b = JObj [(''packageId'', JStr (tb_package b)), (''title'', JStr (tb_title b)), opt_field ''assigneeId'' (tb_assignee b),
     (''reason'', JStr (tb_reason b))]"

definition int_opt_json :: "int option \<Rightarrow> json" where
  "int_opt_json v = (case v of Some n \<Rightarrow> JNum (of_int n) | None \<Rightarrow> JUndef)"

definition completion_input :: "completion_body \<Rightarrow> json" where
  "completion_input b = JObj [(''expectedVersion'', int_opt_json (cb_version b)), (''reason'', JStr (cb_reason b)),
     opt_field ''completionEvidence'' (cb_evidence b)]"

section \<open>Summaries\<close>

definition package_json :: "package_row \<Rightarrow> string option \<Rightarrow> json" where
  "package_json p owner_name = JObj [(''id'', JStr (wp_id p)), (''organisationId'', JStr (wp_org p)), (''projectId'', JStr (wp_project p)),
     (''stageInstanceId'', text_json (wp_stage p)), (''name'', JStr (wp_name p)), (''ownerId'', JStr (wp_owner p)),
     (''ownerName'', if text_given owner_name then text_json owner_name else JNull), (''status'', JStr (wp_status p)),
     (''acceptanceState'', JStr (wp_acceptance p)), (''rowVersion'', JNum (of_int (wp_version p))),
     (''createdAt'', JStr (iso_text (wp_created p))), (''updatedAt'', JStr (iso_text (wp_updated p)))]"

definition task_fields :: "task_row \<Rightarrow> string option \<Rightarrow> (string \<times> json) list" where
  "task_fields t assignee_name = [(''id'', JStr (ti_id t)), (''packageId'', JStr (ti_package t)), (''organisationId'', JStr (ti_org t)),
     (''projectId'', JStr (ti_project t)), (''title'', JStr (ti_title t)), (''assigneeId'', text_json (ti_assignee t)),
     (''assigneeName'', if text_given assignee_name then text_json assignee_name else JNull), (''state'', JStr (ti_state t)),
     (''isCompleted'', JBool (ti_completed t)), (''completedAt'', time_json (ti_completed_at t)),
     (''completedBy'', text_json (ti_completed_by t)), (''completionEvidence'', text_json (ti_evidence t)),
     (''rowVersion'', JNum (of_int (ti_version t))), (''createdAt'', JStr (iso_text (ti_created t))),
     (''updatedAt'', JStr (iso_text (ti_updated t)))]"

section \<open>The service\<close>

definition edit_permissions :: "string list" where
  "edit_permissions = [''projects.manage'', ''tasks.manage'', ''operations.manage'', ''design.version'']"

definition complete_permissions :: "string list" where
  "complete_permissions = edit_permissions @ [''field.inspect'']"

definition edit_access :: access_options where
  "edit_access = \<lparr>ao_level = Editor, ao_permissions = Some edit_permissions, ao_audiences = Some [''internal'']\<rparr>"

definition complete_access :: access_options where
  "complete_access = \<lparr>ao_level = Editor, ao_permissions = Some complete_permissions, ao_audiences = Some [''internal'']\<rparr>"

definition read_access :: access_options where
  "read_access = \<lparr>ao_level = Viewer, ao_permissions = None, ao_audiences = Some [''internal'']\<rparr>"

definition assigned_member :: "'d core_db_scheme \<Rightarrow> access_context \<Rightarrow> string \<Rightarrow> unit res" where
  "assigned_member db ctx user = (case first_row (concat (map (\<lambda>m. map (\<lambda>g. m)
         (filter (\<lambda>g. gr_membership g = mb_id m \<and> gr_org g = mb_org m \<and> gr_project g = pj_id (ac_project ctx) \<and> \<not> gr_revoked g) (db_grants db)))
       (filter (\<lambda>m. mb_org m = ac_org ctx \<and> mb_user m = to_lower user \<and> mb_audience m = ''internal'' \<and> \<not> mb_revoked m) (db_memberships db)))) of
       None \<Rightarrow> fail ''WORK_ASSIGNEE_UNAVAILABLE''
     | Some m \<Rightarrow> throw_if (normalize_role (mb_role m) \<notin> set canonical_roles \<or> normalize_role (mb_role m) = ''client_user'')
         (Thrown ''WORK_ASSIGNEE_UNAVAILABLE'' []))"

definition in_project :: "access_context \<Rightarrow> string \<Rightarrow> string \<Rightarrow> bool" where
  "in_project ctx org project \<longleftrightarrow> org = ac_org ctx \<and> project = pj_id (ac_project ctx)"

definition create_package_change :: "api_request \<Rightarrow> package_body \<Rightarrow> 'd work_db_scheme \<Rightarrow> access_context \<Rightarrow> ('d work_db_scheme \<times> mutation) res" where
  "create_package_change rq b db ctx =
     bind_res (assigned_member db ctx (kb_owner b)) (\<lambda>_.
     bind_res (case kb_stage b of None \<Rightarrow> Inr ()
       | Some s \<Rightarrow> throw_if (\<not> list_ex (\<lambda>g. sg_id g = to_lower s \<and> in_project ctx (sg_org g) (sg_project g)) (wd_stages db)) (Thrown ''WORK_STAGE_NOT_FOUND'' [])) (\<lambda>_.
     let row = \<lparr>wp_id = rq_ids rq 2, wp_org = ac_org ctx, wp_project = pj_id (ac_project ctx), wp_stage = map_option to_lower (kb_stage b), wp_name = kb_name b,
           wp_owner = to_lower (kb_owner b), wp_status = ''active'', wp_acceptance = ''pending'', wp_version = 1, wp_created = rq_now rq, wp_updated = rq_now rq\<rparr>
     in bind_res (insert_row wp_id row (wd_packages db)) (\<lambda>rows.
        Inr (db\<lparr>wd_packages := rows\<rparr>, \<lparr>mu_id = wp_id row,
          mu_data = [(''status'', JStr (wp_status row)), (''recordVersion'', JNum (of_int (wp_version row))), (''payload'', package_json row None)],
          mu_event = [(''reason'', JStr (kb_reason b)), (''ownerId'', JStr (kb_owner b)), (''stageInstanceId'', text_json (kb_stage b))],
          mu_version = Some (wp_version row)\<rparr>))))"

definition find_package :: "'d work_db_scheme \<Rightarrow> access_context \<Rightarrow> string \<Rightarrow> package_row option" where
  "find_package db ctx i = List.find (\<lambda>p. wp_id p = to_lower i \<and> in_project ctx (wp_org p) (wp_project p)) (wd_packages db)"

definition new_task :: "api_request \<Rightarrow> task_body \<Rightarrow> access_context \<Rightarrow> task_row" where
  "new_task rq b ctx = \<lparr>ti_id = rq_ids rq 2, ti_package = to_lower (tb_package b), ti_org = ac_org ctx, ti_project = pj_id (ac_project ctx),
     ti_title = tb_title b, ti_assignee = map_option to_lower (tb_assignee b), ti_state = ''planned'', ti_completed = False, ti_completed_at = None,
     ti_completed_by = None, ti_evidence = None, ti_version = 1, ti_created = rq_now rq, ti_updated = rq_now rq, ti_start = None,
     ti_finish = None, ti_zone = None, ti_forecast = 0, ti_revision = None\<rparr>"

definition create_task_change :: "api_request \<Rightarrow> task_body \<Rightarrow> 'd work_db_scheme \<Rightarrow> access_context \<Rightarrow> ('d work_db_scheme \<times> mutation) res" where
  "create_task_change rq b db ctx = (case find_package db ctx (tb_package b) of
       None \<Rightarrow> fail ''WORK_PACKAGE_NOT_FOUND''
     | Some p \<Rightarrow>
         bind_res (throw_if (wp_status p \<noteq> ''active'') (Thrown ''WORK_PACKAGE_INACTIVE'' [])) (\<lambda>_.
         bind_res (case tb_assignee b of None \<Rightarrow> Inr () | Some u \<Rightarrow> assigned_member db ctx u) (\<lambda>_.
         let row = new_task rq b ctx
         in bind_res (insert_row ti_id row (wd_tasks db)) (\<lambda>rows.
            Inr (db\<lparr>wd_tasks := rows\<rparr>, \<lparr>mu_id = ti_id row,
              mu_data = [(''status'', JStr (ti_state row)), (''recordVersion'', JNum (of_int (ti_version row))), (''payload'', JObj (task_fields row None))],
              mu_event = [(''reason'', JStr (tb_reason b)), (''packageId'', JStr (tb_package b)), (''assigneeId'', text_json (tb_assignee b))],
              mu_version = Some (ti_version row)\<rparr>)))))"

definition task_in_scope :: "access_context \<Rightarrow> task_row \<Rightarrow> bool" where
  "task_in_scope ctx t \<longleftrightarrow> \<not> (normalize_role (ac_role ctx) = ''field_supervisor'' \<and> ti_assignee t \<noteq> Some (ac_user ctx))"

definition task_package_rows :: "'d work_db_scheme \<Rightarrow> access_context \<Rightarrow> (task_row \<times> package_row) list" where
  "task_package_rows db ctx = concat (map (\<lambda>t. map (\<lambda>p. (t, p))
       (filter (\<lambda>p. wp_id p = ti_package t \<and> wp_org p = ti_org t \<and> wp_project p = ti_project t) (wd_packages db)))
     (filter (\<lambda>t. in_project ctx (ti_org t) (ti_project t)) (wd_tasks db)))"

definition scoped_task :: "'d work_db_scheme \<Rightarrow> access_context \<Rightarrow> string \<Rightarrow> (task_row \<times> package_row) res" where
  "scoped_task db ctx i = (case first_row (filter (\<lambda>(t, p). ti_id t = to_lower i) (task_package_rows db ctx)) of
       Some (t, p) \<Rightarrow> if task_in_scope ctx t then Inr (t, p) else fail ''WORK_TASK_NOT_FOUND''
     | None \<Rightarrow> fail ''WORK_TASK_NOT_FOUND'')"

definition open_state :: "task_row \<Rightarrow> bool" where
  "open_state t \<longleftrightarrow> ti_state t \<in> set [''planned'', ''active'']"

definition complete_row :: "access_context \<Rightarrow> int \<Rightarrow> string option \<Rightarrow> task_row \<Rightarrow> task_row" where
  "complete_row ctx now evidence t = t\<lparr>ti_state := ''completed'', ti_completed := True, ti_completed_at := Some now,
     ti_completed_by := Some (ac_user ctx), ti_evidence := (if text_given evidence then evidence else None),
     ti_version := ti_version t + 1, ti_updated := now\<rparr>"

definition complete_task_change ::
  "api_request \<Rightarrow> string \<Rightarrow> completion_body \<Rightarrow> 'd work_db_scheme \<Rightarrow> access_context \<Rightarrow> ('d work_db_scheme \<times> mutation) res" where
  "complete_task_change rq i b db ctx =
     bind_res (scoped_task db ctx i) (\<lambda>(t, p).
     bind_res (throw_if (Some (ti_version t) \<noteq> cb_version b) (Thrown ''WORK_VERSION_CONFLICT'' [])) (\<lambda>_.
     bind_res (throw_if (ti_completed t \<or> ti_state t = ''completed'') (Thrown ''WORK_TASK_ALREADY_COMPLETED'' [])) (\<lambda>_.
     bind_res (throw_if (\<not> open_state t \<or> wp_status p \<noteq> ''active'') (Thrown ''WORK_TASK_NOT_ACTIVE'' [])) (\<lambda>_.
     let row = complete_row ctx (rq_now rq) (cb_evidence b) t in
     Inr (db\<lparr>wd_tasks := map (\<lambda>u. if ti_id u = to_lower i \<and> in_project ctx (ti_org u) (ti_project u)
            then complete_row ctx (rq_now rq) (cb_evidence b) u else u) (wd_tasks db)\<rparr>,
       \<lparr>mu_id = i,
         mu_data = [(''status'', JStr ''completed''), (''recordVersion'', JNum (of_int (ti_version row))),
           (''payload'', JObj [(''task'', JObj (task_fields row None)), (''packageAcceptanceState'', JStr (wp_acceptance p))])],
         mu_event = [(''reason'', JStr (cb_reason b)), (''packageId'', JStr (ti_package t)),
           (''hasCompletionEvidence'', JBool (text_given (cb_evidence b))), (''previousVersion'', JNum (of_int (ti_version t))),
           (''packageAcceptanceState'', JStr (wp_acceptance p))],
         mu_version = Some (ti_version row)\<rparr>)))))"

definition no_authorize :: "'d \<Rightarrow> access_context \<Rightarrow> unit res" where
  "no_authorize db ctx = Inr ()"

definition create_package :: "hasher \<Rightarrow> 'd work_db_scheme \<Rightarrow> api_request \<Rightarrow> string \<Rightarrow> package_body \<Rightarrow> ('d work_db_scheme \<times> json) res" where
  "create_package H db rq reference body = bind_res (parse_package body) (\<lambda>b.
     run_command H db rq reference edit_access \<lparr>cm_operation = ''POST /projects/:projectId/work-packages'', cm_action = ''work.package.created'',
       cm_type = ''work_package'', cm_input = package_input b\<rparr> no_authorize (create_package_change rq b))"

definition create_task :: "hasher \<Rightarrow> 'd work_db_scheme \<Rightarrow> api_request \<Rightarrow> string \<Rightarrow> task_body \<Rightarrow> ('d work_db_scheme \<times> json) res" where
  "create_task H db rq reference body = bind_res (parse_task body) (\<lambda>b.
     run_command H db rq reference edit_access \<lparr>cm_operation = ''POST /projects/:projectId/tasks'', cm_action = ''work.task.created'',
       cm_type = ''task'', cm_input = task_input b\<rparr> no_authorize (create_task_change rq b))"

definition completion_command :: "string \<Rightarrow> completion_body \<Rightarrow> project_command" where
  "completion_command i b = \<lparr>cm_operation = ''POST /projects/:projectId/tasks/'' @ i @ ''/complete'', cm_action = ''work.task.completed'',
     cm_type = ''task'', cm_input = completion_input b\<rparr>"

definition complete_task :: "hasher \<Rightarrow> 'd work_db_scheme \<Rightarrow> api_request \<Rightarrow> string \<Rightarrow> string \<Rightarrow> completion_body \<Rightarrow> ('d work_db_scheme \<times> json) res" where
  "complete_task H db rq reference i body =
     bind_res (throw_if (\<not> uuid_text i) (Thrown ''WORK_VALIDATION_ERROR'' [])) (\<lambda>_.
     bind_res (throw_if (cb_version body = None) (Thrown ''WORK_PRECONDITION_REQUIRED'' [])) (\<lambda>_.
     bind_res (parse_completion body) (\<lambda>b.
     run_command H db rq reference complete_access (completion_command i b)
       (\<lambda>db ctx. bind_res (scoped_task db ctx i) (\<lambda>_. Inr ())) (complete_task_change rq i b))))"

section \<open>Reading\<close>

definition holds_any :: "access_context \<Rightarrow> string list \<Rightarrow> bool res" where
  "holds_any ctx ps = some_res (\<lambda>p. has_role_permission (ac_role ctx) p (ac_super ctx)) ps"

definition can_edit :: "access_context \<Rightarrow> bool res" where
  "can_edit ctx = (if ac_level ctx = Editor then holds_any ctx edit_permissions else Inr False)"

definition can_complete_any :: "access_context \<Rightarrow> bool res" where
  "can_complete_any ctx = (if ac_level ctx = Editor then holds_any ctx complete_permissions else Inr False)"

text \<open>The task list: each task in scope with the flag the client shows a button for.\<close>

definition list_tasks :: "'d work_db_scheme \<Rightarrow> api_request \<Rightarrow> string \<Rightarrow> (task_row \<times> bool) list res" where
  "list_tasks db rq reference = bind_res (check_access db rq reference read_access) (\<lambda>ctx.
     bind_res (can_complete_any ctx) (\<lambda>complete.
     let field = (normalize_role (ac_role ctx) = ''field_supervisor'') in
     Inr (map (\<lambda>(t, p). (t, complete \<and> (\<not> field \<or> ti_assignee t = Some (ac_user ctx)) \<and> \<not> ti_completed t \<and> open_state t \<and> wp_status p = ''active''))
       (sort_by (\<lambda>(t, _) (u, _). ti_created u < ti_created t \<or> (ti_created t = ti_created u \<and> ti_id t \<le> ti_id u))
         (filter (\<lambda>(t, p). \<not> field \<or> ti_assignee t = Some (ac_user ctx)) (task_package_rows db ctx))))))"


section \<open>The commands as steps\<close>

datatype work_command =
    CreatePackage api_request string package_body
  | CreateTask api_request string task_body
  | CompleteTask api_request string string completion_body

fun work_request :: "work_command \<Rightarrow> api_request" where
  "work_request (CreatePackage rq _ _) = rq"
| "work_request (CreateTask rq _ _) = rq"
| "work_request (CompleteTask rq _ _ _) = rq"

fun perform :: "hasher \<Rightarrow> 'd work_db_scheme \<Rightarrow> work_command \<Rightarrow> ('d work_db_scheme \<times> json) res" where
  "perform H db (CreatePackage rq ref b) = create_package H db rq ref b"
| "perform H db (CreateTask rq ref b) = create_task H db rq ref b"
| "perform H db (CompleteTask rq ref i b) = complete_task H db rq ref i b"

definition work_step :: "hasher \<Rightarrow> 'd work_db_scheme \<Rightarrow> work_command \<Rightarrow> 'd work_db_scheme res" where
  "work_step H db c = bind_res (perform H db c) (\<lambda>(db', _). Inr db')"

text \<open>The change of the register that a command makes when it is executed.\<close>

fun work_change :: "work_command \<Rightarrow> 'd work_db_scheme \<Rightarrow> access_context \<Rightarrow> ('d work_db_scheme \<times> mutation) res" where
  "work_change (CreatePackage rq _ b) db ctx = bind_res (parse_package b) (\<lambda>b. create_package_change rq b db ctx)"
| "work_change (CreateTask rq _ b) db ctx = bind_res (parse_task b) (\<lambda>b. create_task_change rq b db ctx)"
| "work_change (CompleteTask rq _ i b) db ctx = bind_res (parse_completion b) (\<lambda>b. complete_task_change rq i b db ctx)"

interpretation create_package: project_mutation "create_package_change rq b" for rq b
  by unfold_locales (auto simp: create_package_change_def Let_def core_db.truncate_def)

interpretation create_task: project_mutation "create_task_change rq b" for rq b
  by unfold_locales (auto simp: create_task_change_def Let_def core_db.truncate_def split: option.splits)

interpretation complete_task: project_mutation "complete_task_change rq i b" for rq i b
  by unfold_locales (auto simp: complete_task_change_def Let_def core_db.truncate_def)

lemma command_key_Inr: "command_key rq = Inr key \<Longrightarrow> rq_key rq = Some key"
  by (auto simp: command_key_def split: option.splits if_splits)

lemma check_access_org: "check_access db rq reference opts = Inr ctx \<Longrightarrow> map_option to_lower (rq_org rq) = Some (ac_org ctx)"
  by (rule check_accessE)

definition committed :: "hasher \<Rightarrow> 'd core_db_scheme \<Rightarrow> 'd core_db_scheme \<Rightarrow> api_request \<Rightarrow> string \<Rightarrow> access_context \<Rightarrow> mutation \<Rightarrow>
    project_command \<Rightarrow> 'd core_db_scheme" where
  "committed H db db1 rq key ctx m cmd = db1\<lparr>db_audit := db_audit db @ [audit_of H db rq ctx cmd m],
     db_outbox := db_outbox db @ [outbox_of rq ctx cmd m], db_receipts := db_receipts db @ [receipt_of H rq key ctx cmd m]\<rparr>"

lemma performE:
  assumes "perform H db c = Inr (db', response)"
  obtains (replayed) key org r where "rq_key (work_request c) = Some key" "map_option to_lower (rq_org (work_request c)) = Some org"
      "find_receipt db org key = Some r" "db' = db" "response = rc_response r"
  | (executed) key ctx cmd db1 m where "rq_key (work_request c) = Some key" "map_option to_lower (rq_org (work_request c)) = Some (ac_org ctx)"
      "find_receipt db (ac_org ctx) key = None" "work_change c db ctx = Inr (db1, m)"
      "db' = committed H db db1 (work_request c) key ctx m cmd" "response = response_of (work_request c) m"
proof (cases c)
  case (CreatePackage rq ref body)
  with assms obtain b cmd where b: "parse_package body = Inr b"
    and run: "run_command H db rq ref edit_access cmd no_authorize (create_package_change rq b) = Inr (db', response)"
    by (auto simp: create_package_def)
  from run show ?thesis
  proof (cases rule: create_package.accepted_command)
    case (replayed key ctx r)
    with CreatePackage show ?thesis
      by (intro that(1) [of key "ac_org ctx" r]) (simp_all add: command_key_Inr check_access_org)
  next
    case (executed key ctx db1 m)
    with CreatePackage b show ?thesis
      by (intro that(2) [of key ctx db1 m cmd]) (simp_all add: command_key_Inr check_access_org committed_def)
  qed
next
  case (CreateTask rq ref body)
  with assms obtain b cmd where b: "parse_task body = Inr b"
    and run: "run_command H db rq ref edit_access cmd no_authorize (create_task_change rq b) = Inr (db', response)"
    by (auto simp: create_task_def)
  from run show ?thesis
  proof (cases rule: create_task.accepted_command)
    case (replayed key ctx r)
    with CreateTask show ?thesis
      by (intro that(1) [of key "ac_org ctx" r]) (simp_all add: command_key_Inr check_access_org)
  next
    case (executed key ctx db1 m)
    with CreateTask b show ?thesis
      by (intro that(2) [of key ctx db1 m cmd]) (simp_all add: command_key_Inr check_access_org committed_def)
  qed
next
  case (CompleteTask rq ref i body)
  with assms obtain b cmd where b: "parse_completion body = Inr b"
    and run: "run_command H db rq ref complete_access cmd (\<lambda>db ctx. bind_res (scoped_task db ctx i) (\<lambda>_. Inr ()))
      (complete_task_change rq i b) = Inr (db', response)"
    by (auto simp: complete_task_def)
  from run show ?thesis
  proof (cases rule: complete_task.accepted_command)
    case (replayed key ctx r)
    with CompleteTask show ?thesis
      by (intro that(1) [of key "ac_org ctx" r]) (simp_all add: command_key_Inr check_access_org)
  next
    case (executed key ctx db1 m)
    with CompleteTask b show ?thesis
      by (intro that(2) [of key ctx db1 m cmd]) (simp_all add: command_key_Inr check_access_org committed_def)
  qed
qed


section \<open>A command takes effect at most once\<close>

definition taken_keys :: "'d core_db_scheme \<Rightarrow> (string option \<times> string option) set" where
  "taken_keys db = (\<lambda>r. (Some (rc_org r), Some (rc_key r))) ` set (db_receipts db)"

definition command_id :: "work_command \<Rightarrow> string option \<times> string option" where
  "command_id c = (map_option to_lower (rq_org (work_request c)), rq_key (work_request c))"

lemma taken_keys_find: "(Some org, Some key) \<in> taken_keys db \<longleftrightarrow> find_receipt db org key \<noteq> None"
  by (auto simp: taken_keys_def find_receipt_def find_None_iff)

lemma committed_tables [simp]:
  "db_receipts (committed H db db1 rq key ctx m cmd) = db_receipts db @ [receipt_of H rq key ctx cmd m]"
  "db_audit (committed H db db1 rq key ctx m cmd) = db_audit db @ [audit_of H db rq ctx cmd m]"
  "db_outbox (committed H db db1 rq key ctx m cmd) = db_outbox db @ [outbox_of rq ctx cmd m]"
  "wd_tasks (committed H w w1 rq key ctx m cmd) = wd_tasks w1"
  "wd_packages (committed H w w1 rq key ctx m cmd) = wd_packages w1"
  by (simp_all add: committed_def)

lemma work_stepE:
  assumes "work_step H db c = Inr db'"
  obtains (replayed) "db' = db" "command_id c \<in> taken_keys db"
  | (executed) key ctx cmd db1 m where "command_id c = (Some (ac_org ctx), Some key)" "command_id c \<notin> taken_keys db"
      "work_change c db ctx = Inr (db1, m)" "db' = committed H db db1 (work_request c) key ctx m cmd"
proof -
  from assms obtain response where "perform H db c = Inr (db', response)" by (auto simp: work_step_def)
  then show ?thesis
  proof (cases rule: performE)
    case (replayed key org r)
    then show ?thesis by (intro that(1)) (simp_all add: command_id_def taken_keys_find del: map_option_eq_Some)
  next
    case (executed key ctx cmd db1 m)
    then show ?thesis by (intro that(2)) (simp_all add: command_id_def taken_keys_find del: map_option_eq_Some)
  qed
qed

interpretation work_once: idempotent_consumer "work_step H" command_id taken_keys for H
proof unfold_locales
  fix s :: "'d work_db_scheme" and m s'
  assume "work_step H s m = Inr s'"
  then show "taken_keys s' = insert (command_id m) (taken_keys s)"
    by (cases rule: work_stepE) (auto simp: taken_keys_def receipt_of_def)
next
  fix s :: "'d work_db_scheme" and m s'
  assume "work_step H s m = Inr s'" and "command_id m \<in> taken_keys s"
  then show "s' = s" by (cases rule: work_stepE) simp_all
qed

text \<open>
  C13: a work command takes effect at most once. In any sequence of commands, retries and
  rejected ones included, the commands that change the database have different pairs of
  organisation and key; and delivering commands whose keys are taken leaves it as it is.
\<close>

theorem work_commands_once:
  "distinct (effects (work_step H) command_id taken_keys db cs) \<and>
   attempts (work_step H) (attempts (work_step H) db cs) (filter (\<lambda>c. command_id c \<in> taken_keys (attempts (work_step H) db cs)) cs)
     = attempts (work_step H) db cs"
  using work_once.effects_once [of H db cs] by (auto intro: work_once.redelivery)

text \<open>
  The change, its audit event, its outbox event and its receipt stand or fall together. An
  accepted work command that is not a repetition appends exactly one of each, all of them
  naming the changed record, the event identified by the request and the digest of the event
  before it; a repetition appends nothing.
\<close>

theorem work_command_recorded:
  assumes "work_step H db c = Inr db'"
  shows "db' = db \<or> (\<exists>a e r. db_audit db' = db_audit db @ [a] \<and> db_outbox db' = db_outbox db @ [e] \<and> db_receipts db' = db_receipts db @ [r] \<and>
    au_id a = rq_ids (work_request c) 0 \<and> ob_event e = rq_ids (work_request c) 1 \<and> ob_type e = au_action a @ ''.v1'' \<and>
    au_org a = rc_org r \<and> ob_org e = rc_org r \<and> au_actor a = rc_actor r \<and> rq_key (work_request c) = Some (rc_key r) \<and>
    au_previous a = latest_digest db (au_org a))"
  using assms
proof (cases rule: work_stepE)
  case (executed key ctx cmd db1 m)
  then show ?thesis
    by (intro disjI2) (simp add: command_id_def audit_of_def outbox_of_def receipt_of_def)
qed simp

section \<open>The register\<close>

definition task_ok :: "package_row list \<Rightarrow> task_row \<Rightarrow> bool" where
  "task_ok ps t \<longleftrightarrow> (\<exists>p \<in> set ps. wp_id p = ti_package t \<and> wp_org p = ti_org t \<and> wp_project p = ti_project t) \<and>
     1 \<le> ti_version t \<and> (ti_completed t \<longleftrightarrow> ti_state t = ''completed'') \<and>
     (ti_completed t \<longleftrightarrow> ti_completed_at t \<noteq> None) \<and> (ti_completed t \<longleftrightarrow> ti_completed_by t \<noteq> None)"

definition work_ok :: "'d work_db_scheme \<Rightarrow> bool" where
  "work_ok db \<longleftrightarrow> distinct (map wp_id (wd_packages db)) \<and> distinct (map ti_id (wd_tasks db)) \<and> (\<forall>t \<in> set (wd_tasks db). task_ok (wd_packages db) t)"

lemma complete_row_simps [simp]:
  "ti_id (complete_row ctx now e t) = ti_id t" "ti_completed (complete_row ctx now e t)"
  "ti_package (complete_row ctx now e t) = ti_package t" "ti_org (complete_row ctx now e t) = ti_org t"
  "ti_project (complete_row ctx now e t) = ti_project t"
  by (simp_all add: complete_row_def)

lemma task_ok_complete: "task_ok ps t \<Longrightarrow> task_ok ps (complete_row ctx now e t)"
  by (simp add: task_ok_def) (simp add: complete_row_def)

lemma scoped_task_Inr:
  assumes "scoped_task db ctx i = Inr (t, p)"
  shows "t \<in> set (wd_tasks db) \<and> ti_id t = to_lower i \<and> in_project ctx (ti_org t) (ti_project t) \<and> task_in_scope ctx t \<and> p \<in> set (wd_packages db)"
  using assms by (auto simp: scoped_task_def task_package_rows_def split: option.splits if_splits dest!: first_row_in)

lemma complete_task_change_Inr:
  assumes "complete_task_change rq i b db ctx = Inr (db1, m)"
  obtains t p where "scoped_task db ctx i = Inr (t, p)" "\<not> ti_completed t" "open_state t" "wp_status p = ''active''" "cb_version b = Some (ti_version t)"
    "db1 = db\<lparr>wd_tasks := map (\<lambda>u. if ti_id u = to_lower i \<and> in_project ctx (ti_org u) (ti_project u)
       then complete_row ctx (rq_now rq) (cb_evidence b) u else u) (wd_tasks db)\<rparr>"
  using assms by (auto simp: complete_task_change_def Let_def)

lemma find_package_Some:
  "find_package db ctx i = Some p \<Longrightarrow> p \<in> set (wd_packages db) \<and> wp_id p = to_lower i \<and> in_project ctx (wp_org p) (wp_project p)"
  by (auto simp: find_package_def dest!: find_Some_iff_in)

lemma work_change_ok:
  assumes "work_ok db" and "work_change c db ctx = Inr (db1, m)"
  shows "work_ok db1"
proof (cases c)
  case (CreatePackage rq ref b)
  with assms show ?thesis
    by (fastforce simp: create_package_change_def Let_def work_ok_def task_ok_def)
next
  case (CreateTask rq ref b)
  with assms(2) obtain b' where "create_task_change rq b' db ctx = Inr (db1, m)" by auto
  then obtain p where p: "find_package db ctx (tb_package b') = Some p"
    and db1: "db1 = db\<lparr>wd_tasks := wd_tasks db @ [new_task rq b' ctx]\<rparr>" "ti_id (new_task rq b' ctx) \<notin> ti_id ` set (wd_tasks db)"
    by (auto simp: create_task_change_def Let_def split: option.splits)
  have "task_ok (wd_packages db) (new_task rq b' ctx)"
    using find_package_Some [OF p] by (auto simp: task_ok_def in_project_def new_task_def)
  with assms(1) db1 show ?thesis by (auto simp: work_ok_def)
next
  case (CompleteTask rq ref i b)
  with assms(2) obtain b' where "complete_task_change rq i b' db ctx = Inr (db1, m)" by auto
  then show ?thesis
  proof (rule complete_task_change_Inr)
    fix t p
    let ?f = "\<lambda>u. if ti_id u = to_lower i \<and> in_project ctx (ti_org u) (ti_project u) then complete_row ctx (rq_now rq) (cb_evidence b') u else u"
    assume db1: "db1 = db\<lparr>wd_tasks := map ?f (wd_tasks db)\<rparr>"
    have "map ti_id (map ?f (wd_tasks db)) = map ti_id (wd_tasks db)" by simp
    with assms(1) show ?thesis
      unfolding work_ok_def db1 by (simp del: map_map) (auto simp: task_ok_complete)
  qed
qed

lemma work_step_ok:
  assumes "work_ok db" and "work_step H db c = Inr db'"
  shows "work_ok db'"
  using assms(2)
proof (cases rule: work_stepE)
  case (executed key ctx cmd db1 m)
  from work_change_ok [OF assms(1) executed(3)] show ?thesis by (simp add: executed(4) work_ok_def)
qed (use assms in simp)

interpretation work_run: guarded_run "work_step H" work_ok "\<lambda>_. True" for H
  by unfold_locales (rule work_step_ok)

text \<open>
  C35: however many work commands are attempted on an empty register, every task belongs to a
  package of its own organisation and project; identifiers are unique; and a task is
  completed exactly when its state says so and the time and author of its completion are there.
\<close>

theorem tasks_well_formed:
  assumes "wd_tasks db = []" and "wd_packages db = []"
  shows "distinct (map ti_id (wd_tasks (attempts (work_step H) db cs))) \<and>
    (\<forall>t \<in> set (wd_tasks (attempts (work_step H) db cs)). task_ok (wd_packages (attempts (work_step H) db cs)) t)"
  using work_run.attempts_inv [of db cs H] assms by (simp add: work_ok_def)

lemma work_ok_task_id:
  "work_ok db \<Longrightarrow> t \<in> set (wd_tasks db) \<Longrightarrow> u \<in> set (wd_tasks db) \<Longrightarrow> ti_id t = ti_id u \<Longrightarrow> t = u"
  by (simp add: work_ok_def distinct_map inj_on_def)

text \<open>No change of the register touches the row of a completed task.\<close>

lemma work_change_keeps_completed:
  assumes "work_ok db" and "t \<in> set (wd_tasks db)" and "ti_completed t" and "work_change c db ctx = Inr (db1, m)"
  shows "t \<in> set (wd_tasks db1)"
proof (cases c)
  case (CompleteTask rq ref i b)
  with assms(4) obtain b' where "complete_task_change rq i b' db ctx = Inr (db1, m)" by auto
  then show ?thesis
  proof (rule complete_task_change_Inr)
    fix u p
    assume u: "scoped_task db ctx i = Inr (u, p)" "\<not> ti_completed u"
      and db1: "db1 = db\<lparr>wd_tasks := map (\<lambda>u. if ti_id u = to_lower i \<and> in_project ctx (ti_org u) (ti_project u)
        then complete_row ctx (rq_now rq) (cb_evidence b') u else u) (wd_tasks db)\<rparr>"
    have "ti_id t \<noteq> to_lower i"
      using scoped_task_Inr [OF u(1)] u(2) work_ok_task_id [of db t u] assms(1-3) by auto
    then show ?thesis using assms(2) by (force simp: db1)
  qed
qed (use assms in \<open>auto simp: create_package_change_def create_task_change_def Let_def split: option.splits\<close>)

section \<open>The completion flag\<close>

lemma access_for_completion:
  assumes "check_access db rq reference read_access = Inr ctx"
    and "rq_org rq' = rq_org rq" "rq_token rq' = rq_token rq" "rq_now rq' = rq_now rq"
  shows "check_access db rq' reference complete_access = Inr ctx' \<longleftrightarrow>
    ac_level ctx = Editor \<and> holds_any ctx complete_permissions = Inr True \<and> ctx' = ctx"
proof -
  have scope: "request_scope rq' = request_scope rq" using assms(2,3) by (simp add: request_scope_def)
  have member: "current_member db rq' org = current_member db rq org" for org
    using assms(3,4) by (simp add: current_member_def member_rows_def)
  have some: "complete_permissions \<noteq> []" by (simp add: complete_permissions_def edit_permissions_def)
  obtain org m p l where *: "request_scope rq = Inr org" "org \<in> set (db_orgs db)" "\<not> (trim reference = [] \<or> length reference > 200)"
      "current_member db rq org = Inr m" "me_audience m = ''internal''" "\<not> audience_conflict ''internal'' (normalize_role (me_role m))"
      "first_row (filter (\<lambda>(p, l). pj_id p = reference \<or> pj_code p = reference) (granted_projects db org (me_membership m))) = Some (p, l)"
      and ctx: "ctx = \<lparr>ac_org = org, ac_user = me_user m, ac_membership = me_membership m, ac_role = normalize_role (me_role m),
         ac_audience = me_audience m, ac_project = p, ac_level = l, ac_super = me_super m\<rparr>"
    using assms(1) by (auto simp: check_access_def Let_def read_access_def allowed_audiences_def needed_permissions_def
        split: option.splits prod.splits)
  have perms: "needed_permissions complete_access = complete_permissions" "allowed_audiences complete_access = [''internal'']" "ao_level complete_access = Editor"
    by (simp_all add: complete_access_def needed_permissions_def allowed_audiences_def)
  show ?thesis
    unfolding check_access_def Let_def scope member using * some
    by (auto simp: ctx perms holds_any_def)
qed

lemma task_rows_unique:
  assumes "work_ok db" and "(t, p) \<in> set (task_package_rows db ctx)" and "(t', p') \<in> set (task_package_rows db ctx)" and "ti_id t' = ti_id t"
  shows "t' = t \<and> p' = p"
proof -
  have "t' = t" using assms by (auto simp: work_ok_def task_package_rows_def distinct_map inj_on_def)
  then have "wp_id p' = wp_id p" and "p \<in> set (wd_packages db)" and "p' \<in> set (wd_packages db)"
    using assms(2,3) by (auto simp: task_package_rows_def)
  with assms(1) \<open>t' = t\<close> show ?thesis by (auto simp: work_ok_def distinct_map inj_on_def)
qed

lemma scoped_task_of_row:
  assumes "work_ok db" and "(t, p) \<in> set (task_package_rows db ctx)" and lower: "to_lower (ti_id t) = ti_id t"
  shows "scoped_task db ctx (ti_id t) = (if task_in_scope ctx t then Inr (t, p) else fail ''WORK_TASK_NOT_FOUND'')"
proof -
  let ?rows = "filter (\<lambda>(u, q). ti_id u = ti_id t) (task_package_rows db ctx)"
  from assms(2) have "?rows \<noteq> []" by (auto simp: filter_empty_conv)
  then obtain u q rest where rows: "?rows = (u, q) # rest" by (cases ?rows) auto
  then have "(u, q) \<in> set ?rows" by (metis list.set_intros(1))
  then have "u = t \<and> q = p" using task_rows_unique [OF assms(1,2)] by auto
  with rows show ?thesis by (simp add: scoped_task_def first_row_def lower)
qed

text \<open>
  C22: the flag that the task list shows is exact. For a listed task of a well-formed register,
  completing it with the version shown, a valid body, an unused key and fresh identifiers is
  accepted at the same moment exactly when the list says it can be completed.
\<close>

theorem complete_flag_exact:
  assumes "work_ok db" and "list_tasks db rq reference = Inr ts" and "(t, flag) \<in> set ts"
    and "rq_org rq' = rq_org rq" "rq_token rq' = rq_token rq" "rq_now rq' = rq_now rq" and "command_key rq' = Inr key"
    and "\<forall>r \<in> set (db_receipts db). rc_key r \<noteq> key"
    and "\<forall>a \<in> set (db_audit db). au_id a \<noteq> rq_ids rq' 0" and "\<forall>e \<in> set (db_outbox db). ob_event e \<noteq> rq_ids rq' 1"
    and "uuid_text (ti_id t)" and "to_lower (ti_id t) = ti_id t" and "parse_completion body = Inr b" and "cb_version b = Some (ti_version t)"
  shows "returns (complete_task H db rq' reference (ti_id t) body) \<longleftrightarrow> flag"
proof -
  from assms(2) obtain ctx complete where ctx: "check_access db rq reference read_access = Inr ctx"
    and complete: "can_complete_any ctx = Inr complete"
    and ts: "ts = map (\<lambda>(t, p). (t, complete \<and> (normalize_role (ac_role ctx) \<noteq> ''field_supervisor'' \<or> ti_assignee t = Some (ac_user ctx)) \<and>
        \<not> ti_completed t \<and> open_state t \<and> wp_status p = ''active''))
      (sort_by (\<lambda>(t, _) (u, _). ti_created u < ti_created t \<or> (ti_created t = ti_created u \<and> ti_id t \<le> ti_id u))
         (filter (\<lambda>(t, p). normalize_role (ac_role ctx) \<noteq> ''field_supervisor'' \<or> ti_assignee t = Some (ac_user ctx)) (task_package_rows db ctx)))"
    by (auto simp: list_tasks_def Let_def)
  with assms(3) obtain p where row: "(t, p) \<in> set (task_package_rows db ctx)"
    and field: "normalize_role (ac_role ctx) \<noteq> ''field_supervisor'' \<or> ti_assignee t = Some (ac_user ctx)"
    and flag: "flag \<longleftrightarrow> complete \<and> \<not> ti_completed t \<and> open_state t \<and> wp_status p = ''active''"
    by auto
  have scoped: "scoped_task db ctx (ti_id t) = Inr (t, p)"
    using scoped_task_of_row [OF assms(1) row assms(12)] field by (auto simp: task_in_scope_def)
  have none: "find_receipt db org key = None" for org
    using assms(8) by (auto simp: find_receipt_def find_None_iff)
  have org: "ac_org ctx \<in> set (db_orgs db)" using ctx by (auto simp: check_access_def Let_def split: option.splits)
  have version: "cb_version body \<noteq> None" using assms(13,14) by (auto simp: parse_completion_def split: if_splits)
  have fresh: "au_id (audit_of H d rq' ctx cmd m) \<notin> au_id ` set (db_audit db)" "ob_event (outbox_of rq' ctx cmd m) \<notin> ob_event ` set (db_outbox db)"
      "(rc_org (receipt_of H rq' key ctx cmd m), rc_key (receipt_of H rq' key ctx cmd m)) \<notin> (\<lambda>r. (rc_org r, rc_key r)) ` set (db_receipts db)"
    for d :: "'a work_db_scheme" and cmd m
    using assms(8-10) by (auto simp: audit_of_def outbox_of_def receipt_of_def)
  have "flag \<longleftrightarrow> ac_level ctx = Editor \<and> holds_any ctx complete_permissions = Inr True \<and>
      \<not> ti_completed t \<and> open_state t \<and> wp_status p = ''active''"
    using complete flag by (auto simp: can_complete_any_def split: if_splits)
  moreover have "open_state t \<Longrightarrow> ti_state t \<noteq> ''completed''" by (auto simp: open_state_def)
  ultimately show ?thesis
    using access_for_completion [OF ctx assms(4-6)] assms(7,11-14) scoped none version org fresh
    by (auto simp: returns_conv complete_task_def run_command_def with_access_def replay_def complete_task_change_def Let_def
        commit_mutation_def)
qed

section \<open>A retry\<close>

lemma same_access:
  assumes "core_db.truncate db' = (core_db.truncate db)\<lparr>db_receipts := rs, db_audit := as, db_outbox := es\<rparr>"
    and rq: "rq_org rq' = rq_org rq" "rq_token rq' = rq_token rq"
    and alive: "\<And>s. s \<in> set (db_sessions db) \<Longrightarrow> Some (ss_token s) = rq_token rq \<Longrightarrow> rq_now rq < ss_expires s \<longleftrightarrow> rq_now rq' < ss_expires s"
  shows "check_access db' rq' reference opts = check_access db rq reference opts"
proof -
  have tables: "db_orgs db' = db_orgs db" "db_users db' = db_users db" "db_sessions db' = db_sessions db"
      "db_memberships db' = db_memberships db" "db_projects db' = db_projects db" "db_grants db' = db_grants db"
    using assms(1) by (simp_all add: core_db.truncate_def)
  have "filter (\<lambda>s. Some (ss_token s) = rq_token rq \<and> rq_now rq' < ss_expires s) (db_sessions db)
      = filter (\<lambda>s. Some (ss_token s) = rq_token rq \<and> rq_now rq < ss_expires s) (db_sessions db)"
    using alive by (intro filter_cong) auto
  then have "current_member db' rq' org = current_member db rq org" for org
    using rq by (simp add: current_member_def member_rows_def tables)
  moreover have "granted_projects db' = granted_projects db"
    by (intro ext) (simp add: granted_projects_def tables)
  moreover have "request_scope rq' = request_scope rq" using rq by (simp add: request_scope_def)
  moreover have "in_transaction db' = (in_transaction db :: string \<Rightarrow> access_context res \<Rightarrow> _)"
    by (intro ext) (simp add: in_transaction_def tables)
  ultimately show ?thesis by (simp add: check_access_def tables)
qed

lemma task_package_rows_map:
  assumes "\<And>t. ti_package (f t) = ti_package t" "\<And>t. ti_org (f t) = ti_org t" "\<And>t. ti_project (f t) = ti_project t"
  shows "task_package_rows (db\<lparr>wd_tasks := map f (wd_tasks db)\<rparr>) ctx = map (\<lambda>(t, p). (f t, p)) (task_package_rows db ctx)"
  by (simp add: task_package_rows_def filter_map map_concat o_def assms)


lemma scoped_task_map:
  assumes "\<And>t. ti_id (f t) = ti_id t" "\<And>t. ti_package (f t) = ti_package t" "\<And>t. ti_org (f t) = ti_org t" "\<And>t. ti_project (f t) = ti_project t"
    and "\<And>t. ti_assignee (f t) = ti_assignee t" and "scoped_task db ctx i = Inr (t, p)"
  shows "scoped_task (db\<lparr>wd_tasks := map f (wd_tasks db)\<rparr>) ctx i = Inr (f t, p)"
proof -
  have "filter (\<lambda>(t, p). ti_id t = to_lower i) (map (\<lambda>(t, p). (f t, p)) rows) = map (\<lambda>(t, p). (f t, p)) (filter (\<lambda>(t, p). ti_id t = to_lower i) rows)" for rows
    by (induction rows) (auto simp: assms(1))
  then have rows: "filter (\<lambda>(t, p). ti_id t = to_lower i) (task_package_rows (db\<lparr>wd_tasks := map f (wd_tasks db)\<rparr>) ctx)
      = map (\<lambda>(t, p). (f t, p)) (filter (\<lambda>(t, p). ti_id t = to_lower i) (task_package_rows db ctx))"
    by (simp add: task_package_rows_map assms(2-4))
  from assms(6) obtain rest where "filter (\<lambda>(t, p). ti_id t = to_lower i) (task_package_rows db ctx) = (t, p) # rest" and "task_in_scope ctx t"
    by (auto simp: scoped_task_def first_row_def split: option.splits list.splits if_splits)
  with rows show ?thesis by (simp add: scoped_task_def first_row_def task_in_scope_def assms(5))
qed

lemma scoped_task_core:
  "wd_tasks db' = wd_tasks db \<Longrightarrow> wd_packages db' = wd_packages db \<Longrightarrow> scoped_task db' ctx i = scoped_task db ctx i"
  by (simp add: scoped_task_def task_package_rows_def)

lemma complete_task_Inr:
  assumes "complete_task H db rq reference i body = Inr (db', response)"
  obtains b where "uuid_text i" "cb_version body \<noteq> None" "parse_completion body = Inr b"
    "run_command H db rq reference complete_access (completion_command i b)
       (\<lambda>db ctx. bind_res (scoped_task db ctx i) (\<lambda>_. Inr ())) (complete_task_change rq i b) = Inr (db', response)"
  using assms by (auto simp: complete_task_def)

text \<open>
  C29: the completion of a task can be repeated safely. While the session lives, the same
  request with the same key, sent again at a later moment, gets the response of the first and
  leaves the database as it is, although the task it names is completed by then.
\<close>

theorem completion_retry:
  assumes first: "complete_task H db rq reference i body = Inr (db', response)"
    and rq: "rq_key rq' = rq_key rq" "rq_org rq' = rq_org rq" "rq_token rq' = rq_token rq"
    and alive: "\<forall>s \<in> set (db_sessions db). Some (ss_token s) = rq_token rq \<longrightarrow> (rq_now rq < ss_expires s \<longleftrightarrow> rq_now rq' < ss_expires s)"
  shows "complete_task H db' rq' reference i body = Inr (db', response)"
  using first
proof (rule complete_task_Inr)
  fix b
  let ?cmd = "completion_command i b"
  let ?auth = "\<lambda>(db :: 'a work_db_scheme) ctx. bind_res (scoped_task db ctx i) (\<lambda>_. Inr ())"
  assume ok: "uuid_text i" "cb_version body \<noteq> None" "parse_completion body = Inr b"
    and run: "run_command H db rq reference complete_access ?cmd ?auth (complete_task_change rq i b) = Inr (db', response)"
  obtain ctx where ctx: "check_access db rq reference complete_access = Inr ctx"
    and core: "core_db.truncate db' = (core_db.truncate db)\<lparr>db_receipts := db_receipts db', db_audit := db_audit db', db_outbox := db_outbox db'\<rparr>"
    and auth: "?auth db' ctx = Inr ()"
    using run
  proof (cases rule: complete_task.accepted_command)
    case (replayed key c r)
    have "?auth db c = Inr ()" using run replayed(2) by (auto simp: run_command_def with_access_def)
    with replayed show ?thesis by (intro that [of c]) (simp_all add: core_db.truncate_def)
  next
    case (executed key c db1 m)
    from executed(5) show ?thesis
    proof (rule complete_task_change_Inr)
      fix t p
      let ?f = "\<lambda>u. if ti_id u = to_lower i \<and> in_project c (ti_org u) (ti_project u) then complete_row c (rq_now rq) (cb_evidence b) u else u"
      assume t: "scoped_task db c i = Inr (t, p)" and db1: "db1 = db\<lparr>wd_tasks := map ?f (wd_tasks db)\<rparr>"
      have "scoped_task db1 c i = Inr (?f t, p)"
        unfolding db1 by (rule scoped_task_map [OF _ _ _ _ _ t]) (simp_all add: complete_row_def)
      then have "scoped_task db' c i = Inr (?f t, p)"
        by (subst scoped_task_core [of db' db1]) (simp_all add: executed(7))
      then show ?thesis
        by (intro that [of c] executed(2)) (simp_all add: executed(7) db1 core_db.truncate_def)
    qed
  qed
  have again: "check_access db' rq' reference complete_access = Inr ctx"
    using same_access [OF core rq(2,3)] alive ctx by auto
  have "run_command H db' rq' reference complete_access ?cmd ?auth (complete_task_change rq' i b) = Inr (db', response)"
    by (rule complete_task.retry [OF run ctx rq(1) again refl refl refl, where authorize' = ?auth, OF auth])
  with ok show ?thesis by (auto simp: complete_task_def)
qed

section \<open>The audit chain of the commands\<close>

lemma work_step_audit:
  assumes "work_step H db c = Inr db'"
  shows "db_audit db' = db_audit db \<or> (\<exists>a. db_audit db' = db_audit db @ [a] \<and> au_at a = rq_now (work_request c) \<and> au_previous a = latest_digest db (au_org a))"
  using assms
proof (cases rule: work_stepE)
  case (executed key ctx cmd db1 m)
  then show ?thesis by (intro disjI2) (simp add: audit_of_def)
qed simp

lemma work_step_chain:
  assumes "audit_chain (org_audit db org)" and "\<forall>a \<in> set (db_audit db). au_at a < rq_now (work_request c)" and "work_step H db c = Inr db'"
  shows "audit_chain (org_audit db' org) \<and> (\<forall>a \<in> set (db_audit db'). au_at a \<le> rq_now (work_request c))"
proof (cases "db_audit db' = db_audit db")
  case True
  with assms show ?thesis by (fastforce simp: org_audit_def)
next
  case False
  with work_step_audit [OF assms(3)] obtain a where a: "db_audit db' = db_audit db @ [a]" "au_at a = rq_now (work_request c)"
      "au_previous a = latest_digest db (au_org a)" by blast
  have "audit_chain (org_audit db' org)"
  proof (cases "au_org a = org")
    case True
    then have "audit_chain (org_audit db org @ [a])"
      using assms a by (intro audit_chain_snoc) (auto simp: org_audit_def)
    with True show ?thesis by (simp add: org_audit_def a(1))
  qed (use assms(1) in \<open>simp add: org_audit_def a(1)\<close>)
  with assms(2) show ?thesis by (auto simp: a intro: less_imp_le)
qed

text \<open>
  C30: the audit trail of an organisation is a chain. However many work commands are attempted
  at increasing moments on a database without audit events, each event of an organisation
  carries the digest of the one before it, the first carries none, and they are in the order
  of their times.
\<close>

theorem work_audit_is_chain:
  assumes "db_audit db = []" and "sorted_wrt (\<lambda>c d. rq_now (work_request c) < rq_now (work_request d)) cs"
  shows "audit_chain (org_audit (attempts (work_step H) db cs) org)"
proof -
  have "audit_chain (org_audit db org) \<Longrightarrow> \<forall>a \<in> set (db_audit db). \<forall>c \<in> set cs. au_at a < rq_now (work_request c) \<Longrightarrow>
      audit_chain (org_audit (attempts (work_step H) db cs) org)"
    using assms(2)
  proof (induction cs arbitrary: db)
    case (Cons c cs)
    show ?case
    proof (cases "work_step H db c")
      case (Inr db')
      from work_step_chain [OF Cons.prems(1) _ Inr] Cons.prems(2)
      have chain: "audit_chain (org_audit db' org)" and late: "\<forall>a \<in> set (db_audit db'). au_at a \<le> rq_now (work_request c)" by simp_all
      have "\<forall>a \<in> set (db_audit db'). \<forall>d \<in> set cs. au_at a < rq_now (work_request d)"
        using late Cons.prems(3) by (fastforce intro: le_less_trans)
      from Cons.IH [OF chain this] Cons.prems(3) Inr show ?thesis by simp
    qed (use Cons in simp)
  qed simp
  from this assms(1) show ?thesis by (simp add: org_audit_def audit_chain_def)
qed

section \<open>Examples\<close>

text \<open>A project manager (session \<open>pm\<close>) with an editor's grant of project \<open>PRJ-1\<close>.\<close>

definition empty_work :: work_db where
  "empty_work = \<lparr>db_orgs = [uid (CHR ''a'')], db_users = [\<lparr>us_id = uid (CHR ''e''), us_name = ''Bob'', us_email = ''b@e3'', us_super = False\<rparr>],
     db_sessions = [\<lparr>ss_token = ''pm'', ss_user = uid (CHR ''e''), ss_expires = 1000\<rparr>],
     db_memberships = [\<lparr>mb_id = uid (CHR ''2''), mb_org = uid (CHR ''a''), mb_user = uid (CHR ''e''), mb_role = ''project_manager'',
       mb_audience = ''internal'', mb_revoked = False, mb_version = 1\<rparr>],
     db_projects = db_projects example_core, db_grants = [editor_grant], db_receipts = [], db_audit = [], db_outbox = [],
     wd_stages = [], wd_packages = [], wd_tasks = []\<rparr>"

definition rigging :: package_row where
  "rigging = \<lparr>wp_id = uid (CHR ''c''), wp_org = uid (CHR ''a''), wp_project = uid (CHR ''b''), wp_stage = None, wp_name = ''Rigging'',
     wp_owner = uid (CHR ''e''), wp_status = ''active'', wp_acceptance = ''pending'', wp_version = 1, wp_created = 10, wp_updated = 10\<rparr>"

definition hang_truss :: task_row where
  "hang_truss = \<lparr>ti_id = uid (CHR ''d''), ti_package = uid (CHR ''c''), ti_org = uid (CHR ''a''), ti_project = uid (CHR ''b''),
     ti_title = ''Hang truss'', ti_assignee = None, ti_state = ''planned'', ti_completed = False, ti_completed_at = None,
     ti_completed_by = None, ti_evidence = None, ti_version = 1, ti_created = 10, ti_updated = 10, ti_start = None,
     ti_finish = None, ti_zone = None, ti_forecast = 0, ti_revision = None\<rparr>"

definition example_work :: work_db where
  "example_work = empty_work\<lparr>wd_packages := [rigging], wd_tasks := [hang_truss]\<rparr>"

definition done_body :: completion_body where
  "done_body = \<lparr>cb_version = Some 1, cb_reason = ''done'', cb_evidence = None\<rparr>"

definition work_examples :: "work_command list" where
  "work_examples = [CreatePackage (example_request ''pm'' ''k1'' ''67c'' 10) ''PRJ-1''
       \<lparr>kb_name = ''Rigging'', kb_owner = uid (CHR ''e''), kb_stage = None, kb_reason = ''plan''\<rparr>,
     CreateTask (example_request ''pm'' ''k2'' ''89d'' 10) ''PRJ-1''
       \<lparr>tb_package = uid (CHR ''c''), tb_title = ''Hang truss'', tb_assignee = None, tb_reason = ''plan''\<rparr>]"

lemma work_uuids [simp]: "uuid_text (uid (CHR ''c''))" "uuid_text (uid (CHR ''d''))" "uuid_text (uid (CHR ''e''))"
  by (rule uid_uuid; simp add: is_hex_def lower_char_def)+

lemma work_lowers [simp]: "to_lower (uid (CHR ''c'')) = uid (CHR ''c'')" "to_lower (uid (CHR ''d'')) = uid (CHR ''d'')" "to_lower (uid (CHR ''e'')) = uid (CHR ''e'')"
  by (rule uid_lower; simp add: lower_char_def)+

lemma work_texts [simp]: "trim ''Rigging'' = ''Rigging''" "trim ''Hang truss'' = ''Hang truss''" "trim ''plan'' = ''plan''" "trim ''done'' = ''done''" "trim ''k3'' = ''k3''"
  by code_simp+

lemma work_roles [simp]: "has_role_permission ''project_manager'' ''tasks.manage'' False = Inr True"
  by code_simp

lemmas work_eval = empty_work_def example_work_def rigging_def hang_truss_def done_body_def example_request_def example_core_def editor_grant_def
  check_access_def request_scope_def command_key_def current_member_def member_rows_def first_row_def replay_def find_receipt_def in_transaction_def
  granted_projects_def allowed_audiences_def needed_permissions_def audience_conflict_def some_res_def canonical_roles_def Let_def
  run_command_def with_access_def commit_mutation_def insert_row_def edit_access_def complete_access_def read_access_def
  complete_permissions_def edit_permissions_def audit_of_def outbox_of_def receipt_of_def

lemmas work_run_eval = work_step_def complete_task_def completion_command_def parse_completion_def sized_def opt_all_def complete_task_change_def scoped_task_def
  task_package_rows_def in_project_def task_in_scope_def open_state_def no_authorize_def create_package_def create_task_def parse_package_def
  parse_task_def create_package_change_def create_task_change_def find_package_def new_task_def assigned_member_def work_eval

definition completion_request :: api_request where
  "completion_request = example_request ''pm'' ''k3'' ''345'' 20"

lemma task_completed_example:
  "\<exists>db' response. complete_task example_hasher example_work completion_request ''PRJ-1'' (uid (CHR ''d'')) done_body = Inr (db', response) \<and>
     map ti_state (wd_tasks db') = [''completed'']"
  by (simp add: completion_request_def complete_row_def work_run_eval)

lemma work_examples_run: "map ti_title (wd_tasks (attempts (work_step example_hasher) empty_work work_examples)) = [''Hang truss'']"
  by (simp add: work_examples_def work_run_eval)

lemma example_work_ok: "work_ok example_work"
  by (simp add: work_ok_def task_ok_def work_eval)

theorem work_command_recorded_witness:
  "\<exists>db'. work_step example_hasher example_work (CompleteTask completion_request ''PRJ-1'' (uid (CHR ''d'')) done_body) = Inr db' \<and>
     map au_id (db_audit db') = [uid (CHR ''3'')] \<and> map ob_event (db_outbox db') = [uid (CHR ''4'')] \<and> length (db_receipts db') = 1"
proof -
  obtain db' response where run: "complete_task example_hasher example_work completion_request ''PRJ-1'' (uid (CHR ''d'')) done_body = Inr (db', response)"
      "map ti_state (wd_tasks db') = [''completed'']"
    using task_completed_example by (elim exE conjE) (rule that; assumption)
  then have step: "work_step example_hasher example_work (CompleteTask completion_request ''PRJ-1'' (uid (CHR ''d'')) done_body) = Inr db'"
    by (simp add: work_step_def)
  have "db' \<noteq> example_work" using run(2) by (auto simp: example_work_def hang_truss_def)
  with work_command_recorded [OF step] step show ?thesis
    by (auto simp: completion_request_def example_request_def example_work_def empty_work_def)
qed

theorem tasks_well_formed_witness:
  "map ti_title (wd_tasks (attempts (work_step example_hasher) empty_work work_examples)) = [''Hang truss''] \<and>
   task_ok (wd_packages (attempts (work_step example_hasher) empty_work work_examples)) (hd (wd_tasks (attempts (work_step example_hasher) empty_work work_examples)))"
proof -
  have "wd_tasks empty_work = []" "wd_packages empty_work = []" by (simp_all add: empty_work_def)
  from tasks_well_formed [OF this, of example_hasher work_examples] work_examples_run show ?thesis
    by (cases "wd_tasks (attempts (work_step example_hasher) empty_work work_examples)") auto
qed

lemma listed_example: "list_tasks example_work (example_request ''pm'' ''k2'' ''345'' 20) ''PRJ-1'' = Inr [(hang_truss, True)]"
  by (simp add: list_tasks_def can_complete_any_def holds_any_def work_run_eval)

theorem complete_flag_exact_witness:
  "returns (complete_task example_hasher example_work completion_request ''PRJ-1'' (ti_id hang_truss) done_body)"
proof -
  have rq: "rq_org completion_request = rq_org (example_request ''pm'' ''k2'' ''345'' 20)"
      "rq_token completion_request = rq_token (example_request ''pm'' ''k2'' ''345'' 20)"
      "rq_now completion_request = rq_now (example_request ''pm'' ''k2'' ''345'' 20)" "command_key completion_request = Inr ''k3''"
    by (simp_all add: completion_request_def example_request_def command_key_def)
  have fresh: "\<forall>r \<in> set (db_receipts example_work). rc_key r \<noteq> ''k3''" "\<forall>a \<in> set (db_audit example_work). au_id a \<noteq> rq_ids completion_request 0"
      "\<forall>e \<in> set (db_outbox example_work). ob_event e \<noteq> rq_ids completion_request 1"
    by (simp_all add: work_eval)
  have body: "parse_completion done_body = Inr done_body" "cb_version done_body = Some (ti_version hang_truss)"
    by (simp_all add: parse_completion_def done_body_def sized_def opt_all_def hang_truss_def)
  have lower: "to_lower (ti_id hang_truss) = ti_id hang_truss" by (simp add: hang_truss_def)
  have listed: "(hang_truss, True) \<in> set [(hang_truss, True)]" and uuid: "uuid_text (ti_id hang_truss)"
    by (simp_all add: hang_truss_def)
  show ?thesis
    using complete_flag_exact [OF example_work_ok listed_example listed rq fresh uuid lower body] by simp
qed

theorem completion_retry_witness:
  "\<exists>db' response. complete_task example_hasher example_work completion_request ''PRJ-1'' (uid (CHR ''d'')) done_body = Inr (db', response) \<and>
     complete_task example_hasher db' (completion_request\<lparr>rq_now := 30\<rparr>) ''PRJ-1'' (uid (CHR ''d'')) done_body = Inr (db', response)"
proof -
  obtain db' response where run: "complete_task example_hasher example_work completion_request ''PRJ-1'' (uid (CHR ''d'')) done_body = Inr (db', response)"
    using task_completed_example by blast
  have "complete_task example_hasher db' (completion_request\<lparr>rq_now := 30\<rparr>) ''PRJ-1'' (uid (CHR ''d'')) done_body = Inr (db', response)"
    by (rule completion_retry [OF run]) (simp_all add: completion_request_def work_eval)
  with run show ?thesis by blast
qed

theorem work_audit_is_chain_witness:
  "audit_chain (org_audit (attempts (work_step example_hasher) example_work
     [CompleteTask completion_request ''PRJ-1'' (uid (CHR ''d'')) done_body,
      CompleteTask (completion_request\<lparr>rq_now := 30\<rparr>) ''PRJ-1'' (uid (CHR ''d'')) done_body]) (uid (CHR ''a'')))"
  by (rule work_audit_is_chain) (simp_all add: completion_request_def work_eval)

end
