(* ===== verification/Schedule.thy ===== *)
theory Schedule
  imports Work Stage_Graph
begin

text \<open>
  The schedule of a project: \<open>apps/api/src/work/schedule.service.ts\<close>. Forecasts of tasks and
  dependencies between them, each with a history of hashed snapshots, on top of the register
  of work. Whether a text names a time zone is an argument (\<open>Intl\<close>). The instants of a body
  are those the schema has parsed. Of a legacy edge, which no command reads, only the row is
  kept.
\<close>

section \<open>The tables\<close>

record edge_row =
  ed_id :: string
  ed_org :: string
  ed_project :: string
  ed_pred :: string
  ed_succ :: string
  ed_type :: dependency_type
  ed_version :: int
  ed_archived :: bool
  ed_state :: string
  ed_by :: string
  ed_created :: int

record dependency_change =
  dh_id :: string
  dh_org :: string
  dh_project :: string
  dh_dependency :: string
  dh_revision :: int
  dh_action :: string
  dh_snapshot :: json
  dh_hash :: string
  dh_reason :: string
  dh_actor :: string

record forecast_revision =
  fr_id :: string
  fr_org :: string
  fr_project :: string
  fr_task :: string
  fr_revision :: int
  fr_snapshot :: json
  fr_hash :: string
  fr_reason :: string
  fr_actor :: string

record schedule_db = work_db +
  sd_edges :: "edge_row list"
  sd_changes :: "dependency_change list"
  sd_forecasts :: "forecast_revision list"

section \<open>Hashes and snapshots\<close>

fun sorted_json :: "json \<Rightarrow> json" where
  "sorted_json (JArr xs) = JArr (map sorted_json xs)"
| "sorted_json (JObj kvs) = JObj (sort_key fst (map (\<lambda>(k, v). (k, sorted_json v)) kvs))"
| "sorted_json v = v"

definition schedule_hash :: "hasher \<Rightarrow> json \<Rightarrow> string" where
  "schedule_hash H v = digest_json H (sorted_json v)"

definition forecast_snapshot :: "task_row \<Rightarrow> json" where
  "forecast_snapshot t = JObj [(''contractVersion'', JStr ''task-forecast.v1''), (''projectId'', JStr (ti_project t)),
     (''taskId'', JStr (ti_id t)), (''forecastVersion'', JNum (of_int (ti_forecast t))), (''startAt'', time_json (ti_start t)),
     (''finishAt'', time_json (ti_finish t)), (''timezone'', text_json (ti_zone t)), (''authorityEffect'', JStr ''forecast_only'')]"

fun type_text :: "dependency_type \<Rightarrow> string" where
  "type_text DepFS = ''FS''" | "type_text DepSS = ''SS''" | "type_text DepFF = ''FF''"

definition edge_summary :: "edge_row \<Rightarrow> (string \<times> json) list" where
  "edge_summary e = [(''id'', JStr (ed_id e)), (''projectId'', JStr (ed_project e)), (''predecessorId'', JStr (ed_pred e)),
     (''successorId'', JStr (ed_succ e)), (''dependencyType'', JStr (type_text (ed_type e))), (''rowVersion'', JNum (of_int (ed_version e))),
     (''isArchived'', JBool (ed_archived e)), (''provenanceState'', JStr (ed_state e)), (''createdAt'', JStr (iso_text (ed_created e)))]"

definition edge_snapshot :: "edge_row \<Rightarrow> json" where
  "edge_snapshot e = JObj (edge_summary e @ [(''dependencyId'', JStr (ed_id e)), (''authorityEffect'', JStr ''planning_only'')])"

definition edge_intact :: "hasher \<Rightarrow> edge_row \<times> dependency_change option \<Rightarrow> bool" where
  "edge_intact H r = (case r of (e, None) \<Rightarrow> False
     | (e, Some c) \<Rightarrow> schedule_hash H (dh_snapshot c) = dh_hash c \<and> schedule_hash H (edge_snapshot e) = dh_hash c)"

definition find_forecast :: "'d schedule_db_scheme \<Rightarrow> task_row \<Rightarrow> forecast_revision option" where
  "find_forecast db t = (case ti_revision t of None \<Rightarrow> None
     | Some r \<Rightarrow> List.find (\<lambda>f. fr_id f = r \<and> fr_org f = ti_org t \<and> fr_project f = ti_project t \<and> fr_task f = ti_id t) (sd_forecasts db))"

definition forecast_intact :: "hasher \<Rightarrow> 'd schedule_db_scheme \<Rightarrow> task_row \<Rightarrow> bool" where
  "forecast_intact H db t = (if ti_forecast t = 0
     then ti_revision t = None \<and> ti_start t = None \<and> ti_finish t = None \<and> \<not> text_given (ti_zone t)
     else (case find_forecast db t of None \<Rightarrow> False
       | Some f \<Rightarrow> schedule_hash H (fr_snapshot f) = fr_hash f \<and> schedule_hash H (forecast_snapshot t) = fr_hash f))"

section \<open>Input\<close>

record forecast_body =
  fo_task_version :: int
  fo_forecast_version :: int
  fo_start :: "int option"
  fo_finish :: "int option"
  fo_zone :: "string option"
  fo_reason :: string

record dependency_body =
  dq_pred :: string
  dq_succ :: string
  dq_pred_version :: int
  dq_succ_version :: int
  dq_type :: dependency_type
  dq_reason :: string

record archive_body =
  ab_version :: int
  ab_reason :: string

text \<open>
  Instants are compared as ISO texts: beyond the four-digit years, which a time offset can
  just reach, the text starts with a sign, and both signs come before the digits.
\<close>

definition iso_rank :: "int \<Rightarrow> nat" where
  "iso_rank t = (if t > 253402300799999 then 0 else if t < - 62167219200000 then 1 else 2)"

definition iso_before :: "int \<Rightarrow> int \<Rightarrow> bool" where
  "iso_before a b \<longleftrightarrow> iso_rank a < iso_rank b \<or> (iso_rank a = iso_rank b \<and> a < b)"

definition validate_forecast :: "(string \<Rightarrow> bool) \<Rightarrow> forecast_body \<Rightarrow> forecast_body res" where
  "validate_forecast Z b =
     bind_res (throw_if (\<not> (0 < fo_task_version b \<and> 0 \<le> fo_forecast_version b \<and> opt_all (sized 1 100) (fo_zone b) \<and> sized 1 2000 (fo_reason b)))
       (Thrown ''SCHEDULE_VALIDATION_ERROR'' [])) (\<lambda>_.
     let b = b\<lparr>fo_zone := map_option trim (fo_zone b), fo_reason := trim (fo_reason b)\<rparr> in
     case (fo_start b, fo_finish b, fo_zone b) of
       (Some s, Some f, Some z) \<Rightarrow>
         bind_res (throw_if (iso_before f s) (Thrown ''SCHEDULE_WINDOW_INVALID'' [])) (\<lambda>_.
         bind_res (throw_if (\<not> Z z) (Thrown ''SCHEDULE_TIMEZONE_INVALID'' [])) (\<lambda>_.
         bind_res (throw_if (iso_before s 0 \<or> iso_before 4133980799999 f) (Thrown ''SCHEDULE_WINDOW_INVALID'' [])) (\<lambda>_. Inr b)))
     | (None, None, None) \<Rightarrow> Inr b
     | _ \<Rightarrow> fail ''SCHEDULE_WINDOW_INVALID'')"

definition parse_dependency :: "dependency_body \<Rightarrow> dependency_body res" where
  "parse_dependency b = (if uuid_text (dq_pred b) \<and> uuid_text (dq_succ b) \<and> 0 < dq_pred_version b \<and> 0 < dq_succ_version b \<and> sized 1 2000 (dq_reason b)
     then Inr (b\<lparr>dq_reason := trim (dq_reason b)\<rparr>) else fail ''SCHEDULE_VALIDATION_ERROR'')"

definition parse_archive :: "archive_body \<Rightarrow> archive_body res" where
  "parse_archive b = (if 0 < ab_version b \<and> sized 1 2000 (ab_reason b)
     then Inr (b\<lparr>ab_reason := trim (ab_reason b)\<rparr>) else fail ''SCHEDULE_VALIDATION_ERROR'')"

definition forecast_input :: "forecast_body \<Rightarrow> json" where
  "forecast_input b = JObj [(''expectedTaskVersion'', JNum (of_int (fo_task_version b))), (''expectedForecastVersion'', JNum (of_int (fo_forecast_version b))),
     (''startAt'', time_json (fo_start b)), (''finishAt'', time_json (fo_finish b)), (''timezone'', text_json (fo_zone b)), (''reason'', JStr (fo_reason b))]"

definition dependency_input :: "dependency_body \<Rightarrow> json" where
  "dependency_input b = JObj [(''predecessorId'', JStr (dq_pred b)), (''successorId'', JStr (dq_succ b)),
     (''expectedPredecessorVersion'', JNum (of_int (dq_pred_version b))), (''expectedSuccessorVersion'', JNum (of_int (dq_succ_version b))),
     (''dependencyType'', JStr (type_text (dq_type b))), (''reason'', JStr (dq_reason b))]"

definition archive_input :: "archive_body \<Rightarrow> json" where
  "archive_input b = JObj [(''expectedVersion'', JNum (of_int (ab_version b))), (''reason'', JStr (ab_reason b))]"

section \<open>The cycle check\<close>

text \<open>\<open>wouldCreateScheduleCycle\<close>: the queue is used from its end.\<close>

definition schedule_adj :: "(string \<times> string) list \<Rightarrow> adjacency" where
  "schedule_adj es = fold (\<lambda>(p, s) adj. adj_push p s adj) es []"

definition to_visit :: "adjacency \<Rightarrow> string list \<Rightarrow> string set" where
  "to_visit adj queue = (\<Union>(k, vs) \<in> set adj. set vs) \<union> set queue"

lemma neighbours_to_visit: "set (neighbours adj n) \<subseteq> to_visit adj q"
proof (cases "map_of adj n")
  case (Some vs)
  from map_of_SomeD [OF this] Some show ?thesis by (force simp: neighbours_def to_visit_def)
qed (simp add: neighbours_def)

function cycle_search :: "adjacency \<Rightarrow> string \<Rightarrow> string list \<Rightarrow> string set \<Rightarrow> bool" where
  "cycle_search adj target queue seen = (if queue = [] then False
     else let item = last queue; rest = butlast queue in
       if item = target then True
       else if item \<in> seen then cycle_search adj target rest seen
       else cycle_search adj target (rest @ neighbours adj item) (insert item seen))"
  by pat_completeness auto
termination
proof (relation "measures [\<lambda>(adj, _, queue, seen). card (to_visit adj queue - seen), \<lambda>(_, _, queue, _). length queue]")
  fix adj :: adjacency and target item :: string and queue rest :: "string list" and seen :: "string set"
  assume *: "queue \<noteq> []" "item = last queue" "rest = butlast queue"
  have fin: "finite (to_visit adj queue)" by (auto simp: to_visit_def)
  have rest: "set rest \<subseteq> set queue" and item: "item \<in> set queue"
    using * by (auto dest: in_set_butlastD)
  have "card (to_visit adj rest - seen) \<le> card (to_visit adj queue - seen)"
    using rest fin by (intro card_mono) (auto simp: to_visit_def)
  then show "((adj, target, rest, seen), adj, target, queue, seen)
      \<in> measures [\<lambda>(adj, _, queue, seen). card (to_visit adj queue - seen), \<lambda>(_, _, queue, _). length queue]"
    using * by auto
  assume "item \<notin> seen"
  moreover have "to_visit adj (rest @ neighbours adj item) \<subseteq> to_visit adj queue"
    using rest neighbours_to_visit [of adj item queue] by (auto simp: to_visit_def)
  ultimately have "card (to_visit adj (rest @ neighbours adj item) - insert item seen) < card (to_visit adj queue - seen)"
    using fin item by (intro psubset_card_mono) (auto simp: to_visit_def)
  then show "((adj, target, rest @ neighbours adj item, insert item seen), adj, target, queue, seen)
      \<in> measures [\<lambda>(adj, _, queue, seen). card (to_visit adj queue - seen), \<lambda>(_, _, queue, _). length queue]"
    by simp
qed simp

declare cycle_search.simps [simp del]

definition would_create_schedule_cycle :: "(string \<times> string) list \<Rightarrow> string \<Rightarrow> string \<Rightarrow> bool" where
  "would_create_schedule_cycle edges pred succ = cycle_search (schedule_adj edges) pred [succ] {}"


section \<open>The service\<close>

definition schedule_task :: "'d work_db_scheme \<Rightarrow> access_context \<Rightarrow> string \<Rightarrow> (task_row \<times> package_row) res" where
  "schedule_task db ctx i = (case first_row (filter (\<lambda>(t, p). ti_id t = to_lower i) (task_package_rows db ctx)) of
       Some (t, p) \<Rightarrow> if task_in_scope ctx t then Inr (t, p) else fail ''SCHEDULE_TASK_NOT_FOUND''
     | None \<Rightarrow> fail ''SCHEDULE_TASK_NOT_FOUND'')"

definition user_name :: "'d core_db_scheme \<Rightarrow> string option \<Rightarrow> json" where
  "user_name db u = text_json (map_option us_name (List.find (\<lambda>x. Some (us_id x) = u) (db_users db)))"

definition schedule_summary :: "hasher \<Rightarrow> 'd schedule_db_scheme \<Rightarrow> access_context option \<Rightarrow> task_row \<times> package_row \<Rightarrow> (string \<times> json) list res" where
  "schedule_summary H db ctx r = (case r of (t, p) \<Rightarrow>
     bind_res (case ctx of None \<Rightarrow> Inr False | Some c \<Rightarrow> can_edit c) (\<lambda>edit.
     Inr [(''id'', JStr (ti_id t)), (''projectId'', JStr (ti_project t)), (''packageId'', JStr (ti_package t)), (''packageName'', JStr (wp_name p)),
       (''title'', JStr (ti_title t)), (''assigneeId'', text_json (ti_assignee t)), (''assigneeName'', user_name db (ti_assignee t)),
       (''state'', JStr (ti_state t)), (''isCompleted'', JBool (ti_completed t)), (''completedAt'', time_json (ti_completed_at t)),
       (''acceptanceState'', JStr (wp_acceptance p)), (''taskVersion'', JNum (of_int (ti_version t))),
       (''forecastVersion'', JNum (of_int (ti_forecast t))), (''startAt'', time_json (ti_start t)), (''finishAt'', time_json (ti_finish t)),
       (''timezone'', text_json (ti_zone t)), (''currentRevisionId'', text_json (ti_revision t)),
       (''snapshotIntegrityVerified'', JBool (forecast_intact H db t)), (''baselineStatus'', JStr ''unavailable''),
       (''canEditForecast'', JBool (edit \<and> wp_status p = ''active'' \<and> \<not> ti_completed t \<and> open_state t \<and> forecast_intact H db t))]))"

definition forecast_row :: "api_request \<Rightarrow> forecast_body \<Rightarrow> task_row \<Rightarrow> task_row" where
  "forecast_row rq b t = t\<lparr>ti_start := fo_start b, ti_finish := fo_finish b, ti_zone := fo_zone b, ti_forecast := ti_forecast t + 1\<rparr>"

definition forecast_saved :: "api_request \<Rightarrow> forecast_body \<Rightarrow> task_row \<Rightarrow> task_row" where
  "forecast_saved rq b t = (forecast_row rq b t)\<lparr>ti_revision := Some (rq_ids rq 2), ti_version := ti_version t + 1, ti_updated := rq_now rq\<rparr>"

definition forecast_revision_of :: "hasher \<Rightarrow> api_request \<Rightarrow> string \<Rightarrow> forecast_body \<Rightarrow> access_context \<Rightarrow> task_row \<Rightarrow> forecast_revision" where
  "forecast_revision_of H rq i b ctx t = (let snapshot = forecast_snapshot (forecast_row rq b t) in
     \<lparr>fr_id = rq_ids rq 2, fr_org = ac_org ctx, fr_project = pj_id (ac_project ctx), fr_task = to_lower i,
       fr_revision = ti_forecast t + 1, fr_snapshot = snapshot, fr_hash = schedule_hash H snapshot, fr_reason = fo_reason b, fr_actor = ac_user ctx\<rparr>)"

definition forecast_change ::
  "hasher \<Rightarrow> api_request \<Rightarrow> string \<Rightarrow> forecast_body \<Rightarrow> 'd schedule_db_scheme \<Rightarrow> access_context \<Rightarrow> ('d schedule_db_scheme \<times> mutation) res" where
  "forecast_change H rq i b db ctx =
     bind_res (schedule_task db ctx i) (\<lambda>(t, p).
     bind_res (throw_if (ti_version t \<noteq> fo_task_version b \<or> ti_forecast t \<noteq> fo_forecast_version b) (Thrown ''SCHEDULE_VERSION_CONFLICT'' [])) (\<lambda>_.
     bind_res (throw_if (\<not> forecast_intact H db t) (Thrown ''SCHEDULE_HISTORY_CONFLICT'' [])) (\<lambda>_.
     bind_res (throw_if (ti_completed t \<or> \<not> open_state t \<or> wp_status p \<noteq> ''active'') (Thrown ''SCHEDULE_TASK_CLOSED'' [])) (\<lambda>_.
     let row = forecast_revision_of H rq i b ctx t
     in bind_res (insert_row (\<lambda>f. (fr_task f, fr_revision f)) row (sd_forecasts db)) (\<lambda>_. bind_res (insert_row fr_id row (sd_forecasts db)) (\<lambda>rows.
        let db1 = db\<lparr>sd_forecasts := rows, wd_tasks := map (\<lambda>u. if ti_id u = to_lower i \<and> in_project ctx (ti_org u) (ti_project u)
              then forecast_saved rq b u else u) (wd_tasks db)\<rparr>
        in bind_res (schedule_task db1 ctx i) (\<lambda>r. bind_res (schedule_summary H db1 (Some ctx) r) (\<lambda>data.
           Inr (db1, \<lparr>mu_id = i, mu_data = data,
             mu_event = [(''revisionId'', JStr (rq_ids rq 2)), (''forecastVersion'', JNum (of_int (ti_forecast t + 1))),
               (''snapshotHash'', JStr (fr_hash row)), (''reason'', JStr (fo_reason b)), (''authorityEffect'', JStr ''forecast_only'')],
             mu_version = Some (ti_version t + 1)\<rparr>)))))))))"

definition change_of :: "edge_row \<Rightarrow> dependency_change \<Rightarrow> bool" where
  "change_of e c \<longleftrightarrow> dh_dependency c = ed_id e \<and> dh_org c = ed_org e \<and> dh_project c = ed_project e \<and> dh_revision c = ed_version e"

text \<open>The query of the active edges of a project, each with the change of its version.\<close>

definition edge_rows :: "'d schedule_db_scheme \<Rightarrow> access_context \<Rightarrow> (edge_row \<times> dependency_change option) list" where
  "edge_rows db ctx = concat (map (\<lambda>e. case filter (change_of e) (sd_changes db) of [] \<Rightarrow> [(e, None)] | cs \<Rightarrow> map (\<lambda>c. (e, Some c)) cs)
     (sort_key ed_id (filter (\<lambda>e. in_project ctx (ed_org e) (ed_project e) \<and> \<not> ed_archived e) (sd_edges db))))"

definition change_row :: "hasher \<Rightarrow> api_request \<Rightarrow> nat \<Rightarrow> edge_row \<Rightarrow> string \<Rightarrow> string \<Rightarrow> access_context \<Rightarrow> dependency_change" where
  "change_row H rq n e action reason ctx = (let snapshot = edge_snapshot e in
     \<lparr>dh_id = rq_ids rq n, dh_org = ac_org ctx, dh_project = pj_id (ac_project ctx), dh_dependency = ed_id e, dh_revision = ed_version e,
       dh_action = action, dh_snapshot = snapshot, dh_hash = schedule_hash H snapshot, dh_reason = reason, dh_actor = ac_user ctx\<rparr>)"

definition append_dependency ::
  "hasher \<Rightarrow> api_request \<Rightarrow> nat \<Rightarrow> edge_row \<Rightarrow> string \<Rightarrow> string \<Rightarrow> 'd schedule_db_scheme \<Rightarrow> access_context \<Rightarrow> ('d schedule_db_scheme \<times> (string \<times> json) list) res" where
  "append_dependency H rq n e action reason db ctx = (let row = change_row H rq n e action reason ctx in
     bind_res (insert_row (\<lambda>c. (dh_dependency c, dh_revision c)) row (sd_changes db)) (\<lambda>_. bind_res (insert_row dh_id row (sd_changes db)) (\<lambda>rows.
     Inr (db\<lparr>sd_changes := rows\<rparr>, [(''revisionId'', JStr (dh_id row)), (''snapshotHash'', JStr (dh_hash row))]))))"

definition new_edge :: "api_request \<Rightarrow> dependency_body \<Rightarrow> access_context \<Rightarrow> edge_row" where
  "new_edge rq b ctx = \<lparr>ed_id = rq_ids rq 2, ed_org = ac_org ctx, ed_project = pj_id (ac_project ctx), ed_pred = to_lower (dq_pred b),
     ed_succ = to_lower (dq_succ b), ed_type = dq_type b, ed_version = 1, ed_archived = False, ed_state = ''manually_recorded'',
     ed_by = ac_user ctx, ed_created = rq_now rq\<rparr>"

text \<open>The constraints of the table: one active edge for a pair of tasks, and no edge from a task to itself.\<close>

definition same_link :: "edge_row \<Rightarrow> edge_row \<Rightarrow> bool" where
  "same_link d e \<longleftrightarrow> ed_org d = ed_org e \<and> ed_project d = ed_project e \<and> ed_pred d = ed_pred e \<and> ed_succ d = ed_succ e"

definition insert_edge :: "edge_row \<Rightarrow> edge_row list \<Rightarrow> edge_row list res" where
  "insert_edge e es = (if ed_pred e = ed_succ e \<or> list_ex (\<lambda>d. same_link d e \<and> ed_state d = ''manually_recorded'' \<and> \<not> ed_archived d) es
     then fail ''PROJECT_ACCESS_STORAGE_UNAVAILABLE'' else insert_row ed_id e es)"

definition add_dependency_change ::
  "hasher \<Rightarrow> api_request \<Rightarrow> dependency_body \<Rightarrow> 'd schedule_db_scheme \<Rightarrow> access_context \<Rightarrow> ('d schedule_db_scheme \<times> mutation) res" where
  "add_dependency_change H rq b db ctx =
     bind_res (schedule_task db ctx (dq_pred b)) (\<lambda>(a, p). bind_res (schedule_task db ctx (dq_succ b)) (\<lambda>(s, q).
     bind_res (throw_if (ti_version a \<noteq> dq_pred_version b \<or> ti_version s \<noteq> dq_succ_version b) (Thrown ''SCHEDULE_VERSION_CONFLICT'' [])) (\<lambda>_.
     bind_res (throw_if (ti_completed s \<or> \<not> open_state s \<or> wp_status p \<noteq> ''active'' \<or> wp_status q \<noteq> ''active'' \<or>
       ti_state a \<notin> set [''planned'', ''active'', ''completed'']) (Thrown ''SCHEDULE_TASK_CLOSED'' [])) (\<lambda>_.
     let rows = take 1001 (edge_rows db ctx); edges = map fst rows in
     bind_res (throw_if (list_ex (\<lambda>e. ed_state e \<noteq> ''manually_recorded'') edges) (Thrown ''SCHEDULE_LEGACY_REVIEW_REQUIRED'' [])) (\<lambda>_.
     bind_res (throw_if (1000 \<le> length rows) (Thrown ''SCHEDULE_GRAPH_LIMIT'' [])) (\<lambda>_.
     bind_res (throw_if (list_ex (\<lambda>r. \<not> edge_intact H r) rows) (Thrown ''SCHEDULE_HISTORY_CONFLICT'' [])) (\<lambda>_.
     bind_res (throw_if (list_ex (\<lambda>e. ed_pred e = dq_pred b \<and> ed_succ e = dq_succ b) edges) (Thrown ''SCHEDULE_DUPLICATE_DEPENDENCY'' [])) (\<lambda>_.
     bind_res (throw_if (would_create_schedule_cycle (map (\<lambda>e. (ed_pred e, ed_succ e)) edges) (dq_pred b) (dq_succ b))
       (Thrown ''SCHEDULE_CYCLE'' [])) (\<lambda>_.
     bind_res (insert_edge (new_edge rq b ctx) (sd_edges db)) (\<lambda>es.
     bind_res (append_dependency H rq 3 (new_edge rq b ctx) ''created'' (dq_reason b) (db\<lparr>sd_edges := es\<rparr>) ctx) (\<lambda>(db1, history).
     Inr (db1, \<lparr>mu_id = rq_ids rq 2, mu_data = edge_summary (new_edge rq b ctx),
       mu_event = history @ [(''reason'', JStr (dq_reason b)), (''authorityEffect'', JStr ''planning_only'')], mu_version = Some 1\<rparr>))))))))))))"

definition schedule_dependency :: "'d schedule_db_scheme \<Rightarrow> access_context \<Rightarrow> string \<Rightarrow> edge_row res" where
  "schedule_dependency db ctx i = (case List.find (\<lambda>e. ed_id e = to_lower i \<and> in_project ctx (ed_org e) (ed_project e)) (sd_edges db) of
       None \<Rightarrow> fail ''SCHEDULE_DEPENDENCY_NOT_FOUND''
     | Some e \<Rightarrow> if ed_state e \<noteq> ''manually_recorded'' then fail ''SCHEDULE_DEPENDENCY_NOT_FOUND''
         else bind_res (schedule_task db ctx (ed_pred e)) (\<lambda>_. bind_res (schedule_task db ctx (ed_succ e)) (\<lambda>_. Inr e)))"

definition archived_row :: "edge_row \<Rightarrow> edge_row" where
  "archived_row e = e\<lparr>ed_archived := True, ed_version := ed_version e + 1\<rparr>"

definition archive_dependency_change ::
  "hasher \<Rightarrow> api_request \<Rightarrow> string \<Rightarrow> archive_body \<Rightarrow> 'd schedule_db_scheme \<Rightarrow> access_context \<Rightarrow> ('d schedule_db_scheme \<times> mutation) res" where
  "archive_dependency_change H rq i b db ctx =
     bind_res (schedule_dependency db ctx i) (\<lambda>e.
     bind_res (throw_if (ed_version e \<noteq> ab_version b \<or> ed_archived e) (Thrown ''SCHEDULE_VERSION_CONFLICT'' [])) (\<lambda>_.
     let prior = List.find (\<lambda>c. dh_dependency c = to_lower i \<and> in_project ctx (dh_org c) (dh_project c) \<and> dh_revision c = ed_version e) (sd_changes db) in
     bind_res (throw_if (\<not> edge_intact H (e, prior)) (Thrown ''SCHEDULE_HISTORY_CONFLICT'' [])) (\<lambda>_.
     let es = map (\<lambda>d. if ed_id d = to_lower i \<and> in_project ctx (ed_org d) (ed_project d) then archived_row d else d) (sd_edges db) in
     bind_res (append_dependency H rq 2 (archived_row e) ''archived'' (ab_reason b) (db\<lparr>sd_edges := es\<rparr>) ctx) (\<lambda>(db1, history).
     Inr (db1, \<lparr>mu_id = i, mu_data = edge_summary (archived_row e),
       mu_event = history @ [(''reason'', JStr (ab_reason b)), (''authorityEffect'', JStr ''planning_only'')],
       mu_version = Some (ed_version e + 1)\<rparr>)))))"

definition valid_identifier :: "string \<Rightarrow> unit res" where
  "valid_identifier i = throw_if (\<not> uuid_text i) (Thrown ''SCHEDULE_VALIDATION_ERROR'' [])"

definition forecast_task :: "hasher \<Rightarrow> (string \<Rightarrow> bool) \<Rightarrow> 'd schedule_db_scheme \<Rightarrow> api_request \<Rightarrow> string \<Rightarrow> string \<Rightarrow> forecast_body \<Rightarrow>
    ('d schedule_db_scheme \<times> json) res" where
  "forecast_task H Z db rq reference i body = bind_res (valid_identifier i) (\<lambda>_. bind_res (validate_forecast Z body) (\<lambda>b.
     run_command H db rq reference edit_access \<lparr>cm_operation = ''schedule.'' @ i @ ''.forecast'', cm_action = ''schedule.forecast.changed'',
       cm_type = ''task'', cm_input = forecast_input b\<rparr> (\<lambda>db ctx. bind_res (schedule_task db ctx i) (\<lambda>_. Inr ())) (forecast_change H rq i b)))"

definition add_dependency :: "hasher \<Rightarrow> 'd schedule_db_scheme \<Rightarrow> api_request \<Rightarrow> string \<Rightarrow> dependency_body \<Rightarrow> ('d schedule_db_scheme \<times> json) res" where
  "add_dependency H db rq reference body = bind_res (parse_dependency body) (\<lambda>b.
     bind_res (throw_if (dq_pred b = dq_succ b) (Thrown ''SCHEDULE_CYCLE'' [])) (\<lambda>_.
     run_command H db rq reference edit_access \<lparr>cm_operation = ''schedule.dependency.create'', cm_action = ''schedule.dependency.created'',
       cm_type = ''dependency'', cm_input = dependency_input b\<rparr>
       (\<lambda>db ctx. bind_res (schedule_task db ctx (dq_pred b)) (\<lambda>_. bind_res (schedule_task db ctx (dq_succ b)) (\<lambda>_. Inr ())))
       (add_dependency_change H rq b)))"

definition archive_dependency :: "hasher \<Rightarrow> 'd schedule_db_scheme \<Rightarrow> api_request \<Rightarrow> string \<Rightarrow> string \<Rightarrow> archive_body \<Rightarrow> ('d schedule_db_scheme \<times> json) res" where
  "archive_dependency H db rq reference i body = bind_res (valid_identifier i) (\<lambda>_. bind_res (parse_archive body) (\<lambda>b.
     run_command H db rq reference edit_access \<lparr>cm_operation = ''schedule.dependency.'' @ i @ ''.archive'', cm_action = ''schedule.dependency.archived'',
       cm_type = ''dependency'', cm_input = archive_input b\<rparr> (\<lambda>db ctx. bind_res (schedule_dependency db ctx i) (\<lambda>_. Inr ()))
       (archive_dependency_change H rq i b)))"

section \<open>The search decides reachability\<close>

lemma adj_rel_schedule: "adj_rel (schedule_adj es) = set es"
proof -
  have "adj_rel (fold (\<lambda>(p, s) adj. adj_push p s adj) es adj) = set es \<union> adj_rel adj" for adj
    by (induction es arbitrary: adj) (auto simp: adj_rel_push)
  then show ?thesis by (simp add: schedule_adj_def) (simp add: adj_rel_def neighbours_def)
qed

lemma neighbour_step: "b \<in> set (neighbours adj a) \<longleftrightarrow> (a, b) \<in> adj_rel adj"
  by (simp add: adj_rel_def)

lemma cycle_search_sound: "cycle_search adj t queue seen \<Longrightarrow> \<exists>q \<in> set queue. (q, t) \<in> (adj_rel adj)\<^sup>*"
proof (induction adj t queue seen rule: cycle_search.induct)
  case (1 adj t queue seen)
  show ?case
  proof (cases "queue = []")
    case False
    then have last: "last queue \<in> set queue" and rest: "set (butlast queue) \<subseteq> set queue" by (auto dest: in_set_butlastD)
    show ?thesis
    proof (cases "last queue = t")
      case False
      note step = 1(1,2) [OF \<open>queue \<noteq> []\<close> refl refl False]
      show ?thesis
      proof (cases "last queue \<in> seen")
        case True
        with step(1) 1(3) \<open>queue \<noteq> []\<close> False rest show ?thesis by (subst (asm) (2) cycle_search.simps) (auto simp: Let_def)
      next
        case unseen: False
        have "cycle_search adj t (butlast queue @ neighbours adj (last queue)) (insert (last queue) seen)"
          using 1(3) \<open>queue \<noteq> []\<close> False unseen by (subst (asm) cycle_search.simps) (simp add: Let_def)
        from step(2) [OF unseen this] obtain q where q: "q \<in> set (butlast queue) \<union> set (neighbours adj (last queue))" "(q, t) \<in> (adj_rel adj)\<^sup>*"
          by auto
        then show ?thesis using rest last by (auto simp: neighbour_step intro: converse_rtrancl_into_rtrancl)
      qed
    qed (use last in auto)
  qed (use 1(3) in \<open>simp add: cycle_search.simps\<close>)
qed

text \<open>A search that fails has seen everything that can be reached, and the target is not among it.\<close>

lemma cycle_search_closed:
  "\<not> cycle_search adj t queue seen \<Longrightarrow> t \<notin> seen \<Longrightarrow> \<forall>x \<in> seen. set (neighbours adj x) \<subseteq> seen \<union> set queue \<Longrightarrow>
     \<exists>S. seen \<union> set queue \<subseteq> S \<and> t \<notin> S \<and> (\<forall>x \<in> S. set (neighbours adj x) \<subseteq> S)"
proof (induction adj t queue seen rule: cycle_search.induct)
  case (1 adj t queue seen)
  show ?case
  proof (cases "queue = []")
    case False
    then have split: "set queue = insert (last queue) (set (butlast queue))"
      by (metis append_butlast_last_id list.set(2) list.simps(15) rotate1.simps(2) set_rotate1)
    have fresh: "last queue \<noteq> t" using 1(3) False by (subst (asm) cycle_search.simps) (auto simp: Let_def)
    note step = 1(1,2) [OF False refl refl fresh]
    show ?thesis
    proof (cases "last queue \<in> seen")
      case True
      then have "\<not> cycle_search adj t (butlast queue) seen"
        using 1(3) False fresh by (subst (asm) cycle_search.simps) (simp add: Let_def)
      moreover have "\<forall>x \<in> seen. set (neighbours adj x) \<subseteq> seen \<union> set (butlast queue)"
        using 1(5) True unfolding split by blast
      ultimately obtain S where "seen \<union> set (butlast queue) \<subseteq> S" "t \<notin> S" "\<forall>x \<in> S. set (neighbours adj x) \<subseteq> S"
        using step(1) [OF True] 1(4) by blast
      then show ?thesis using True unfolding split by (intro exI [of _ S]) auto
    next
      case unseen: False
      then have "\<not> cycle_search adj t (butlast queue @ neighbours adj (last queue)) (insert (last queue) seen)"
        using 1(3) False fresh by (subst (asm) cycle_search.simps) (simp add: Let_def)
      moreover have "\<forall>x \<in> insert (last queue) seen. set (neighbours adj x) \<subseteq> insert (last queue) seen \<union> set (butlast queue @ neighbours adj (last queue))"
        using 1(5) split by auto
      ultimately obtain S where "insert (last queue) seen \<union> set (butlast queue @ neighbours adj (last queue)) \<subseteq> S" "t \<notin> S"
          "\<forall>x \<in> S. set (neighbours adj x) \<subseteq> S"
        using step(2) [OF unseen] 1(4) fresh by auto
      then show ?thesis unfolding split by (intro exI [of _ S]) auto
    qed
  qed (use 1(4,5) in auto)
qed

lemma would_create_cycle_iff: "would_create_schedule_cycle es p s \<longleftrightarrow> (s, p) \<in> (set es)\<^sup>*"
proof
  assume "would_create_schedule_cycle es p s"
  from cycle_search_sound [OF this [unfolded would_create_schedule_cycle_def]] show "(s, p) \<in> (set es)\<^sup>*"
    by (simp add: adj_rel_schedule)
next
  assume path: "(s, p) \<in> (set es)\<^sup>*"
  show "would_create_schedule_cycle es p s"
  proof (rule ccontr)
    assume "\<not> ?thesis"
    then obtain S where S: "s \<in> S" "p \<notin> S" and closed: "\<forall>x \<in> S. set (neighbours (schedule_adj es) x) \<subseteq> S"
      using cycle_search_closed [of "schedule_adj es" p "[s]" "{}"] by (auto simp: would_create_schedule_cycle_def)
    have "(s, x) \<in> (set es)\<^sup>* \<Longrightarrow> x \<in> S" for x
      by (induction rule: rtrancl_induct) (use S(1) closed in \<open>auto simp: adj_rel_schedule neighbour_step dest!: bspec\<close>)
    with path S(2) show False by blast
  qed
qed

section \<open>The commands as steps\<close>

datatype schedule_command =
    OnWork work_command
  | Forecast api_request string string forecast_body
  | AddDependency api_request string dependency_body
  | ArchiveDependency api_request string string archive_body

fun schedule_request :: "schedule_command \<Rightarrow> api_request" where
  "schedule_request (OnWork c) = work_request c"
| "schedule_request (Forecast rq _ _ _) = rq"
| "schedule_request (AddDependency rq _ _) = rq"
| "schedule_request (ArchiveDependency rq _ _ _) = rq"

fun perform_schedule :: "hasher \<Rightarrow> (string \<Rightarrow> bool) \<Rightarrow> 'd schedule_db_scheme \<Rightarrow> schedule_command \<Rightarrow> ('d schedule_db_scheme \<times> json) res" where
  "perform_schedule H Z db (OnWork c) = perform H db c"
| "perform_schedule H Z db (Forecast rq ref i b) = forecast_task H Z db rq ref i b"
| "perform_schedule H Z db (AddDependency rq ref b) = add_dependency H db rq ref b"
| "perform_schedule H Z db (ArchiveDependency rq ref i b) = archive_dependency H db rq ref i b"

definition schedule_step :: "hasher \<Rightarrow> (string \<Rightarrow> bool) \<Rightarrow> 'd schedule_db_scheme \<Rightarrow> schedule_command \<Rightarrow> 'd schedule_db_scheme res" where
  "schedule_step H Z db c = bind_res (perform_schedule H Z db c) (\<lambda>(db', _). Inr db')"

fun schedule_change :: "hasher \<Rightarrow> (string \<Rightarrow> bool) \<Rightarrow> schedule_command \<Rightarrow> 'd schedule_db_scheme \<Rightarrow> access_context \<Rightarrow> ('d schedule_db_scheme \<times> mutation) res" where
  "schedule_change H Z (OnWork c) db ctx = work_change c db ctx"
| "schedule_change H Z (Forecast rq _ i b) db ctx = bind_res (validate_forecast Z b) (\<lambda>b. forecast_change H rq i b db ctx)"
| "schedule_change H Z (AddDependency rq _ b) db ctx = bind_res (parse_dependency b) (\<lambda>b. add_dependency_change H rq b db ctx)"
| "schedule_change H Z (ArchiveDependency rq _ i b) db ctx = bind_res (parse_archive b) (\<lambda>b. archive_dependency_change H rq i b db ctx)"

lemma change_row_simps [simp]:
  "dh_id (change_row H rq n e action reason ctx) = rq_ids rq n" "dh_org (change_row H rq n e action reason ctx) = ac_org ctx"
  "dh_project (change_row H rq n e action reason ctx) = pj_id (ac_project ctx)" "dh_dependency (change_row H rq n e action reason ctx) = ed_id e"
  "dh_revision (change_row H rq n e action reason ctx) = ed_version e" "dh_snapshot (change_row H rq n e action reason ctx) = edge_snapshot e"
  "dh_hash (change_row H rq n e action reason ctx) = schedule_hash H (edge_snapshot e)"
  by (simp_all add: change_row_def Let_def)

lemma forecast_revision_simps [simp]:
  "fr_id (forecast_revision_of H rq i b ctx t) = rq_ids rq 2" "fr_org (forecast_revision_of H rq i b ctx t) = ac_org ctx"
  "fr_project (forecast_revision_of H rq i b ctx t) = pj_id (ac_project ctx)" "fr_task (forecast_revision_of H rq i b ctx t) = to_lower i"
  "fr_revision (forecast_revision_of H rq i b ctx t) = ti_forecast t + 1"
  "fr_snapshot (forecast_revision_of H rq i b ctx t) = forecast_snapshot (forecast_row rq b t)"
  "fr_hash (forecast_revision_of H rq i b ctx t) = schedule_hash H (forecast_snapshot (forecast_row rq b t))"
  by (simp_all add: forecast_revision_of_def Let_def)

lemma append_dependency_Inr [simp]:
  "append_dependency H rq n e action reason db ctx = Inr r \<longleftrightarrow>
     (ed_id e, ed_version e) \<notin> (\<lambda>c. (dh_dependency c, dh_revision c)) ` set (sd_changes db) \<and> rq_ids rq n \<notin> dh_id ` set (sd_changes db) \<and>
     r = (db\<lparr>sd_changes := sd_changes db @ [change_row H rq n e action reason ctx]\<rparr>,
       [(''revisionId'', JStr (rq_ids rq n)), (''snapshotHash'', JStr (dh_hash (change_row H rq n e action reason ctx)))])"
  by (auto simp: append_dependency_def Let_def)

lemma forecast_change_Inr:
  assumes "forecast_change H rq i b db ctx = Inr (db1, m)"
  obtains t p where "schedule_task db ctx i = Inr (t, p)" "\<not> ti_completed t" "rq_ids rq 2 \<notin> fr_id ` set (sd_forecasts db)"
    "db1 = db\<lparr>sd_forecasts := sd_forecasts db @ [forecast_revision_of H rq i b ctx t],
       wd_tasks := map (\<lambda>u. if ti_id u = to_lower i \<and> in_project ctx (ti_org u) (ti_project u) then forecast_saved rq b u else u) (wd_tasks db)\<rparr>"
proof -
  obtain t p where t: "schedule_task db ctx i = Inr (t, p)"
    using assms by (cases "schedule_task db ctx i") (auto simp: forecast_change_def)
  show ?thesis
    using assms by (simp add: forecast_change_def t Let_def) (elim exE conjE; rule that [OF t]; simp)
qed

definition active_in :: "access_context \<Rightarrow> edge_row \<Rightarrow> bool" where
  "active_in ctx e \<longleftrightarrow> in_project ctx (ed_org e) (ed_project e) \<and> \<not> ed_archived e"

lemma edge_rows_set: "fst ` set (edge_rows db ctx) = {e \<in> set (sd_edges db). active_in ctx e}"
proof -
  have "fst ` set (case filter (change_of e) cs of [] \<Rightarrow> [(e, None)] | ds \<Rightarrow> map (\<lambda>c. (e, Some c)) ds) = {e}" for e cs
    by (cases "filter (change_of e) cs") (auto simp: image_image)
  then show ?thesis by (auto simp: edge_rows_def active_in_def image_UN)
qed

lemma add_dependency_change_Inr:
  assumes "add_dependency_change H rq b db ctx = Inr (db1, m)"
  obtains a p s q where "schedule_task db ctx (dq_pred b) = Inr (a, p)" "schedule_task db ctx (dq_succ b) = Inr (s, q)"
    "\<not> would_create_schedule_cycle (map (\<lambda>e. (ed_pred e, ed_succ e)) (map fst (edge_rows db ctx))) (dq_pred b) (dq_succ b)"
    "\<forall>e \<in> set (sd_edges db). active_in ctx e \<longrightarrow> ed_state e = ''manually_recorded'' \<and> \<not> (ed_pred e = dq_pred b \<and> ed_succ e = dq_succ b)"
    "rq_ids rq 2 \<notin> ed_id ` set (sd_edges db)" "(rq_ids rq 2, 1) \<notin> (\<lambda>c. (dh_dependency c, dh_revision c)) ` set (sd_changes db)"
    "\<forall>d \<in> set (sd_edges db). \<not> (same_link d (new_edge rq b ctx) \<and> ed_state d = ''manually_recorded'' \<and> \<not> ed_archived d)"
    "db1 = db\<lparr>sd_edges := sd_edges db @ [new_edge rq b ctx],
       sd_changes := sd_changes db @ [change_row H rq 3 (new_edge rq b ctx) ''created'' (dq_reason b) ctx]\<rparr>"
proof -
  obtain a p where a: "schedule_task db ctx (dq_pred b) = Inr (a, p)"
    using assms by (cases "schedule_task db ctx (dq_pred b)") (auto simp: add_dependency_change_def)
  obtain s q where s: "schedule_task db ctx (dq_succ b) = Inr (s, q)"
    using assms by (cases "schedule_task db ctx (dq_succ b)") (auto simp: add_dependency_change_def a)
  have short: "length (edge_rows db ctx) < 1000" 
    using assms by (simp add: add_dependency_change_def a s Let_def)
  then have rows: "take 1001 (edge_rows db ctx) = edge_rows db ctx" by simp
  have edge: "ed_id (new_edge rq b ctx) = rq_ids rq 2" "ed_version (new_edge rq b ctx) = 1" by (simp_all add: new_edge_def)
  have list: "list_ex P (map fst (edge_rows db ctx)) \<longleftrightarrow> (\<exists>e \<in> set (sd_edges db). active_in ctx e \<and> P e)" for P
    using edge_rows_set [of db ctx] by (auto simp: list_ex_iff)
  show ?thesis
    using assms unfolding add_dependency_change_def a s Let_def rows bind_res_simps prod.case list
    by (simp add: edge insert_edge_def split: if_splits) (elim conjE; rule that [OF a s]; auto simp: list_ex_iff)
qed

lemma archive_dependency_change_Inr:
  assumes "archive_dependency_change H rq i b db ctx = Inr (db1, m)"
  obtains e where "e \<in> set (sd_edges db)" "ed_id e = to_lower i" "active_in ctx e" "ed_state e = ''manually_recorded''"
    "(to_lower i, ed_version e + 1) \<notin> (\<lambda>c. (dh_dependency c, dh_revision c)) ` set (sd_changes db)"
    "db1 = db\<lparr>sd_edges := map (\<lambda>d. if ed_id d = to_lower i \<and> in_project ctx (ed_org d) (ed_project d) then archived_row d else d) (sd_edges db),
       sd_changes := sd_changes db @ [change_row H rq 2 (archived_row e) ''archived'' (ab_reason b) ctx]\<rparr>"
proof -
  obtain e where e: "schedule_dependency db ctx i = Inr e"
    using assms by (cases "schedule_dependency db ctx i") (auto simp: archive_dependency_change_def)
  then have found: "e \<in> set (sd_edges db)" "ed_id e = to_lower i" "in_project ctx (ed_org e) (ed_project e)" "ed_state e = ''manually_recorded''"
    by (auto simp: schedule_dependency_def split: option.splits if_splits dest!: find_Some_iff_in)
  have row: "ed_id (archived_row e) = ed_id e" "ed_version (archived_row e) = ed_version e + 1" by (simp_all add: archived_row_def)
  show ?thesis
    using assms found by (simp add: archive_dependency_change_def e Let_def row) (elim conjE; rule that [OF found(1,2) _ found(4)]; simp add: active_in_def)
qed

interpretation forecasting: project_mutation "forecast_change H rq i b" for H rq i b
  by unfold_locales (erule forecast_change_Inr; simp add: core_db.truncate_def)

interpretation linking: project_mutation "add_dependency_change H rq b" for H rq b
  by unfold_locales (erule add_dependency_change_Inr; simp add: core_db.truncate_def)

interpretation archiving: project_mutation "archive_dependency_change H rq i b" for H rq i b
  by unfold_locales (erule archive_dependency_change_Inr; simp add: core_db.truncate_def)

lemma committed_schedule [simp]:
  "sd_edges (committed H s s1 rq key ctx m cmd) = sd_edges s1" "sd_changes (committed H s s1 rq key ctx m cmd) = sd_changes s1"
  "sd_forecasts (committed H s s1 rq key ctx m cmd) = sd_forecasts s1"
  by (simp_all add: committed_def)

text \<open>The organisation and the idempotency key of a request, and where a link is asked for.\<close>

definition schedule_id :: "schedule_command \<Rightarrow> string option \<times> string option" where
  "schedule_id c = (map_option to_lower (rq_org (schedule_request c)), rq_key (schedule_request c))"

fun acts_in :: "'d schedule_db_scheme \<Rightarrow> schedule_command \<Rightarrow> access_context \<Rightarrow> bool" where
  "acts_in db (AddDependency rq ref b) ctx \<longleftrightarrow> check_access db rq ref edit_access = Inr ctx"
| "acts_in db _ ctx \<longleftrightarrow> True"

lemma schedule_id_of:
  assumes "command_key (schedule_request c) = Inr key" and "check_access db (schedule_request c) ref opts = Inr ctx"
  shows "schedule_id c = (Some (ac_org ctx), Some key)"
  using assms by (simp add: schedule_id_def command_key_Inr check_access_org)

lemma schedule_stepE:
  assumes "schedule_step H Z db c = Inr db'"
  obtains (replayed) "db' = db" "schedule_id c \<in> taken_keys db"
  | (executed) key ctx cmd db1 m where "schedule_id c \<notin> taken_keys db" "acts_in db c ctx" "schedule_change H Z c db ctx = Inr (db1, m)"
      "db' = committed H db db1 (schedule_request c) key ctx m cmd"
proof (cases c)
  case (OnWork w)
  then have "work_step H db w = Inr db'" using assms by (simp add: schedule_step_def work_step_def)
  moreover have "schedule_id c = command_id w" using OnWork by (simp add: schedule_id_def command_id_def)
  ultimately show ?thesis
    by (cases rule: work_stepE) (use OnWork in \<open>auto intro: that\<close>)
next
  case (Forecast rq ref i body)
  note id = schedule_id_of [of c, unfolded Forecast schedule_request.simps]
  from Forecast assms obtain b cmd response where b: "validate_forecast Z body = Inr b"
    and run: "run_command H db rq ref edit_access cmd (\<lambda>db ctx. bind_res (schedule_task db ctx i) (\<lambda>_. Inr ())) (forecast_change H rq i b) = Inr (db', response)"
    by (auto simp: schedule_step_def forecast_task_def)
  from run show ?thesis
  proof (cases rule: forecasting.accepted_command)
    case (replayed key ctx r)
    with Forecast show ?thesis by (intro that(1)) (simp_all add: id taken_keys_find)
  next
    case (executed key ctx db1 m)
    with Forecast b show ?thesis
      by (intro that(2) [of ctx db1 m key cmd]) (simp_all add: id taken_keys_find committed_def)
  qed
next
  case (AddDependency rq ref body)
  note id = schedule_id_of [of c, unfolded AddDependency schedule_request.simps]
  from AddDependency assms obtain b cmd authorize response where b: "parse_dependency body = Inr b"
    and run: "run_command H db rq ref edit_access cmd authorize (add_dependency_change H rq b) = Inr (db', response)"
    by (auto simp: schedule_step_def add_dependency_def)
  from run show ?thesis
  proof (cases rule: linking.accepted_command)
    case (replayed key ctx r)
    with AddDependency show ?thesis by (intro that(1)) (simp_all add: id taken_keys_find)
  next
    case (executed key ctx db1 m)
    with AddDependency b show ?thesis
      by (intro that(2) [of ctx db1 m key cmd]) (simp_all add: id taken_keys_find committed_def)
  qed
next
  case (ArchiveDependency rq ref i body)
  note id = schedule_id_of [of c, unfolded ArchiveDependency schedule_request.simps]
  from ArchiveDependency assms obtain b cmd response where b: "parse_archive body = Inr b"
    and run: "run_command H db rq ref edit_access cmd (\<lambda>db ctx. bind_res (schedule_dependency db ctx i) (\<lambda>_. Inr ())) (archive_dependency_change H rq i b) = Inr (db', response)"
    by (auto simp: schedule_step_def archive_dependency_def)
  from run show ?thesis
  proof (cases rule: archiving.accepted_command)
    case (replayed key ctx r)
    with ArchiveDependency show ?thesis by (intro that(1)) (simp_all add: id taken_keys_find)
  next
    case (executed key ctx db1 m)
    with ArchiveDependency b show ?thesis
      by (intro that(2) [of ctx db1 m key cmd]) (simp_all add: id taken_keys_find committed_def)
  qed
qed

section \<open>The plan as a graph\<close>

text \<open>
  What the dependencies promise, as a machine of its own: a graph per key, and three moves. To
  link two nodes adds the edge, unless it is there or a path leads back; to unlink takes an
  edge that is there.
\<close>

datatype ('k, 'a) plan_move = Rest | Link 'k 'a 'a | Unlink "'k \<times> 'a \<times> 'a"

fun plan :: "('k, 'a) plan_move \<Rightarrow> ('k \<times> 'a \<times> 'a) set \<Rightarrow> ('k \<times> 'a \<times> 'a) set option" where
  "plan Rest G = Some G"
| "plan (Link k p s) G = (if (k, p, s) \<in> G \<or> (s, p) \<in> (G `` {k})\<^sup>* then None else Some (insert (k, p, s) G))"
| "plan (Unlink l) G = (if l \<in> G then Some (G - {l}) else None)"

lemma plan_acyclic:
  assumes "plan m G = Some G'" and "\<forall>k. acyclic (G `` {k})"
  shows "\<forall>k. acyclic (G' `` {k})"
proof (cases m)
  case (Link k p s)
  with assms(1) have "G' = insert (k, p, s) G" "(s, p) \<notin> (G `` {k})\<^sup>*" by (auto split: if_splits)
  moreover from this have "G' `` {j} = (if j = k then insert (p, s) (G `` {k}) else G `` {j})" for j by auto
  ultimately show ?thesis using assms(2) by (simp add: acyclic_insert)
next
  case (Unlink l)
  with assms(1) have "G' = G - {l}" by (auto split: if_splits)
  with assms(2) show ?thesis by (meson Diff_subset Image_mono acyclic_subset subset_refl)
qed (use assms in simp)

definition edge_link :: "edge_row \<Rightarrow> (string \<times> string) \<times> string \<times> string" where
  "edge_link e = ((ed_org e, ed_project e), ed_pred e, ed_succ e)"

definition links :: "'d schedule_db_scheme \<Rightarrow> ((string \<times> string) \<times> string \<times> string) set" where
  "links db = edge_link ` {e \<in> set (sd_edges db). \<not> ed_archived e}"

definition edges_ok :: "edge_row list \<Rightarrow> bool" where
  "edges_ok es \<longleftrightarrow> distinct (map ed_id es) \<and> (\<forall>e \<in> set es. ed_state e = ''manually_recorded'') \<and>
     inj_on edge_link {e \<in> set es. \<not> ed_archived e}"

lemma same_link_iff: "same_link d e \<longleftrightarrow> edge_link d = edge_link e"
  by (auto simp: same_link_def edge_link_def)

text \<open>A request that gives the identifiers of the tasks in lower case.\<close>

fun canonical :: "schedule_command \<Rightarrow> bool" where
  "canonical (AddDependency _ _ b) \<longleftrightarrow> to_lower (dq_pred b) = dq_pred b \<and> to_lower (dq_succ b) = dq_succ b"
| "canonical _ \<longleftrightarrow> True"

text \<open>The move of the planner that a command asks for.\<close>

fun asked_move :: "'d schedule_db_scheme \<Rightarrow> schedule_command \<Rightarrow> (string \<times> string, string) plan_move" where
  "asked_move db (OnWork c) = Rest"
| "asked_move db (Forecast rq ref i b) = Rest"
| "asked_move db (AddDependency rq ref b) = (case check_access db rq ref edit_access of
     Inl e \<Rightarrow> Rest | Inr ctx \<Rightarrow> Link (ac_org ctx, pj_id (ac_project ctx)) (dq_pred b) (dq_succ b))"
| "asked_move db (ArchiveDependency rq ref i b) = (case List.find (\<lambda>e. ed_id e = to_lower i) (sd_edges db) of
     None \<Rightarrow> Rest | Some e \<Rightarrow> Unlink (edge_link e))"

lemma work_change_schedule:
  "work_change c db ctx = Inr (db1, m) \<Longrightarrow> sd_edges db1 = sd_edges db \<and> sd_changes db1 = sd_changes db \<and> sd_forecasts db1 = sd_forecasts db"
  for db :: "'d schedule_db_scheme"
  by (cases c) (auto simp: create_package_change_def create_task_change_def Let_def split: option.splits elim!: complete_task_change_Inr)

lemma graph_of_project:
  "set (map (\<lambda>e. (ed_pred e, ed_succ e)) (map fst (edge_rows db ctx))) = links db `` {(ac_org ctx, pj_id (ac_project ctx))}"
proof -
  have "set (map (\<lambda>e. (ed_pred e, ed_succ e)) (map fst (edge_rows db ctx))) = (\<lambda>e. (ed_pred e, ed_succ e)) ` {e \<in> set (sd_edges db). active_in ctx e}"
    by (simp add: edge_rows_set [symmetric] image_image)
  also have "\<dots> = links db `` {(ac_org ctx, pj_id (ac_project ctx))}"
    by (auto simp: links_def edge_link_def active_in_def in_project_def Image_iff image_iff) metis
  finally show ?thesis .
qed

lemma archived_row_simps [simp]:
  "ed_archived (archived_row e)" "ed_id (archived_row e) = ed_id e" "ed_state (archived_row e) = ed_state e" "ed_version (archived_row e) = ed_version e + 1"
  "ed_org (archived_row e) = ed_org e" "ed_project (archived_row e) = ed_project e"
  by (simp_all add: archived_row_def)

lemma active_after_archive:
  "{d \<in> set (map (\<lambda>d. if Q d then archived_row d else d) es). \<not> ed_archived d} = {d \<in> set es. \<not> ed_archived d \<and> \<not> Q d}"
  by (auto split: if_splits)

lemma archive_links:
  assumes ok: "edges_ok es" and e: "e \<in> set es" "\<not> ed_archived e" "P e"
  shows "edge_link ` {d \<in> set (map (\<lambda>d. if ed_id d = ed_id e \<and> P d then archived_row d else d) es). \<not> ed_archived d}
    = edge_link ` {d \<in> set es. \<not> ed_archived d} - {edge_link e}"
proof -
  have "d = e" if "d \<in> set es" "ed_id d = ed_id e" for d
    using ok e(1) that by (auto simp: edges_ok_def distinct_map inj_on_def)
  then have "{d \<in> set (map (\<lambda>d. if ed_id d = ed_id e \<and> P d then archived_row d else d) es). \<not> ed_archived d} = {d \<in> set es. \<not> ed_archived d} - {e}"
    unfolding active_after_archive using e by blast
  moreover have "edge_link ` ({d \<in> set es. \<not> ed_archived d} - {e}) = edge_link ` {d \<in> set es. \<not> ed_archived d} - edge_link ` {e}"
    using ok e by (intro inj_on_image_set_diff [of _ "{d \<in> set es. \<not> ed_archived d}"]) (auto simp: edges_ok_def)
  ultimately show ?thesis by simp
qed

lemma archive_edges_ok:
  assumes ok: "edges_ok es"
  shows "edges_ok (map (\<lambda>d. if ed_id d = i \<and> P d then archived_row d else d) es)"
proof -
  let ?es = "map (\<lambda>d. if ed_id d = i \<and> P d then archived_row d else d) es"
  have "map ed_id ?es = map ed_id es" by simp
  moreover have "\<forall>e \<in> set ?es. ed_state e = ''manually_recorded''" using ok by (auto simp: edges_ok_def)
  moreover have "inj_on edge_link {e \<in> set ?es. \<not> ed_archived e}"
    unfolding active_after_archive using ok by (auto simp: edges_ok_def intro: inj_on_subset)
  ultimately show ?thesis using ok unfolding edges_ok_def by (simp del: map_map)
qed


lemma edge_found:
  assumes "edges_ok es" and "e \<in> set es"
  shows "List.find (\<lambda>d. ed_id d = ed_id e) es = Some e"
proof -
  have "List.find (\<lambda>d. ed_id d = ed_id e) es \<noteq> None" using assms(2) by (auto simp: find_None_iff)
  then obtain d where d: "List.find (\<lambda>d. ed_id d = ed_id e) es = Some d" by auto
  from find_Some_iff_in [OF this] assms have "d = e" by (auto simp: edges_ok_def distinct_map inj_on_def)
  with d show ?thesis by simp
qed

lemma schedule_change_links:
  assumes ok: "edges_ok (sd_edges db)" and can: "canonical c" and acts: "acts_in db c ctx" and change: "schedule_change H Z c db ctx = Inr (db1, m)"
  shows "edges_ok (sd_edges db1) \<and> plan (asked_move db c) (links db) = Some (links db1)"
proof (cases c)
  case (OnWork w)
  with change have "sd_edges db1 = sd_edges db" by (auto dest: work_change_schedule)
  with ok OnWork show ?thesis by (simp add: links_def)
next
  case (Forecast rq ref i body)
  with change obtain b where "forecast_change H rq i b db ctx = Inr (db1, m)" by auto
  then have "sd_edges db1 = sd_edges db" by (rule forecast_change_Inr) simp
  with ok Forecast show ?thesis by (simp add: links_def)
next
  case (AddDependency rq ref body)
  with change obtain b where b: "parse_dependency body = Inr b" and add: "add_dependency_change H rq b db ctx = Inr (db1, m)" by auto
  have same: "dq_pred b = dq_pred body" "dq_succ b = dq_succ body"
    using b by (auto simp: parse_dependency_def split: if_splits)
  have low: "to_lower (dq_pred b) = dq_pred b" "to_lower (dq_succ b) = dq_succ b"
    using can AddDependency by (simp_all add: same)
  let ?k = "(ac_org ctx, pj_id (ac_project ctx))" and ?e = "new_edge rq b ctx"
  have e: "edge_link ?e = (?k, dq_pred b, dq_succ b)" "ed_state ?e = ''manually_recorded''" "\<not> ed_archived ?e" "ed_id ?e = rq_ids rq 2"
    using low by (simp_all add: new_edge_def edge_link_def)
  have move: "asked_move db c = Link ?k (dq_pred b) (dq_succ b)" using acts AddDependency by (simp add: same)
  from add show ?thesis
  proof (rule add_dependency_change_Inr)
    assume search: "\<not> would_create_schedule_cycle (map (\<lambda>e. (ed_pred e, ed_succ e)) (map fst (edge_rows db ctx))) (dq_pred b) (dq_succ b)"
      and fresh: "rq_ids rq 2 \<notin> ed_id ` set (sd_edges db)"
      and new: "\<forall>d \<in> set (sd_edges db). \<not> (same_link d ?e \<and> ed_state d = ''manually_recorded'' \<and> \<not> ed_archived d)"
      and db1: "db1 = db\<lparr>sd_edges := sd_edges db @ [?e], sd_changes := sd_changes db @ [change_row H rq 3 ?e ''created'' (dq_reason b) ctx]\<rparr>"
    have active: "{d \<in> set (sd_edges db1). \<not> ed_archived d} = insert ?e {d \<in> set (sd_edges db). \<not> ed_archived d}"
      using e(3) by (auto simp: db1)
    then have "links db1 = insert (?k, dq_pred b, dq_succ b) (links db)" by (simp add: links_def e(1))
    moreover have "(dq_succ b, dq_pred b) \<notin> (links db `` {?k})\<^sup>*"
      using search unfolding would_create_cycle_iff graph_of_project .
    moreover have "edge_link ?e \<notin> edge_link ` {d \<in> set (sd_edges db). \<not> ed_archived d}"
      using ok new by (auto simp: edges_ok_def same_link_iff)
    moreover have "inj_on edge_link {d \<in> set (sd_edges db1). \<not> ed_archived d}"
      unfolding active using ok new by (auto simp: edges_ok_def same_link_iff)
    ultimately show ?thesis
      using ok fresh e(2,4) unfolding move e(1) by (auto simp: edges_ok_def db1 links_def)
  qed
next
  case (ArchiveDependency rq ref i body)
  with change obtain b where "archive_dependency_change H rq i b db ctx = Inr (db1, m)" by auto
  then show ?thesis
  proof (rule archive_dependency_change_Inr)
    fix e assume e: "e \<in> set (sd_edges db)" "ed_id e = to_lower i" "active_in ctx e"
      and db1: "db1 = db\<lparr>sd_edges := map (\<lambda>d. if ed_id d = to_lower i \<and> in_project ctx (ed_org d) (ed_project d) then archived_row d else d) (sd_edges db),
        sd_changes := sd_changes db @ [change_row H rq 2 (archived_row e) ''archived'' (ab_reason b) ctx]\<rparr>"
    have edges: "sd_edges db1 = map (\<lambda>d. if ed_id d = ed_id e \<and> in_project ctx (ed_org d) (ed_project d) then archived_row d else d) (sd_edges db)"
      by (simp add: db1 e(2))
    have "links db1 = links db - {edge_link e}"
      unfolding links_def edges by (rule archive_links [OF ok e(1)]) (use e(3) in \<open>simp_all add: active_in_def\<close>)
    moreover have "edge_link e \<in> links db" using e(1,3) by (auto simp: links_def active_in_def)
    moreover have "asked_move db c = Unlink (edge_link e)"
      using ArchiveDependency edge_found [OF ok e(1)] by (simp add: e(2))
    ultimately show ?thesis by (simp add: db1 archive_edges_ok ok)
  qed
qed

lemma links_committed [simp]: "links (committed H s s1 rq key ctx m cmd) = links s1"
  by (simp add: links_def)

lemma schedule_step_links:
  assumes ok: "edges_ok (sd_edges db)" and can: "canonical c" and step: "schedule_step H Z db c = Inr db'"
  shows "edges_ok (sd_edges db') \<and> (if schedule_id c \<in> taken_keys db then db' = db else plan (asked_move db c) (links db) = Some (links db'))"
  using step
proof (cases rule: schedule_stepE)
  case (executed key ctx cmd db1 m)
  from schedule_change_links [OF ok can executed(2,3)] executed(1) show ?thesis by (simp add: executed(4))
qed (use ok in simp)

interpretation plan_run: guarded_run "schedule_step H Z" "\<lambda>db. edges_ok (sd_edges db) \<and> (\<forall>k. acyclic (links db `` {k}))" canonical for H Z
proof unfold_locales
  fix s :: "'d schedule_db_scheme" and c s'
  assume "edges_ok (sd_edges s) \<and> (\<forall>k. acyclic (links s `` {k}))" and "canonical c" and "schedule_step H Z s c = Inr s'"
  then show "edges_ok (sd_edges s') \<and> (\<forall>k. acyclic (links s' `` {k}))"
    using schedule_step_links [of s c H Z s'] by (auto split: if_splits dest: plan_acyclic)
qed

text \<open>
  C14: the plan of a project never has a cycle. Whatever commands are attempted on a register
  without edges, work and forecasts in between and refused ones included, as long as they
  give identifiers in lower case the active dependencies of every project are acyclic, and no
  two of them connect the same tasks.
\<close>

theorem plan_never_cyclic:
  assumes "sd_edges db = []" and "\<forall>c \<in> set cs. canonical c"
  shows "acyclic (links (attempts (schedule_step H Z) db cs) `` {(org, project)}) \<and>
    inj_on edge_link {e \<in> set (sd_edges (attempts (schedule_step H Z) db cs)). \<not> ed_archived e}"
proof -
  have "edges_ok (sd_edges db) \<and> (\<forall>k. acyclic (links db `` {k}))"
    by (simp add: assms(1) edges_ok_def links_def acyclic_def)
  from plan_run.attempts_inv [OF this assms(2)] show ?thesis by (simp add: edges_ok_def)
qed

section \<open>Histories\<close>

definition edge_backed :: "hasher \<Rightarrow> dependency_change list \<Rightarrow> edge_row \<Rightarrow> bool" where
  "edge_backed H cs e \<longleftrightarrow> (\<exists>c \<in> set cs. change_of e c) \<and> (\<forall>c \<in> set cs. change_of e c \<longrightarrow> edge_intact H (e, Some c))"

definition history_ok :: "hasher \<Rightarrow> 'd schedule_db_scheme \<Rightarrow> bool" where
  "history_ok H db \<longleftrightarrow> work_ok db \<and> distinct (map ed_id (sd_edges db)) \<and> (\<forall>e \<in> set (sd_edges db). edge_backed H (sd_changes db) e) \<and>
     (\<forall>t \<in> set (wd_tasks db). 0 \<le> ti_forecast t \<and> forecast_intact H db t)"

lemma forecast_intact_append:
  assumes "forecast_intact H db t" and "sd_forecasts db1 = sd_forecasts db @ fs"
  shows "forecast_intact H db1 t"
proof -
  have find: "List.find P xs = Some f \<Longrightarrow> List.find P (xs @ ys) = Some f" for P xs ys and f :: forecast_revision
    by (induction xs) (auto split: if_splits)
  have "find_forecast db1 t = Some f" if "find_forecast db t = Some f" for f
    using that find by (auto simp: find_forecast_def assms(2) split: option.splits)
  then show ?thesis
    using assms(1) by (cases "find_forecast db t") (simp_all add: forecast_intact_def split: if_splits)
qed

lemma forecast_intact_fields:
  assumes "ti_forecast u = ti_forecast t" "ti_revision u = ti_revision t" "ti_start u = ti_start t" "ti_finish u = ti_finish t" "ti_zone u = ti_zone t"
    "ti_org u = ti_org t" "ti_project u = ti_project t" "ti_id u = ti_id t"
  shows "forecast_intact H db u = forecast_intact H db t"
  using assms by (simp add: forecast_intact_def find_forecast_def forecast_snapshot_def cong: option.case_cong)

lemma forecast_intact_new:
  assumes "rq_ids rq 2 \<notin> fr_id ` set (sd_forecasts db)" and "ti_org t = ac_org ctx" "ti_project t = pj_id (ac_project ctx)" "ti_id t = to_lower i"
    and "0 \<le> ti_forecast t" and db1: "sd_forecasts db1 = sd_forecasts db @ [forecast_revision_of H rq i b ctx t]"
  shows "forecast_intact H db1 (forecast_saved rq b t)"
proof -
  have find: "List.find P (xs @ [f]) = Some f" if "\<forall>x \<in> set xs. \<not> P x" "P f" for P xs and f :: forecast_revision
    using that by (induction xs) auto
  have "find_forecast db1 (forecast_saved rq b t) = Some (forecast_revision_of H rq i b ctx t)"
    unfolding find_forecast_def db1 using assms(1-4)
    by (simp add: forecast_saved_def forecast_row_def) (rule find; force)
  moreover have "forecast_snapshot (forecast_saved rq b t) = forecast_snapshot (forecast_row rq b t)"
    by (simp add: forecast_snapshot_def forecast_saved_def forecast_row_def)
  moreover have "ti_forecast (forecast_saved rq b t) = ti_forecast t + 1" by (simp add: forecast_saved_def forecast_row_def)
  ultimately show ?thesis using assms(5) by (simp add: forecast_intact_def)
qed

lemma schedule_task_Inr:
  assumes "schedule_task db ctx i = Inr (t, p)"
  shows "t \<in> set (wd_tasks db) \<and> ti_id t = to_lower i \<and> in_project ctx (ti_org t) (ti_project t)"
  using assms by (auto simp: schedule_task_def task_package_rows_def split: option.splits if_splits dest!: first_row_in)

lemma history_ok_tasks:
  assumes "history_ok H db" and "\<forall>t \<in> set (wd_tasks db1). t \<in> set (wd_tasks db) \<or> (0 \<le> ti_forecast t \<and> forecast_intact H db1 t)"
    and "work_ok db1" and "sd_edges db1 = sd_edges db" and "sd_changes db1 = sd_changes db" and "sd_forecasts db1 = sd_forecasts db @ fs"
  shows "history_ok H db1"
  using assms(1,2) forecast_intact_append [OF _ assms(6)] by (auto simp: history_ok_def assms(3-5))

lemma forecast_saved_simps [simp]:
  "ti_id (forecast_saved rq b t) = ti_id t" "ti_package (forecast_saved rq b t) = ti_package t" "ti_org (forecast_saved rq b t) = ti_org t"
  "ti_project (forecast_saved rq b t) = ti_project t" "ti_state (forecast_saved rq b t) = ti_state t" "ti_completed (forecast_saved rq b t) = ti_completed t"
  "ti_completed_at (forecast_saved rq b t) = ti_completed_at t" "ti_completed_by (forecast_saved rq b t) = ti_completed_by t"
  "ti_version (forecast_saved rq b t) = ti_version t + 1" "ti_forecast (forecast_saved rq b t) = ti_forecast t + 1"
  by (simp_all add: forecast_saved_def forecast_row_def)

lemma work_ok_forecast:
  assumes "work_ok db" and "wd_packages db1 = wd_packages db" and "wd_tasks db1 = map (\<lambda>u. if P u then forecast_saved rq b u else u) (wd_tasks db)"
  shows "work_ok db1"
proof -
  have "task_ok ps t \<Longrightarrow> task_ok ps (forecast_saved rq b t)" for ps t by (simp add: task_ok_def) argo
  moreover have "map ti_id (wd_tasks db1) = map ti_id (wd_tasks db)" by (simp add: assms(3))
  ultimately show ?thesis using assms by (auto simp: work_ok_def simp del: map_map)
qed

lemma history_forecast:
  assumes ok: "history_ok H db" and change: "forecast_change H rq i b db ctx = Inr (db1, m)"
  shows "history_ok H db1"
  using change
proof (rule forecast_change_Inr)
  fix t p
  let ?P = "\<lambda>u. ti_id u = to_lower i \<and> in_project ctx (ti_org u) (ti_project u)"
  assume t: "schedule_task db ctx i = Inr (t, p)" and fresh: "rq_ids rq 2 \<notin> fr_id ` set (sd_forecasts db)"
    and db1: "db1 = db\<lparr>sd_forecasts := sd_forecasts db @ [forecast_revision_of H rq i b ctx t],
      wd_tasks := map (\<lambda>u. if ?P u then forecast_saved rq b u else u) (wd_tasks db)\<rparr>"
  have work: "work_ok db" and tasks: "\<forall>t \<in> set (wd_tasks db). 0 \<le> ti_forecast t" using ok by (auto simp: history_ok_def)
  note found = schedule_task_Inr [OF t]
  have only: "u = t" if "u \<in> set (wd_tasks db)" "?P u" for u
    using work_ok_task_id [OF work that(1)] found that(2) by auto
  have new: "forecast_intact H db1 (forecast_saved rq b t)"
    by (rule forecast_intact_new [OF fresh]) (use found tasks in \<open>auto simp: in_project_def db1\<close>)
  have each: "u \<in> set (wd_tasks db) \<or> u = forecast_saved rq b t" if "u \<in> set (wd_tasks db1)" for u
    using that only by (auto simp: db1 split: if_splits)
  show ?thesis
  proof (rule history_ok_tasks [OF ok])
    show "\<forall>u \<in> set (wd_tasks db1). u \<in> set (wd_tasks db) \<or> (0 \<le> ti_forecast u \<and> forecast_intact H db1 u)"
      using each new found tasks by fastforce
    show "work_ok db1" by (rule work_ok_forecast [OF work, of _ ?P rq b]) (simp_all add: db1)
  qed (simp_all add: db1)
qed

lemma history_work:
  assumes ok: "history_ok H db" and change: "work_change c db ctx = Inr (db1, m)"
  shows "history_ok H db1"
proof (rule history_ok_tasks [OF ok])
  show "work_ok db1" using work_change_ok [OF _ change] ok by (simp add: history_ok_def)
  have same: "sd_forecasts db1 = sd_forecasts db" using work_change_schedule [OF change] by simp
  show "\<forall>u \<in> set (wd_tasks db1). u \<in> set (wd_tasks db) \<or> (0 \<le> ti_forecast u \<and> forecast_intact H db1 u)"
  proof
    fix u assume u: "u \<in> set (wd_tasks db1)"
    show "u \<in> set (wd_tasks db) \<or> (0 \<le> ti_forecast u \<and> forecast_intact H db1 u)"
    proof (cases c)
      case (CreatePackage rq ref body)
      with change u show ?thesis by (auto simp: create_package_change_def Let_def)
    next
      case (CreateTask rq ref body)
      with change obtain b where "create_task_change rq b db ctx = Inr (db1, m)" by auto
      with u have "u \<in> set (wd_tasks db) \<or> u = new_task rq b ctx"
        by (auto simp: create_task_change_def Let_def split: option.splits)
      then show ?thesis by (auto simp: new_task_def forecast_intact_def text_given_def)
    next
      case (CompleteTask rq ref i body)
      with change obtain b where "complete_task_change rq i b db ctx = Inr (db1, m)" by auto
      with u have "\<exists>t \<in> set (wd_tasks db). u = t \<or> u = complete_row ctx (rq_now rq) (cb_evidence b) t"
        by (elim complete_task_change_Inr) (auto split: if_splits)
      then obtain t where t: "t \<in> set (wd_tasks db)" "u = t \<or> u = complete_row ctx (rq_now rq) (cb_evidence b) t" by blast
      have "0 \<le> ti_forecast t \<and> forecast_intact H db1 t"
        using ok t(1) forecast_intact_append [of H db t db1 "[]"] same by (simp add: history_ok_def)
      moreover have "forecast_intact H db1 (complete_row ctx (rq_now rq) (cb_evidence b) t) = forecast_intact H db1 t"
        by (rule forecast_intact_fields) (simp_all add: complete_row_def)
      ultimately show ?thesis using t by (auto simp: complete_row_def)
    qed
  qed
qed (use work_change_schedule [OF change] in auto)

lemma edge_backed_append:
  assumes "edge_backed H cs e" and "\<not> change_of e c"
  shows "edge_backed H (cs @ [c]) e"
  using assms by (auto simp: edge_backed_def)

lemma edge_backed_new:
  assumes "(ed_id e, ed_version e) \<notin> (\<lambda>c. (dh_dependency c, dh_revision c)) ` set cs" and "change_of e c"
    and "dh_snapshot c = edge_snapshot e" and "dh_hash c = schedule_hash H (edge_snapshot e)"
  shows "edge_backed H (cs @ [c]) e"
proof -
  have "\<not> change_of e d" if "d \<in> set cs" for d using assms(1) that by (force simp: change_of_def)
  with assms(2-4) show ?thesis by (auto simp: edge_backed_def edge_intact_def)
qed

lemma history_add:
  assumes ok: "history_ok H db" and change: "add_dependency_change H rq b db ctx = Inr (db1, m)"
  shows "history_ok H db1"
  using change
proof (rule add_dependency_change_Inr)
  let ?e = "new_edge rq b ctx"
  assume fresh: "rq_ids rq 2 \<notin> ed_id ` set (sd_edges db)" "(rq_ids rq 2, 1) \<notin> (\<lambda>c. (dh_dependency c, dh_revision c)) ` set (sd_changes db)"
    and db1: "db1 = db\<lparr>sd_edges := sd_edges db @ [?e], sd_changes := sd_changes db @ [change_row H rq 3 ?e ''created'' (dq_reason b) ctx]\<rparr>"
  have e: "ed_id ?e = rq_ids rq 2" "ed_version ?e = 1" "ed_org ?e = ac_org ctx" "ed_project ?e = pj_id (ac_project ctx)"
    by (simp_all add: new_edge_def)
  have "edge_backed H (sd_changes db1) ?e"
    unfolding db1 schedule_db.simps by (simp, rule edge_backed_new) (use fresh(2) in \<open>simp_all add: e change_of_def\<close>)
  moreover have "edge_backed H (sd_changes db1) d" if "d \<in> set (sd_edges db)" for d
    unfolding db1 using that ok fresh(1) by (simp, intro edge_backed_append) (auto simp: history_ok_def change_of_def e)
  moreover have "forecast_intact H db1 t" if "forecast_intact H db t" for t
    using forecast_intact_append [OF that, of db1 "[]"] by (simp add: db1)
  ultimately show ?thesis using ok fresh(1) by (auto simp: history_ok_def db1 e work_ok_def)
qed

lemma history_archive:
  assumes ok: "history_ok H db" and change: "archive_dependency_change H rq i b db ctx = Inr (db1, m)"
  shows "history_ok H db1"
  using change
proof (rule archive_dependency_change_Inr)
  fix e
  let ?f = "\<lambda>d. if ed_id d = to_lower i \<and> in_project ctx (ed_org d) (ed_project d) then archived_row d else d"
  assume e: "e \<in> set (sd_edges db)" "ed_id e = to_lower i" "active_in ctx e"
    and fresh: "(to_lower i, ed_version e + 1) \<notin> (\<lambda>c. (dh_dependency c, dh_revision c)) ` set (sd_changes db)"
    and db1: "db1 = db\<lparr>sd_edges := map ?f (sd_edges db), sd_changes := sd_changes db @ [change_row H rq 2 (archived_row e) ''archived'' (ab_reason b) ctx]\<rparr>"
  have inj: "inj_on ed_id (set (sd_edges db))" using ok by (simp add: history_ok_def distinct_map)
  have only: "d = e" if "d \<in> set (sd_edges db)" "ed_id d = to_lower i" for d
    using inj_onD [OF inj _ that(1) e(1)] that(2) e(2) by simp
  have new: "edge_backed H (sd_changes db1) (archived_row e)"
    unfolding db1 by (simp, rule edge_backed_new) (use fresh e in \<open>simp_all add: change_of_def active_in_def in_project_def\<close>)
  have old: "edge_backed H (sd_changes db1) d" if "d \<in> set (sd_edges db)" "ed_id d \<noteq> to_lower i" for d
  proof -
    have "edge_backed H (sd_changes db) d" using that(1) ok by (simp add: history_ok_def)
    moreover have "\<not> change_of d (change_row H rq 2 (archived_row e) ''archived'' (ab_reason b) ctx)"
      using that(2) e(2) by (simp add: change_of_def)
    ultimately show ?thesis by (simp add: db1 edge_backed_append)
  qed
  have "edge_backed H (sd_changes db1) d" if d: "d \<in> set (sd_edges db1)" for d
  proof -
    from d obtain d0 where d0: "d0 \<in> set (sd_edges db)" "d = ?f d0" unfolding db1 by auto
    show ?thesis
    proof (cases "ed_id d0 = to_lower i")
      case True
      from only [OF d0(1) True] e(3) True d0(2) have "d = archived_row e" by (simp add: active_in_def)
      with new show ?thesis by simp
    qed (use d0 old in simp)
  qed
  moreover have "map ed_id (sd_edges db1) = map ed_id (sd_edges db)" by (simp add: db1)
  moreover have "forecast_intact H db1 t" if "forecast_intact H db t" for t
    using forecast_intact_append [OF that, of db1 "[]"] by (simp add: db1)
  moreover have "work_ok db1" "wd_tasks db1 = wd_tasks db" using ok by (simp_all add: db1 history_ok_def work_ok_def)
  ultimately show ?thesis using ok by (simp add: history_ok_def)
qed

lemma history_step:
  assumes ok: "history_ok H db" and step: "schedule_step H Z db c = Inr db'"
  shows "history_ok H db'"
  using step
proof (cases rule: schedule_stepE)
  case (executed key ctx cmd db1 m)
  have "history_ok H db1"
  proof (cases c)
    case (OnWork w)
    with executed(3) show ?thesis by (auto intro: history_work [OF ok])
  next
    case (Forecast rq ref i b)
    with executed(3) show ?thesis by (auto intro: history_forecast [OF ok])
  next
    case (AddDependency rq ref b)
    with executed(3) show ?thesis by (auto intro: history_add [OF ok])
  next
    case (ArchiveDependency rq ref i b)
    with executed(3) show ?thesis by (auto intro: history_archive [OF ok])
  qed
  moreover have "forecast_intact H (committed H db db1 rq key ctx m cmd) t = forecast_intact H db1 t" for rq t
    by (simp add: forecast_intact_def find_forecast_def cong: option.case_cong)
  ultimately show ?thesis by (simp add: executed(4) history_ok_def work_ok_def)
qed (use ok in simp)

interpretation history_run: guarded_run "schedule_step H Z" "history_ok H" "\<lambda>_. True" for H Z
  by unfold_locales (rule history_step)


definition schedule_codes :: "string list" where
  "schedule_codes = access_codes @ [''SCHEDULE_VALIDATION_ERROR'', ''SCHEDULE_WINDOW_INVALID'', ''SCHEDULE_TIMEZONE_INVALID'', ''SCHEDULE_TASK_NOT_FOUND'',
     ''SCHEDULE_DEPENDENCY_NOT_FOUND'', ''SCHEDULE_VERSION_CONFLICT'', ''SCHEDULE_TASK_CLOSED'', ''SCHEDULE_LEGACY_REVIEW_REQUIRED'',
     ''SCHEDULE_GRAPH_LIMIT'', ''SCHEDULE_DUPLICATE_DEPENDENCY'', ''SCHEDULE_CYCLE'']"

lemma schedule_codes_simps [simp]: "set access_codes \<subseteq> set schedule_codes" "''SCHEDULE_HISTORY_CONFLICT'' \<notin> set schedule_codes"
  by (auto simp: schedule_codes_def access_codes_def)

lemma coded_schedule_task [codes]: "coded schedule_codes (schedule_task db ctx i)"
  unfolding schedule_task_def by (intro codes) (simp_all add: schedule_codes_def)

lemma coded_schedule_dependency [codes]: "coded schedule_codes (schedule_dependency db ctx i)"
  unfolding schedule_dependency_def by (intro codes) (simp_all add: schedule_codes_def)

lemma coded_validate_forecast [codes]: "coded schedule_codes (validate_forecast Z b)"
  unfolding validate_forecast_def Let_def by (intro codes) (simp_all add: schedule_codes_def)

lemma coded_parse_dependency [codes]: "coded schedule_codes (parse_dependency b)"
  unfolding parse_dependency_def by (intro codes) (simp_all add: schedule_codes_def)

lemma coded_parse_archive [codes]: "coded schedule_codes (parse_archive b)"
  unfolding parse_archive_def by (intro codes) (simp_all add: schedule_codes_def)

lemma coded_valid_identifier [codes]: "coded schedule_codes (valid_identifier i)"
  unfolding valid_identifier_def by (intro codes) (simp_all add: schedule_codes_def)

lemma coded_summary [codes]: "coded cs (schedule_summary H db ctx r)"
  unfolding schedule_summary_def can_edit_def holds_any_def by (intro codes)

lemma coded_append_dependency [codes]: "coded schedule_codes (append_dependency H rq n e action reason db ctx)"
  unfolding append_dependency_def Let_def by (intro codes) (simp_all add: schedule_codes_def access_codes_def)

lemma coded_insert_edge [codes]: "coded schedule_codes (insert_edge e es)"
  unfolding insert_edge_def by (intro codes) (simp_all add: schedule_codes_def access_codes_def)

lemma coded_false [codes]: "\<not> b \<Longrightarrow> coded cs (throw_if b e)"
  by (simp add: coded_Inr)

lemma coded_forecast_change:
  assumes "history_ok H db"
  shows "coded schedule_codes (forecast_change H rq i b db ctx)"
proof -
  have "forecast_intact H db t" if "schedule_task db ctx i = Inr (t, p)" for t p
    using assms schedule_task_Inr [OF that] by (simp add: history_ok_def)
  then show ?thesis
    unfolding forecast_change_def Let_def
    by (intro codes) (simp_all add: schedule_codes_def access_codes_def)
qed

lemma edge_rows_intact:
  assumes "history_ok H db" and "r \<in> set (edge_rows db ctx)"
  shows "edge_intact H r"
proof -
  from assms(2) obtain e where e: "e \<in> set (sd_edges db)" and r: "r \<in> set (case filter (change_of e) (sd_changes db) of [] \<Rightarrow> [(e, None)]
      | cs \<Rightarrow> map (\<lambda>c. (e, Some c)) cs)"
    by (auto simp: edge_rows_def)
  have backed: "edge_backed H (sd_changes db) e" using assms(1) e by (simp add: history_ok_def)
  then have "filter (change_of e) (sd_changes db) \<noteq> []" by (auto simp: edge_backed_def filter_empty_conv)
  with r have "r \<in> set (map (\<lambda>c. (e, Some c)) (filter (change_of e) (sd_changes db)))"
    by (cases "filter (change_of e) (sd_changes db)") simp_all
  with backed show ?thesis by (auto simp: edge_backed_def)
qed

lemma coded_add_dependency_change:
  assumes "history_ok H db"
  shows "coded schedule_codes (add_dependency_change H rq b db ctx)"
proof -
  have "\<not> list_ex (\<lambda>r. \<not> edge_intact H r) (take 1001 (edge_rows db ctx))"
    using edge_rows_intact [OF assms] by (auto simp: list_ex_iff dest: in_set_takeD)
  then show ?thesis
    unfolding add_dependency_change_def Let_def
    by (intro codes) (simp_all add: schedule_codes_def access_codes_def)
qed

lemma coded_archive_dependency_change:
  assumes "history_ok H db"
  shows "coded schedule_codes (archive_dependency_change H rq i b db ctx)"
proof -
  have "edge_intact H (e, List.find (\<lambda>c. dh_dependency c = to_lower i \<and> in_project ctx (dh_org c) (dh_project c) \<and> dh_revision c = ed_version e) (sd_changes db))"
    if "schedule_dependency db ctx i = Inr e" for e
  proof -
    have e: "e \<in> set (sd_edges db)" "ed_id e = to_lower i" "in_project ctx (ed_org e) (ed_project e)"
      using that by (auto simp: schedule_dependency_def split: option.splits if_splits dest!: find_Some_iff_in)
    then have same: "(dh_dependency c = to_lower i \<and> in_project ctx (dh_org c) (dh_project c) \<and> dh_revision c = ed_version e) \<longleftrightarrow> change_of e c" for c
      by (auto simp: change_of_def in_project_def)
    have backed: "edge_backed H (sd_changes db) e" using assms e(1) by (simp add: history_ok_def)
    then have "List.find (change_of e) (sd_changes db) \<noteq> None" by (auto simp: edge_backed_def find_None_iff)
    then obtain c where "List.find (change_of e) (sd_changes db) = Some c" by auto
    moreover from find_Some_iff_in [OF this] backed have "edge_intact H (e, Some c)" by (simp add: edge_backed_def)
    ultimately show ?thesis by (simp add: same)
  qed
  then show ?thesis
    unfolding archive_dependency_change_def Let_def
    by (intro codes) (simp_all add: schedule_codes_def access_codes_def)
qed

text \<open>
  Nothing the system does makes a history conflict. Whatever work and schedule commands
  are attempted on an empty register, the snapshots of all forecasts and dependencies stay in
  step with their rows, so a schedule command on the result is never refused because a row
  differs from its retained history.
\<close>

theorem history_never_conflicts:
  assumes "wd_tasks db = []" and "wd_packages db = []" and "sd_edges db = []"
  shows "forecast_task H Z (attempts (schedule_step H Z) db cs) rq reference i fb \<noteq> Inl (Thrown ''SCHEDULE_HISTORY_CONFLICT'' []) \<and>
    add_dependency H (attempts (schedule_step H Z) db cs) rq reference nb \<noteq> Inl (Thrown ''SCHEDULE_HISTORY_CONFLICT'' []) \<and>
    archive_dependency H (attempts (schedule_step H Z) db cs) rq reference i ab \<noteq> Inl (Thrown ''SCHEDULE_HISTORY_CONFLICT'' [])"
proof -
  let ?db = "attempts (schedule_step H Z) db cs"
  have ok: "history_ok H ?db"
    by (rule history_run.attempts_inv) (simp_all add: assms history_ok_def work_ok_def)
  have "coded schedule_codes (forecast_task H Z ?db rq reference i fb)"
    unfolding forecast_task_def by (intro codes coded_forecast_change ok) (auto simp: schedule_codes_def)
  moreover have "coded schedule_codes (add_dependency H ?db rq reference nb)"
    unfolding add_dependency_def by (intro codes coded_add_dependency_change ok) (auto simp: schedule_codes_def)
  moreover have "coded schedule_codes (archive_dependency H ?db rq reference i ab)"
    unfolding archive_dependency_def by (intro codes coded_archive_dependency_change ok) (auto simp: schedule_codes_def)
  ultimately show ?thesis by (auto simp: coded_def)
qed

section \<open>Completed tasks\<close>

lemma schedule_change_keeps_completed:
  assumes ok: "work_ok db" and t: "t \<in> set (wd_tasks db)" "ti_completed t" and change: "schedule_change H Z c db ctx = Inr (db1, m)"
  shows "work_ok db1 \<and> t \<in> set (wd_tasks db1)"
proof (cases c)
  case (OnWork w)
  with change show ?thesis using work_change_ok [OF ok] work_change_keeps_completed [OF ok t] by simp
next
  case (Forecast rq ref i body)
  with change obtain b where "forecast_change H rq i b db ctx = Inr (db1, m)" by auto
  then show ?thesis
  proof (rule forecast_change_Inr)
    fix u p
    let ?P = "\<lambda>u. ti_id u = to_lower i \<and> in_project ctx (ti_org u) (ti_project u)"
    assume u: "schedule_task db ctx i = Inr (u, p)" "\<not> ti_completed u"
      and db1: "db1 = db\<lparr>sd_forecasts := sd_forecasts db @ [forecast_revision_of H rq i b ctx u],
        wd_tasks := map (\<lambda>u. if ?P u then forecast_saved rq b u else u) (wd_tasks db)\<rparr>"
    have "work_ok db1" by (rule work_ok_forecast [OF ok, of _ ?P rq b]) (simp_all add: db1)
    moreover have "ti_id t \<noteq> to_lower i"
      using schedule_task_Inr [OF u(1)] u(2) work_ok_task_id [of db t u] ok t by auto
    then have "t \<in> set (wd_tasks db1)" using t(1) by (force simp: db1)
    ultimately show ?thesis by blast
  qed
next
  case (AddDependency rq ref body)
  with change obtain b where "add_dependency_change H rq b db ctx = Inr (db1, m)" by auto
  then show ?thesis by (rule add_dependency_change_Inr) (use ok t in \<open>simp add: work_ok_def\<close>)
next
  case (ArchiveDependency rq ref i body)
  with change obtain b where "archive_dependency_change H rq i b db ctx = Inr (db1, m)" by auto
  then show ?thesis by (rule archive_dependency_change_Inr) (use ok t in \<open>simp add: work_ok_def\<close>)
qed

interpretation completed_run: guarded_run "schedule_step H Z" "\<lambda>db. work_ok db \<and> ti_completed t \<and> t \<in> set (wd_tasks db)" "\<lambda>_. True" for H Z t
proof unfold_locales
  fix s :: "'d schedule_db_scheme" and c s'
  assume ok: "work_ok s \<and> ti_completed t \<and> t \<in> set (wd_tasks s)" and "schedule_step H Z s c = Inr s'"
  from this(2) show "work_ok s' \<and> ti_completed t \<and> t \<in> set (wd_tasks s')"
  proof (cases rule: schedule_stepE)
    case (executed key ctx cmd db1 m)
    have "work_ok db1 \<and> t \<in> set (wd_tasks db1)" using schedule_change_keeps_completed [OF _ _ _ executed(3)] ok by blast
    with ok show ?thesis by (simp add: executed(4) work_ok_def)
  qed (use ok in simp)
qed

text \<open>
  C4: a completed task is final. The work register and the schedule are the services that write
  task rows; whatever commands of the two are attempted afterwards, creations, completions,
  forecasts and links, the row of the task stays as its completion left it (state, author,
  time, evidence, forecast and version), and no other row gets its identifier.
\<close>

theorem completed_task_is_final:
  assumes "work_ok db" and "t \<in> set (wd_tasks db)" and "ti_completed t"
  shows "t \<in> set (wd_tasks (attempts (schedule_step H Z) db cs)) \<and>
    (\<forall>u \<in> set (wd_tasks (attempts (schedule_step H Z) db cs)). ti_id u = ti_id t \<longrightarrow> u = t)"
  using completed_run.attempts_inv [of db t cs H Z] assms by (auto dest: work_ok_task_id)

section \<open>The register implements the planner\<close>

text \<open>
  What a request to link two tasks needs beside the graph: access for editing, an unused
  key, a body that parses, both tasks at the versions the body gives and open for planning,
  fewer than a thousand edges in the project, and fresh identifiers.
\<close>

definition link_ready :: "'d schedule_db_scheme \<Rightarrow> api_request \<Rightarrow> string \<Rightarrow> dependency_body \<Rightarrow> access_context \<Rightarrow> bool" where
  "link_ready db rq ref b ctx \<longleftrightarrow> check_access db rq ref edit_access = Inr ctx \<and>
     (\<exists>key. command_key rq = Inr key \<and> find_receipt db (ac_org ctx) key = None) \<and> returns (parse_dependency b) \<and>
     (\<exists>a p s q. schedule_task db ctx (dq_pred b) = Inr (a, p) \<and> schedule_task db ctx (dq_succ b) = Inr (s, q) \<and>
        ti_version a = dq_pred_version b \<and> ti_version s = dq_succ_version b \<and> wp_status p = ''active'' \<and> wp_status q = ''active'' \<and>
        \<not> ti_completed s \<and> open_state s \<and> ti_state a \<in> set [''planned'', ''active'', ''completed'']) \<and>
     length (edge_rows db ctx) < 1000 \<and>
     rq_ids rq 0 \<notin> au_id ` set (db_audit db) \<and> rq_ids rq 1 \<notin> ob_event ` set (db_outbox db) \<and>
     rq_ids rq 2 \<notin> ed_id ` set (sd_edges db) \<and> rq_ids rq 2 \<notin> dh_dependency ` set (sd_changes db) \<and> rq_ids rq 3 \<notin> dh_id ` set (sd_changes db)"

lemma add_dependency_change_exact:
  assumes hist: "history_ok H db" and ok: "edges_ok (sd_edges db)" and ready: "link_ready db rq ref b ctx"
    and low: "to_lower (dq_pred b) = dq_pred b" "to_lower (dq_succ b) = dq_succ b" and b': "b' = b\<lparr>dq_reason := r\<rparr>"
    and new: "((ac_org ctx, pj_id (ac_project ctx)), dq_pred b, dq_succ b) \<notin> links db"
  shows "(dq_succ b, dq_pred b) \<in> (links db `` {(ac_org ctx, pj_id (ac_project ctx))})\<^sup>* \<Longrightarrow>
      add_dependency_change H rq b' db ctx = fail ''SCHEDULE_CYCLE''"
    and "(dq_succ b, dq_pred b) \<notin> (links db `` {(ac_org ctx, pj_id (ac_project ctx))})\<^sup>* \<Longrightarrow>
      \<exists>db1 m. add_dependency_change H rq b' db ctx = Inr (db1, m)"
proof -
  let ?k = "(ac_org ctx, pj_id (ac_project ctx))" and ?e = "new_edge rq b' ctx"
  obtain a p s q where tasks: "schedule_task db ctx (dq_pred b) = Inr (a, p)" "schedule_task db ctx (dq_succ b) = Inr (s, q)"
    and open_: "ti_version a = dq_pred_version b" "ti_version s = dq_succ_version b" "wp_status p = ''active''" "wp_status q = ''active''"
      "\<not> ti_completed s" "open_state s" "ti_state a \<in> set [''planned'', ''active'', ''completed'']"
    using ready by (auto simp: link_ready_def)
  have rows: "take 1001 (edge_rows db ctx) = edge_rows db ctx" "\<not> 1000 \<le> length (edge_rows db ctx)"
    using ready by (simp_all add: link_ready_def)
  have edges: "set (map fst (edge_rows db ctx)) = {e \<in> set (sd_edges db). active_in ctx e}"
    using edge_rows_set [of db ctx] by simp
  have manual: "\<not> list_ex (\<lambda>e. ed_state e \<noteq> ''manually_recorded'') (map fst (edge_rows db ctx))"
    unfolding list_ex_iff edges using ok by (auto simp: edges_ok_def)
  have intact: "\<not> list_ex (\<lambda>r. \<not> edge_intact H r) (edge_rows db ctx)"
    using edge_rows_intact [OF hist] by (auto simp: list_ex_iff)
  have single: "\<not> list_ex (\<lambda>e. ed_pred e = dq_pred b \<and> ed_succ e = dq_succ b) (map fst (edge_rows db ctx))"
    unfolding list_ex_iff edges using new by (force simp: links_def edge_link_def active_in_def in_project_def)
  have link: "edge_link ?e = (?k, dq_pred b, dq_succ b)" "ed_id ?e = rq_ids rq 2" "ed_version ?e = 1"
      "ed_pred ?e = dq_pred b" "ed_succ ?e = dq_succ b"
    using low by (simp_all add: new_edge_def edge_link_def b')
  have unlinked: "\<not> list_ex (\<lambda>d. same_link d ?e \<and> ed_state d = ''manually_recorded'' \<and> \<not> ed_archived d) (sd_edges db)"
    unfolding list_ex_iff same_link_iff link using new by (force simp: links_def)
  have fresh: "rq_ids rq 2 \<notin> ed_id ` set (sd_edges db)" "rq_ids rq 2 \<notin> dh_dependency ` set (sd_changes db)" "rq_ids rq 3 \<notin> dh_id ` set (sd_changes db)"
    using ready by (simp_all add: link_ready_def)
  then have pair: "(rq_ids rq 2, 1) \<notin> (\<lambda>c. (dh_dependency c, dh_revision c)) ` set (sd_changes db)" by auto
  have b: "dq_pred b' = dq_pred b" "dq_succ b' = dq_succ b" "dq_pred_version b' = dq_pred_version b" "dq_succ_version b' = dq_succ_version b"
    by (simp_all add: b')
  have search: "would_create_schedule_cycle (map (\<lambda>e. (ed_pred e, ed_succ e)) (map fst (edge_rows db ctx))) (dq_pred b) (dq_succ b)
      \<longleftrightarrow> (dq_succ b, dq_pred b) \<in> (links db `` {?k})\<^sup>*"
    unfolding would_create_cycle_iff graph_of_project ..
  note eval = add_dependency_change_def Let_def b tasks bind_res_simps prod.case rows search
  show "add_dependency_change H rq b' db ctx = fail ''SCHEDULE_CYCLE''" if "(dq_succ b, dq_pred b) \<in> (links db `` {?k})\<^sup>*"
    unfolding eval using rows(2) open_ manual intact single that by (simp add: fail_def)
  show "\<exists>db1 m. add_dependency_change H rq b' db ctx = Inr (db1, m)" if "(dq_succ b, dq_pred b) \<notin> (links db `` {?k})\<^sup>*"
  proof -
    have "dq_pred b \<noteq> dq_succ b" using that by auto
    then show ?thesis
      unfolding eval using rows(2) open_ manual intact single that unlinked fresh pair by (simp add: insert_edge_def link)
  qed
qed

lemma returns_bind_Inr: "returns (bind_res m (\<lambda>(x, y). Inr x)) \<longleftrightarrow> returns m"
  by (cases m) (auto simp: returns_conv)

text \<open>
  C2: the dependencies of the schedule implement a planner that never closes a loop, and
  refuses nothing else. Let the histories of the register be in step with its rows and its
  edges in order, and a command give the identifiers of its tasks in lower case. If it is
  accepted, the register stays so, and either its key is taken and nothing changes, or the
  graph of active dependencies makes the very move the command asks for: a work command or
  a forecast leaves it, a new dependency adds that edge to the graph of its project, an
  archived one is taken out. A request to link two tasks that meets the conditions beside the
  graph is accepted exactly when the planner allows the link, which is when the edge is new
  and no path leads back from the successor to the predecessor; and if there is a path, it is
  refused as a cycle.
\<close>

theorem schedule_refines_plan:
  assumes hist: "history_ok H db" and ok: "edges_ok (sd_edges db)" and can: "canonical c"
  shows "(\<forall>db'. schedule_step H Z db c = Inr db' \<longrightarrow> history_ok H db' \<and> edges_ok (sd_edges db') \<and>
      (if schedule_id c \<in> taken_keys db then db' = db else plan (asked_move db c) (links db) = Some (links db'))) \<and>
    (\<forall>rq ref b ctx. c = AddDependency rq ref b \<and> link_ready db rq ref b ctx \<longrightarrow>
      (let k = (ac_org ctx, pj_id (ac_project ctx)); looped = (dq_succ b, dq_pred b) \<in> (links db `` {k})\<^sup>* in
        (returns (schedule_step H Z db c) \<longleftrightarrow> (k, dq_pred b, dq_succ b) \<notin> links db \<and> \<not> looped) \<and>
        ((k, dq_pred b, dq_succ b) \<notin> links db \<and> looped \<longrightarrow> schedule_step H Z db c = Inl (Thrown ''SCHEDULE_CYCLE'' []))))"
proof (intro conjI allI impI, goal_cases)
  case (4 rq ref b ctx)
  then have c: "c = AddDependency rq ref b" and ready: "link_ready db rq ref b ctx" by simp_all
  let ?k = "(ac_org ctx, pj_id (ac_project ctx))"
  let ?auth = "\<lambda>db ctx. bind_res (schedule_task db ctx (dq_pred b)) (\<lambda>_. bind_res (schedule_task db ctx (dq_succ b)) (\<lambda>_. Inr ()))"
  obtain r where b': "parse_dependency b = Inr (b\<lparr>dq_reason := r\<rparr>)"
    using ready by (auto simp: link_ready_def parse_dependency_def returns_conv split: if_splits)
  obtain key where key: "command_key rq = Inr key" "find_receipt db (ac_org ctx) key = None" and access: "check_access db rq ref edit_access = Inr ctx"
    using ready by (auto simp: link_ready_def)
  have auth: "?auth db ctx = Inr ()" and fresh: "rq_ids rq 0 \<notin> au_id ` set (db_audit db)" "rq_ids rq 1 \<notin> ob_event ` set (db_outbox db)"
    using ready by (auto simp: link_ready_def)
  let ?looped = "(dq_succ b, dq_pred b) \<in> (links db `` {?k})\<^sup>*" and ?new = "(?k, dq_pred b, dq_succ b) \<notin> links db"
  have low: "to_lower (dq_pred b) = dq_pred b" "to_lower (dq_succ b) = dq_succ b" using can c by simp_all
  note exact = add_dependency_change_exact [OF hist ok ready low refl, where r = r]
  have untaken: "schedule_id c \<notin> taken_keys db"
    using schedule_id_of [of c key db ref edit_access ctx] key access by (simp add: c taken_keys_find)
  have step: "schedule_step H Z db c = (if dq_pred b = dq_succ b then fail ''SCHEDULE_CYCLE'' else
      bind_res (run_command H db rq ref edit_access \<lparr>cm_operation = ''schedule.dependency.create'', cm_action = ''schedule.dependency.created'',
        cm_type = ''dependency'', cm_input = dependency_input (b\<lparr>dq_reason := r\<rparr>)\<rparr> ?auth (add_dependency_change H rq (b\<lparr>dq_reason := r\<rparr>))) (\<lambda>(db', _). Inr db'))"
    by (simp add: schedule_step_def c add_dependency_def b' fail_def)
  have cycle: "schedule_step H Z db c = fail ''SCHEDULE_CYCLE''" if "?new" "?looped"
  proof (cases "dq_pred b = dq_succ b")
    case False
    have "add_dependency_change H rq (b\<lparr>dq_reason := r\<rparr>) db ctx = Inl (Thrown ''SCHEDULE_CYCLE'' [])"
      using exact(1) [OF that] by (simp add: fail_def)
    from refused_command [where authorize = ?auth and mutate = "add_dependency_change H rq (b\<lparr>dq_reason := r\<rparr>)", OF key(1) access auth key(2) this] False show ?thesis
      unfolding step by (simp add: fail_def)
  qed (simp add: step)
  have only: "?new \<and> \<not> ?looped" if "returns (schedule_step H Z db c)"
    using that schedule_step_links [OF ok can] untaken access by (auto simp: returns_conv c split: if_splits)
  have all: "returns (schedule_step H Z db c)" if "?new" "\<not> ?looped"
  proof -
    from that(2) have "dq_pred b \<noteq> dq_succ b" by auto
    moreover from linking.fresh_command_returns [where authorize = ?auth, OF key(1) access auth key(2) fresh] exact(2) [OF that]
    have "returns (run_command H db rq ref edit_access cmd ?auth (add_dependency_change H rq (b\<lparr>dq_reason := r\<rparr>)))" for cmd by blast
    ultimately show ?thesis unfolding step by (simp add: returns_bind_Inr)
  qed
  have exactly: "returns (schedule_step H Z db c) \<longleftrightarrow> ?new \<and> \<not> ?looped" using only all by blast
  show ?case unfolding Let_def by (intro conjI impI exactly cycle [unfolded fail_def]; elim conjE; assumption)
qed (use history_step [OF hist] schedule_step_links [OF ok can] in auto)

section \<open>Examples\<close>

definition focus_lights :: task_row where
  "focus_lights = hang_truss\<lparr>ti_id := uid (CHR ''f''), ti_title := ''Focus''\<rparr>"

definition example_schedule :: schedule_db where
  "example_schedule = \<lparr>db_orgs = db_orgs empty_work, db_users = db_users empty_work, db_sessions = db_sessions empty_work,
     db_memberships = db_memberships empty_work, db_projects = db_projects empty_work, db_grants = db_grants empty_work,
     db_receipts = [], db_audit = [], db_outbox = [], wd_stages = [], wd_packages = [rigging], wd_tasks = [hang_truss, focus_lights],
     sd_edges = [], sd_changes = [], sd_forecasts = []\<rparr>"

definition link_tasks :: "string \<Rightarrow> string \<Rightarrow> dependency_body" where
  "link_tasks p s = \<lparr>dq_pred = p, dq_succ = s, dq_pred_version = 1, dq_succ_version = 1, dq_type = DepFS, dq_reason = ''plan''\<rparr>"

definition truss_before_focus :: schedule_command where
  "truss_before_focus = AddDependency (example_request ''pm'' ''k1'' ''6789'' 10) ''PRJ-1'' (link_tasks (uid (CHR ''d'')) (uid (CHR ''f'')))"

text \<open>The same tasks the other way round, the first with its identifier in upper case.\<close>

definition focus_before_truss :: schedule_command where
  "focus_before_truss = AddDependency (example_request ''pm'' ''k2'' ''1234'' 20) ''PRJ-1'' (link_tasks (uid (CHR ''F'')) (uid (CHR ''d'')))"

lemma schedule_uuids [simp]: "uuid_text (uid (CHR ''f''))" "uuid_text (uid (CHR ''F''))"
  by (rule uid_uuid; simp add: is_hex_def lower_char_def)+

lemma lower_F: "lower_char (CHR ''F'') = CHR ''f''" "lower_char (CHR ''-'') = CHR ''-''"
  by code_simp+

lemma schedule_lowers [simp]: "to_lower (uid (CHR ''f'')) = uid (CHR ''f'')" "to_lower (uid (CHR ''F'')) = uid (CHR ''f'')"
  by (rule uid_lower, simp add: lower_char_def) (simp add: uid_def to_lower_def lower_F)

lemmas schedule_eval = schedule_step_def add_dependency_def parse_dependency_def sized_def add_dependency_change_def schedule_task_def
  task_package_rows_def in_project_def task_in_scope_def open_state_def link_tasks_def example_schedule_def focus_lights_def
  insert_edge_def new_edge_def append_dependency_def change_row_def same_link_def work_eval

definition pm_context :: access_context where
  "pm_context = \<lparr>ac_org = uid (CHR ''a''), ac_user = uid (CHR ''e''), ac_membership = uid (CHR ''2''), ac_role = ''project_manager'',
     ac_audience = ''internal'', ac_project = gala, ac_level = Editor, ac_super = False\<rparr>"

lemma pm_access:
  "check_access example_schedule (example_request ''pm'' key ids 10) ''PRJ-1'' edit_access = Inr pm_context"
  by (simp add: pm_context_def example_schedule_def work_eval)

definition first_edge :: edge_row where
  "first_edge = new_edge (example_request ''pm'' ''k1'' ''6789'' 10) (link_tasks (uid (CHR ''d'')) (uid (CHR ''f''))) pm_context"

lemma example_tasks:
  "schedule_task example_schedule pm_context (uid (CHR ''d'')) = Inr (hang_truss, rigging)"
  "schedule_task example_schedule pm_context (uid (CHR ''f'')) = Inr (focus_lights, rigging)"
  "schedule_task example_schedule pm_context (uid (CHR ''F'')) = Inr (focus_lights, rigging)"
  by (simp_all add: pm_context_def schedule_eval)

lemma link_tasks_simps [simp]:
  "dq_pred (link_tasks p s) = p" "dq_succ (link_tasks p s) = s" "dq_pred_version (link_tasks p s) = 1"
  "dq_succ_version (link_tasks p s) = 1" "dq_reason (link_tasks p s) = ''plan''"
  by (simp_all add: link_tasks_def)

lemma example_task_fields [simp]:
  "ti_version hang_truss = 1" "ti_version focus_lights = 1" "\<not> ti_completed hang_truss" "\<not> ti_completed focus_lights"
  "open_state hang_truss" "open_state focus_lights" "ti_state hang_truss = ''planned''" "ti_state focus_lights = ''planned''" "wp_status rigging = ''active''"
  by (simp_all add: hang_truss_def focus_lights_def open_state_def rigging_def)

lemma parse_link: "uuid_text p \<Longrightarrow> uuid_text s \<Longrightarrow> parse_dependency (link_tasks p s) = Inr (link_tasks p s)"
  by (simp add: parse_dependency_def sized_def link_tasks_def)

lemma example_request_simps [simp]:
  "rq_key (example_request t k ids now) = Some k" "rq_now (example_request t k ids now) = now" "rq_ids (example_request t k ids now) n = uid (ids ! n)"
  "rq_org (example_request t k ids now) = Some (uid (CHR ''a''))" "rq_token (example_request t k ids now) = Some t"
  by (simp_all add: example_request_def)

lemma first_change:
  "\<exists>m. add_dependency_change example_hasher (example_request ''pm'' ''k1'' ''6789'' 10) (link_tasks (uid (CHR ''d'')) (uid (CHR ''f''))) example_schedule pm_context
     = Inr (example_schedule\<lparr>sd_edges := [first_edge],
         sd_changes := [change_row example_hasher (example_request ''pm'' ''k1'' ''6789'' 10) 3 first_edge ''created'' ''plan'' pm_context]\<rparr>, m)"
proof -
  have empty: "sd_edges example_schedule = []" "sd_changes example_schedule = []" by (simp_all add: example_schedule_def)
  have ends: "ed_pred first_edge = uid (CHR ''d'')" "ed_succ first_edge = uid (CHR ''f'')" by (simp_all add: first_edge_def new_edge_def link_tasks_def)
  show ?thesis
    unfolding add_dependency_change_def Let_def link_tasks_simps example_tasks bind_res_simps prod.case first_edge_def [symmetric]
    by (simp add: empty ends edge_rows_def would_create_cycle_iff insert_edge_def)
qed


definition first_db :: "schedule_db \<Rightarrow> bool" where
  "first_db db \<longleftrightarrow> sd_edges db = [first_edge] \<and>
     sd_changes db = [change_row example_hasher (example_request ''pm'' ''k1'' ''6789'' 10) 3 first_edge ''created'' ''plan'' pm_context] \<and>
     wd_tasks db = wd_tasks example_schedule \<and> wd_packages db = wd_packages example_schedule \<and>
     (\<exists>a o' r. core_db.truncate db = (core_db.truncate example_schedule)\<lparr>db_receipts := [r], db_audit := [a], db_outbox := [o']\<rparr> \<and>
        au_id a = uid (CHR ''6'') \<and> ob_event o' = uid (CHR ''7'') \<and> rc_key r = ''k1'')"

lemma first_link: "\<exists>db'. schedule_step example_hasher (\<lambda>_. True) example_schedule truss_before_focus = Inr db' \<and> first_db db'"
proof -
  let ?rq = "example_request ''pm'' ''k1'' ''6789'' 10" and ?b = "link_tasks (uid (CHR ''d'')) (uid (CHR ''f''))"
  obtain m where m: "add_dependency_change example_hasher ?rq ?b example_schedule pm_context = Inr (example_schedule\<lparr>sd_edges := [first_edge],
      sd_changes := [change_row example_hasher ?rq 3 first_edge ''created'' ''plan'' pm_context]\<rparr>, m)"
    using first_change by blast
  let ?auth = "\<lambda>db ctx. bind_res (schedule_task db ctx (uid (CHR ''d''))) (\<lambda>_. bind_res (schedule_task db ctx (uid (CHR ''f''))) (\<lambda>_. Inr ()))"
  have tables: "db_receipts example_schedule = []" "db_audit example_schedule = []" "db_outbox example_schedule = []"
    by (simp_all add: example_schedule_def)
  have "command_key ?rq = Inr ''k1''" by (simp add: command_key_def)
  note run = linking.executed_command [OF this pm_access _ _ m, where authorize = ?auth]
  show ?thesis
    unfolding schedule_step_def truss_before_focus_def perform_schedule.simps add_dependency_def
    by (simp add: parse_link run example_tasks find_receipt_def tables)
      (simp add: first_db_def core_db.truncate_def audit_of_def outbox_of_def receipt_of_def)
qed


lemma schedule_task_cong:
  "wd_tasks db' = wd_tasks db \<Longrightarrow> wd_packages db' = wd_packages db \<Longrightarrow> schedule_task db' ctx i = schedule_task db ctx i"
  by (simp add: schedule_task_def task_package_rows_def)

lemma first_edge_simps [simp]:
  "ed_pred first_edge = uid (CHR ''d'')" "ed_succ first_edge = uid (CHR ''f'')" "ed_org first_edge = uid (CHR ''a'')" "ed_project first_edge = uid (CHR ''b'')"
  "\<not> ed_archived first_edge" "ed_state first_edge = ''manually_recorded''" "ed_id first_edge = uid (CHR ''8'')" "ed_version first_edge = 1"
  by (simp_all add: first_edge_def new_edge_def pm_context_def gala_def)

lemma pm_context_simps [simp]: "ac_org pm_context = uid (CHR ''a'')" "pj_id (ac_project pm_context) = uid (CHR ''b'')"
  by (simp_all add: pm_context_def)

lemma search_misses: "\<not> would_create_schedule_cycle [(uid (CHR ''d''), uid (CHR ''f''))] (uid (CHR ''F'')) (uid (CHR ''d''))"
proof -
  have "z = uid (CHR ''d'') \<or> z = uid (CHR ''f'')" if "(uid (CHR ''d''), z) \<in> {(uid (CHR ''d''), uid (CHR ''f''))}\<^sup>*" for z
    using that by (induction rule: rtrancl_induct) auto
  from this [of "uid (CHR ''F'')"] show ?thesis by (auto simp: would_create_cycle_iff)
qed

lemma second_link:
  assumes "first_db db"
  shows "\<exists>db' e. schedule_step example_hasher (\<lambda>_. True) db focus_before_truss = Inr db' \<and> sd_edges db' = [first_edge, e] \<and>
    edge_link e = ((uid (CHR ''a''), uid (CHR ''b'')), uid (CHR ''f''), uid (CHR ''d'')) \<and> \<not> ed_archived e"
proof -
  let ?rq = "example_request ''pm'' ''k2'' ''1234'' 20" and ?b = "link_tasks (uid (CHR ''F'')) (uid (CHR ''d''))"
  obtain a o' r where core: "core_db.truncate db = (core_db.truncate example_schedule)\<lparr>db_receipts := [r], db_audit := [a], db_outbox := [o']\<rparr>"
      and used: "au_id a = uid (CHR ''6'')" "ob_event o' = uid (CHR ''7'')" "rc_key r = ''k1''"
    using assms by (auto simp: first_db_def)
  have tables: "sd_edges db = [first_edge]" "wd_tasks db = wd_tasks example_schedule" "wd_packages db = wd_packages example_schedule"
      "sd_changes db = [change_row example_hasher (example_request ''pm'' ''k1'' ''6789'' 10) 3 first_edge ''created'' ''plan'' pm_context]"
    using assms by (simp_all add: first_db_def)
  have logs: "db_receipts db = [r]" "db_audit db = [a]" "db_outbox db = [o']" using core by (simp_all add: core_db.truncate_def)
  have tasks: "schedule_task db pm_context i = schedule_task example_schedule pm_context i" for i
    by (rule schedule_task_cong) (simp_all add: tables)
  have "check_access db ?rq ''PRJ-1'' edit_access = check_access example_schedule (example_request ''pm'' ''k2'' ''1234'' 10) ''PRJ-1'' edit_access"
    by (rule same_access [OF core]) (simp_all add: example_schedule_def empty_work_def)
  then have access: "check_access db ?rq ''PRJ-1'' edit_access = Inr pm_context" by (simp add: pm_access)
  have rows: "edge_rows db pm_context = [(first_edge, Some (hd (sd_changes db)))]"
    by (simp add: edge_rows_def tables change_of_def in_project_def)
  have "edge_intact example_hasher (first_edge, Some (hd (sd_changes db)))"
    by (simp add: edge_intact_def tables)
  then have "\<exists>m db1. add_dependency_change example_hasher ?rq ?b db pm_context = Inr (db1, m) \<and> sd_edges db1 = [first_edge, new_edge ?rq ?b pm_context]"
    unfolding add_dependency_change_def Let_def link_tasks_simps tasks example_tasks bind_res_simps prod.case rows
    by (simp add: search_misses insert_edge_def same_link_def tables) (simp add: new_edge_def)
  then obtain m db1 where m: "add_dependency_change example_hasher ?rq ?b db pm_context = Inr (db1, m)"
      and edges: "sd_edges db1 = [first_edge, new_edge ?rq ?b pm_context]" by blast
  let ?auth = "\<lambda>db ctx. bind_res (schedule_task db ctx (uid (CHR ''F''))) (\<lambda>_. bind_res (schedule_task db ctx (uid (CHR ''d''))) (\<lambda>_. Inr ()))"
  have "command_key ?rq = Inr ''k2''" by (simp add: command_key_def)
  note run = linking.executed_command [OF this access _ _ m, where authorize = ?auth]
  show ?thesis
    unfolding schedule_step_def focus_before_truss_def perform_schedule.simps add_dependency_def
    by (simp add: parse_link run tasks example_tasks find_receipt_def logs used edges) (simp add: edge_link_def new_edge_def)
qed

lemma scheduled_links:
  "\<exists>db' e. attempts (schedule_step example_hasher (\<lambda>_. True)) example_schedule [truss_before_focus, focus_before_truss] = db' \<and>
     sd_edges db' = [first_edge, e] \<and> edge_link e = ((uid (CHR ''a''), uid (CHR ''b'')), uid (CHR ''f''), uid (CHR ''d'')) \<and> \<not> ed_archived e"
proof -
  obtain db1 where one: "schedule_step example_hasher (\<lambda>_. True) example_schedule truss_before_focus = Inr db1" and "first_db db1"
    using first_link by blast
  from second_link [OF this(2)] one show ?thesis by auto
qed

text \<open>
  C39: the cycle check compares texts, the database identifiers. A request that gives a task in
  upper case is accepted as one that gives it in lower case is, but the check does not
  recognise the task, so two accepted requests make two tasks depend on each other.
\<close>

theorem upper_case_closes_cycle:
  "\<not> acyclic (links (attempts (schedule_step example_hasher (\<lambda>_. True)) example_schedule [truss_before_focus, focus_before_truss]) ``
     {(uid (CHR ''a''), uid (CHR ''b''))})"
proof -
  obtain db' e where run: "attempts (schedule_step example_hasher (\<lambda>_. True)) example_schedule [truss_before_focus, focus_before_truss] = db'"
      "sd_edges db' = [first_edge, e]" "edge_link e = ((uid (CHR ''a''), uid (CHR ''b'')), uid (CHR ''f''), uid (CHR ''d''))" "\<not> ed_archived e"
    using scheduled_links by blast
  let ?G = "links db' `` {(uid (CHR ''a''), uid (CHR ''b''))}"
  have "edge_link first_edge = ((uid (CHR ''a''), uid (CHR ''b'')), uid (CHR ''d''), uid (CHR ''f''))" by (simp add: edge_link_def)
  then have "(uid (CHR ''d''), uid (CHR ''f'')) \<in> ?G" "(uid (CHR ''f''), uid (CHR ''d'')) \<in> ?G"
    using run(2-4) unfolding links_def by force+
  then have "(uid (CHR ''d''), uid (CHR ''d'')) \<in> ?G\<^sup>+" by (meson r_into_trancl trancl_trans)
  with run(1) show ?thesis unfolding acyclic_def by blast
qed

lemma example_edges_ok: "edges_ok (sd_edges example_schedule)"
  by (simp add: example_schedule_def edges_ok_def)

lemma example_history_ok: "history_ok H example_schedule"
  by (simp add: history_ok_def work_ok_def task_ok_def forecast_intact_def text_given_def example_schedule_def focus_lights_def hang_truss_def rigging_def)

lemma example_link_ready:
  "link_ready example_schedule (example_request ''pm'' ''k1'' ''6789'' 10) ''PRJ-1'' (link_tasks (uid (CHR ''d'')) (uid (CHR ''f''))) pm_context"
proof -
  have "command_key (example_request ''pm'' ''k1'' ''6789'' 10) = Inr ''k1''" by (simp add: command_key_def)
  then show ?thesis
    by (simp add: link_ready_def pm_access example_tasks parse_link find_receipt_def) (simp add: example_schedule_def edge_rows_def)
qed

theorem schedule_refines_plan_witness:
  "\<exists>db'. schedule_step example_hasher (\<lambda>_. True) example_schedule truss_before_focus = Inr db' \<and>
     links db' = {((uid (CHR ''a''), uid (CHR ''b'')), uid (CHR ''d''), uid (CHR ''f''))}"
proof -
  have none: "links example_schedule = {}" "taken_keys example_schedule = {}" by (simp_all add: links_def taken_keys_def example_schedule_def)
  have can: "canonical truss_before_focus" by (simp add: truss_before_focus_def)
  note refines = schedule_refines_plan [OF example_history_ok example_edges_ok can, of example_hasher "\<lambda>_. True"]
  have move: "asked_move example_schedule truss_before_focus = Link (uid (CHR ''a''), uid (CHR ''b'')) (uid (CHR ''d'')) (uid (CHR ''f''))"
    by (simp add: truss_before_focus_def pm_access)
  have "returns (schedule_step example_hasher (\<lambda>_. True) example_schedule truss_before_focus)"
    using conjunct2 [OF refines] example_link_ready by (auto simp: truss_before_focus_def none)
  then obtain db' where run: "schedule_step example_hasher (\<lambda>_. True) example_schedule truss_before_focus = Inr db'" by (auto simp: returns_conv)
  with conjunct1 [OF refines] show ?thesis by (simp add: none move split: if_splits)
qed

definition truss_hung :: task_row where
  "truss_hung = hang_truss\<lparr>ti_state := ''completed'', ti_completed := True, ti_completed_at := Some 20, ti_completed_by := Some (uid (CHR ''e'')), ti_version := 2\<rparr>"

theorem completed_task_is_final_witness:
  "truss_hung \<in> set (wd_tasks (attempts (schedule_step example_hasher (\<lambda>_. True)) (example_schedule\<lparr>wd_tasks := [truss_hung, focus_lights]\<rparr>)
     [OnWork (CompleteTask completion_request ''PRJ-1'' (uid (CHR ''d'')) done_body),
      Forecast (example_request ''pm'' ''k2'' ''1234'' 20) ''PRJ-1'' (uid (CHR ''d''))
        \<lparr>fo_task_version = 2, fo_forecast_version = 0, fo_start = None, fo_finish = None, fo_zone = None, fo_reason = ''plan''\<rparr>]))"
proof -
  have "work_ok (example_schedule\<lparr>wd_tasks := [truss_hung, focus_lights]\<rparr>)" "truss_hung \<in> set (wd_tasks (example_schedule\<lparr>wd_tasks := [truss_hung, focus_lights]\<rparr>))"
      "ti_completed truss_hung"
    by (simp_all add: work_ok_def task_ok_def truss_hung_def example_schedule_def focus_lights_def hang_truss_def rigging_def)
  from completed_task_is_final [OF this] show ?thesis by (rule conjunct1)
qed

theorem plan_never_cyclic_witness:
  "acyclic (links (attempts (schedule_step example_hasher (\<lambda>_. True)) example_schedule [truss_before_focus]) `` {(uid (CHR ''a''), uid (CHR ''b''))}) \<and>
   sd_edges (attempts (schedule_step example_hasher (\<lambda>_. True)) example_schedule [truss_before_focus]) = [first_edge]"
proof -
  obtain db' where run: "schedule_step example_hasher (\<lambda>_. True) example_schedule truss_before_focus = Inr db'" "first_db db'"
    using first_link by blast
  have "sd_edges example_schedule = []" by (simp add: example_schedule_def)
  moreover have "\<forall>c \<in> set [truss_before_focus]. canonical c" by (simp add: truss_before_focus_def)
  ultimately show ?thesis
    using plan_never_cyclic [of example_schedule "[truss_before_focus]" example_hasher "\<lambda>_. True"] run by (auto simp: first_db_def)
qed

theorem history_never_conflicts_witness:
  "add_dependency example_hasher (attempts (schedule_step example_hasher (\<lambda>_. True)) (example_schedule\<lparr>wd_packages := [], wd_tasks := []\<rparr>)
     [OnWork (hd work_examples), truss_before_focus]) (example_request ''pm'' ''k2'' ''1234'' 20) ''PRJ-1'' (link_tasks (uid (CHR ''d'')) (uid (CHR ''f'')))
   \<noteq> Inl (Thrown ''SCHEDULE_HISTORY_CONFLICT'' [])"
proof -
  have "wd_tasks (example_schedule\<lparr>wd_packages := [], wd_tasks := []\<rparr>) = []" "wd_packages (example_schedule\<lparr>wd_packages := [], wd_tasks := []\<rparr>) = []"
      "sd_edges (example_schedule\<lparr>wd_packages := [], wd_tasks := []\<rparr>) = []"
    by (simp_all add: example_schedule_def)
  from history_never_conflicts [OF this] show ?thesis by blast
qed

end
