(* ===== verification/Membership.thy ===== *)
theory Membership
  imports Durable_Command
begin

text \<open>
  Who belongs to an organisation: \<open>apps/api/src/identity/membership-admin.service.ts\<close> (change of
  a role, restoration) and \<open>revokeMembership\<close> of \<open>apps/api/src/identity/identity.controller.ts\<close>,
  on the tables of \<open>Project_Access\<close>. Like the other commands they are answered from a receipt
  when the key is known, and append an audit event and an outbox event. A command runs in a
  transaction that holds the lock of the organisation; the clock of a request is the one at
  which its statements run, and the instant its transaction began, which the database gives to
  a column whose default is \<open>now()\<close>, is an argument. A row that was read under the lock is still
  there when it is updated, so the code's checks that an update found one row are left out.
\<close>

section \<open>The rows a command reads\<close>

type_synonym org_member = "membership_row \<times> user_row"

definition member_before :: "org_member \<Rightarrow> org_member \<Rightarrow> bool" where
  "member_before a b \<longleftrightarrow> us_id (snd a) < us_id (snd b) \<or> (us_id (snd a) = us_id (snd b) \<and> mb_id (fst a) \<le> mb_id (fst b))"

definition org_members :: "'d core_db_scheme \<Rightarrow> string \<Rightarrow> org_member list" where
  "org_members db org = sort_by member_before (concat (map (\<lambda>m. map (\<lambda>u. (m, u)) (filter (\<lambda>u. us_id u = mb_user m) (db_users db)))
     (filter (\<lambda>m. mb_org m = org) (db_memberships db))))"

definition session_user :: "'d core_db_scheme \<Rightarrow> api_request \<Rightarrow> string option" where
  "session_user db rq = map_option ss_user (List.find (\<lambda>s. Some (ss_token s) = rq_token rq \<and> rq_now rq < ss_expires s) (db_sessions db))"

definition has_admin_role :: "org_member \<Rightarrow> bool" where
  "has_admin_role r \<longleftrightarrow> us_super (snd r) \<or> normalize_role (mb_role (fst r)) = ''super_admin''"

definition is_administrator :: "org_member \<Rightarrow> bool" where
  "is_administrator r \<longleftrightarrow> \<not> mb_revoked (fst r) \<and> mb_audience (fst r) = ''internal'' \<and> has_admin_role r"

definition privileged_roles :: "string list" where
  "privileged_roles = [''super_admin'', ''executive'']"

definition allowed_membership_roles :: "string list" where
  "allowed_membership_roles = filter (\<lambda>r. r \<notin> set privileged_roles) canonical_roles"

definition role_audience :: "string \<Rightarrow> string" where
  "role_audience role = (if role = ''client_user'' then ''client'' else ''internal'')"

text \<open>The transaction: a refusal of the database becomes the unavailability of the command.\<close>

definition membership_transaction :: "string \<Rightarrow> 'd core_db_scheme \<Rightarrow> string \<Rightarrow> 'r res \<Rightarrow> 'r res" where
  "membership_transaction unavailable db org r = (if org \<notin> set (db_orgs db) then fail ''UNAUTHENTICATED''
     else if r = Inl (Thrown ''PROJECT_ACCESS_STORAGE_UNAVAILABLE'' []) then fail unavailable else r)"

text \<open>The audit event, the outbox event and the receipt of a command.\<close>

definition record_command :: "'d core_db_scheme \<Rightarrow> audit_row \<Rightarrow> outbox_row \<Rightarrow> receipt_row \<Rightarrow> ('d core_db_scheme \<times> json) res" where
  "record_command db a e r =
     bind_res (insert_row au_id a (db_audit db)) (\<lambda>audits.
     bind_res (insert_row ob_event e (db_outbox db)) (\<lambda>events.
     bind_res (insert_row (\<lambda>r. (rc_org r, rc_key r)) r (db_receipts db)) (\<lambda>receipts.
     Inr (db\<lparr>db_audit := audits, db_outbox := events, db_receipts := receipts\<rparr>, rc_response r))))"

section \<open>Change of a role and restoration\<close>

datatype change_kind = ChangeRole | Restore

record change_body =
  hb_role :: "string option"
  hb_reason :: "string option"
  hb_version :: "int option"

definition kind_text :: "change_kind \<Rightarrow> string" where
  "kind_text k = (case k of ChangeRole \<Rightarrow> ''role'' | Restore \<Rightarrow> ''restore'')"

definition requested_role :: "change_kind \<Rightarrow> change_body \<Rightarrow> string option res" where
  "requested_role k b = (case k of Restore \<Rightarrow> Inr None
     | ChangeRole \<Rightarrow> (case map_option (\<lambda>r. normalize_role (trim r)) (hb_role b) of
         None \<Rightarrow> fail ''VALIDATION_ERROR''
       | Some r \<Rightarrow>
           bind_res (throw_if (r \<notin> set canonical_roles) (Thrown ''VALIDATION_ERROR'' [])) (\<lambda>_.
           bind_res (throw_if (r \<in> set privileged_roles) (Thrown ''MEMBERSHIP_PRIVILEGED_CHANGE_FORBIDDEN'' [])) (\<lambda>_. Inr (Some r)))))"

text \<open>What the target of a change has to be.\<close>

definition check_target :: "change_kind \<Rightarrow> string option \<Rightarrow> int \<Rightarrow> string \<Rightarrow> org_member \<Rightarrow> unit res" where
  "check_target k requested expected actor t = (let m = fst t; role = normalize_role (mb_role m) in
     bind_res (throw_if (mb_user m = actor) (Thrown ''SELF_MEMBERSHIP_CHANGE_FORBIDDEN'' [])) (\<lambda>_.
     bind_res (throw_if (us_super (snd t) \<or> role \<in> set privileged_roles) (Thrown ''MEMBERSHIP_PRIVILEGED_CHANGE_FORBIDDEN'' [])) (\<lambda>_.
     bind_res (throw_if (role \<notin> set allowed_membership_roles \<or> role_audience role \<noteq> mb_audience m)
       (Thrown ''MEMBERSHIP_AUDIENCE_CHANGE_FORBIDDEN'' [])) (\<lambda>_.
     bind_res (throw_if (case requested of Some r \<Rightarrow> role_audience r \<noteq> mb_audience m | None \<Rightarrow> False) (Thrown ''MEMBERSHIP_AUDIENCE_CHANGE_FORBIDDEN'' [])) (\<lambda>_.
     bind_res (throw_if (mb_version m \<noteq> expected) (Thrown ''MEMBERSHIP_VERSION_CONFLICT'' [])) (\<lambda>_.
     bind_res (throw_if (k = ChangeRole \<and> mb_revoked m) (Thrown ''MEMBERSHIP_REVOKED'' [])) (\<lambda>_.
     bind_res (throw_if (k = ChangeRole \<and> Some role = requested) (Thrown ''MEMBERSHIP_ROLE_UNCHANGED'' [])) (\<lambda>_.
     throw_if (k = Restore \<and> \<not> mb_revoked m) (Thrown ''MEMBERSHIP_ALREADY_ACTIVE'' [])))))))))"

definition changed_row :: "string \<Rightarrow> membership_row \<Rightarrow> membership_row" where
  "changed_row role m = m\<lparr>mb_role := role, mb_revoked := False, mb_version := mb_version m + 1\<rparr>"

definition update_member :: "string \<Rightarrow> string \<Rightarrow> (membership_row \<Rightarrow> membership_row) \<Rightarrow> membership_row list \<Rightarrow> membership_row list" where
  "update_member org i f ms = map (\<lambda>m. if mb_id m = i \<and> mb_org m = org then f m else m) ms"

definition restored_reason :: string where
  "restored_reason = ''Membership restored; fresh project access required.''"

definition old_grant :: "string \<Rightarrow> string \<Rightarrow> grant_row \<Rightarrow> bool" where
  "old_grant org i g \<longleftrightarrow> gr_org g = org \<and> gr_membership g = i \<and> \<not> gr_revoked g"

definition changed_tables :: "change_kind \<Rightarrow> api_request \<Rightarrow> string \<Rightarrow> string \<Rightarrow> string \<Rightarrow> string \<Rightarrow> membership_row \<Rightarrow> 'd core_db_scheme \<Rightarrow> 'd core_db_scheme" where
  "changed_tables k rq org actor i role m db = db\<lparr>
     db_memberships := update_member org i (changed_row role) (db_memberships db),
     db_sessions := filter (\<lambda>s. ss_user s \<noteq> mb_user m) (db_sessions db),
     db_grants := (if k = Restore then map (\<lambda>g. if old_grant org i g then revoke_row actor (rq_now rq) restored_reason g else g) (db_grants db)
       else db_grants db)\<rparr>"

definition change_data :: "change_kind \<Rightarrow> api_request \<Rightarrow> string \<Rightarrow> string \<Rightarrow> string \<Rightarrow> membership_row \<Rightarrow> 'd core_db_scheme \<Rightarrow> (string \<times> json) list" where
  "change_data k rq org actor role m db = [(''id'', JStr (mb_id m)), (''organisationId'', JStr org), (''userId'', JStr (mb_user m)), (''role'', JStr role),
     (''audience'', JStr (mb_audience m)), (''isRevoked'', JBool False), (''rowVersion'', JNum (of_int (mb_version m + 1))),
     (''status'', JStr (case k of ChangeRole \<Rightarrow> ''role_changed'' | Restore \<Rightarrow> ''restored'')), (''changedBy'', JStr actor),
     (''changedAt'', JStr (iso_text (rq_now rq))), (''auditEventId'', JStr (rq_ids rq 0)), (''eventId'', JStr (rq_ids rq 1)),
     (''requiresFreshSignIn'', JBool True),
     (''invalidatedSessionCount'', JNum (of_nat (length (filter (\<lambda>s. ss_user s = mb_user m) (db_sessions db))))),
     (''revokedProjectGrantCount'', JNum (if k = Restore then of_nat (length (filter (old_grant org (mb_id m)) (db_grants db))) else 0))]"

definition change_action :: "change_kind \<Rightarrow> string" where
  "change_action k = (case k of ChangeRole \<Rightarrow> ''membership.role_changed'' | Restore \<Rightarrow> ''membership.restored'')"

definition change_operation :: "change_kind \<Rightarrow> string \<Rightarrow> string" where
  "change_operation k i = ''POST /memberships/'' @ i @ ''/'' @ kind_text k"

definition change_hash :: "hasher \<Rightarrow> change_kind \<Rightarrow> string \<Rightarrow> string \<Rightarrow> int \<Rightarrow> string option \<Rightarrow> string" where
  "change_hash H k i reason expected requested = digest_json H (JObj ([(''membershipId'', JStr i), (''reason'', JStr reason),
     (''expectedVersion'', JNum (of_int expected))] @ (case k of ChangeRole \<Rightarrow> [(''role'', text_json requested)] | Restore \<Rightarrow> [])))"

definition apply_change :: "hasher \<Rightarrow> 'd core_db_scheme \<Rightarrow> api_request \<Rightarrow> change_kind \<Rightarrow> string \<Rightarrow> string option \<Rightarrow> int \<Rightarrow> string \<Rightarrow>
    string \<Rightarrow> string \<Rightarrow> string \<Rightarrow> ('d core_db_scheme \<times> json) res" where
  "apply_change H db rq k i requested expected reason org actor key =
     (case List.find (\<lambda>r. mb_id (fst r) = i) (org_members db org) of
         None \<Rightarrow> fail ''MEMBERSHIP_NOT_FOUND''
       | Some t \<Rightarrow>
           bind_res (check_target k requested expected actor t) (\<lambda>_.
           let m = fst t; role = (case requested of Some r \<Rightarrow> r | None \<Rightarrow> mb_role m); data = change_data k rq org actor role m db;
               event = JObj (data @ [(''reason'', JStr reason), (''previousRole'', JStr (mb_role m)), (''previousAudience'', JStr (mb_audience m)),
                 (''previousVersion'', JNum (of_int (mb_version m))), (''previouslyRevoked'', JBool (mb_revoked m))])
           in record_command (changed_tables k rq org actor i role m db)
             \<lparr>au_id = rq_ids rq 0, au_org = org, au_actor = actor, au_action = change_action k, au_type = ''membership'', au_target = i,
               au_version = Some (mb_version m + 1), au_digest = digest_json H event, au_previous = latest_digest db org, au_at = rq_now rq\<rparr>
             \<lparr>ob_event = rq_ids rq 1, ob_org = org, ob_type = change_action k @ ''.v1'', ob_payload = event\<rparr>
             \<lparr>rc_org = org, rc_actor = actor, rc_key = key, rc_operation = change_operation k i,
               rc_hash = change_hash H k i reason expected requested, rc_response = JObj [(''data'', JObj data)]\<rparr>))"

definition change_actor :: "'d core_db_scheme \<Rightarrow> api_request \<Rightarrow> string \<Rightarrow> string res" where
  "change_actor db rq org = (case session_user db rq of
       None \<Rightarrow> fail ''UNAUTHENTICATED''
     | Some actor \<Rightarrow> (case List.find (\<lambda>r. mb_user (fst r) = actor) (org_members db org) of
         None \<Rightarrow> fail ''UNAUTHENTICATED''
       | Some a \<Rightarrow>
           bind_res (throw_if (mb_revoked (fst a)) (Thrown ''UNAUTHENTICATED'' [])) (\<lambda>_.
           bind_res (throw_if (mb_audience (fst a) \<noteq> ''internal'' \<or> \<not> has_admin_role a) (Thrown ''MEMBERSHIP_CHANGE_FORBIDDEN'' [])) (\<lambda>_.
           Inr actor))))"

definition change_membership ::
  "hasher \<Rightarrow> 'd core_db_scheme \<Rightarrow> api_request \<Rightarrow> change_kind \<Rightarrow> string \<Rightarrow> change_body \<Rightarrow> ('d core_db_scheme \<times> json) res" where
  "change_membership H db rq k i b =
     bind_res (request_scope rq) (\<lambda>org.
     bind_res (throw_if (\<not> uuid_text i) (Thrown ''VALIDATION_ERROR'' [])) (\<lambda>_.
     bind_res (command_key rq) (\<lambda>key.
     bind_res (valid_reason (hb_reason b)) (\<lambda>reason.
     bind_res (valid_version (hb_version b)) (\<lambda>expected.
     bind_res (requested_role k b) (\<lambda>requested.
     membership_transaction ''MEMBERSHIP_CHANGE_UNAVAILABLE'' db org (
       bind_res (change_actor db rq org) (\<lambda>actor.
       bind_res (replay db org actor key (change_operation k i) (change_hash H k i reason expected requested)) (\<lambda>prior. case prior of
           Some r \<Rightarrow> Inr (db, rc_response r)
         | None \<Rightarrow> apply_change H db rq k i requested expected reason org actor key)))))))))"

section \<open>Revocation\<close>

definition revoked_row :: "membership_row \<Rightarrow> membership_row" where
  "revoked_row m = m\<lparr>mb_revoked := True, mb_version := mb_version m + 1\<rparr>"

definition check_revocable :: "'d core_db_scheme \<Rightarrow> string \<Rightarrow> string \<Rightarrow> org_member \<Rightarrow> unit res" where
  "check_revocable db org actor t =
     bind_res (throw_if (mb_revoked (fst t)) (Thrown ''MEMBERSHIP_ALREADY_REVOKED'' [])) (\<lambda>_.
     bind_res (throw_if (is_administrator t \<and> length (filter is_administrator (org_members db org)) \<le> 1)
       (Thrown ''LAST_ADMIN_REVOCATION_PROHIBITED'' [])) (\<lambda>_.
     throw_if (mb_user (fst t) = actor) (Thrown ''SELF_REVOCATION_PROHIBITED'' [])))"

definition revoke_operation :: "string \<Rightarrow> string" where
  "revoke_operation i = ''POST /memberships/'' @ i @ ''/revoke''"

definition revoke_hash :: "hasher \<Rightarrow> string \<Rightarrow> string \<Rightarrow> string" where
  "revoke_hash H i reason = digest_json H (JObj [(''membershipId'', JStr i), (''reason'', JStr reason)])"

definition apply_revocation :: "hasher \<Rightarrow> 'd core_db_scheme \<Rightarrow> api_request \<Rightarrow> int \<Rightarrow> string \<Rightarrow> string \<Rightarrow>
    string \<Rightarrow> string \<Rightarrow> string \<Rightarrow> ('d core_db_scheme \<times> json) res" where
  "apply_revocation H db rq began i reason org actor key =
     (case List.find (\<lambda>r. mb_id (fst r) = i) (org_members db org) of
         None \<Rightarrow> fail ''MEMBERSHIP_NOT_FOUND''
       | Some t \<Rightarrow>
           bind_res (check_revocable db org actor t) (\<lambda>_.
           let m = fst t;
               data = [(''id'', JStr i), (''organisationId'', JStr org), (''userId'', JStr (mb_user m)), (''status'', JStr ''revoked''),
                 (''isRevoked'', JBool True), (''revokedBy'', JStr actor), (''revokedAt'', JStr (iso_text (rq_now rq))),
                 (''auditEventId'', JStr (rq_ids rq 0)), (''eventId'', JStr (rq_ids rq 1))];
               event = JObj (data @ [(''reason'', JStr reason), (''previousRole'', JStr (mb_role m)), (''previousAudience'', JStr (mb_audience m))])
           in record_command (db\<lparr>db_memberships := update_member org i revoked_row (db_memberships db)\<rparr>)
             \<lparr>au_id = rq_ids rq 0, au_org = org, au_actor = actor, au_action = ''membership.revoke'', au_type = ''membership'', au_target = i,
               au_version = None, au_digest = digest_json H event, au_previous = latest_digest db org, au_at = began\<rparr>
             \<lparr>ob_event = rq_ids rq 1, ob_org = org, ob_type = ''membership.revoked.v1'', ob_payload = event\<rparr>
             \<lparr>rc_org = org, rc_actor = actor, rc_key = key, rc_operation = revoke_operation i, rc_hash = revoke_hash H i reason,
               rc_response = JObj [(''data'', JObj data)]\<rparr>))"

definition check_revoker :: "'d core_db_scheme \<Rightarrow> api_request \<Rightarrow> string \<Rightarrow> string \<Rightarrow> unit res" where
  "check_revoker db rq org actor = (case List.find (\<lambda>r. mb_user (fst r) = actor) (org_members db org) of
       None \<Rightarrow> fail ''UNAUTHENTICATED''
     | Some a \<Rightarrow>
         bind_res (throw_if (\<not> list_ex (\<lambda>s. Some (ss_token s) = rq_token rq \<and> ss_user s = to_lower actor \<and> rq_now rq < ss_expires s) (db_sessions db)
           \<or> mb_revoked (fst a)) (Thrown ''UNAUTHENTICATED'' [])) (\<lambda>_.
         throw_if (\<not> is_administrator a) (Thrown ''MEMBERSHIP_REVOKE_FORBIDDEN'' [])))"

definition revoke_membership ::
  "hasher \<Rightarrow> 'd core_db_scheme \<Rightarrow> api_request \<Rightarrow> int \<Rightarrow> string option \<Rightarrow> string \<Rightarrow> string option \<Rightarrow> ('d core_db_scheme \<times> json) res" where
  "revoke_membership H db rq began caller i why =
     bind_res (request_scope rq) (\<lambda>org.
     bind_res (case caller of Some a \<Rightarrow> if uuid_text a then Inr a else fail ''UNAUTHENTICATED'' | None \<Rightarrow> fail ''UNAUTHENTICATED'') (\<lambda>actor.
     bind_res (throw_if (\<not> uuid_text i) (Thrown ''VALIDATION_ERROR'' [])) (\<lambda>_.
     bind_res (command_key rq) (\<lambda>key.
     bind_res (valid_reason why) (\<lambda>reason.
     membership_transaction ''MEMBERSHIP_REVOCATION_UNAVAILABLE'' db org (
       bind_res (check_revoker db rq org actor) (\<lambda>_.
       bind_res (replay db org actor key (revoke_operation i) (revoke_hash H i reason)) (\<lambda>prior. case prior of
           Some r \<Rightarrow> Inr (db, rc_response r)
         | None \<Rightarrow> apply_revocation H db rq began i reason org actor key))))))))"

datatype membership_command =
    ChangeMember api_request change_kind string change_body
  | RevokeMember api_request int "string option" string "string option"

fun membership_perform :: "hasher \<Rightarrow> 'd core_db_scheme \<Rightarrow> membership_command \<Rightarrow> ('d core_db_scheme \<times> json) res" where
  "membership_perform H db (ChangeMember rq k i b) = change_membership H db rq k i b"
| "membership_perform H db (RevokeMember rq began caller i why) = revoke_membership H db rq began caller i why"

definition membership_step :: "hasher \<Rightarrow> 'd core_db_scheme \<Rightarrow> membership_command \<Rightarrow> 'd core_db_scheme res" where
  "membership_step H db c = bind_res (membership_perform H db c) (\<lambda>(db', _). Inr db')"


section \<open>What an accepted command does\<close>

lemma org_members_iff:
  "(m, u) \<in> set (org_members db org) \<longleftrightarrow> m \<in> set (db_memberships db) \<and> mb_org m = org \<and> u \<in> set (db_users db) \<and> us_id u = mb_user m"
  by (auto simp: org_members_def)

lemma membership_transaction_Inr [simp]:
  "membership_transaction un db org r = Inr x \<longleftrightarrow> org \<in> set (db_orgs db) \<and> r = Inr x"
  by (auto simp: membership_transaction_def)

lemma record_command_Inr [simp]:
  "record_command db a e r = Inr (db', resp) \<longleftrightarrow> au_id a \<notin> au_id ` set (db_audit db) \<and> ob_event e \<notin> ob_event ` set (db_outbox db) \<and>
     (rc_org r, rc_key r) \<notin> (\<lambda>r. (rc_org r, rc_key r)) ` set (db_receipts db) \<and>
     db' = db\<lparr>db_audit := db_audit db @ [a], db_outbox := db_outbox db @ [e], db_receipts := db_receipts db @ [r]\<rparr> \<and> resp = rc_response r"
  unfolding record_command_def by (simp, blast)

lemma canonical_normal: "r \<in> set canonical_roles \<Longrightarrow> normalize_role r = r"
proof -
  have "map normalize_role canonical_roles = canonical_roles" by code_simp
  then have "map normalize_role canonical_roles = map (\<lambda>r. r) canonical_roles" by simp
  then show "r \<in> set canonical_roles \<Longrightarrow> normalize_role r = r" unfolding map_eq_conv by blast
qed

lemma requested_roleD:
  assumes "requested_role k b = Inr requested"
  shows "case requested of None \<Rightarrow> k = Restore | Some r \<Rightarrow> k = ChangeRole \<and> normalize_role r = r \<and> r \<notin> set privileged_roles"
  using assms by (auto simp: requested_role_def canonical_normal split: change_kind.splits option.splits)

text \<open>The event of a command and the tables it leaves: those it changes, and one record of each kind more.\<close>

definition recorded_as :: "'d core_db_scheme \<Rightarrow> 'd core_db_scheme \<Rightarrow> audit_row \<Rightarrow> bool" where
  "recorded_as db db' a \<longleftrightarrow> db_audit db' = db_audit db @ [a] \<and> au_previous a = latest_digest db (au_org a)"

lemma apply_changeE:
  assumes "apply_change H db rq k i requested expected reason org actor key = Inr (db', resp)" and "requested_role k b = Inr requested"
  obtains m u role a where "(m, u) \<in> set (org_members db org)" "mb_id m = i" "mb_user m \<noteq> actor" "\<not> us_super u"
      "normalize_role (mb_role m) \<notin> set privileged_roles" "normalize_role role \<notin> set privileged_roles" "k = Restore \<Longrightarrow> role = mb_role m"
      "mb_revoked m \<longleftrightarrow> k = Restore" "au_org a = org" "au_at a = rq_now rq" "recorded_as db db' a"
      "db_memberships db' = update_member org i (changed_row role) (db_memberships db)" "db_users db' = db_users db"
      "db_sessions db' = filter (\<lambda>s. ss_user s \<noteq> mb_user m) (db_sessions db)"
      "k = Restore \<Longrightarrow> \<forall>g \<in> set (db_grants db'). \<not> old_grant org i g"
      "k = ChangeRole \<Longrightarrow> db_grants db' = db_grants db"
proof -
  from assms(1) obtain m u where t: "List.find (\<lambda>r. mb_id (fst r) = i) (org_members db org) = Some (m, u)"
    by (auto simp: apply_change_def split: option.splits)
  note found = find_Some_iff_in [OF this]
  define role where "role = (case requested of Some r \<Rightarrow> r | None \<Rightarrow> mb_role m)"
  from assms(1) obtain a e r where run: "record_command (changed_tables k rq org actor i role m db) a e r = Inr (db', resp)"
    and ok: "check_target k requested expected actor (m, u) = Inr ()"
    and a: "au_org a = org" "au_at a = rq_now rq" "au_previous a = latest_digest db org"
    unfolding apply_change_def t option.case Let_def fst_conv role_def [symmetric] bind_res_Inr_conv
    by (elim exE conjE) (rule that, assumption, simp_all)
  then have db': "db' = (changed_tables k rq org actor i role m db)\<lparr>db_audit := db_audit db @ [a], db_outbox := db_outbox db @ [e], db_receipts := db_receipts db @ [r]\<rparr>"
    by (simp add: changed_tables_def)
  have role: "normalize_role role \<notin> set privileged_roles" "k = Restore \<Longrightarrow> role = mb_role m"
    using requested_roleD [OF assms(2)] ok by (simp_all add: role_def check_target_def Let_def split: option.splits)
  show ?thesis
  proof (rule that)
    show "(m, u) \<in> set (org_members db org)" "mb_id m = i" using found by simp_all
    show "mb_user m \<noteq> actor" "\<not> us_super u" "normalize_role (mb_role m) \<notin> set privileged_roles" "mb_revoked m \<longleftrightarrow> k = Restore"
      using ok by (simp_all add: check_target_def Let_def) (cases k; simp)+
    show "normalize_role role \<notin> set privileged_roles" "k = Restore \<Longrightarrow> role = mb_role m" by (fact role)+
    show "au_org a = org" "au_at a = rq_now rq" by (fact a)+
    show "recorded_as db db' a" using a by (simp add: recorded_as_def db')
    show "db_memberships db' = update_member org i (changed_row role) (db_memberships db)" "db_users db' = db_users db"
        "db_sessions db' = filter (\<lambda>s. ss_user s \<noteq> mb_user m) (db_sessions db)" "k = ChangeRole \<Longrightarrow> db_grants db' = db_grants db"
      by (simp_all add: db' changed_tables_def)
    have gone: "\<not> old_grant org i (if old_grant org i g then revoke_row actor (rq_now rq) restored_reason g else g)" for g
      by (simp add: old_grant_def revoke_row_def)
    show "\<forall>g \<in> set (db_grants db'). \<not> old_grant org i g" if "k = Restore"
      using gone by (simp add: db' changed_tables_def that del: if_image_distrib)
  qed
qed

lemma change_membershipE:
  assumes "change_membership H db rq k i b = Inr (db', resp)"
  obtains (replayed) "db' = db"
  | (executed) org requested expected reason actor key where "map_option to_lower (rq_org rq) = Some org" "session_user db rq = Some actor"
      "requested_role k b = Inr requested"
      "apply_change H db rq k i requested expected reason org actor key = Inr (db', resp)"
proof -
  from assms obtain org requested expected reason actor key and prior :: "receipt_row option" where org: "request_scope rq = Inr org"
      and actor: "change_actor db rq org = Inr actor" and req: "requested_role k b = Inr requested"
      and rest: "(case prior of Some r \<Rightarrow> Inr (db, rc_response r)
        | None \<Rightarrow> apply_change H db rq k i requested expected reason org actor key) = Inr (db', resp)"
    unfolding change_membership_def Let_def bind_res_Inr_conv membership_transaction_Inr by (elim exE conjE) (rule that; assumption)
  have "session_user db rq = Some actor" using actor by (auto simp: change_actor_def split: option.splits)
  with rest executed [OF request_scope_Inr [OF org] _ req] replayed show ?thesis by (cases prior) auto
qed

lemma revoke_membershipE:
  assumes "revoke_membership H db rq began caller i why = Inr (db', resp)"
  obtains (replayed) "db' = db"
  | (executed) org reason actor key where "map_option to_lower (rq_org rq) = Some org"
      "check_revoker db rq org actor = Inr ()"
      "apply_revocation H db rq began i reason org actor key = Inr (db', resp)"
proof -
  from assms obtain org reason actor key and prior :: "receipt_row option" where org: "request_scope rq = Inr org"
      and actor: "check_revoker db rq org actor = Inr ()"
      and rest: "(case prior of Some r \<Rightarrow> Inr (db, rc_response r)
        | None \<Rightarrow> apply_revocation H db rq began i reason org actor key) = Inr (db', resp)"
    unfolding revoke_membership_def Let_def bind_res_Inr_conv membership_transaction_Inr old.unit.exhaust by (elim exE conjE) (rule that, assumption, simp, assumption)
  with executed [OF request_scope_Inr [OF org] actor] replayed show ?thesis by (cases prior) auto
qed

lemma apply_revocationE:
  assumes "apply_revocation H db rq began i reason org actor key = Inr (db', resp)"
  obtains m u a where "(m, u) \<in> set (org_members db org)" "mb_id m = i" "mb_user m \<noteq> actor"
      "au_org a = org" "au_at a = began" "recorded_as db db' a"
      "db_memberships db' = update_member org i revoked_row (db_memberships db)" "db_users db' = db_users db"
      "db_sessions db' = db_sessions db" "db_grants db' = db_grants db"
proof -
  from assms obtain m u where t: "List.find (\<lambda>r. mb_id (fst r) = i) (org_members db org) = Some (m, u)"
    by (auto simp: apply_revocation_def split: option.splits)
  note found = find_Some_iff_in [OF this]
  from assms obtain a e r where run: "record_command (db\<lparr>db_memberships := update_member org i revoked_row (db_memberships db)\<rparr>) a e r = Inr (db', resp)"
    and ok: "check_revocable db org actor (m, u) = Inr ()"
    and a: "au_org a = org" "au_at a = began" "au_previous a = latest_digest db org"
    unfolding apply_revocation_def t option.case Let_def fst_conv bind_res_Inr_conv
    by (elim exE conjE) (rule that, assumption, simp_all)
  then have db': "db' = db\<lparr>db_memberships := update_member org i revoked_row (db_memberships db), db_audit := db_audit db @ [a],
      db_outbox := db_outbox db @ [e], db_receipts := db_receipts db @ [r]\<rparr>" by simp
  show ?thesis
    by (rule that [of m u a]) (use found ok a in \<open>simp_all add: check_revocable_def recorded_as_def db'\<close>)
qed

section \<open>Administrators\<close>

definition admins :: "'d core_db_scheme \<Rightarrow> string \<Rightarrow> string set" where
  "admins db org = (\<lambda>r. mb_id (fst r)) ` set (filter is_administrator (org_members db org))"

text \<open>The primary keys of the two tables.\<close>

definition members_ok :: "'d core_db_scheme \<Rightarrow> bool" where
  "members_ok db \<longleftrightarrow> distinct (map mb_id (db_memberships db)) \<and> distinct (map us_id (db_users db))"

lemma member_unique:
  assumes "members_ok db" and "(m, u) \<in> set (org_members db org)" and "(m', u') \<in> set (org_members db org')" and "mb_id m' = mb_id m"
  shows "m' = m \<and> u' = u"
proof -
  have "m' = m" using assms by (auto simp: members_ok_def org_members_iff distinct_map dest: inj_onD)
  moreover from this have "us_id u' = us_id u" "u \<in> set (db_users db)" "u' \<in> set (db_users db)"
    using assms(2,3) by (simp_all add: org_members_iff)
  moreover have "inj_on us_id (set (db_users db))" using assms(1) by (simp add: members_ok_def distinct_map)
  ultimately show ?thesis by (auto dest: inj_onD)
qed

lemma updated_members:
  assumes "db_memberships db' = update_member org i f (db_memberships db)" and "db_users db' = db_users db"
    and "\<And>m. mb_org (f m) = mb_org m \<and> mb_user (f m) = mb_user m"
  shows "set (org_members db' org') = (\<lambda>(m, u). (if mb_id m = i \<and> mb_org m = org then f m else m, u)) ` set (org_members db org')"
proof -
  define g where "g = (\<lambda>m. if mb_id m = i \<and> mb_org m = org then f m else m)"
  have g: "mb_org (g m) = mb_org m" "mb_user (g m) = mb_user m" for m by (simp_all add: g_def assms(3))
  have "set (db_memberships db') = g ` set (db_memberships db)" by (simp add: assms(1) update_member_def g_def)
  then have "r \<in> set (org_members db' org') \<longleftrightarrow> r \<in> (\<lambda>(m, u). (g m, u)) ` set (org_members db org')" for r
    by (cases r) (auto simp: org_members_iff assms(2) g image_iff Bex_def)
  then show ?thesis unfolding g_def by (rule set_eqI)
qed

lemma updated_ok:
  assumes "members_ok db" and "db_memberships db' = update_member org i f (db_memberships db)" and "db_users db' = db_users db"
    and "\<And>m. mb_id (f m) = mb_id m"
  shows "members_ok db'"
proof -
  have "map mb_id (db_memberships db') = map mb_id (db_memberships db)"
    by (simp add: assms(2,4) update_member_def)
  with assms(1,3) show ?thesis by (simp add: members_ok_def)
qed

text \<open>A change of a role and a restoration leave the administrators as they are.\<close>

lemma apply_change_admins:
  assumes ok: "members_ok db" and run: "apply_change H db rq k i requested expected reason org actor key = Inr (db', resp)"
    and req: "requested_role k b = Inr requested"
  shows "members_ok db' \<and> admins db' org' = admins db org'"
  using run req
proof (rule apply_changeE)
  fix m u role
  assume m: "(m, u) \<in> set (org_members db org)" "mb_id m = i" "\<not> us_super u" "normalize_role (mb_role m) \<notin> set privileged_roles"
      "normalize_role role \<notin> set privileged_roles"
    and tables: "db_memberships db' = update_member org i (changed_row role) (db_memberships db)" "db_users db' = db_users db"
  have keep: "mb_id (changed_row role m) = mb_id m \<and> mb_org (changed_row role m) = mb_org m \<and> mb_user (changed_row role m) = mb_user m" for m
    by (simp add: changed_row_def)
  define f where "f = (\<lambda>(m, u :: user_row). (if mb_id m = i \<and> mb_org m = org then changed_row role m else m, u))"
  have same: "is_administrator (f r) \<longleftrightarrow> is_administrator r" if "r \<in> set (org_members db org')" for r
  proof (cases r)
    case (Pair m' u')
    show ?thesis
    proof (cases "mb_id m' = i \<and> mb_org m' = org")
      case True
      with member_unique [OF ok m(1), of m' u' org'] m(2) that Pair have "m' = m" "u' = u" by simp_all
      with m(3-5) True show ?thesis
        by (simp add: Pair f_def is_administrator_def has_admin_role_def privileged_roles_def changed_row_def)
    next
      case False
      then have "f r = r" unfolding Pair f_def by auto
      then show ?thesis by simp
    qed
  qed
  have "mb_id (fst (f r)) = mb_id (fst r)" for r by (simp add: f_def keep split: prod.splits)
  moreover have "set (org_members db' org') = f ` set (org_members db org')"
    unfolding f_def using keep by (intro updated_members [OF tables]) simp
  moreover have "{r \<in> f ` S. is_administrator r} = f ` {r \<in> S. is_administrator (f r)}" for S by auto
  ultimately have "admins db' org' = (\<lambda>r. mb_id (fst r)) ` {r \<in> set (org_members db org'). is_administrator (f r)}"
    by (simp add: admins_def image_image)
  also have "\<dots> = admins db org'" using same by (auto simp: admins_def)
  finally have "admins db' org' = admins db org'" .
  then show ?thesis using updated_ok [OF ok tables] keep by simp
qed

text \<open>A revocation takes nobody in, and leaves the administrator who makes it.\<close>

lemma apply_revocation_admins:
  assumes ok: "members_ok db" and run: "apply_revocation H db rq began i reason org actor key = Inr (db', resp)"
    and actor: "check_revoker db rq org actor = Inr ()"
  shows "members_ok db' \<and> admins db' org' \<subseteq> admins db org' \<and> (admins db org' \<noteq> {} \<longrightarrow> admins db' org' \<noteq> {})"
  using run
proof (rule apply_revocationE)
  fix m u
  assume m: "(m, u) \<in> set (org_members db org)" "mb_id m = i" "mb_user m \<noteq> actor"
    and tables: "db_memberships db' = update_member org i revoked_row (db_memberships db)" "db_users db' = db_users db"
  have keep: "mb_id (revoked_row m) = mb_id m \<and> mb_org (revoked_row m) = mb_org m \<and> mb_user (revoked_row m) = mb_user m" for m
    by (simp add: revoked_row_def)
  define f where "f = (\<lambda>(m, u :: user_row). (if mb_id m = i \<and> mb_org m = org then revoked_row m else m, u))"
  have eq: "set (org_members db' o') = f ` set (org_members db o')" for o'
    unfolding f_def using keep by (intro updated_members [OF tables]) simp
  have id: "mb_id (fst (f r)) = mb_id (fst r)" for r by (simp add: f_def keep split: prod.splits)
  have "is_administrator r" if "is_administrator (f r)" for r
    using that by (auto simp: f_def is_administrator_def revoked_row_def split: prod.splits if_splits)
  then have sub: "admins db' org' \<subseteq> admins db org'"
    using id by (force simp: admins_def eq)
  have stay: "admins db' org' \<noteq> {}" if "admins db org' \<noteq> {}"
  proof (cases "org' = org")
    case True
    from actor obtain a where a: "List.find (\<lambda>r. mb_user (fst r) = actor) (org_members db org) = Some a" "is_administrator a"
      by (auto simp: check_revoker_def split: option.splits)
    from find_Some_iff_in [OF a(1)] have in_org: "a \<in> set (org_members db org)" and "mb_user (fst a) = actor" by simp_all
    with m(3) member_unique [OF ok m(1), of "fst a" "snd a" org] m(2) have "mb_id (fst a) \<noteq> i" by auto
    then have "f a = a" by (cases a) (simp add: f_def)
    with in_org have "a \<in> set (org_members db' org)" unfolding eq by (metis imageI)
    with a(2) have "mb_id (fst a) \<in> admins db' org" unfolding admins_def by (intro imageI) simp
    then show ?thesis unfolding True by blast
  next
    case False
    have "f r = r" if "r \<in> set (org_members db org')" for r
      using that False by (auto simp: f_def org_members_iff split: prod.splits)
    then have "set (org_members db' org') = set (org_members db org')" by (simp add: eq)
    with that show ?thesis by (simp add: admins_def)
  qed
  have "members_ok db'" using updated_ok [OF ok tables] keep by simp
  with sub stay show ?thesis by simp
qed

lemma membership_step_admins:
  assumes "members_ok db" and "membership_step H db c = Inr db'"
  shows "members_ok db' \<and> admins db' org \<subseteq> admins db org \<and> (admins db org \<noteq> {} \<longrightarrow> admins db' org \<noteq> {})"
proof (cases c)
  case (ChangeMember rq k i b)
  with assms(2) obtain resp where "change_membership H db rq k i b = Inr (db', resp)" by (auto simp: membership_step_def)
  then show ?thesis
    by (rule change_membershipE) (use assms(1) apply_change_admins in \<open>blast+\<close>)
next
  case (RevokeMember rq began caller i why)
  with assms(2) obtain resp where "revoke_membership H db rq began caller i why = Inr (db', resp)" by (auto simp: membership_step_def)
  then show ?thesis
    by (rule revoke_membershipE) (use assms(1) apply_revocation_admins in \<open>blast+\<close>)
qed

interpretation administration: guarded_run "membership_step H"
    "\<lambda>db. members_ok db \<and> admins db org \<subseteq> A \<and> admins db org \<noteq> {}" "\<lambda>_. True" for H org A
  by unfold_locales (use membership_step_admins in blast)

text \<open>
  C16: an organisation neither loses its last administrator nor gains one. Whatever sequence
  of role changes, restorations and revocations is attempted, every administrator at the end
  was one before, and if there was one there still is.
\<close>

theorem an_administrator_remains:
  assumes "members_ok db" and "admins db org \<noteq> {}"
  shows "admins (attempts (membership_step H) db cs) org \<noteq> {} \<and> admins (attempts (membership_step H) db cs) org \<subseteq> admins db org"
  using administration.attempts_inv [of db org "admins db org" cs H] assms by simp

section \<open>A restored member starts afresh\<close>

lemma check_access_live:
  assumes "check_access db rq reference opts = Inr ctx"
  shows "live_member db rq (ac_org ctx) (ac_user ctx) (ac_membership ctx)"
    and "live_grant db (ac_org ctx) (pj_id (ac_project ctx)) (ac_membership ctx) (ac_level ctx)"
  using check_accessE [OF assms] current_member_live granted_projects_live by metis+

text \<open>
  C17: a change of a membership ends what rested on the old one. After an accepted role change
  or restoration no session of the member is left, so no request gets through to a project as
  that user before a new sign-in; and after a restoration no request gets through to any
  project of the organisation under the membership, with whatever sessions are opened, before
  a new grant.
\<close>

theorem changed_member_starts_afresh:
  assumes "members_ok db" and "change_membership H db rq k i b = Inr (db', resp)" and "db' \<noteq> db"
    and "m \<in> set (db_memberships db)" and "mb_id m = i"
  shows "(check_access db' rq' reference opts = Inr ctx \<longrightarrow> ac_user ctx \<noteq> mb_user m) \<and>
    (k = Restore \<and> check_access (db'\<lparr>db_sessions := sessions\<rparr>) rq' reference opts = Inr ctx \<longrightarrow>
       ac_org ctx \<noteq> mb_org m \<or> ac_membership ctx \<noteq> i)"
proof -
  from assms(2) obtain org requested expected reason actor key where req: "requested_role k b = Inr requested"
      and run: "apply_change H db rq k i requested expected reason org actor key = Inr (db', resp)"
    by (rule change_membershipE) (use assms(3) in auto)
  from run req obtain m' u where m': "(m', u) \<in> set (org_members db org)" "mb_id m' = i"
      and sessions: "db_sessions db' = filter (\<lambda>s. ss_user s \<noteq> mb_user m') (db_sessions db)"
      and grants: "k = Restore \<Longrightarrow> \<forall>g \<in> set (db_grants db'). \<not> old_grant org i g"
    by (rule apply_changeE) (rule that)
  have "inj_on mb_id (set (db_memberships db))" using assms(1) by (simp add: members_ok_def distinct_map)
  then have m: "m' = m" "mb_org m = org" using m' assms(4,5) by (auto simp: org_members_iff dest: inj_onD)
  have "ac_user ctx \<noteq> mb_user m" if "check_access db' rq' reference opts = Inr ctx"
    using check_access_live [OF that] by (auto simp: live_member_def sessions m)
  moreover have "ac_org ctx \<noteq> org \<or> ac_membership ctx \<noteq> i"
    if "k = Restore" "check_access (db'\<lparr>db_sessions := sessions\<rparr>) rq' reference opts = Inr ctx" for sessions
    using check_access_live [OF that(2)] grants [OF that(1)] by (auto simp: live_grant_def old_grant_def)
  ultimately show ?thesis using m(2) by blast
qed

section \<open>The audit trail\<close>

text \<open>
  A revocation can leave the audit trail. Its event is dated when the transaction began,
  which may have been before it was given the lock; if an event of the organisation was
  written in between, the next command of any kind is linked to that one and not to the
  revocation.
\<close>

theorem late_revocation_is_skipped:
  assumes "revoke_membership H db rq began caller i why = Inr (db', resp)" and "db' \<noteq> db"
    and "a \<in> set (org_audit db org)" and "began < au_at a" and "map_option to_lower (rq_org rq) = Some org"
  shows "latest_digest db' org = latest_digest db org \<and> au_previous (last (db_audit db')) = latest_digest db org"
proof -
  from assms(1) obtain reason actor key where
      run: "apply_revocation H db rq began i reason org actor key = Inr (db', resp)"
    by (rule revoke_membershipE) (use assms(2,5) in auto)
  from run obtain e where e: "au_org e = org" "au_at e = began" and rec: "recorded_as db db' e"
    by (rule apply_revocationE) (rule that)
  define pick where "pick = (\<lambda>m a. case m of None \<Rightarrow> Some a | Some b \<Rightarrow> if later_audit a b then Some a else Some b)"
  have late: "\<exists>b. foldl pick m as = Some b \<and> (\<forall>a \<in> set as. au_at a \<le> au_at b) \<and> (\<forall>b'. m = Some b' \<longrightarrow> au_at b' \<le> au_at b)" if "as \<noteq> []" for m as
    using that
  proof (induction as arbitrary: m)
    case (Cons x xs)
    obtain y where y: "pick m x = Some y" "au_at x \<le> au_at y" "\<forall>b'. m = Some b' \<longrightarrow> au_at b' \<le> au_at y"
    proof (cases m)
      case None
      with that [of x] show ?thesis by (simp add: pick_def)
    next
      case (Some z)
      with that [of "if later_audit x z then x else z"] show ?thesis by (auto simp: pick_def later_audit_def)
    qed
    show ?case
    proof (cases "xs = []")
      case True
      with y show ?thesis by simp
    next
      case False
      from Cons.IH [OF this, of "Some y"] y show ?thesis by fastforce
    qed
  qed simp
  from assms(3) have "org_audit db org \<noteq> []" by auto
  from late [OF this, of None] assms(3,4) obtain b where b: "foldl pick None (org_audit db org) = Some b" "began < au_at b" by fastforce
  have "latest_digest db' org = latest_digest db org"
    using b rec e by (simp add: latest_digest_def recorded_as_def org_audit_def pick_def later_audit_def)
  with rec e show ?thesis by (simp add: recorded_as_def)
qed

section \<open>Examples\<close>

text \<open>Two administrators, Ann and Cat, and Bob, whose membership is revoked; an event of instant 15.\<close>

definition example_member :: "char \<Rightarrow> char \<Rightarrow> string \<Rightarrow> bool \<Rightarrow> membership_row" where
  "example_member i u role gone = \<lparr>mb_id = uid i, mb_org = uid (CHR ''a''), mb_user = uid u, mb_role = role, mb_audience = ''internal'',
     mb_revoked = gone, mb_version = 1\<rparr>"

definition example_user :: "char \<Rightarrow> user_row" where
  "example_user u = \<lparr>us_id = uid u, us_name = ''X'', us_email = ''x@e3'', us_super = False\<rparr>"

definition example_event :: audit_row where
  "example_event = \<lparr>au_id = uid (CHR ''9''), au_org = uid (CHR ''a''), au_actor = uid (CHR ''c''), au_action = ''x'', au_type = ''x'', au_target = ''x'',
     au_version = None, au_digest = ''d'', au_previous = None, au_at = 15\<rparr>"

definition example_staff :: core_db where
  "example_staff = \<lparr>db_orgs = [uid (CHR ''a'')], db_users = [example_user (CHR ''c''), example_user (CHR ''d''), example_user (CHR ''e'')],
     db_sessions = [\<lparr>ss_token = ''ann'', ss_user = uid (CHR ''c''), ss_expires = 1000\<rparr>, \<lparr>ss_token = ''bob'', ss_user = uid (CHR ''e''), ss_expires = 1000\<rparr>],
     db_memberships = [example_member (CHR ''1'') (CHR ''c'') ''super_admin'' False, example_member (CHR ''2'') (CHR ''e'') ''project_manager'' True,
       example_member (CHR ''4'') (CHR ''d'') ''super_admin'' False],
     db_projects = [gala], db_grants = [editor_grant], db_receipts = [], db_audit = [example_event], db_outbox = []\<rparr>"

definition restore_body :: change_body where
  "restore_body = \<lparr>hb_role = None, hb_reason = Some ''back'', hb_version = Some 1\<rparr>"

definition ann_request :: "string \<Rightarrow> char list \<Rightarrow> int \<Rightarrow> api_request" where
  "ann_request key cs now = example_request ''ann'' key cs now"

definition new_events :: "core_db \<Rightarrow> (core_db \<times> json) res \<Rightarrow> nat" where
  "new_events db r = (case r of Inl _ \<Rightarrow> 0 | Inr (db', _) \<Rightarrow> length (db_audit db') - length (db_audit db))"

lemma new_eventsD: "new_events db r = Suc n \<Longrightarrow> \<exists>db' resp. r = Inr (db', resp) \<and> db' \<noteq> db"
  by (auto simp: new_events_def split: sum.splits)

lemma uid_less [simp]: "uid c < uid d \<longleftrightarrow> c < d" "uid c \<le> uid d \<longleftrightarrow> c \<le> d"
proof -
  have "uid c < uid d \<longleftrightarrow> c < d" for c d
    by (cases "c = d") (auto simp: uid_def numeral_eq_Suc)
  then show "uid c < uid d \<longleftrightarrow> c < d" "uid c \<le> uid d \<longleftrightarrow> c \<le> d" by (auto simp: le_less)
qed

lemma staff_members: "org_members example_staff (uid (CHR ''a'')) = [(example_member (CHR ''1'') (CHR ''c'') ''super_admin'' False, example_user (CHR ''c'')),
    (example_member (CHR ''4'') (CHR ''d'') ''super_admin'' False, example_user (CHR ''d'')),
    (example_member (CHR ''2'') (CHR ''e'') ''project_manager'' True, example_user (CHR ''e''))]"
  by (simp add: org_members_def example_staff_def example_member_def example_user_def member_before_def)

lemma staff_uuids [simp]: "uuid_text (uid (CHR ''1''))" "uuid_text (uid (CHR ''4''))" "uuid_text (uid (CHR ''c''))" "to_lower (uid (CHR ''c'')) = uid (CHR ''c'')"
  by (rule uid_uuid uid_lower; simp add: is_hex_def lower_char_def)+

lemma staff_texts [simp]: "trim ''back'' = ''back''" "trim ''left'' = ''left''"
  by code_simp+

lemmas staff_eval = request_scope_def command_key_def valid_reason_def valid_version_def restore_body_def ann_request_def example_request_def
  session_user_def has_admin_role_def is_administrator_def change_actor_def check_revoker_def replay_def find_receipt_def
  check_target_def check_revocable_def requested_role_def privileged_roles_def allowed_membership_roles_def canonical_roles_def role_audience_def
  example_member_def example_user_def example_event_def Let_def

lemma staff_tables: "db_orgs example_staff = [uid (CHR ''a'')]" "db_receipts example_staff = []" "db_outbox example_staff = []"
    "db_audit example_staff = [example_event]"
    "db_sessions example_staff = [\<lparr>ss_token = ''ann'', ss_user = uid (CHR ''c''), ss_expires = 1000\<rparr>, \<lparr>ss_token = ''bob'', ss_user = uid (CHR ''e''), ss_expires = 1000\<rparr>]"
  by (simp_all add: example_staff_def)

lemma restore_runs: "new_events example_staff (change_membership example_hasher example_staff (ann_request ''k1'' ''678'' 20) Restore (uid (CHR ''2'')) restore_body) = 1"
  by (simp add: change_membership_def apply_change_def staff_members staff_eval staff_tables record_command_def insert_row_def new_events_def
      changed_tables_def membership_transaction_def)

lemma revoke_runs: "new_events example_staff (revoke_membership example_hasher example_staff (ann_request ''k1'' ''678'' 20) 10 (Some (uid (CHR ''c'')))
    (uid (CHR ''4'')) (Some ''left'')) = 1"
  by (simp add: revoke_membership_def apply_revocation_def staff_members staff_eval staff_tables record_command_def insert_row_def new_events_def
      membership_transaction_def)

lemma staff_ok: "members_ok example_staff" "admins example_staff (uid (CHR ''a'')) = {uid (CHR ''1''), uid (CHR ''4'')}"
proof -
  show "members_ok example_staff" by (simp add: members_ok_def example_staff_def example_member_def example_user_def)
  show "admins example_staff (uid (CHR ''a'')) = {uid (CHR ''1''), uid (CHR ''4'')}"
    unfolding admins_def staff_members by (simp add: staff_eval)
qed

definition revocations :: "membership_command list" where
  "revocations = [RevokeMember (ann_request ''k1'' ''678'' 20) 10 (Some (uid (CHR ''c''))) (uid (CHR ''4'')) (Some ''left''),
     RevokeMember (ann_request ''k2'' ''78b'' 30) 30 (Some (uid (CHR ''c''))) (uid (CHR ''1'')) (Some ''left'')]"

theorem an_administrator_remains_witness:
  "admins (attempts (membership_step example_hasher) example_staff revocations) (uid (CHR ''a'')) \<noteq> {} \<and>
   admins (attempts (membership_step example_hasher) example_staff revocations) (uid (CHR ''a'')) \<subseteq> {uid (CHR ''1''), uid (CHR ''4'')}"
proof -
  have "admins example_staff (uid (CHR ''a'')) \<noteq> {}" by (simp add: staff_ok(2))
  from an_administrator_remains [OF staff_ok(1) this] show ?thesis unfolding staff_ok(2) by blast
qed

theorem changed_member_starts_afresh_witness:
  "\<exists>db' resp. change_membership example_hasher example_staff (ann_request ''k1'' ''678'' 20) Restore (uid (CHR ''2'')) restore_body = Inr (db', resp) \<and>
     check_access (db'\<lparr>db_sessions := db_sessions example_staff\<rparr>) (example_request ''bob'' ''k2'' ''678'' 20) ''PRJ-1'' editor_access \<noteq> Inr editor_context"
proof -
  obtain db' resp where run: "change_membership example_hasher example_staff (ann_request ''k1'' ''678'' 20) Restore (uid (CHR ''2'')) restore_body
      = Inr (db', resp)" "db' \<noteq> example_staff"
    using new_eventsD [OF restore_runs [unfolded One_nat_def]] by blast
  have bob: "example_member (CHR ''2'') (CHR ''e'') ''project_manager'' True \<in> set (db_memberships example_staff)"
      "mb_id (example_member (CHR ''2'') (CHR ''e'') ''project_manager'' True) = uid (CHR ''2'')"
    by (simp_all add: example_staff_def example_member_def)
  from changed_member_starts_afresh [OF staff_ok(1) run bob, of _ _ _ editor_context "db_sessions example_staff"] run(1) show ?thesis
    by (auto simp: editor_context_def example_member_def)
qed

theorem late_revocation_is_skipped_witness:
  "\<exists>db' resp. revoke_membership example_hasher example_staff (ann_request ''k1'' ''678'' 20) 10 (Some (uid (CHR ''c''))) (uid (CHR ''4'')) (Some ''left'')
     = Inr (db', resp) \<and> latest_digest db' (uid (CHR ''a'')) = latest_digest example_staff (uid (CHR ''a''))"
proof -
  obtain db' resp where run: "revoke_membership example_hasher example_staff (ann_request ''k1'' ''678'' 20) 10 (Some (uid (CHR ''c'')))
      (uid (CHR ''4'')) (Some ''left'') = Inr (db', resp)" "db' \<noteq> example_staff"
    using new_eventsD [OF revoke_runs [unfolded One_nat_def]] by blast
  have "example_event \<in> set (org_audit example_staff (uid (CHR ''a'')))" "10 < au_at example_event"
      "map_option to_lower (rq_org (ann_request ''k1'' ''678'' 20)) = Some (uid (CHR ''a''))"
    by (simp_all add: org_audit_def staff_tables example_event_def ann_request_def example_request_def)
  from late_revocation_is_skipped [OF run this] run(1) show ?thesis by blast
qed

end
