(* ===== verification/Quantity.thy ===== *)
theory Quantity
  imports Project_Access
begin

text \<open>
  Quantities of requirements: \<open>requirementQuantity\<close> of
  \<open>apps/api/src/scope/requirement-intake.service.ts\<close>. A quantity is a decimal text of at most
  eighteen digits before the point and six after it; it is stored without the zeros that end
  its fraction. The lemmas show that equal quantities, whatever way they are written, are
  stored as one text.
\<close>

section \<open>The operation\<close>

text \<open>\<open>/^(?:0|[1-9][0-9]{0,17})(?:\.[0-9]{1,6})?$/\<close>.\<close>

definition whole_part :: "string \<Rightarrow> bool" where
  "whole_part i \<longleftrightarrow> i = ''0'' \<or> (i \<noteq> [] \<and> list_all is_digit i \<and> hd i \<noteq> CHR ''0'' \<and> length i \<le> 18)"

definition fraction_part :: "string \<Rightarrow> bool" where
  "fraction_part f \<longleftrightarrow> f \<noteq> [] \<and> list_all is_digit f \<and> length f \<le> 6"

definition decimal_text :: "string \<Rightarrow> bool" where
  "decimal_text s \<longleftrightarrow> whole_part (takeWhile (\<lambda>c. c \<noteq> CHR ''.'') s) \<and>
     (case dropWhile (\<lambda>c. c \<noteq> CHR ''.'') s of [] \<Rightarrow> True | _ # f \<Rightarrow> fraction_part f)"

definition strip_zeros :: "string \<Rightarrow> string" where
  "strip_zeros s = rev (dropWhile (\<lambda>c. c = CHR ''0'') (rev s))"

definition drop_dot :: "string \<Rightarrow> string" where
  "drop_dot s = (if s \<noteq> [] \<and> last s = CHR ''.'' then butlast s else s)"

definition normal_decimal :: "string \<Rightarrow> string" where
  "normal_decimal s = (if CHR ''.'' \<in> set s then drop_dot (strip_zeros s) else s)"

definition missing :: "json \<Rightarrow> bool" where
  "missing v \<longleftrightarrow> v = JNull \<or> v = JUndef \<or> v = JStr []"

definition requirement_quantity :: "json \<Rightarrow> string option res" where
  "requirement_quantity v = (if missing v then Inr None else case v of
       JStr s \<Rightarrow> if decimal_text s then Inr (Some (normal_decimal s)) else fail ''REQUIREMENT_QUANTITY_INVALID''
     | _ \<Rightarrow> fail ''REQUIREMENT_QUANTITY_INVALID'')"

section \<open>What is stored\<close>

lemma digit_not_dot: "is_digit c \<Longrightarrow> c \<noteq> CHR ''.''"
  by (auto simp: is_digit_def)

lemma whole_part_no_dot: "whole_part i \<Longrightarrow> CHR ''.'' \<notin> set i"
  by (auto simp: whole_part_def list_all_iff dest: digit_not_dot)

lemma fraction_part_no_dot: "fraction_part f \<Longrightarrow> CHR ''.'' \<notin> set f"
  by (auto simp: fraction_part_def list_all_iff dest: digit_not_dot)

lemma decimal_text_whole: "CHR ''.'' \<notin> set i \<Longrightarrow> decimal_text i \<longleftrightarrow> whole_part i"
proof -
  assume "CHR ''.'' \<notin> set i"
  then have parts: "takeWhile (\<lambda>c. c \<noteq> CHR ''.'') i = i" "dropWhile (\<lambda>c. c \<noteq> CHR ''.'') i = []"
    unfolding takeWhile_eq_all_conv dropWhile_eq_Nil_conv by blast+
  show ?thesis unfolding decimal_text_def parts by simp
qed

lemma decimal_text_fraction: "CHR ''.'' \<notin> set i \<Longrightarrow> decimal_text (i @ CHR ''.'' # f) \<longleftrightarrow> whole_part i \<and> fraction_part f"
proof -
  assume "CHR ''.'' \<notin> set i"
  then have "takeWhile (\<lambda>c. c \<noteq> CHR ''.'') (i @ CHR ''.'' # f) = i" "dropWhile (\<lambda>c. c \<noteq> CHR ''.'') (i @ CHR ''.'' # f) = CHR ''.'' # f"
    by (subst takeWhile_append2 dropWhile_append2; auto)+
  then show ?thesis by (simp add: decimal_text_def)
qed

lemma strip_zeros_append: "c \<noteq> CHR ''0'' \<Longrightarrow> strip_zeros (i @ c # f) = i @ c # strip_zeros f"
  by (simp add: strip_zeros_def dropWhile_append)

lemma strip_zeros_last: "strip_zeros f \<noteq> [] \<Longrightarrow> last (strip_zeros f) \<noteq> CHR ''0''"
  using hd_dropWhile [of "\<lambda>c. c = CHR ''0''" "rev f"] by (simp add: strip_zeros_def last_rev del: dropWhile_eq_Nil_conv)

lemma strip_zeros_idem: "strip_zeros (strip_zeros f) = strip_zeros f"
  by (simp add: strip_zeros_def)

lemma strip_zeros_sub: "set (strip_zeros f) \<subseteq> set f" "length (strip_zeros f) \<le> length f"
  unfolding strip_zeros_def by (auto dest: set_dropWhileD) (metis length_dropWhile_le length_rev)

text \<open>A normalised quantity is a quantity, and stays as it is.\<close>

lemma normal_decimal_ok:
  assumes "decimal_text s"
  shows "decimal_text (normal_decimal s) \<and> normal_decimal (normal_decimal s) = normal_decimal s"
proof (cases "CHR ''.'' \<in> set s")
  case False
  with assms show ?thesis by (simp add: normal_decimal_def)
next
  case True
  then obtain i f where s: "s = i @ CHR ''.'' # f" and i: "CHR ''.'' \<notin> set i" by (metis split_list_first)
  with assms have parts: "whole_part i" "fraction_part f" by (simp_all add: decimal_text_fraction)
  have strip: "strip_zeros s = i @ CHR ''.'' # strip_zeros f" by (simp add: s strip_zeros_append)
  show ?thesis
  proof (cases "strip_zeros f = []")
    case True
    then have "normal_decimal s = i" using strip \<open>CHR ''.'' \<in> set s\<close> by (simp add: normal_decimal_def drop_dot_def butlast_append)
    with i parts show ?thesis by (simp add: decimal_text_whole normal_decimal_def)
  next
    case False
    have frac: "fraction_part (strip_zeros f)"
      using parts(2) False strip_zeros_sub [of f] by (auto simp: fraction_part_def list_all_iff)
    then have "last (strip_zeros f) \<noteq> CHR ''.''" using fraction_part_no_dot False last_in_set by metis
    then have normal: "normal_decimal (i @ CHR ''.'' # g) = i @ CHR ''.'' # strip_zeros f" if "strip_zeros g = strip_zeros f" for g
      using False that by (simp add: normal_decimal_def drop_dot_def strip_zeros_append)
    have "normal_decimal s = i @ CHR ''.'' # strip_zeros f" unfolding s by (rule normal) simp
    with normal [OF strip_zeros_idem] i parts(1) frac show ?thesis by (simp add: decimal_text_fraction)
  qed
qed

lemma normal_decimal_nonempty: "decimal_text s \<Longrightarrow> s \<noteq> []"
  by (auto simp: decimal_text_def whole_part_def)

lemma requirement_quantity_again:
  assumes "requirement_quantity v = Inr (Some q)"
  shows "requirement_quantity (JStr q) = Inr (Some q)"
proof -
  from assms obtain s where s: "decimal_text s" "q = normal_decimal s"
    by (auto simp: requirement_quantity_def split: if_splits json.splits)
  with normal_decimal_ok [OF s(1)] normal_decimal_nonempty [of q] show ?thesis
    by (auto simp: requirement_quantity_def missing_def)
qed

lemma digit_char_val: "is_digit c \<Longrightarrow> digit_char (digit_val c) = c"
  by (simp add: is_digit_def digit_char_def digit_val_def)

lemma digit_val_less: "is_digit c \<Longrightarrow> digit_val c < 10"
  unfolding is_digit_def digit_val_def by linarith

lemma digits_val_append: "digits_val (s @ t) = digits_val s * 10 ^ length t + digits_val t"
  by (induction t rule: rev_induct) (simp_all add: digits_val_def algebra_simps)

lemma digits_val_less: "list_all is_digit s \<Longrightarrow> digits_val s < 10 ^ length s"
proof (induction s rule: rev_induct)
  case (snoc c s)
  then have "digits_val s + 1 \<le> 10 ^ length s" "digit_val c < 10" by (auto dest: digit_val_less)
  then show ?case by (simp add: algebra_simps)
qed (simp add: digits_val_def)

lemma digits_val_inj:
  "length s = length t \<Longrightarrow> list_all is_digit s \<Longrightarrow> list_all is_digit t \<Longrightarrow> digits_val s = digits_val t \<Longrightarrow> s = t"
proof (induction s arbitrary: t rule: rev_induct)
  case (snoc c s)
  then obtain u d where t: "t = u @ [d]" by (cases t rule: rev_cases) auto
  with snoc.prems have d: "is_digit c" "is_digit d" "10 * digits_val s + digit_val c = 10 * digits_val u + digit_val d" by auto
  then have "digit_val c = digit_val d" "digits_val s = digits_val u"
    using digit_val_less [of c] digit_val_less [of d] by arith+
  with snoc t d show ?case by (metis append_same_eq digit_char_val length_append_singleton list_all_append nat.inject)
qed simp

lemma char_zero: "digit_char 0 = CHR ''0''"
  by code_simp

lemma nat_str_whole: "list_all is_digit i \<Longrightarrow> i \<noteq> [] \<Longrightarrow> hd i \<noteq> CHR ''0'' \<Longrightarrow> nat_str (digits_val i) = i \<and> 0 < digits_val i"
proof (induction i rule: rev_induct)
  case (snoc c s)
  then have c: "is_digit c" "digit_val c < 10" by (auto dest: digit_val_less)
  show ?case
  proof (cases "s = []")
    case True
    have "digit_val c \<noteq> 0"
    proof
      assume "digit_val c = 0"
      then have "c = digit_char 0" using digit_char_val [OF c(1)] by simp
      then show False using snoc.prems(3) True by (simp add: char_zero)
    qed
    then show ?thesis using True c digit_char_val [OF c(1)] by (simp add: nat_str.simps digits_val_def)
  next
    case False
    with snoc have s: "nat_str (digits_val s) = s" "0 < digits_val s" by simp_all
    have n: "(10 * digits_val s + digit_val c) div 10 = digits_val s" "(10 * digits_val s + digit_val c) mod 10 = digit_val c"
      using c by simp_all
    have "\<not> 10 * digits_val s + digit_val c < 10" using s(2) by simp
    then show ?thesis unfolding digits_val_snoc by (subst nat_str.simps) (simp add: n s digit_char_val c)
  qed
qed simp

lemma whole_part_inj: "whole_part i \<Longrightarrow> whole_part j \<Longrightarrow> digits_val i = digits_val j \<Longrightarrow> i = j"
proof -
  have zero: "digits_val ''0'' = 0" by (simp add: digits_val_def digit_val_def)
  show "whole_part i \<Longrightarrow> whole_part j \<Longrightarrow> digits_val i = digits_val j \<Longrightarrow> i = j"
    unfolding whole_part_def using nat_str_whole [of i] nat_str_whole [of j] zero by (metis less_not_refl)
qed

section \<open>What a text denotes\<close>

definition pad_six :: "string \<Rightarrow> string" where
  "pad_six f = f @ replicate (6 - length f) (CHR ''0'')"

lemma strip_zeros_split: "f = strip_zeros f @ replicate (length f - length (strip_zeros f)) (CHR ''0'')"
proof -
  have "takeWhile (\<lambda>c. c = CHR ''0'') (rev f) = replicate (length (takeWhile (\<lambda>c. c = CHR ''0'') (rev f))) (CHR ''0'')"
    by (rule replicate_eqI [symmetric, THEN sym]) (auto dest: set_takeWhileD)
  moreover have "rev f = takeWhile (\<lambda>c. c = CHR ''0'') (rev f) @ dropWhile (\<lambda>c. c = CHR ''0'') (rev f)" by simp
  then have "f = strip_zeros f @ rev (takeWhile (\<lambda>c. c = CHR ''0'') (rev f))"
    unfolding strip_zeros_def by (metis rev_append rev_rev_ident)
  moreover from this have "length (takeWhile (\<lambda>c. c = CHR ''0'') (rev f)) = length f - length (strip_zeros f)"
    by (metis add_diff_cancel_left' length_append length_rev)
  ultimately show ?thesis by (metis rev_replicate)
qed

lemma strip_zeros_pad: "strip_zeros (f @ replicate n (CHR ''0'')) = strip_zeros f"
proof -
  have "dropWhile P (replicate n c @ xs) = dropWhile P xs" if "P c" for P xs and c :: char
    using that by (induction n) simp_all
  then show ?thesis by (simp add: strip_zeros_def)
qed

lemma pad_six_eq:
  assumes "length f \<le> 6" and "length g \<le> 6"
  shows "pad_six f = pad_six g \<longleftrightarrow> strip_zeros f = strip_zeros g"
proof
  assume "pad_six f = pad_six g"
  then show "strip_zeros f = strip_zeros g" unfolding pad_six_def by (metis strip_zeros_pad)
next
  have pad: "pad_six f = pad_six (strip_zeros f)" if "length f \<le> 6" for f
  proof -
    have "length f - length (strip_zeros f) + (6 - length f) = 6 - length (strip_zeros f)"
      using that strip_zeros_sub(2) [of f] by simp
    then show ?thesis using strip_zeros_split [of f] unfolding pad_six_def by (metis append.assoc replicate_add)
  qed
  assume "strip_zeros f = strip_zeros g"
  then show "pad_six f = pad_six g" using pad assms by metis
qed

lemma base_split: "(x :: nat) < b \<Longrightarrow> y < b \<Longrightarrow> m * b + x = n * b + y \<longleftrightarrow> m = n \<and> x = y"
  by (metis add_diff_cancel_left' div_mult_self3 div_less add.right_neutral add.commute less_nat_zero_code)

definition micro_units :: "string \<Rightarrow> nat" where
  "micro_units s = digits_val (takeWhile (\<lambda>c. c \<noteq> CHR ''.'') s @ pad_six (drop 1 (dropWhile (\<lambda>c. c \<noteq> CHR ''.'') s)))"

lemma decimal_parts:
  assumes "decimal_text s"
  obtains i f where "whole_part i" "list_all is_digit f" "length f \<le> 6" "micro_units s = digits_val (i @ pad_six f)"
    "normal_decimal s = i @ (if strip_zeros f = [] then [] else CHR ''.'' # strip_zeros f)"
proof (cases "CHR ''.'' \<in> set s")
  case False
  then have "takeWhile (\<lambda>c. c \<noteq> CHR ''.'') s = s" "dropWhile (\<lambda>c. c \<noteq> CHR ''.'') s = []"
    unfolding takeWhile_eq_all_conv dropWhile_eq_Nil_conv by blast+
  with False assms decimal_text_whole [OF False] show ?thesis
    by (intro that [of s "[]"]) (simp_all only: micro_units_def normal_decimal_def strip_zeros_def, simp_all)
next
  case True
  then obtain i f where s: "s = i @ CHR ''.'' # f" and i: "CHR ''.'' \<notin> set i" by (metis split_list_first)
  with assms have parts: "whole_part i" "fraction_part f" by (simp_all add: decimal_text_fraction)
  from i have "takeWhile (\<lambda>c. c \<noteq> CHR ''.'') s = i" "dropWhile (\<lambda>c. c \<noteq> CHR ''.'') s = CHR ''.'' # f"
    unfolding s by (subst takeWhile_append2 dropWhile_append2; auto)+
  then have units: "micro_units s = digits_val (i @ pad_six f)" by (simp add: micro_units_def)
  have "strip_zeros f \<noteq> [] \<Longrightarrow> last (strip_zeros f) \<noteq> CHR ''.''"
    using fraction_part_no_dot [OF parts(2)] strip_zeros_sub(1) [of f] by (metis last_in_set subsetD)
  then have "normal_decimal s = i @ (if strip_zeros f = [] then [] else CHR ''.'' # strip_zeros f)"
    using True by (simp add: normal_decimal_def s strip_zeros_append drop_dot_def butlast_append)
  with units parts show ?thesis by (intro that [of i f]) (simp_all add: fraction_part_def)
qed

lemma normal_decimal_eq:
  assumes "decimal_text s" and "decimal_text t"
  shows "normal_decimal s = normal_decimal t \<longleftrightarrow> micro_units s = micro_units t"
proof -
  obtain i f where s: "whole_part i" "list_all is_digit f" "length f \<le> 6" "micro_units s = digits_val (i @ pad_six f)"
    "normal_decimal s = i @ (if strip_zeros f = [] then [] else CHR ''.'' # strip_zeros f)" using assms(1) by (rule decimal_parts)
  obtain j g where t: "whole_part j" "list_all is_digit g" "length g \<le> 6" "micro_units t = digits_val (j @ pad_six g)"
    "normal_decimal t = j @ (if strip_zeros g = [] then [] else CHR ''.'' # strip_zeros g)" using assms(2) by (rule decimal_parts)
  have six: "length (pad_six f) = 6" "length (pad_six g) = 6" using s(3) t(3) by (simp_all add: pad_six_def)
  have digits: "list_all is_digit (pad_six f)" "list_all is_digit (pad_six g)"
    using s(2) t(2) by (auto simp: pad_six_def list_all_iff is_digit_def)
  have "micro_units s = micro_units t \<longleftrightarrow> digits_val i = digits_val j \<and> digits_val (pad_six f) = digits_val (pad_six g)"
    using digits_val_less [OF digits(1)] digits_val_less [OF digits(2)] unfolding s(4) t(4) digits_val_append six
    by (rule base_split)
  also have "\<dots> \<longleftrightarrow> i = j \<and> strip_zeros f = strip_zeros g"
    using whole_part_inj [OF s(1) t(1)] digits_val_inj [OF _ digits] six pad_six_eq [OF s(3) t(3)] by metis
  also have "\<dots> \<longleftrightarrow> normal_decimal s = normal_decimal t"
  proof -
    have split: "i = j \<and> x = y"
      if "i @ (if x = [] then [] else CHR ''.'' # x) = j @ (if y = [] then [] else CHR ''.'' # y)" for x y
    proof -
      have whole: "takeWhile (\<lambda>c. c \<noteq> CHR ''.'') (k @ (if x = [] then [] else CHR ''.'' # x)) = k" if "whole_part k" for k x
        using whole_part_no_dot [OF that] by (auto simp: takeWhile_append takeWhile_eq_all_conv)
      have "i = j" using whole [OF s(1), of x] whole [OF t(1), of y] unfolding that by simp
      with that show ?thesis by (auto split: if_splits)
    qed
    show ?thesis unfolding s(5) t(5)
    proof
      assume "i = j \<and> strip_zeros f = strip_zeros g"
      then show "i @ (if strip_zeros f = [] then [] else CHR ''.'' # strip_zeros f) = j @ (if strip_zeros g = [] then [] else CHR ''.'' # strip_zeros g)"
        by (elim conjE) (simp only:)
    qed (rule split)
  qed
  finally show ?thesis ..
qed

text \<open>
  C32: the stored text of a quantity is canonical. What is stored denotes the number that was
  given, in millionths, and two accepted texts are stored as the same text exactly when they
  denote the same number.
\<close>

theorem stored_quantity_canonical:
  assumes "requirement_quantity (JStr s) = Inr (Some p)" and "requirement_quantity (JStr t) = Inr (Some q)"
  shows "micro_units p = micro_units s \<and> (p = q \<longleftrightarrow> micro_units s = micro_units t)"
proof -
  have s: "decimal_text s" "p = normal_decimal s" and t: "decimal_text t" "q = normal_decimal t"
    using assms by (auto simp: requirement_quantity_def split: if_splits)
  have "micro_units p = micro_units s" using normal_decimal_ok [OF s(1)] normal_decimal_eq [OF _ s(1)] s(2) by blast
  then show ?thesis unfolding s(2) t(2) normal_decimal_eq [OF s(1) t(1)] by simp
qed

theorem stored_quantity_canonical_witness:
  "micro_units ''10.5'' = micro_units ''10.50'' \<and> (''10.5'' = ''10.5'' \<longleftrightarrow> micro_units ''10.50'' = micro_units ''10.500'')"
  by (rule stored_quantity_canonical) code_simp+

end
