(* ===== verification/Requirement_Register.thy ===== *)
theory Requirement_Register
  imports Schedule Quantity
begin

text \<open>
  The register of requirements: \<open>apps/api/src/scope/requirement-intake.service.ts\<close>. Drafts of
  requirements, each revision retained with its hashed snapshot, on top of the durable
  command. A body is an arbitrary JSON value, checked as the code checks it. A numeric column
  keeps the digits it was given, so it is a text here; the hash of a snapshot has the form the
  database asks for. The tables extend those of the schedule, so the commands of all registers
  are steps on one state.
\<close>

section \<open>The tables\<close>

record requirement_draft =
  rf_title :: string
  rf_original :: "string option"
  rf_interpretation :: "string option"
  rf_source_type :: "string option"
  rf_reference :: "string option"
  rf_category :: "string option"
  rf_quantity :: "string option"
  rf_unit :: "string option"
  rf_zone :: "string option"
  rf_acceptance :: "string option"
  rf_owner :: "string option"

record requirement_row = requirement_draft +
  rr_id :: string
  rr_org :: string
  rr_project :: string
  rr_code :: "string option"
  rr_description :: "string option"
  rr_status :: string
  rr_approved :: bool
  rr_archived :: bool
  rr_revision :: int
  rr_revision_id :: "string option"
  rr_version :: int
  rr_start :: "int option"
  rr_due :: "int option"
  rr_provenance :: string
  rr_created :: int
  rr_updated :: int

record revision_row =
  rv_id :: string
  rv_requirement :: string
  rv_org :: string
  rv_project :: string
  rv_number :: int
  rv_changed :: "string list"
  rv_previous :: json
  rv_new :: json
  rv_reason :: string
  rv_author :: string
  rv_role :: string
  rv_snapshot :: "json option"
  rv_hash :: "string option"
  rv_provenance :: string

record requirement_db = schedule_db +
  qd_requirements :: "requirement_row list"
  qd_revisions :: "revision_row list"

section \<open>Input\<close>

definition required_text :: "json \<Rightarrow> nat \<Rightarrow> bool \<Rightarrow> string res" where
  "required_text v bound preserve = (case v of
       JStr s \<Rightarrow> if trim s = [] \<or> length s > bound then fail ''REQUIREMENT_INPUT_INVALID'' else Inr (if preserve then s else trim s)
     | _ \<Rightarrow> fail ''REQUIREMENT_INPUT_INVALID'')"

definition nullable_text :: "json \<Rightarrow> nat \<Rightarrow> string option res" where
  "nullable_text v bound = (if missing v then Inr None else case v of
       JStr s \<Rightarrow> if length s > bound then fail ''REQUIREMENT_INPUT_INVALID'' else Inr (if trim s = [] then None else Some (trim s))
     | _ \<Rightarrow> fail ''REQUIREMENT_INPUT_INVALID'')"

definition owner_text :: "json \<Rightarrow> string option res" where
  "owner_text v = (if missing v then Inr None else case v of
       JStr s \<Rightarrow> if uuid_text s then Inr (Some (to_lower s)) else fail ''REQUIREMENT_INPUT_INVALID''
     | _ \<Rightarrow> fail ''REQUIREMENT_INPUT_INVALID'')"

definition source_types :: "string list" where
  "source_types = [''manual'', ''client_note'', ''source_reference'']"

definition draft_keys :: "string list" where
  "draft_keys = [''title'', ''originalWording'', ''interpretation'', ''sourceType'', ''sourceReference'', ''category'', ''quantity'', ''unit'',
     ''locationZone'', ''acceptanceCriteria'', ''ownerId'']"

text \<open>\<open>body[key]\<close>, and \<open>Number.isSafeInteger(v) && v >= 1\<close>.\<close>

definition body_field :: "(string \<times> json) list \<Rightarrow> string \<Rightarrow> json" where
  "body_field kvs k = (case map_of kvs k of Some v \<Rightarrow> v | None \<Rightarrow> JUndef)"

definition safe_positive :: "json \<Rightarrow> int option" where
  "safe_positive v = (case v of JNum q \<Rightarrow> if q = of_int \<lfloor>q\<rfloor> \<and> 1 \<le> q \<and> q \<le> 9007199254740991 then Some \<lfloor>q\<rfloor> else None | _ \<Rightarrow> None)"

record requirement_input =
  ri_draft :: requirement_draft
  ri_reason :: string
  ri_expected :: "int option"

definition read_draft :: "string \<Rightarrow> (string \<Rightarrow> json) \<Rightarrow> requirement_draft res" where
  "read_draft source_type f =
     bind_res (required_text (f ''title'') 300 False) (\<lambda>title.
     bind_res (required_text (f ''originalWording'') 16000 True) (\<lambda>original.
     bind_res (nullable_text (f ''interpretation'') 16000) (\<lambda>interpretation.
     bind_res (nullable_text (f ''sourceReference'') 2000) (\<lambda>reference.
     bind_res (nullable_text (f ''category'') 120) (\<lambda>category.
     bind_res (requirement_quantity (f ''quantity'')) (\<lambda>quantity.
     bind_res (nullable_text (f ''unit'') 80) (\<lambda>unit_of.
     bind_res (nullable_text (f ''locationZone'') 250) (\<lambda>zone.
     bind_res (nullable_text (f ''acceptanceCriteria'') 8000) (\<lambda>acceptance.
     bind_res (owner_text (f ''ownerId'')) (\<lambda>owner.
     Inr \<lparr>rf_title = title, rf_original = Some original, rf_interpretation = interpretation, rf_source_type = Some source_type,
       rf_reference = reference, rf_category = category, rf_quantity = quantity, rf_unit = unit_of, rf_zone = zone,
       rf_acceptance = acceptance, rf_owner = owner\<rparr>))))))))))"

definition validate_requirement :: "json \<Rightarrow> bool \<Rightarrow> requirement_input res" where
  "validate_requirement body revision = (case body of
       JObj kvs \<Rightarrow>
         bind_res (throw_if (\<not> set (map fst kvs) \<subseteq> set (draft_keys @ [''reason''] @ (if revision then [''expectedVersion''] else [])))
           (Thrown ''REQUIREMENT_INPUT_INVALID'' [])) (\<lambda>_.
         let f = body_field kvs; expected = safe_positive (f ''expectedVersion'') in
         bind_res (case f ''sourceType'' of JStr s \<Rightarrow> if s \<in> set source_types then Inr s else fail ''REQUIREMENT_SOURCE_INVALID''
           | _ \<Rightarrow> fail ''REQUIREMENT_SOURCE_INVALID'') (\<lambda>source.
         bind_res (throw_if (revision \<and> expected = None) (Thrown ''REQUIREMENT_VERSION_REQUIRED'' [])) (\<lambda>_.
         bind_res (read_draft source f) (\<lambda>draft.
         bind_res (required_text (f ''reason'') 2000 False) (\<lambda>reason.
         Inr \<lparr>ri_draft = draft, ri_reason = reason, ri_expected = (if revision then expected else None)\<rparr>)))))
     | _ \<Rightarrow> fail ''REQUIREMENT_INPUT_INVALID'')"

section \<open>Snapshots\<close>

definition draft_fields :: "requirement_draft \<Rightarrow> (string \<times> json) list" where
  "draft_fields d = [(''title'', JStr (rf_title d)), (''originalWording'', text_json (rf_original d)), (''interpretation'', text_json (rf_interpretation d)),
     (''sourceType'', text_json (rf_source_type d)), (''sourceReference'', text_json (rf_reference d)), (''category'', text_json (rf_category d)),
     (''quantity'', text_json (rf_quantity d)), (''unit'', text_json (rf_unit d)), (''locationZone'', text_json (rf_zone d)),
     (''acceptanceCriteria'', text_json (rf_acceptance d)), (''ownerId'', text_json (rf_owner d))]"

definition requirement_input_json :: "requirement_input \<Rightarrow> json" where
  "requirement_input_json b = JObj (draft_fields (ri_draft b) @ [(''reason'', JStr (ri_reason b))] @
     (case ri_expected b of Some v \<Rightarrow> [(''expectedVersion'', JNum (of_int v))] | None \<Rightarrow> []))"

definition requirement_snapshot :: "string \<Rightarrow> string \<Rightarrow> int \<Rightarrow> requirement_draft \<Rightarrow> json" where
  "requirement_snapshot i project version d = JObj ([(''requirementId'', JStr i), (''projectId'', JStr project), (''revisionNumber'', JNum (of_int version))] @
     draft_fields d @ [(''startDate'', JNull), (''dueDate'', JNull), (''status'', JStr ''draft''), (''isApproved'', JBool False),
     (''sourceVerification'', JStr ''unverified''), (''operationalScopePublished'', JBool False)])"

text \<open>\<open>requirementSnapshotHash\<close> sorts keys like the hash of the schedule.\<close>

definition snapshot_hash :: "hasher \<Rightarrow> json \<Rightarrow> string" where
  "snapshot_hash H v = digest_json H (sorted_json v)"

definition row_draft :: "'d requirement_row_scheme \<Rightarrow> requirement_draft res" where
  "row_draft r = bind_res (case rf_quantity r of None \<Rightarrow> Inr None | Some q \<Rightarrow> requirement_quantity (JStr q)) (\<lambda>q.
     Inr ((requirement_draft.truncate r)\<lparr>rf_quantity := q\<rparr>))"

section \<open>The service\<close>

definition intake_permissions :: "string list" where
  "intake_permissions = [''projects.manage'', ''design.version'', ''operations.manage'']"

definition intake_access :: access_options where
  "intake_access = \<lparr>ao_level = Editor, ao_permissions = Some intake_permissions, ao_audiences = Some [''internal'']\<rparr>"

definition can_intake :: "access_context \<Rightarrow> bool res" where
  "can_intake ctx = (if ac_level ctx = Editor then holds_any ctx intake_permissions else Inr False)"

text \<open>The first member of the query that joins a user's membership with the grants of the project.\<close>

definition project_member :: "'d core_db_scheme \<Rightarrow> access_context \<Rightarrow> string \<Rightarrow> membership_row option" where
  "project_member db ctx user = first_row (concat (map (\<lambda>m. map (\<lambda>g. m)
       (filter (\<lambda>g. gr_membership g = mb_id m \<and> gr_org g = mb_org m \<and> gr_project g = pj_id (ac_project ctx) \<and> \<not> gr_revoked g) (db_grants db)))
     (filter (\<lambda>m. mb_org m = ac_org ctx \<and> mb_user m = to_lower user \<and> mb_audience m = ''internal'' \<and> \<not> mb_revoked m) (db_memberships db))))"

definition member_or :: "string \<Rightarrow> 'd core_db_scheme \<Rightarrow> access_context \<Rightarrow> string option \<Rightarrow> unit res" where
  "member_or code db ctx owner = (case owner of None \<Rightarrow> Inr () | Some u \<Rightarrow> (case project_member db ctx u of
       None \<Rightarrow> fail code
     | Some m \<Rightarrow> throw_if (normalize_role (mb_role m) \<notin> set canonical_roles \<or> normalize_role (mb_role m) = ''client_user'') (Thrown code [])))"

text \<open>The revision that a row names as its current one.\<close>

definition revision_of :: "requirement_row \<Rightarrow> revision_row \<Rightarrow> bool" where
  "revision_of r v \<longleftrightarrow> Some (rv_id v) = rr_revision_id r \<and> rv_requirement v = rr_id r \<and> rv_org v = rr_org r \<and> rv_project v = rr_project r"

definition scoped_requirement :: "'d requirement_db_scheme \<Rightarrow> access_context \<Rightarrow> string \<Rightarrow> (requirement_row \<times> revision_row option) res" where
  "scoped_requirement db ctx i = (case List.find (\<lambda>r. rr_id r = to_lower i \<and> in_project ctx (rr_org r) (rr_project r)) (qd_requirements db) of
       None \<Rightarrow> fail ''REQUIREMENT_NOT_FOUND''
     | Some r \<Rightarrow> Inr (r, List.find (revision_of r) (qd_revisions db)))"

definition revisable :: "requirement_row \<times> revision_row option \<Rightarrow> bool" where
  "revisable rv = (case rv of (r, v) \<Rightarrow> rr_provenance r = ''manually_recorded'' \<and> map_option rv_provenance v = Some ''manually_recorded'' \<and>
     rr_revision_id r \<noteq> None \<and> \<not> rr_approved r \<and> \<not> rr_archived r \<and> rr_status r = ''draft'' \<and> rr_start r = None \<and> rr_due r = None)"

definition requirement_summary :: "access_context \<Rightarrow> requirement_row \<times> revision_row option \<Rightarrow> (string \<times> json) list res" where
  "requirement_summary ctx rv = (let r = fst rv; controlled = (rr_provenance r = ''manually_recorded'') in
     bind_res (can_intake ctx) (\<lambda>edit.
     Inr [(''id'', JStr (rr_id r)), (''projectId'', JStr (rr_project r)), (''code'', text_json (rr_code r)), (''title'', JStr (rf_title r)),
       (''originalWording'', text_json (rf_original r)), (''interpretation'', text_json (rf_interpretation r)), (''sourceType'', text_json (rf_source_type r)),
       (''sourceReference'', text_json (rf_reference r)), (''category'', text_json (rf_category r)), (''quantity'', text_json (rf_quantity r)),
       (''unit'', text_json (rf_unit r)), (''locationZone'', text_json (rf_zone r)), (''acceptanceCriteria'', text_json (rf_acceptance r)),
       (''ownerId'', text_json (rf_owner r)), (''startDate'', time_json (rr_start r)), (''dueDate'', time_json (rr_due r)),
       (''rowVersion'', JNum (of_int (rr_version r))), (''currentRevision'', JNum (of_int (rr_revision r))),
       (''currentRevisionId'', text_json (rr_revision_id r)), (''provenanceState'', JStr (rr_provenance r)), (''sourceVerification'', JStr ''unverified''),
       (''status'', JStr (if controlled then rr_status r else ''legacy_unverified'')), (''recordedStatus'', JStr (rr_status r)),
       (''isApproved'', JBool (controlled \<and> rr_approved r)), (''recordedApproval'', JBool (rr_approved r)),
       (''approvalState'', JStr (if controlled then (if rr_approved r then ''outside_intake_workflow'' else ''not_approved'') else ''legacy_unverified'')),
       (''isArchived'', JBool (rr_archived r)), (''operationalScopePublished'', JBool False), (''canRevise'', JBool (edit \<and> revisable rv)),
       (''createdAt'', JStr (iso_text (rr_created r))), (''updatedAt'', JStr (iso_text (rr_updated r)))]))"

definition changed_fields :: "requirement_draft option \<Rightarrow> requirement_draft \<Rightarrow> string list" where
  "changed_fields previous d = map fst (filter (\<lambda>(k, v). case previous of None \<Rightarrow> True | Some p \<Rightarrow> map_of (draft_fields p) k \<noteq> Some v) (draft_fields d))"

text \<open>The revision of a change, and its insert: the constraints of the table are part of it.\<close>

definition new_revision :: "hasher \<Rightarrow> string \<Rightarrow> access_context \<Rightarrow> string \<Rightarrow> int \<Rightarrow> requirement_draft \<Rightarrow> string \<Rightarrow> requirement_draft option \<Rightarrow> revision_row" where
  "new_revision H rid ctx i version d reason previous = (let snapshot = requirement_snapshot i (pj_id (ac_project ctx)) version d in
     \<lparr>rv_id = rid, rv_requirement = to_lower i, rv_org = ac_org ctx, rv_project = pj_id (ac_project ctx), rv_number = version,
       rv_changed = changed_fields previous d, rv_previous = JObj (case previous of None \<Rightarrow> [] | Some p \<Rightarrow> draft_fields p), rv_new = JObj (draft_fields d),
       rv_reason = reason, rv_author = ac_user ctx, rv_role = ac_role ctx, rv_snapshot = Some snapshot, rv_hash = Some (snapshot_hash H snapshot),
       rv_provenance = ''manually_recorded''\<rparr>)"

definition revision_slot :: "revision_row \<Rightarrow> string \<times> string \<times> int" where
  "revision_slot v = (rv_org v, rv_requirement v, rv_number v)"

definition append_revision :: "string \<Rightarrow> revision_row \<Rightarrow> revision_row list \<Rightarrow> revision_row list res" where
  "append_revision i v vs =
     bind_res (throw_if (i \<noteq> rv_requirement v \<or> rv_number v \<le> 0) (Thrown ''PROJECT_ACCESS_STORAGE_UNAVAILABLE'' [])) (\<lambda>_.
     bind_res (throw_if (list_ex (\<lambda>w. rv_provenance w = ''manually_recorded'' \<and> revision_slot w = revision_slot v) vs)
       (Thrown ''PROJECT_ACCESS_STORAGE_UNAVAILABLE'' [])) (\<lambda>_. insert_row rv_id v vs))"

definition described_by :: "requirement_draft \<Rightarrow> string option" where
  "described_by d = (if text_given (rf_interpretation d) then rf_interpretation d else rf_original d)"

definition new_requirement :: "api_request \<Rightarrow> access_context \<Rightarrow> requirement_draft \<Rightarrow> requirement_row" where
  "new_requirement rq ctx d = requirement_draft.extend d
     \<lparr>rr_id = rq_ids rq 2, rr_org = ac_org ctx, rr_project = pj_id (ac_project ctx), rr_code = None, rr_description = described_by d,
       rr_status = ''draft'', rr_approved = False, rr_archived = False, rr_revision = 1, rr_revision_id = Some (rq_ids rq 3), rr_version = 1,
       rr_start = None, rr_due = None, rr_provenance = ''manually_recorded'', rr_created = rq_now rq, rr_updated = rq_now rq\<rparr>"

definition create_requirement_change ::
  "hasher \<Rightarrow> api_request \<Rightarrow> requirement_input \<Rightarrow> 'd requirement_db_scheme \<Rightarrow> access_context \<Rightarrow> ('d requirement_db_scheme \<times> mutation) res" where
  "create_requirement_change H rq b db ctx =
     bind_res (member_or ''REQUIREMENT_OWNER_UNAVAILABLE'' db ctx (rf_owner (ri_draft b))) (\<lambda>_.
     let row = new_requirement rq ctx (ri_draft b); v = new_revision H (rq_ids rq 3) ctx (rq_ids rq 2) 1 (ri_draft b) (ri_reason b) None in
     bind_res (insert_row rr_id row (qd_requirements db)) (\<lambda>rows.
     bind_res (append_revision (rq_ids rq 2) v (qd_revisions db)) (\<lambda>revs.
     let db1 = db\<lparr>qd_requirements := rows, qd_revisions := revs\<rparr> in
     bind_res (scoped_requirement db1 ctx (rq_ids rq 2)) (\<lambda>r. bind_res (requirement_summary ctx r) (\<lambda>data.
     Inr (db1, \<lparr>mu_id = rq_ids rq 2, mu_data = data,
       mu_event = [(''reason'', JStr (ri_reason b)), (''revisionId'', JStr (rv_id v)), (''snapshotHash'', text_json (rv_hash v)),
         (''sourceType'', text_json (rf_source_type (ri_draft b))), (''sourceVerification'', JStr ''unverified''),
         (''isApproved'', JBool False)],
       mu_version = Some 1\<rparr>))))))"

definition revised_row :: "api_request \<Rightarrow> requirement_draft \<Rightarrow> int \<Rightarrow> int \<Rightarrow> requirement_row \<Rightarrow> requirement_row" where
  "revised_row rq d revision version r = requirement_draft.extend d (requirement_draft.more r)
     \<lparr>rr_description := described_by d, rr_revision := revision, rr_revision_id := Some (rq_ids rq 2), rr_version := version, rr_updated := rq_now rq\<rparr>"

text \<open>The recorded revision that the current draft has to agree with.\<close>

definition recorded_revision :: "requirement_row \<Rightarrow> revision_row list \<Rightarrow> revision_row option" where
  "recorded_revision r vs = List.find (\<lambda>v. revision_of r v \<and> rv_provenance v = ''manually_recorded'') vs"

definition agrees :: "hasher \<Rightarrow> json \<Rightarrow> revision_row option \<Rightarrow> bool" where
  "agrees H current v = (case v of None \<Rightarrow> False
     | Some v \<Rightarrow> (case rv_snapshot v of None \<Rightarrow> False
       | Some t \<Rightarrow> Some (snapshot_hash H t) = rv_hash v \<and> Some (snapshot_hash H current) = rv_hash v))"

definition revise_requirement_change ::
  "hasher \<Rightarrow> api_request \<Rightarrow> string \<Rightarrow> requirement_input \<Rightarrow> 'd requirement_db_scheme \<Rightarrow> access_context \<Rightarrow> ('d requirement_db_scheme \<times> mutation) res" where
  "revise_requirement_change H rq i b db ctx =
     bind_res (scoped_requirement db ctx i) (\<lambda>rv. let r = fst rv in
     bind_res (throw_if (\<not> revisable rv) (Thrown ''REQUIREMENT_REVISION_UNAVAILABLE'' [])) (\<lambda>_.
     bind_res (throw_if (Some (rr_version r) \<noteq> ri_expected b) (Thrown ''REQUIREMENT_VERSION_CONFLICT'' [])) (\<lambda>_.
     bind_res (row_draft r) (\<lambda>previous.
     bind_res (throw_if (\<not> agrees H (requirement_snapshot i (pj_id (ac_project ctx)) (rr_revision r) previous) (recorded_revision r (qd_revisions db)))
       (Thrown ''REQUIREMENT_HISTORY_CONFLICT'' [])) (\<lambda>_.
     bind_res (member_or ''REQUIREMENT_OWNER_UNAVAILABLE'' db ctx (rf_owner (ri_draft b))) (\<lambda>_.
     let v = new_revision H (rq_ids rq 2) ctx i (rr_revision r + 1) (ri_draft b) (ri_reason b) (Some previous) in
     bind_res (append_revision i v (qd_revisions db)) (\<lambda>revs.
     let db1 = db\<lparr>qd_revisions := revs, qd_requirements := map (\<lambda>u. if rr_id u = to_lower i \<and> in_project ctx (rr_org u) (rr_project u)
           then revised_row rq (ri_draft b) (rr_revision r + 1) (rr_version r + 1) u else u) (qd_requirements db)\<rparr> in
     bind_res (scoped_requirement db1 ctx i) (\<lambda>updated. bind_res (requirement_summary ctx updated) (\<lambda>data.
     Inr (db1, \<lparr>mu_id = i, mu_data = data,
       mu_event = [(''reason'', JStr (ri_reason b)), (''previousRevisionId'', text_json (rr_revision_id r)), (''revisionId'', JStr (rv_id v)),
         (''snapshotHash'', text_json (rv_hash v)), (''previousVersion'', JNum (of_int (rr_version r))), (''sourceVerification'', JStr ''unverified''), (''isApproved'', JBool False)],
       mu_version = Some (rr_version r + 1)\<rparr>))))))))))"

definition create_requirement :: "hasher \<Rightarrow> 'd requirement_db_scheme \<Rightarrow> api_request \<Rightarrow> string \<Rightarrow> json \<Rightarrow> ('d requirement_db_scheme \<times> json) res" where
  "create_requirement H db rq reference body = bind_res (validate_requirement body False) (\<lambda>b.
     run_command H db rq reference intake_access \<lparr>cm_operation = ''requirement.intake.create'', cm_action = ''requirement.draft_recorded'',
       cm_type = ''requirement'', cm_input = requirement_input_json b\<rparr> no_authorize (create_requirement_change H rq b))"

definition revise_requirement :: "hasher \<Rightarrow> 'd requirement_db_scheme \<Rightarrow> api_request \<Rightarrow> string \<Rightarrow> string \<Rightarrow> json \<Rightarrow> ('d requirement_db_scheme \<times> json) res" where
  "revise_requirement H db rq reference i body =
     bind_res (throw_if (\<not> uuid_text i) (Thrown ''REQUIREMENT_INPUT_INVALID'' [])) (\<lambda>_.
     bind_res (validate_requirement body True) (\<lambda>b.
     run_command H db rq reference intake_access \<lparr>cm_operation = ''requirement.intake.'' @ i @ ''.revise'', cm_action = ''requirement.draft_revised'',
       cm_type = ''requirement'', cm_input = requirement_input_json b\<rparr>
       (\<lambda>db ctx. bind_res (scoped_requirement db ctx i) (\<lambda>_. Inr ())) (revise_requirement_change H rq i b)))"

datatype requirement_command =
    CreateRequirement api_request string json
  | ReviseRequirement api_request string string json

fun requirement_request :: "requirement_command \<Rightarrow> api_request" where
  "requirement_request (CreateRequirement rq _ _) = rq"
| "requirement_request (ReviseRequirement rq _ _ _) = rq"

fun perform_requirement :: "hasher \<Rightarrow> 'd requirement_db_scheme \<Rightarrow> requirement_command \<Rightarrow> ('d requirement_db_scheme \<times> json) res" where
  "perform_requirement H db (CreateRequirement rq ref b) = create_requirement H db rq ref b"
| "perform_requirement H db (ReviseRequirement rq ref i b) = revise_requirement H db rq ref i b"

definition requirement_step :: "hasher \<Rightarrow> 'd requirement_db_scheme \<Rightarrow> requirement_command \<Rightarrow> 'd requirement_db_scheme res" where
  "requirement_step H db c = bind_res (perform_requirement H db c) (\<lambda>(db', _). Inr db')"

section \<open>What an accepted command changes\<close>

lemma append_revision_Inr [simp]:
  "append_revision i v vs = Inr ws \<longleftrightarrow> i = rv_requirement v \<and> 0 < rv_number v \<and>
     \<not> list_ex (\<lambda>w. rv_provenance w = ''manually_recorded'' \<and> revision_slot w = revision_slot v) vs \<and> rv_id v \<notin> rv_id ` set vs \<and> ws = vs @ [v]"
  unfolding append_revision_def by (simp add: not_le)

lemma new_revision_simps [simp]:
  "rv_id (new_revision H rid ctx i n d why p) = rid" "rv_requirement (new_revision H rid ctx i n d why p) = to_lower i"
  "rv_org (new_revision H rid ctx i n d why p) = ac_org ctx" "rv_project (new_revision H rid ctx i n d why p) = pj_id (ac_project ctx)"
  "rv_number (new_revision H rid ctx i n d why p) = n" "rv_provenance (new_revision H rid ctx i n d why p) = ''manually_recorded''"
  "rv_new (new_revision H rid ctx i n d why p) = JObj (draft_fields d)"
  "rv_snapshot (new_revision H rid ctx i n d why p) = Some (requirement_snapshot i (pj_id (ac_project ctx)) n d)"
  "rv_hash (new_revision H rid ctx i n d why p) = Some (snapshot_hash H (requirement_snapshot i (pj_id (ac_project ctx)) n d))"
  by (simp_all add: new_revision_def Let_def)

lemma create_requirement_changeE:
  assumes "create_requirement_change H rq b db ctx = Inr (db1, m)"
  obtains v where "v = new_revision H (rq_ids rq 3) ctx (rq_ids rq 2) 1 (ri_draft b) (ri_reason b) None" "to_lower (rq_ids rq 2) = rq_ids rq 2"
    "rq_ids rq 2 \<notin> rr_id ` set (qd_requirements db)" "rq_ids rq 3 \<notin> rv_id ` set (qd_revisions db)"
    "db1 = db\<lparr>qd_requirements := qd_requirements db @ [new_requirement rq ctx (ri_draft b)], qd_revisions := qd_revisions db @ [v]\<rparr>"
proof -
  have "rr_id (new_requirement rq ctx (ri_draft b)) = rq_ids rq 2" by (simp add: new_requirement_def requirement_draft.defs)
  with assms that [OF refl] show ?thesis by (auto simp: create_requirement_change_def Let_def)
qed

lemma revise_requirement_changeE:
  assumes "revise_requirement_change H rq i b db ctx = Inr (db1, m)"
  obtains r previous v where "r \<in> set (qd_requirements db)" "rr_id r = i" "in_project ctx (rr_org r) (rr_project r)" "to_lower i = i"
    "revisable (r, List.find (revision_of r) (qd_revisions db))" "row_draft r = Inr previous"
    "v = new_revision H (rq_ids rq 2) ctx i (rr_revision r + 1) (ri_draft b) (ri_reason b) (Some previous)"
    "rq_ids rq 2 \<notin> rv_id ` set (qd_revisions db)" "ri_expected b = Some (rr_version r)"
    "db1 = db\<lparr>qd_revisions := qd_revisions db @ [v], qd_requirements := map (\<lambda>u. if rr_id u = i \<and> in_project ctx (rr_org u) (rr_project u)
       then revised_row rq (ri_draft b) (rr_revision r + 1) (rr_version r + 1) u else u) (qd_requirements db)\<rparr>"
proof -
  from assms obtain r where r: "List.find (\<lambda>r. rr_id r = to_lower i \<and> in_project ctx (rr_org r) (rr_project r)) (qd_requirements db) = Some r"
    by (auto simp: revise_requirement_change_def scoped_requirement_def split: option.splits)
  note found = find_Some_iff_in [OF this]
  have row: "scoped_requirement db ctx i = Inr (r, List.find (revision_of r) (qd_revisions db))"
    by (simp add: scoped_requirement_def r)
  show ?thesis
    using assms found unfolding revise_requirement_change_def row bind_res_simps Let_def fst_conv
    by (auto intro!: that)
qed

interpretation recording: project_mutation "create_requirement_change H rq b" for H rq b
  by unfold_locales (erule create_requirement_changeE; simp add: core_db.truncate_def)

interpretation revising: project_mutation "revise_requirement_change H rq i b" for H rq i b
  by unfold_locales (erule revise_requirement_changeE; simp add: core_db.truncate_def)

lemma committed_requirements [simp]:
  "qd_requirements (committed H s s1 rq key ctx m cmd) = qd_requirements s1" "qd_revisions (committed H s s1 rq key ctx m cmd) = qd_revisions s1"
  "requirement_db.more (committed H s s1 rq key ctx m cmd) = requirement_db.more s1"
  by (simp_all add: committed_def)

text \<open>An accepted command leaves the register as it is, or makes one change of it.\<close>

fun requirement_change :: "hasher \<Rightarrow> requirement_command \<Rightarrow> 'd requirement_db_scheme \<Rightarrow> access_context \<Rightarrow> ('d requirement_db_scheme \<times> mutation) res" where
  "requirement_change H (CreateRequirement rq _ body) db ctx = bind_res (validate_requirement body False) (\<lambda>b. create_requirement_change H rq b db ctx)"
| "requirement_change H (ReviseRequirement rq _ i body) db ctx = bind_res (validate_requirement body True) (\<lambda>b. revise_requirement_change H rq i b db ctx)"

lemma requirement_stepE:
  assumes "requirement_step H db c = Inr db'"
  obtains (replayed) "db' = db"
  | (executed) ctx db1 m where "requirement_change H c db ctx = Inr (db1, m)"
      "qd_requirements db' = qd_requirements db1" "qd_revisions db' = qd_revisions db1" "requirement_db.more db' = requirement_db.more db1"
proof (cases c)
  case (CreateRequirement rq ref body)
  with assms obtain b cmd response where b: "validate_requirement body False = Inr b"
    and run: "run_command H db rq ref intake_access cmd no_authorize (create_requirement_change H rq b) = Inr (db', response)"
    by (auto simp: requirement_step_def create_requirement_def)
  from run show ?thesis
    by (cases rule: recording.accepted_command) (use CreateRequirement b in \<open>auto intro: that\<close>)
next
  case (ReviseRequirement rq ref i body)
  with assms obtain b cmd response where b: "validate_requirement body True = Inr b"
    and run: "run_command H db rq ref intake_access cmd (\<lambda>db ctx. bind_res (scoped_requirement db ctx i) (\<lambda>_. Inr ()))
      (revise_requirement_change H rq i b) = Inr (db', response)"
    by (auto simp: requirement_step_def revise_requirement_def)
  from run show ?thesis
    by (cases rule: revising.accepted_command) (use ReviseRequirement b in \<open>auto intro: that\<close>)
qed

section \<open>The history of a requirement\<close>

definition controlled :: "requirement_row \<Rightarrow> bool" where
  "controlled r \<longleftrightarrow> rr_provenance r = ''manually_recorded''"

definition history_of :: "requirement_row \<Rightarrow> revision_row list \<Rightarrow> revision_row list" where
  "history_of r vs = filter (\<lambda>v. rv_requirement v = rr_id r) vs"

text \<open>Each revision starts from the values that the one before it left.\<close>

fun follows :: "json \<Rightarrow> revision_row list \<Rightarrow> json \<Rightarrow> bool" where
  "follows d [] e \<longleftrightarrow> d = e"
| "follows d (v # vs) e \<longleftrightarrow> rv_previous v = d \<and> follows (rv_new v) vs e"

definition draft_of :: "requirement_row \<Rightarrow> requirement_draft" where
  "draft_of r = requirement_draft.truncate r"

definition told_by :: "hasher \<Rightarrow> requirement_row \<Rightarrow> revision_row list \<Rightarrow> bool" where
  "told_by H r vs \<longleftrightarrow> vs \<noteq> [] \<and> map rv_number vs = [1..rr_revision r] \<and> rr_version r = rr_revision r \<and>
     follows (JObj []) vs (JObj (draft_fields (draft_of r))) \<and> revision_of r (last vs) \<and> rv_provenance (last vs) = ''manually_recorded'' \<and>
     rv_snapshot (last vs) = Some (requirement_snapshot (rr_id r) (rr_project r) (rr_revision r) (draft_of r)) \<and>
     rv_hash (last vs) = Some (snapshot_hash H (requirement_snapshot (rr_id r) (rr_project r) (rr_revision r) (draft_of r))) \<and>
     row_draft r = Inr (draft_of r)"

definition register_ok :: "hasher \<Rightarrow> 'd requirement_db_scheme \<Rightarrow> bool" where
  "register_ok H db \<longleftrightarrow> distinct (map rr_id (qd_requirements db)) \<and> distinct (map rv_id (qd_revisions db)) \<and>
     rv_requirement ` set (qd_revisions db) \<subseteq> rr_id ` set (qd_requirements db) \<and>
     (\<forall>r \<in> set (qd_requirements db). controlled r \<longrightarrow> told_by H r (history_of r (qd_revisions db)))"

lemma follows_snoc: "follows d vs e \<Longrightarrow> rv_previous v = e \<Longrightarrow> follows d (vs @ [v]) (rv_new v)"
  by (induction vs arbitrary: d) auto

lemma history_of_snoc: "history_of r (vs @ [v]) = history_of r vs @ (if rv_requirement v = rr_id r then [v] else [])"
  by (simp add: history_of_def)

lemma new_requirement_simps [simp]:
  "rr_id (new_requirement rq ctx d) = rq_ids rq 2" "controlled (new_requirement rq ctx d)" "draft_of (new_requirement rq ctx d) = d"
  "rr_revision (new_requirement rq ctx d) = 1" "rr_version (new_requirement rq ctx d) = 1" "rr_revision_id (new_requirement rq ctx d) = Some (rq_ids rq 3)"
  "rr_org (new_requirement rq ctx d) = ac_org ctx" "rr_project (new_requirement rq ctx d) = pj_id (ac_project ctx)"
  "rf_quantity (new_requirement rq ctx d) = rf_quantity d"
  by (simp_all add: new_requirement_def controlled_def draft_of_def requirement_draft.defs)

lemma revised_row_simps [simp]:
  "rr_id (revised_row rq d n k r) = rr_id r" "controlled (revised_row rq d n k r) = controlled r" "draft_of (revised_row rq d n k r) = d"
  "rr_revision (revised_row rq d n k r) = n" "rr_version (revised_row rq d n k r) = k" "rr_revision_id (revised_row rq d n k r) = Some (rq_ids rq 2)"
  "rr_org (revised_row rq d n k r) = rr_org r" "rr_project (revised_row rq d n k r) = rr_project r"
  "rf_quantity (revised_row rq d n k r) = rf_quantity d"
  by (cases r, simp add: revised_row_def controlled_def draft_of_def requirement_draft.defs)+

text \<open>What the validation accepts is stored and read back unchanged.\<close>

definition clean :: "requirement_draft \<Rightarrow> bool" where
  "clean d \<longleftrightarrow> (case rf_quantity d of None \<Rightarrow> True | Some q \<Rightarrow> requirement_quantity (JStr q) = Inr (Some q))"

lemma read_draft_quantity: "read_draft t f = Inr d \<Longrightarrow> requirement_quantity (f ''quantity'') = Inr (rf_quantity d)"
  by (auto simp: read_draft_def)

lemma validated_clean: "validate_requirement body revision = Inr b \<Longrightarrow> clean (ri_draft b)"
proof -
  assume "validate_requirement body revision = Inr b"
  then obtain source f where "read_draft source f = Inr (ri_draft b)"
    by (auto simp: validate_requirement_def Let_def split: json.splits)
  from read_draft_quantity [OF this] show "clean (ri_draft b)"
    by (auto simp: clean_def requirement_quantity_again split: option.splits)
qed

lemma clean_row: "clean (draft_of r) \<Longrightarrow> row_draft r = Inr (draft_of r)"
  by (auto simp: clean_def row_draft_def draft_of_def requirement_draft.defs split: option.splits)

lemma created_ok:
  assumes ok: "register_ok H db" and b: "clean (ri_draft b)" and run: "create_requirement_change H rq b db ctx = Inr (db1, m)"
  shows "register_ok H db1"
  using run
proof (rule create_requirement_changeE)
  fix v
  assume v: "v = new_revision H (rq_ids rq 3) ctx (rq_ids rq 2) 1 (ri_draft b) (ri_reason b) None" "to_lower (rq_ids rq 2) = rq_ids rq 2"
    and fresh: "rq_ids rq 2 \<notin> rr_id ` set (qd_requirements db)" "rq_ids rq 3 \<notin> rv_id ` set (qd_revisions db)"
    and db1: "db1 = db\<lparr>qd_requirements := qd_requirements db @ [new_requirement rq ctx (ri_draft b)], qd_revisions := qd_revisions db @ [v]\<rparr>"
  let ?r = "new_requirement rq ctx (ri_draft b)"
  have simps: "rv_id v = rq_ids rq 3" "rv_requirement v = rq_ids rq 2" using v by simp_all
  have "history_of ?r (qd_revisions db) = []"
    using ok fresh(1) by (auto simp: history_of_def filter_empty_conv register_ok_def) (metis imageI subsetD)
  then have new: "history_of ?r (qd_revisions db @ [v]) = [v]" by (simp add: history_of_snoc simps)
  have "told_by H ?r [v]"
    using v(2) clean_row [of ?r] b by (simp add: told_by_def revision_of_def v(1)) (simp add: new_revision_def Let_def)
  moreover have "told_by H r (history_of r (qd_revisions db @ [v]))" if "r \<in> set (qd_requirements db)" "controlled r" for r
  proof -
    have "rr_id r \<noteq> rq_ids rq 2" using that(1) fresh(1) by (metis imageI)
    then have "history_of r (qd_revisions db @ [v]) = history_of r (qd_revisions db)" by (simp add: history_of_snoc simps)
    with ok that show ?thesis by (simp add: register_ok_def)
  qed
  ultimately show ?thesis
    using ok fresh by (auto simp: register_ok_def db1 new simps)
qed

lemma revised_ok:
  assumes ok: "register_ok H db" and b: "clean (ri_draft b)" and run: "revise_requirement_change H rq i b db ctx = Inr (db1, m)"
  shows "register_ok H db1"
  using run
proof (rule revise_requirement_changeE)
  fix r previous v
  assume r: "r \<in> set (qd_requirements db)" "rr_id r = i" "in_project ctx (rr_org r) (rr_project r)" "to_lower i = i"
      "revisable (r, List.find (revision_of r) (qd_revisions db))" "row_draft r = Inr previous"
    and v: "v = new_revision H (rq_ids rq 2) ctx i (rr_revision r + 1) (ri_draft b) (ri_reason b) (Some previous)"
    and fresh: "rq_ids rq 2 \<notin> rv_id ` set (qd_revisions db)"
    and db1: "db1 = db\<lparr>qd_revisions := qd_revisions db @ [v], qd_requirements := map (\<lambda>u. if rr_id u = i \<and> in_project ctx (rr_org u) (rr_project u)
       then revised_row rq (ri_draft b) (rr_revision r + 1) (rr_version r + 1) u else u) (qd_requirements db)\<rparr>"
  have dist: "distinct (map rr_id (qd_requirements db))" and fk: "rv_requirement ` set (qd_revisions db) \<subseteq> rr_id ` set (qd_requirements db)"
    and told: "\<And>r. r \<in> set (qd_requirements db) \<Longrightarrow> controlled r \<Longrightarrow> told_by H r (history_of r (qd_revisions db))"
    using ok by (auto simp: register_ok_def)
  let ?f = "\<lambda>u. if rr_id u = i \<and> in_project ctx (rr_org u) (rr_project u) then revised_row rq (ri_draft b) (rr_revision r + 1) (rr_version r + 1) u else u"
  have ids: "rr_id (?f u) = rr_id u" for u by simp
  have simps: "rv_id v = rq_ids rq 2" "rv_requirement v = i" using v r(4) by simp_all
  have "controlled r" using r(5) by (simp add: revisable_def controlled_def)
  from told [OF r(1) this] have t: "told_by H r (history_of r (qd_revisions db))" .
  then have "previous = draft_of r" using r(6) by (simp add: told_by_def)
  have org: "ac_org ctx = rr_org r" "pj_id (ac_project ctx) = rr_project r" using r(3) by (simp_all add: in_project_def)
  have "told_by H (?f r) (history_of r (qd_revisions db) @ [v])"
  proof -
    have "follows (JObj []) (history_of r (qd_revisions db) @ [v]) (rv_new v)"
      using t by (intro follows_snoc) (auto simp: told_by_def v new_revision_def Let_def \<open>previous = draft_of r\<close>)
    moreover have "1 \<le> rr_revision r + 1"
    proof (rule ccontr)
      assume "\<not> ?thesis"
      then have "[1..rr_revision r] = []" by simp
      with t show False by (auto simp: told_by_def)
    qed
    ultimately show ?thesis
      using t r(2-4) org clean_row [of "?f r"] b upto_rec2 [of 1 "rr_revision r + 1"]
      by (simp add: told_by_def revision_of_def v)
  qed
  then have mine: "told_by H (?f r) (history_of (?f r) (qd_revisions db @ [v]))"
    using r(3) by (simp add: history_of_def simps r(2))
  have "told_by H (?f u) (history_of (?f u) (qd_revisions db @ [v]))" if u: "u \<in> set (qd_requirements db)" "controlled u" for u
  proof (cases "u = r")
    case True
    show ?thesis unfolding True by (rule mine)
  next
    case False
    then have "rr_id u \<noteq> i" using dist u(1) r(1,2) by (auto simp: distinct_map dest: inj_onD)
    with told [OF u] show ?thesis by (simp add: history_of_snoc simps)
  qed
  moreover have kept: "controlled (?f u) = controlled u" for u by simp
  moreover have "map rr_id (map ?f (qd_requirements db)) = map rr_id (qd_requirements db)" by simp
  moreover have refs: "rv_requirement ` set (qd_revisions db @ [v]) \<subseteq> rr_id ` set (map ?f (qd_requirements db))"
  proof -
    have "rr_id ` set (map ?f (qd_requirements db)) = rr_id ` set (qd_requirements db)" by (simp only: set_map image_image ids)
    moreover have "rv_requirement v \<in> rr_id ` set (qd_requirements db)" using r(1,2) simps(2) by blast
    ultimately show ?thesis using fk by simp
  qed
  moreover have "distinct (map rv_id (qd_revisions db @ [v]))" using ok fresh by (simp add: register_ok_def simps)
  ultimately have "distinct (map rr_id (map ?f (qd_requirements db)))" "distinct (map rv_id (qd_revisions db @ [v]))"
      "\<forall>u \<in> set (map ?f (qd_requirements db)). controlled u \<longrightarrow> told_by H u (history_of u (qd_revisions db @ [v]))"
    using dist by (simp_all only: set_map ball_simps kept) blast
  with refs show ?thesis unfolding register_ok_def db1 by simp
qed

lemma requirement_step_ok:
  assumes "register_ok H db" and "requirement_step H db c = Inr db'"
  shows "register_ok H db'"
  using assms(2)
proof (cases rule: requirement_stepE)
  case (executed ctx db1 m)
  have "register_ok H db1"
    using executed(1) by (cases c) (auto intro: created_ok revised_ok assms(1) validated_clean)
  with executed(2,3) show ?thesis by (simp add: register_ok_def)
qed (simp add: assms(1))

interpretation register_run: guarded_run "requirement_step H" "register_ok H" "\<lambda>_. True" for H
  by unfold_locales (rule requirement_step_ok)

text \<open>A register in which nothing has been recorded yet; there may be records of an earlier system.\<close>

definition nothing_recorded :: "'d requirement_db_scheme \<Rightarrow> bool" where
  "nothing_recorded db \<longleftrightarrow> distinct (map rr_id (qd_requirements db)) \<and> distinct (map rv_id (qd_revisions db)) \<and>
     rv_requirement ` set (qd_revisions db) \<subseteq> rr_id ` set (qd_requirements db) \<and> (\<forall>r \<in> set (qd_requirements db). \<not> controlled r)"

lemma reached_ok: "nothing_recorded db \<Longrightarrow> register_ok H (attempts (requirement_step H) db cs)"
  by (rule register_run.attempts_inv) (auto simp: nothing_recorded_def register_ok_def)

text \<open>
  C5: the history of a recorded requirement is complete. Whatever commands are attempted, its
  revisions are numbered without a gap from the first to the current one, which is also the
  version of the row; each starts from the values the one before it left, the first from
  nothing, and the last leaves those of the row; and the row names that last revision, whose
  hash is that of a snapshot of the row.
\<close>

theorem requirement_history_complete:
  assumes "nothing_recorded db" and "r \<in> set (qd_requirements (attempts (requirement_step H) db cs))" and "controlled r"
    and "vs = history_of r (qd_revisions (attempts (requirement_step H) db cs))"
  shows "map rv_number vs = [1..rr_revision r] \<and> rr_version r = rr_revision r \<and> follows (JObj []) vs (JObj (draft_fields (draft_of r))) \<and>
    rr_revision_id r = Some (rv_id (last vs)) \<and>
    rv_hash (last vs) = Some (snapshot_hash H (requirement_snapshot (rr_id r) (rr_project r) (rr_revision r) (draft_of r)))"
  using reached_ok [OF assms(1), of H cs] assms(2-) by (auto simp: register_ok_def told_by_def revision_of_def)

lemma find_unique:
  assumes "v \<in> set vs" and "P v" and "\<And>w. w \<in> set vs \<Longrightarrow> P w \<Longrightarrow> w = v"
  shows "List.find P vs = Some v"
proof (cases "List.find P vs")
  case None
  with assms(1,2) show ?thesis by (auto simp: find_None_iff)
next
  case (Some w)
  with find_Some_iff_in [OF Some] assms(3) show ?thesis by simp
qed

lemma recorded_agrees:
  assumes "register_ok H db" and "r \<in> set (qd_requirements db)" and "controlled r"
  shows "agrees H (requirement_snapshot (rr_id r) (rr_project r) (rr_revision r) (draft_of r)) (recorded_revision r (qd_revisions db)) \<and>
    row_draft r = Inr (draft_of r)"
proof -
  let ?v = "last (history_of r (qd_revisions db))"
  from assms have t: "told_by H r (history_of r (qd_revisions db))" by (simp add: register_ok_def)
  then have "?v \<in> set (history_of r (qd_revisions db))" by (simp add: told_by_def)
  then have "?v \<in> set (qd_revisions db)" by (auto simp: history_of_def)
  moreover have "w = ?v" if "w \<in> set (qd_revisions db)" "revision_of r w" for w
  proof -
    have "inj_on rv_id (set (qd_revisions db))" using assms(1) by (simp add: register_ok_def distinct_map)
    moreover have "rv_id w = rv_id ?v"
    proof -
      have "revision_of r ?v" using t unfolding told_by_def by blast
      then have "Some (rv_id ?v) = rr_revision_id r" unfolding revision_of_def by blast
      moreover have "Some (rv_id w) = rr_revision_id r" using that(2) unfolding revision_of_def by blast
      ultimately show ?thesis by (metis option.inject)
    qed
    ultimately show ?thesis using that(1) \<open>?v \<in> set (qd_revisions db)\<close> by (rule inj_onD)
  qed
  moreover have kind: "revision_of r ?v" "rv_provenance ?v = ''manually_recorded''" using t unfolding told_by_def by blast+
  ultimately have "recorded_revision r (qd_revisions db) = Some ?v"
    unfolding recorded_revision_def by (intro find_unique) blast+
  moreover have "rv_snapshot ?v = Some (requirement_snapshot (rr_id r) (rr_project r) (rr_revision r) (draft_of r))"
    and "rv_hash ?v = Some (snapshot_hash H (requirement_snapshot (rr_id r) (rr_project r) (rr_revision r) (draft_of r)))"
    and "row_draft r = Inr (draft_of r)"
    using t unfolding told_by_def by blast+
  ultimately show ?thesis by (simp only: agrees_def option.case simp_thms)
qed

text \<open>What the commands can throw, an integrity conflict being no part of it.\<close>

definition requirement_codes :: "string list" where
  "requirement_codes = access_codes @ [''REQUIREMENT_INPUT_INVALID'', ''REQUIREMENT_SOURCE_INVALID'', ''REQUIREMENT_VERSION_REQUIRED'', ''REQUIREMENT_QUANTITY_INVALID'',
    ''REQUIREMENT_NOT_FOUND'', ''REQUIREMENT_REVISION_UNAVAILABLE'', ''REQUIREMENT_VERSION_CONFLICT'', ''REQUIREMENT_OWNER_UNAVAILABLE'']"

lemma coded_json [codes]:
  "coded cs a \<Longrightarrow> coded cs b \<Longrightarrow> (\<And>x. coded cs (c x)) \<Longrightarrow> (\<And>x. coded cs (d x)) \<Longrightarrow> (\<And>x. v = JStr x \<Longrightarrow> coded cs (e x)) \<Longrightarrow>
     (\<And>x. coded cs (f x)) \<Longrightarrow> (\<And>x. coded cs (g x)) \<Longrightarrow>
     coded cs (case v of JNull \<Rightarrow> a | JUndef \<Rightarrow> b | JBool x \<Rightarrow> c x | JNum x \<Rightarrow> d x | JStr x \<Rightarrow> e x | JArr x \<Rightarrow> f x | JObj x \<Rightarrow> g x)"
  by (cases v) simp_all

lemma coded_texts [codes]: "coded requirement_codes (required_text v n p)" "coded requirement_codes (nullable_text v n)"
    "coded requirement_codes (owner_text v)" "coded requirement_codes (requirement_quantity v)"
  unfolding required_text_def nullable_text_def owner_text_def requirement_quantity_def
  by (intro codes; simp add: requirement_codes_def)+

lemma coded_read_draft [codes]: "coded requirement_codes (read_draft t f)"
  unfolding read_draft_def by (intro codes)

lemma coded_validate [codes]: "coded requirement_codes (validate_requirement body revision)"
  unfolding validate_requirement_def Let_def by (intro codes) (simp_all add: requirement_codes_def)

lemma coded_member_or [codes]: "code \<in> set cs \<Longrightarrow> coded cs (member_or code db ctx owner)"
  unfolding member_or_def by (intro codes)

lemma coded_scoped [codes]: "coded requirement_codes (scoped_requirement db ctx i)"
  unfolding scoped_requirement_def by (intro codes) (simp_all add: requirement_codes_def)

lemma coded_requirement_summary [codes]: "coded cs (requirement_summary ctx rv)"
  unfolding requirement_summary_def can_intake_def holds_any_def Let_def by (intro codes)

lemma coded_append_revision [codes]: "coded requirement_codes (append_revision i v vs)"
  unfolding append_revision_def by (intro codes) (simp_all add: requirement_codes_def access_codes_def)

lemma coded_revise:
  assumes ok: "register_ok H db" and i: "to_lower i = i"
  shows "coded requirement_codes (revise_requirement_change H rq i b db ctx)"
proof (cases "scoped_requirement db ctx i")
  case (Inl e)
  moreover have "coded requirement_codes (scoped_requirement db ctx i)" by (intro codes)
  ultimately show ?thesis by (simp add: revise_requirement_change_def coded_def)
next
  case (Inr rv)
  then obtain r where r: "r \<in> set (qd_requirements db)" "rr_id r = i" "in_project ctx (rr_org r) (rr_project r)"
      and rv: "rv = (r, List.find (revision_of r) (qd_revisions db))"
    by (auto simp: scoped_requirement_def i split: option.splits dest!: find_Some_iff_in)
  show ?thesis
  proof (cases "revisable rv")
    case False
    then show ?thesis by (simp add: revise_requirement_change_def Inr Let_def coded_def requirement_codes_def)
  next
    case True
    then have "controlled r" by (simp add: rv revisable_def controlled_def)
    from recorded_agrees [OF ok r(1) this] r(2,3) have fine:
        "agrees H (requirement_snapshot i (pj_id (ac_project ctx)) (rr_revision r) (draft_of r)) (recorded_revision r (qd_revisions db))"
        "row_draft r = Inr (draft_of r)"
      by (simp_all add: in_project_def)
    show ?thesis
      unfolding revise_requirement_change_def Inr bind_res_simps Let_def rv fst_conv fine(2)
      by (intro codes) (simp_all add: fine requirement_codes_def)
  qed
qed

lemma coded_requirement_step:
  assumes ok: "register_ok H db" and i: "to_lower i = i"
  shows "coded requirement_codes (revise_requirement H db rq ref i body)"
  unfolding revise_requirement_def
  by (intro codes coded_revise [OF ok i]) (simp_all add: requirement_codes_def access_codes_def)

text \<open>
  C31: the intake never finds its own history in conflict. In every reachable state a revision
  with a lower-case identifier is never refused because the row differs from its recorded
  revision.
\<close>

theorem requirement_history_never_conflicts:
  assumes "nothing_recorded db" and "to_lower i = i"
  shows "revise_requirement H (attempts (requirement_step H) db cs) rq ref i body \<noteq> Inl (Thrown ''REQUIREMENT_HISTORY_CONFLICT'' [])"
  using coded_requirement_step [OF reached_ok [OF assms(1), of H cs] assms(2), of rq ref body]
  by (auto simp: coded_def requirement_codes_def access_codes_def)

section \<open>What the commands leave alone\<close>

text \<open>A row of an earlier system, or one that has been approved, archived, scheduled or otherwise moved on.\<close>

definition open_draft :: "requirement_row \<Rightarrow> bool" where
  "open_draft r \<longleftrightarrow> controlled r \<and> rr_status r = ''draft'' \<and> \<not> rr_approved r \<and> \<not> rr_archived r \<and> rr_start r = None \<and> rr_due r = None"

lemma revisable_open: "revisable (r, v) \<Longrightarrow> open_draft r"
  by (simp add: revisable_def open_draft_def controlled_def)

definition keeps :: "requirement_row \<Rightarrow> revision_row list \<Rightarrow> 'd requirement_db_scheme \<Rightarrow> bool" where
  "keeps u vs db \<longleftrightarrow> distinct (map rr_id (qd_requirements db)) \<and> u \<in> set (qd_requirements db) \<and> (\<exists>ws. qd_revisions db = vs @ ws)"

lemma change_keeps:
  assumes keep: "keeps u vs db" and u: "\<not> open_draft u" and run: "requirement_change H c db ctx = Inr (db1, m)"
  shows "keeps u vs db1"
proof (cases c)
  case (CreateRequirement rq ref body)
  with run obtain b where "create_requirement_change H rq b db ctx = Inr (db1, m)" by auto
  then show ?thesis
  proof (rule create_requirement_changeE)
    fix v
    assume "rq_ids rq 2 \<notin> rr_id ` set (qd_requirements db)"
      and "db1 = db\<lparr>qd_requirements := qd_requirements db @ [new_requirement rq ctx (ri_draft b)], qd_revisions := qd_revisions db @ [v]\<rparr>"
    with keep show ?thesis by (auto simp: keeps_def)
  qed
next
  case (ReviseRequirement rq ref i body)
  with run obtain b where "revise_requirement_change H rq i b db ctx = Inr (db1, m)" by auto
  then show ?thesis
  proof (rule revise_requirement_changeE)
    fix r :: requirement_row and previous v
    let ?f = "\<lambda>u. if rr_id u = i \<and> in_project ctx (rr_org u) (rr_project u) then revised_row rq (ri_draft b) (rr_revision r + 1) (rr_version r + 1) u else u"
    assume r: "r \<in> set (qd_requirements db)" "rr_id r = i" "revisable (r, List.find (revision_of r) (qd_revisions db))"
      and db1: "db1 = db\<lparr>qd_revisions := qd_revisions db @ [v], qd_requirements := map ?f (qd_requirements db)\<rparr>"
    have "u \<noteq> r" using u revisable_open [OF r(3)] by blast
    then have "rr_id u \<noteq> i" using keep r(1,2) by (auto simp: keeps_def distinct_map dest: inj_onD)
    then have same: "u = ?f u" by simp
    have "u \<in> set (qd_requirements db)" using keep by (simp add: keeps_def)
    with same have "u \<in> ?f ` set (qd_requirements db)" by (rule image_eqI)
    moreover have "map rr_id (map ?f (qd_requirements db)) = map rr_id (qd_requirements db)" by simp
    ultimately show ?thesis using keep by (auto simp: keeps_def db1 simp del: map_map)
  qed
qed

lemma step_keeps: "keeps u vs db \<Longrightarrow> \<not> open_draft u \<Longrightarrow> requirement_step H db c = Inr db' \<Longrightarrow> keeps u vs db'"
proof -
  assume keep: "keeps u vs db" and u: "\<not> open_draft u" and "requirement_step H db c = Inr db'"
  from this(3) show "keeps u vs db'"
  proof (cases rule: requirement_stepE)
    case (executed ctx db1 m)
    with change_keeps [OF keep u executed(1)] show ?thesis by (simp add: keeps_def)
  qed (simp add: keep)
qed

interpretation keeping: guarded_run "requirement_step H" "\<lambda>db. keeps u vs db \<and> \<not> open_draft u" "\<lambda>_. True" for H u vs
  by unfold_locales (auto intro: step_keeps)

text \<open>
  Intake works on open drafts only. Whatever commands are attempted, a requirement that is
  not an open draft of the intake (it comes from an earlier system, or is approved, archived,
  scheduled or in another state) keeps its row, and the recorded revisions are only added to.
\<close>

theorem only_open_drafts_revised:
  assumes "distinct (map rr_id (qd_requirements db))" and "u \<in> set (qd_requirements db)" and "\<not> open_draft u"
  shows "u \<in> set (qd_requirements (attempts (requirement_step H) db cs)) \<and>
    (\<exists>ws. qd_revisions (attempts (requirement_step H) db cs) = qd_revisions db @ ws)"
  using keeping.attempts_inv [of u "qd_revisions db" db cs H] assms by (simp add: keeps_def)

fun upper_case_id :: "requirement_command \<Rightarrow> bool" where
  "upper_case_id (CreateRequirement _ _ _) = False"
| "upper_case_id (ReviseRequirement _ _ i _) = (to_lower i \<noteq> i)"

lemma upper_case_step: "upper_case_id c \<Longrightarrow> requirement_step H db c = Inr db' \<Longrightarrow> db' = db"
proof -
  assume c: "upper_case_id c" and "requirement_step H db c = Inr db'"
  from this(2) show "db' = db"
  proof (cases rule: requirement_stepE)
    case (executed ctx db1 m)
    obtain rq ref i body where "c = ReviseRequirement rq ref i body" "to_lower i \<noteq> i" using c by (cases c) auto
    with executed(1) show ?thesis by (auto elim!: revise_requirement_changeE)
  qed
qed

text \<open>
  A revision whose identifier is written with an upper-case letter is never made. The
  identifier is checked as a UUID whatever its case, but the value in lower case is not used:
  leaving such commands out of any sequence gives the same state.
\<close>

theorem upper_case_never_revises:
  "attempts (requirement_step H) db (filter (\<lambda>c. \<not> upper_case_id c) cs) = attempts (requirement_step H) db cs"
proof (induction cs arbitrary: db)
  case (Cons c cs)
  then show ?case by (auto split: sum.splits dest: upper_case_step)
qed simp


section \<open>Examples\<close>

definition empty_register :: requirement_db where
  "empty_register = \<lparr>db_orgs = db_orgs empty_work, db_users = db_users empty_work, db_sessions = db_sessions empty_work,
     db_memberships = db_memberships empty_work, db_projects = db_projects empty_work, db_grants = db_grants empty_work,
     db_receipts = [], db_audit = [], db_outbox = [], wd_stages = [], wd_packages = [rigging], wd_tasks = [hang_truss],
     sd_edges = [], sd_changes = [], sd_forecasts = [], qd_requirements = [], qd_revisions = []\<rparr>"

definition stage_body :: json where
  "stage_body = JObj [(''title'', JStr ''Stage''), (''originalWording'', JStr ''A stage''), (''sourceType'', JStr ''manual''),
     (''quantity'', JStr ''10.50''), (''reason'', JStr ''brief'')]"

definition stage_draft :: requirement_draft where
  "stage_draft = \<lparr>rf_title = ''Stage'', rf_original = Some ''A stage'', rf_interpretation = None, rf_source_type = Some ''manual'',
     rf_reference = None, rf_category = None, rf_quantity = Some ''10.5'', rf_unit = None, rf_zone = None, rf_acceptance = None, rf_owner = None\<rparr>"

lemma stage_body_read: "validate_requirement stage_body False = Inr \<lparr>ri_draft = stage_draft, ri_reason = ''brief'', ri_expected = None\<rparr>"
  unfolding stage_body_def stage_draft_def by code_simp

definition record_stage :: requirement_command where
  "record_stage = CreateRequirement (example_request ''pm'' ''k1'' ''6789'' 10) ''PRJ-1'' stage_body"

lemma pm_intake: "check_access empty_register (example_request ''pm'' key ids 10) ''PRJ-1'' intake_access = Inr pm_context"
  by (simp add: pm_context_def empty_register_def intake_access_def intake_permissions_def work_eval)

lemma stage_recorded:
  "\<exists>db'. requirement_step example_hasher empty_register record_stage = Inr db' \<and>
     qd_requirements db' = [new_requirement (example_request ''pm'' ''k1'' ''6789'' 10) pm_context stage_draft] \<and> map rv_number (qd_revisions db') = [1]"
proof -
  let ?rq = "example_request ''pm'' ''k1'' ''6789'' 10"
  let ?b = "\<lparr>ri_draft = stage_draft, ri_reason = ''brief'', ri_expected = None\<rparr>"
  have "rf_owner stage_draft = None" by (simp add: stage_draft_def)
  moreover have "qd_requirements empty_register = []" "qd_revisions empty_register = []" by (simp_all add: empty_register_def)
  moreover have "to_lower (uid (CHR ''8'')) = uid (CHR ''8'')" by (rule uid_lower) (simp add: lower_char_def)
  moreover have "in_project pm_context (uid (CHR ''a'')) (uid (CHR ''b''))" by (simp add: in_project_def pm_context_def)
  moreover have "ac_level pm_context = Editor" by (simp add: pm_context_def)
  moreover have "holds_any pm_context intake_permissions = Inr True"
    by (simp add: holds_any_def some_res_def intake_permissions_def pm_context_def)
  ultimately have "\<exists>m. create_requirement_change example_hasher ?rq ?b empty_register pm_context = Inr (empty_register
      \<lparr>qd_requirements := [new_requirement ?rq pm_context stage_draft],
       qd_revisions := [new_revision example_hasher (uid (CHR ''9'')) pm_context (uid (CHR ''8'')) 1 stage_draft ''brief'' None]\<rparr>, m)"
    by (simp add: create_requirement_change_def member_or_def Let_def scoped_requirement_def requirement_summary_def can_intake_def)
  then obtain m where m: "create_requirement_change example_hasher ?rq ?b empty_register pm_context = Inr (empty_register
      \<lparr>qd_requirements := [new_requirement ?rq pm_context stage_draft],
       qd_revisions := [new_revision example_hasher (uid (CHR ''9'')) pm_context (uid (CHR ''8'')) 1 stage_draft ''brief'' None]\<rparr>, m)" ..
  have tables: "db_receipts empty_register = []" "db_audit empty_register = []" "db_outbox empty_register = []"
    by (simp_all add: empty_register_def)
  have "command_key ?rq = Inr ''k1''" by (simp add: command_key_def)
  note run = recording.executed_command [OF this pm_intake _ _ m, where authorize = no_authorize]
  show ?thesis
    unfolding requirement_step_def record_stage_def perform_requirement.simps create_requirement_def stage_body_read bind_res_simps
    by (simp add: run no_authorize_def find_receipt_def tables)
qed


lemma register_starts_empty: "nothing_recorded empty_register"
  by (simp add: nothing_recorded_def empty_register_def)

theorem requirement_history_complete_witness:
  "\<exists>r v. qd_requirements (attempts (requirement_step example_hasher) empty_register [record_stage]) = [r] \<and>
     history_of r (qd_revisions (attempts (requirement_step example_hasher) empty_register [record_stage])) = [v] \<and>
     follows (JObj []) [v] (JObj (draft_fields (draft_of r))) \<and> rr_revision_id r = Some (rv_id v)"
proof -
  obtain db' where db': "requirement_step example_hasher empty_register record_stage = Inr db'"
      "qd_requirements db' = [new_requirement (example_request ''pm'' ''k1'' ''6789'' 10) pm_context stage_draft]"
    using stage_recorded by blast
  let ?r = "new_requirement (example_request ''pm'' ''k1'' ''6789'' 10) pm_context stage_draft"
  have run: "attempts (requirement_step example_hasher) empty_register [record_stage] = db'" by (simp add: db'(1))
  have "map rv_number (history_of ?r (qd_revisions db')) = [1..1] \<and> rr_revision_id ?r = Some (rv_id (last (history_of ?r (qd_revisions db')))) \<and>
      follows (JObj []) (history_of ?r (qd_revisions db')) (JObj (draft_fields (draft_of ?r)))"
    using requirement_history_complete [of empty_register ?r example_hasher "[record_stage]", OF register_starts_empty _ _ refl, unfolded run db'(2)]
    by simp
  then show ?thesis unfolding run db'(2) by (cases "history_of ?r (qd_revisions db')") auto
qed

theorem requirement_history_never_conflicts_witness:
  "revise_requirement example_hasher (attempts (requirement_step example_hasher) empty_register [record_stage]) (example_request ''pm'' ''k2'' ''123'' 20) ''PRJ-1''
     (uid (CHR ''a'')) stage_body \<noteq> Inl (Thrown ''REQUIREMENT_HISTORY_CONFLICT'' [])"
  by (rule requirement_history_never_conflicts [OF register_starts_empty]) simp

definition approved_stage :: requirement_row where
  "approved_stage = (new_requirement (example_request ''pm'' ''k1'' ''4567'' 5) pm_context stage_draft)\<lparr>rr_approved := True\<rparr>"

theorem only_open_drafts_revised_witness:
  "approved_stage \<in> set (qd_requirements (attempts (requirement_step example_hasher) (empty_register\<lparr>qd_requirements := [approved_stage]\<rparr>) [record_stage]))"
  using only_open_drafts_revised [of "empty_register\<lparr>qd_requirements := [approved_stage]\<rparr>" approved_stage example_hasher "[record_stage]"]
  by (simp add: approved_stage_def open_draft_def)

end
