(* ===== verification/Clarification_Register.thy ===== *)
theory Clarification_Register
  imports Requirement_Register
begin

text \<open>
  The register of clarifications: \<open>apps/api/src/scope/clarification-register.service.ts\<close>. A
  question is open or answered; each response is retained, each change has an entry in the
  history, and a question may pin the current revision of a requirement. The tables extend
  those of the requirements, so commands of both registers are steps on one state.
\<close>

section \<open>The tables\<close>

record question_row =
  qn_id :: string
  qn_org :: string
  qn_project :: string
  qn_question :: string
  qn_source :: string
  qn_attribution :: string
  qn_owner :: string
  qn_respondent :: "string option"
  qn_requirement :: "string option"
  qn_requirement_version :: "int option"
  qn_requirement_revision :: "string option"
  qn_due :: "int option"
  qn_status :: string
  qn_version :: int
  qn_by :: string
  qn_created :: int
  qn_updated :: int
  qn_provenance :: string
  qn_latest :: "string option"
  qn_response :: "string option"
  qn_responded_by :: "string option"
  qn_responded_at :: "int option"

record response_row =
  qr_id :: string
  qr_org :: string
  qr_project :: string
  qr_question :: string
  qr_version :: int
  qr_response :: string
  qr_respondent :: string
  qr_attribution :: string
  qr_by :: string
  qr_at :: int

record question_event =
  qe_id :: string
  qe_org :: string
  qe_project :: string
  qe_question :: string
  qe_version :: int
  qe_action :: string
  qe_actor :: string
  qe_reason :: string
  qe_response :: "string option"
  qe_at :: int

record clarification_db = requirement_db +
  kd_questions :: "question_row list"
  kd_responses :: "response_row list"
  kd_history :: "question_event list"

section \<open>Input\<close>

record question_body =
  qc_question :: string
  qc_attribution :: string
  qc_owner :: string
  qc_respondent :: "string option"
  qc_requirement :: "string option"
  qc_due :: "int option"
  qc_reason :: string

record answer_body =
  qs_version :: int
  qs_response :: string
  qs_respondent :: string
  qs_attribution :: string
  qs_reason :: string

record reopen_body =
  qo_version :: int
  qo_reason :: string

definition parse_question :: "question_body \<Rightarrow> question_body res" where
  "parse_question b = (if sized 3 4000 (qc_question b) \<and> sized 1 2000 (qc_attribution b) \<and> uuid_text (qc_owner b) \<and>
       opt_all uuid_text (qc_respondent b) \<and> opt_all uuid_text (qc_requirement b) \<and> sized 1 2000 (qc_reason b)
     then Inr (b\<lparr>qc_question := trim (qc_question b), qc_attribution := trim (qc_attribution b), qc_reason := trim (qc_reason b)\<rparr>)
     else fail ''CLARIFICATION_VALIDATION_ERROR'')"

definition parse_answer :: "answer_body \<Rightarrow> answer_body res" where
  "parse_answer b = (if 0 < qs_version b \<and> sized 1 8000 (qs_response b) \<and> sized 1 300 (qs_respondent b) \<and> sized 1 2000 (qs_attribution b) \<and>
       sized 1 2000 (qs_reason b)
     then Inr (b\<lparr>qs_response := trim (qs_response b), qs_respondent := trim (qs_respondent b), qs_attribution := trim (qs_attribution b),
       qs_reason := trim (qs_reason b)\<rparr>)
     else fail ''CLARIFICATION_VALIDATION_ERROR'')"

definition parse_reopen :: "reopen_body \<Rightarrow> reopen_body res" where
  "parse_reopen b = (if 0 < qo_version b \<and> sized 1 2000 (qo_reason b) then Inr (b\<lparr>qo_reason := trim (qo_reason b)\<rparr>)
     else fail ''CLARIFICATION_VALIDATION_ERROR'')"

definition question_input :: "question_body \<Rightarrow> json" where
  "question_input b = JObj [(''question'', JStr (qc_question b)), (''sourceAttribution'', JStr (qc_attribution b)), (''ownerId'', JStr (qc_owner b)),
     (''respondentId'', text_json (qc_respondent b)), (''requirementId'', text_json (qc_requirement b)), (''dueAt'', time_json (qc_due b)),
     (''reason'', JStr (qc_reason b))]"

definition answer_input :: "answer_body \<Rightarrow> json" where
  "answer_input b = JObj [(''expectedVersion'', JNum (of_int (qs_version b))), (''response'', JStr (qs_response b)),
     (''respondentAttribution'', JStr (qs_respondent b)), (''sourceAttribution'', JStr (qs_attribution b)), (''reason'', JStr (qs_reason b))]"

definition reopen_input :: "reopen_body \<Rightarrow> json" where
  "reopen_input b = JObj [(''expectedVersion'', JNum (of_int (qo_version b))), (''reason'', JStr (qo_reason b))]"

section \<open>Summaries\<close>

definition clarification_permissions :: "string list" where
  "clarification_permissions = [''projects.manage'', ''design.version'', ''operations.manage'']"

definition clarification_access :: access_options where
  "clarification_access = \<lparr>ao_level = Editor, ao_permissions = Some clarification_permissions, ao_audiences = Some [''internal'']\<rparr>"

definition clarification_read :: access_options where
  "clarification_read = \<lparr>ao_level = Viewer, ao_permissions = Some clarification_permissions, ao_audiences = Some [''internal'']\<rparr>"

definition can_clarify :: "access_context \<Rightarrow> bool res" where
  "can_clarify ctx = (if ac_level ctx = Editor then holds_any ctx clarification_permissions else Inr False)"

definition int_json :: "int option \<Rightarrow> json" where
  "int_json v = (case v of Some n \<Rightarrow> JNum (of_int n) | None \<Rightarrow> JNull)"

text \<open>The response that a row names as its latest one.\<close>

definition latest_of :: "question_row \<Rightarrow> response_row \<Rightarrow> bool" where
  "latest_of c r \<longleftrightarrow> Some (qr_id r) = qn_latest c \<and> qr_question r = qn_id c \<and> qr_project r = qn_project c \<and> qr_org r = qn_org c"

definition question_summary :: "'d clarification_db_scheme \<Rightarrow> access_context \<Rightarrow> question_row \<Rightarrow> (string \<times> json) list res" where
  "question_summary db ctx c = (let r = List.find (latest_of c) (kd_responses db) in
     bind_res (can_clarify ctx) (\<lambda>edit.
     Inr [(''id'', JStr (qn_id c)), (''organisationId'', JStr (qn_org c)), (''projectId'', JStr (qn_project c)), (''question'', JStr (qn_question c)),
       (''source'', JStr (qn_source c)), (''sourceAttribution'', JStr (qn_attribution c)), (''ownerId'', JStr (qn_owner c)),
       (''respondentId'', text_json (qn_respondent c)), (''requirementId'', text_json (qn_requirement c)),
       (''requirementVersion'', int_json (qn_requirement_version c)), (''requirementRevisionId'', text_json (qn_requirement_revision c)),
       (''dueAt'', time_json (qn_due c)), (''status'', JStr (qn_status c)), (''rowVersion'', JNum (of_int (qn_version c))),
       (''createdBy'', JStr (qn_by c)), (''createdAt'', JStr (iso_text (qn_created c))), (''updatedAt'', JStr (iso_text (qn_updated c))),
       (''provenanceState'', JStr (qn_provenance c)),
       (''latestResponse'', case qn_latest c of None \<Rightarrow> JNull
          | Some i \<Rightarrow> JObj [(''id'', JStr i), (''response'', text_json (qn_response c)),
              (''respondentAttribution'', text_json (map_option qr_respondent r)), (''sourceAttribution'', text_json (map_option qr_attribution r)),
              (''recordedBy'', text_json (qn_responded_by c)), (''recordedAt'', time_json (qn_responded_at c)),
              (''verificationState'', JStr ''attributed_unverified'')]),
       (''canRespond'', JBool (edit \<and> qn_status c = ''open'')), (''canReopen'', JBool (edit \<and> qn_status c = ''answered'')),
       (''deliveryState'', JStr ''not_issued''), (''scopeApprovalState'', JStr ''not_approved'')]))"

definition event_json :: "question_event \<Rightarrow> json" where
  "event_json e = JObj [(''id'', JStr (qe_id e)), (''rowVersion'', JNum (of_int (qe_version e))), (''action'', JStr (qe_action e)),
     (''actorId'', JStr (qe_actor e)), (''reason'', JStr (qe_reason e)), (''responseId'', text_json (qe_response e)),
     (''createdAt'', JStr (iso_text (qe_at e)))]"

definition response_json :: "response_row \<Rightarrow> json" where
  "response_json r = JObj [(''id'', JStr (qr_id r)), (''rowVersion'', JNum (of_int (qr_version r))), (''response'', JStr (qr_response r)),
     (''respondentAttribution'', JStr (qr_respondent r)), (''sourceAttribution'', JStr (qr_attribution r)), (''recordedBy'', JStr (qr_by r)),
     (''recordedAt'', JStr (iso_text (qr_at r))), (''verificationState'', JStr ''attributed_unverified'')]"

text \<open>\<open>ORDER BY record_version DESC LIMIT 501\<close>.\<close>

definition latest_first :: "('a \<Rightarrow> int) \<Rightarrow> 'a list \<Rightarrow> 'a list" where
  "latest_first f rows = take 501 (sort_key (\<lambda>x. - f x) rows)"

definition question_detail :: "'d clarification_db_scheme \<Rightarrow> access_context \<Rightarrow> question_row \<Rightarrow> (string \<times> json) list res" where
  "question_detail db ctx c = bind_res (question_summary db ctx c) (\<lambda>fields.
     let events = latest_first qe_version (filter (\<lambda>e. in_project ctx (qe_org e) (qe_project e) \<and> qe_question e = qn_id c) (kd_history db));
         responses = latest_first qr_version (filter (\<lambda>r. in_project ctx (qr_org r) (qr_project r) \<and> qr_question r = qn_id c) (kd_responses db))
     in Inr (fields @ [(''history'', JArr (map event_json (take 500 events))), (''responses'', JArr (map response_json (take 500 responses))),
          (''historyTruncated'', JBool (500 < length events)), (''responsesTruncated'', JBool (500 < length responses))]))"

section \<open>The service\<close>

text \<open>The requirement to be pinned, with its current revision.\<close>

definition linked_requirement :: "'d requirement_db_scheme \<Rightarrow> access_context \<Rightarrow> string \<Rightarrow> requirement_row res" where
  "linked_requirement db ctx i = (case List.find (\<lambda>q. rr_id q = to_lower i \<and> in_project ctx (rr_org q) (rr_project q) \<and> rr_provenance q = ''manually_recorded'' \<and>
        list_ex (\<lambda>v. revision_of q v \<and> rv_provenance v = ''manually_recorded'') (qd_revisions db)) (qd_requirements db) of
       None \<Rightarrow> fail ''CLARIFICATION_REQUIREMENT_UNAVAILABLE''
     | Some q \<Rightarrow> Inr q)"

definition pin_available :: "'d requirement_db_scheme \<Rightarrow> access_context \<Rightarrow> question_row \<Rightarrow> bool" where
  "pin_available db ctx c = (case qn_requirement c of None \<Rightarrow> True
     | Some q \<Rightarrow> list_ex (\<lambda>v. Some (rv_id v) = qn_requirement_revision c \<and> rv_requirement v = q \<and> in_project ctx (rv_org v) (rv_project v) \<and>
         rv_provenance v = ''manually_recorded'' \<and>
         list_ex (\<lambda>r. rr_id r = rv_requirement v \<and> rr_org r = rv_org v \<and> rr_project r = rv_project v \<and> rr_provenance r = ''manually_recorded'')
           (qd_requirements db)) (qd_revisions db))"

definition scoped_question :: "'d clarification_db_scheme \<Rightarrow> access_context \<Rightarrow> string \<Rightarrow> question_row res" where
  "scoped_question db ctx i =
     (case List.find (\<lambda>c. qn_id c = to_lower i \<and> in_project ctx (qn_org c) (qn_project c) \<and> qn_provenance c = ''internal_record'') (kd_questions db) of
       None \<Rightarrow> fail ''CLARIFICATION_NOT_FOUND''
     | Some c \<Rightarrow> if pin_available db ctx c then Inr c else fail ''CLARIFICATION_REQUIREMENT_UNAVAILABLE'')"

text \<open>The inserts, each with the constraints of its table.\<close>

definition history_entry :: "api_request \<Rightarrow> nat \<Rightarrow> access_context \<Rightarrow> string \<Rightarrow> int \<Rightarrow> string \<Rightarrow> string \<Rightarrow> string option \<Rightarrow> question_event" where
  "history_entry rq n ctx i version action reason response = \<lparr>qe_id = rq_ids rq n, qe_org = ac_org ctx, qe_project = pj_id (ac_project ctx),
     qe_question = i, qe_version = version, qe_action = action, qe_actor = ac_user ctx, qe_reason = reason, qe_response = response,
     qe_at = rq_now rq\<rparr>"

definition insert_history :: "question_event \<Rightarrow> 'd clarification_db_scheme \<Rightarrow> 'd clarification_db_scheme res" where
  "insert_history e db = bind_res (throw_if (qe_version e \<le> 0) (Thrown ''PROJECT_ACCESS_STORAGE_UNAVAILABLE'' [])) (\<lambda>_.
     bind_res (insert_row (\<lambda>e. (qe_question e, qe_version e)) e (kd_history db)) (\<lambda>_.
     bind_res (insert_row qe_id e (kd_history db)) (\<lambda>rows. Inr (db\<lparr>kd_history := rows\<rparr>))))"

definition insert_response :: "response_row \<Rightarrow> 'd clarification_db_scheme \<Rightarrow> 'd clarification_db_scheme res" where
  "insert_response r db = bind_res (throw_if (qr_version r \<le> 1) (Thrown ''PROJECT_ACCESS_STORAGE_UNAVAILABLE'' [])) (\<lambda>_.
     bind_res (insert_row (\<lambda>r. (qr_question r, qr_version r)) r (kd_responses db)) (\<lambda>_.
     bind_res (insert_row qr_id r (kd_responses db)) (\<lambda>rows. Inr (db\<lparr>kd_responses := rows\<rparr>))))"

definition new_question :: "api_request \<Rightarrow> question_body \<Rightarrow> access_context \<Rightarrow> requirement_row option \<Rightarrow> question_row" where
  "new_question rq b ctx pin = \<lparr>qn_id = rq_ids rq 2, qn_org = ac_org ctx, qn_project = pj_id (ac_project ctx), qn_question = qc_question b,
     qn_source = ''internal_question'', qn_attribution = qc_attribution b, qn_owner = to_lower (qc_owner b),
     qn_respondent = map_option to_lower (qc_respondent b), qn_requirement = map_option to_lower (qc_requirement b),
     qn_requirement_version = map_option rr_version pin, qn_requirement_revision = Option.bind pin rr_revision_id,
     qn_due = qc_due b, qn_status = ''open'', qn_version = 1, qn_by = ac_user ctx, qn_created = rq_now rq, qn_updated = rq_now rq,
     qn_provenance = ''internal_record'', qn_latest = None, qn_response = None, qn_responded_by = None, qn_responded_at = None\<rparr>"

definition link_requirement :: "'d requirement_db_scheme \<Rightarrow> access_context \<Rightarrow> string option \<Rightarrow> requirement_row option res" where
  "link_requirement db ctx i = (case i of None \<Rightarrow> Inr None | Some i \<Rightarrow> bind_res (linked_requirement db ctx i) (\<lambda>q. Inr (Some q)))"

definition create_question_change ::
  "api_request \<Rightarrow> question_body \<Rightarrow> 'd clarification_db_scheme \<Rightarrow> access_context \<Rightarrow> ('d clarification_db_scheme \<times> mutation) res" where
  "create_question_change rq b db ctx =
     bind_res (link_requirement db ctx (qc_requirement b)) (\<lambda>pin.
     let c = new_question rq b ctx pin in
     bind_res (insert_row qn_id c (kd_questions db)) (\<lambda>rows.
     bind_res (insert_history (history_entry rq 3 ctx (qn_id c) 1 ''created'' (qc_reason b) None) (db\<lparr>kd_questions := rows\<rparr>)) (\<lambda>db1.
     bind_res (scoped_question db1 ctx (qn_id c)) (\<lambda>row. bind_res (question_detail db1 ctx row) (\<lambda>data.
     Inr (db1, \<lparr>mu_id = qn_id c, mu_data = data,
       mu_event = [(''reason'', JStr (qc_reason b)), (''ownerId'', JStr (qc_owner b)), (''respondentId'', text_json (qc_respondent b)),
         (''requirementId'', text_json (qc_requirement b)), (''requirementVersion'', int_json (map_option rr_version pin)),
         (''requirementRevisionId'', text_json (Option.bind pin rr_revision_id)), (''deliveryState'', JStr ''not_issued''),
         (''scopeApprovalState'', JStr ''not_approved'')],
       mu_version = Some 1\<rparr>))))))"

definition update_question :: "access_context \<Rightarrow> string \<Rightarrow> (question_row \<Rightarrow> question_row) \<Rightarrow> 'd clarification_db_scheme \<Rightarrow> 'd clarification_db_scheme" where
  "update_question ctx i f db = db\<lparr>kd_questions := map (\<lambda>c. if qn_id c = to_lower i \<and> in_project ctx (qn_org c) (qn_project c) then f c else c) (kd_questions db)\<rparr>"

definition new_response :: "api_request \<Rightarrow> string \<Rightarrow> answer_body \<Rightarrow> access_context \<Rightarrow> int \<Rightarrow> response_row" where
  "new_response rq i b ctx version = \<lparr>qr_id = rq_ids rq 2, qr_org = ac_org ctx, qr_project = pj_id (ac_project ctx), qr_question = to_lower i,
     qr_version = version, qr_response = qs_response b, qr_respondent = qs_respondent b, qr_attribution = qs_attribution b, qr_by = ac_user ctx,
     qr_at = rq_now rq\<rparr>"

definition answered_row :: "api_request \<Rightarrow> answer_body \<Rightarrow> access_context \<Rightarrow> question_row \<Rightarrow> question_row" where
  "answered_row rq b ctx c = c\<lparr>qn_response := Some (qs_response b), qn_responded_by := Some (ac_user ctx), qn_responded_at := Some (rq_now rq),
     qn_latest := Some (rq_ids rq 2), qn_status := ''answered'', qn_version := qn_version c + 1, qn_updated := rq_now rq\<rparr>"

definition answer_change ::
  "api_request \<Rightarrow> string \<Rightarrow> answer_body \<Rightarrow> 'd clarification_db_scheme \<Rightarrow> access_context \<Rightarrow> ('d clarification_db_scheme \<times> mutation) res" where
  "answer_change rq i b db ctx =
     bind_res (scoped_question db ctx i) (\<lambda>c.
     bind_res (throw_if (qn_version c \<noteq> qs_version b) (Thrown ''CLARIFICATION_VERSION_CONFLICT'' [])) (\<lambda>_.
     bind_res (throw_if (qn_status c \<noteq> ''open'') (Thrown ''CLARIFICATION_NOT_OPEN'' [])) (\<lambda>_.
     bind_res (insert_response (new_response rq i b ctx (qn_version c + 1)) db) (\<lambda>db1.
     bind_res (insert_history (history_entry rq 3 ctx (to_lower i) (qn_version c + 1) ''responded'' (qs_reason b) (Some (rq_ids rq 2)))
       (update_question ctx i (answered_row rq b ctx) db1)) (\<lambda>db2.
     bind_res (scoped_question db2 ctx i) (\<lambda>row. bind_res (question_detail db2 ctx row) (\<lambda>data.
     Inr (db2, \<lparr>mu_id = i, mu_data = data,
       mu_event = [(''reason'', JStr (qs_reason b)), (''responseId'', JStr (rq_ids rq 2)), (''previousVersion'', JNum (of_int (qn_version c))),
         (''verificationState'', JStr ''attributed_unverified''), (''scopeApprovalState'', JStr ''not_approved'')],
       mu_version = Some (qn_version c + 1)\<rparr>))))))))"

definition reopened_row :: "api_request \<Rightarrow> question_row \<Rightarrow> question_row" where
  "reopened_row rq c = c\<lparr>qn_status := ''open'', qn_response := None, qn_responded_by := None, qn_responded_at := None, qn_latest := None,
     qn_version := qn_version c + 1, qn_updated := rq_now rq\<rparr>"

definition reopen_change ::
  "api_request \<Rightarrow> string \<Rightarrow> reopen_body \<Rightarrow> 'd clarification_db_scheme \<Rightarrow> access_context \<Rightarrow> ('d clarification_db_scheme \<times> mutation) res" where
  "reopen_change rq i b db ctx =
     bind_res (scoped_question db ctx i) (\<lambda>c.
     bind_res (throw_if (qn_version c \<noteq> qo_version b) (Thrown ''CLARIFICATION_VERSION_CONFLICT'' [])) (\<lambda>_.
     bind_res (throw_if (qn_status c \<noteq> ''answered'') (Thrown ''CLARIFICATION_NOT_ANSWERED'' [])) (\<lambda>_.
     bind_res (insert_history (history_entry rq 2 ctx (to_lower i) (qn_version c + 1) ''reopened'' (qo_reason b) (qn_latest c))
       (update_question ctx i (reopened_row rq) db)) (\<lambda>db2.
     bind_res (scoped_question db2 ctx i) (\<lambda>row. bind_res (question_detail db2 ctx row) (\<lambda>data.
     Inr (db2, \<lparr>mu_id = i, mu_data = data,
       mu_event = [(''reason'', JStr (qo_reason b)), (''priorResponseId'', text_json (qn_latest c)), (''previousVersion'', JNum (of_int (qn_version c))),
         (''scopeApprovalState'', JStr ''not_approved'')],
       mu_version = Some (qn_version c + 1)\<rparr>)))))))"

definition authorize_question :: "question_body \<Rightarrow> 'd requirement_db_scheme \<Rightarrow> access_context \<Rightarrow> unit res" where
  "authorize_question b db ctx =
     bind_res (member_or ''CLARIFICATION_MEMBER_UNAVAILABLE'' db ctx (Some (qc_owner b))) (\<lambda>_.
     bind_res (member_or ''CLARIFICATION_MEMBER_UNAVAILABLE'' db ctx (qc_respondent b)) (\<lambda>_.
     bind_res (link_requirement db ctx (qc_requirement b)) (\<lambda>_. Inr ())))"

definition create_question :: "hasher \<Rightarrow> 'd clarification_db_scheme \<Rightarrow> api_request \<Rightarrow> string \<Rightarrow> question_body \<Rightarrow> ('d clarification_db_scheme \<times> json) res" where
  "create_question H db rq reference body = bind_res (parse_question body) (\<lambda>b.
     run_command H db rq reference clarification_access \<lparr>cm_operation = ''clarification.create'', cm_action = ''clarification.created'',
       cm_type = ''clarification'', cm_input = question_input b\<rparr> (authorize_question b) (create_question_change rq b))"

definition known_question :: "string \<Rightarrow> 'd clarification_db_scheme \<Rightarrow> access_context \<Rightarrow> unit res" where
  "known_question i db ctx = bind_res (scoped_question db ctx i) (\<lambda>_. Inr ())"

definition answer_question :: "hasher \<Rightarrow> 'd clarification_db_scheme \<Rightarrow> api_request \<Rightarrow> string \<Rightarrow> string \<Rightarrow> answer_body \<Rightarrow> ('d clarification_db_scheme \<times> json) res" where
  "answer_question H db rq reference i body =
     bind_res (throw_if (\<not> uuid_text i) (Thrown ''CLARIFICATION_VALIDATION_ERROR'' [])) (\<lambda>_.
     bind_res (parse_answer body) (\<lambda>b.
     run_command H db rq reference clarification_access \<lparr>cm_operation = ''clarification.'' @ i @ ''.respond'', cm_action = ''clarification.response_recorded'',
       cm_type = ''clarification'', cm_input = answer_input b\<rparr> (known_question i) (answer_change rq i b)))"

definition reopen_question :: "hasher \<Rightarrow> 'd clarification_db_scheme \<Rightarrow> api_request \<Rightarrow> string \<Rightarrow> string \<Rightarrow> reopen_body \<Rightarrow> ('d clarification_db_scheme \<times> json) res" where
  "reopen_question H db rq reference i body =
     bind_res (throw_if (\<not> uuid_text i) (Thrown ''CLARIFICATION_VALIDATION_ERROR'' [])) (\<lambda>_.
     bind_res (parse_reopen body) (\<lambda>b.
     run_command H db rq reference clarification_access \<lparr>cm_operation = ''clarification.'' @ i @ ''.reopen'', cm_action = ''clarification.reopened'',
       cm_type = ''clarification'', cm_input = reopen_input b\<rparr> (known_question i) (reopen_change rq i b)))"

definition get_question :: "'d clarification_db_scheme \<Rightarrow> api_request \<Rightarrow> string \<Rightarrow> string \<Rightarrow> (string \<times> json) list res" where
  "get_question db rq reference i =
     bind_res (throw_if (\<not> uuid_text i) (Thrown ''CLARIFICATION_VALIDATION_ERROR'' [])) (\<lambda>_.
     bind_res (with_access db rq reference clarification_read (\<lambda>db ctx.
       bind_res (scoped_question db ctx i) (\<lambda>c. bind_res (question_detail db ctx c) (\<lambda>fields. Inr (db, fields))))) (\<lambda>(_, fields). Inr fields))"

datatype clarification_command =
    CreateQuestion api_request string question_body
  | AnswerQuestion api_request string string answer_body
  | ReopenQuestion api_request string string reopen_body

fun perform_clarification :: "hasher \<Rightarrow> 'd clarification_db_scheme \<Rightarrow> clarification_command \<Rightarrow> ('d clarification_db_scheme \<times> json) res" where
  "perform_clarification H db (CreateQuestion rq ref b) = create_question H db rq ref b"
| "perform_clarification H db (AnswerQuestion rq ref i b) = answer_question H db rq ref i b"
| "perform_clarification H db (ReopenQuestion rq ref i b) = reopen_question H db rq ref i b"

definition clarification_step :: "hasher \<Rightarrow> 'd clarification_db_scheme \<Rightarrow> clarification_command \<Rightarrow> 'd clarification_db_scheme res" where
  "clarification_step H db c = bind_res (perform_clarification H db c) (\<lambda>(db', _). Inr db')"

text \<open>Commands of both registers.\<close>

definition scope_step :: "hasher \<Rightarrow> 'd clarification_db_scheme \<Rightarrow> requirement_command + clarification_command \<Rightarrow> 'd clarification_db_scheme res" where
  "scope_step H db c = (case c of Inl r \<Rightarrow> requirement_step H db r | Inr q \<Rightarrow> clarification_step H db q)"


section \<open>What an accepted command changes\<close>

lemma insert_history_Inr [simp]:
  "insert_history e db = Inr db1 \<longleftrightarrow> 0 < qe_version e \<and> (qe_question e, qe_version e) \<notin> (\<lambda>e. (qe_question e, qe_version e)) ` set (kd_history db) \<and>
     qe_id e \<notin> qe_id ` set (kd_history db) \<and> db1 = db\<lparr>kd_history := kd_history db @ [e]\<rparr>"
  unfolding insert_history_def by (auto simp: not_le)

lemma insert_response_Inr [simp]:
  "insert_response r db = Inr db1 \<longleftrightarrow> 1 < qr_version r \<and> (qr_question r, qr_version r) \<notin> (\<lambda>r. (qr_question r, qr_version r)) ` set (kd_responses db) \<and>
     qr_id r \<notin> qr_id ` set (kd_responses db) \<and> db1 = db\<lparr>kd_responses := kd_responses db @ [r]\<rparr>"
  unfolding insert_response_def by (auto simp: not_le)

lemma create_question_changeE:
  assumes "create_question_change rq b db ctx = Inr (db1, m)"
  obtains pin where "link_requirement db ctx (qc_requirement b) = Inr pin" "rq_ids rq 2 \<notin> qn_id ` set (kd_questions db)"
    "db1 = db\<lparr>kd_questions := kd_questions db @ [new_question rq b ctx pin],
       kd_history := kd_history db @ [history_entry rq 3 ctx (rq_ids rq 2) 1 ''created'' (qc_reason b) None]\<rparr>"
proof -
  have "qn_id (new_question rq b ctx pin) = rq_ids rq 2" for pin by (simp add: new_question_def)
  with assms show ?thesis
    unfolding create_question_change_def Let_def by (auto intro: that)
qed

definition internal :: "question_row \<Rightarrow> bool" where
  "internal c \<longleftrightarrow> qn_provenance c = ''internal_record''"

lemma scoped_question_Inr:
  "scoped_question db ctx i = Inr c \<Longrightarrow> c \<in> set (kd_questions db) \<and> qn_id c = to_lower i \<and> in_project ctx (qn_org c) (qn_project c) \<and> internal c"
  by (auto simp: scoped_question_def internal_def split: option.splits if_splits dest: find_Some_iff_in)

lemma answer_changeE:
  assumes "answer_change rq i b db ctx = Inr (db1, m)"
  obtains c where "scoped_question db ctx i = Inr c" "qn_status c = ''open''"
    "rq_ids rq 2 \<notin> qr_id ` set (kd_responses db)"
    "db1 = (update_question ctx i (answered_row rq b ctx) db)\<lparr>kd_responses := kd_responses db @ [new_response rq i b ctx (qn_version c + 1)],
       kd_history := kd_history db @ [history_entry rq 3 ctx (to_lower i) (qn_version c + 1) ''responded'' (qs_reason b) (Some (rq_ids rq 2))]\<rparr>"
proof -
  have "qr_id (new_response rq i b ctx v) = rq_ids rq 2" for v by (simp add: new_response_def)
  with assms show ?thesis
    unfolding answer_change_def by (auto simp: update_question_def intro: that)
qed

lemma reopen_changeE:
  assumes "reopen_change rq i b db ctx = Inr (db1, m)"
  obtains c where "scoped_question db ctx i = Inr c" "qn_status c = ''answered''"
    "db1 = (update_question ctx i (reopened_row rq) db)\<lparr>kd_history := kd_history db @
       [history_entry rq 2 ctx (to_lower i) (qn_version c + 1) ''reopened'' (qo_reason b) (qn_latest c)]\<rparr>"
  using assms unfolding reopen_change_def by (auto simp: update_question_def intro: that)

interpretation asking: project_mutation "create_question_change rq b" for rq b
  by unfold_locales (erule create_question_changeE; simp add: core_db.truncate_def)

interpretation answering: project_mutation "answer_change rq i b" for rq i b
  by unfold_locales (erule answer_changeE; simp add: core_db.truncate_def update_question_def)

interpretation reopening: project_mutation "reopen_change rq i b" for rq i b
  by unfold_locales (erule reopen_changeE; simp add: core_db.truncate_def update_question_def)

fun clarification_change :: "clarification_command \<Rightarrow> 'd clarification_db_scheme \<Rightarrow> access_context \<Rightarrow> ('d clarification_db_scheme \<times> mutation) res" where
  "clarification_change (CreateQuestion rq _ body) db ctx = bind_res (parse_question body) (\<lambda>b. create_question_change rq b db ctx)"
| "clarification_change (AnswerQuestion rq _ i body) db ctx = bind_res (parse_answer body) (\<lambda>b. answer_change rq i b db ctx)"
| "clarification_change (ReopenQuestion rq _ i body) db ctx = bind_res (parse_reopen body) (\<lambda>b. reopen_change rq i b db ctx)"

lemma clarification_stepE:
  assumes "clarification_step H db c = Inr db'"
  obtains (replayed) "db' = db"
  | (executed) ctx db1 m where "clarification_change c db ctx = Inr (db1, m)"
      "requirement_db.more db' = requirement_db.more db1" "qd_requirements db' = qd_requirements db1" "qd_revisions db' = qd_revisions db1"
proof (cases c)
  case (CreateQuestion rq ref body)
  with assms obtain b cmd response where b: "parse_question body = Inr b"
    and run: "run_command H db rq ref clarification_access cmd (authorize_question b) (create_question_change rq b) = Inr (db', response)"
    by (auto simp: clarification_step_def create_question_def)
  from run show ?thesis
    by (cases rule: asking.accepted_command) (use CreateQuestion b in \<open>auto intro: that\<close>)
next
  case (AnswerQuestion rq ref i body)
  with assms obtain b cmd response where b: "parse_answer body = Inr b"
    and run: "run_command H db rq ref clarification_access cmd (known_question i) (answer_change rq i b) = Inr (db', response)"
    by (auto simp: clarification_step_def answer_question_def)
  from run show ?thesis
    by (cases rule: answering.accepted_command) (use AnswerQuestion b in \<open>auto intro: that\<close>)
next
  case (ReopenQuestion rq ref i body)
  with assms obtain b cmd response where b: "parse_reopen body = Inr b"
    and run: "run_command H db rq ref clarification_access cmd (known_question i) (reopen_change rq i b) = Inr (db', response)"
    by (auto simp: clarification_step_def reopen_question_def)
  from run show ?thesis
    by (cases rule: reopening.accepted_command) (use ReopenQuestion b in \<open>auto intro: that\<close>)
qed

lemma same_questions:
  "requirement_db.more db' = requirement_db.more db \<Longrightarrow>
     kd_questions db' = kd_questions db \<and> kd_responses db' = kd_responses db \<and> kd_history db' = kd_history db"
  by (cases db, cases db') simp

section \<open>The history of a question\<close>

text \<open>What a question is meant to be: waiting for a response, or answered by one.\<close>

datatype question_state = Waiting | Answered string

inductive history_tells :: "question_event list \<Rightarrow> question_state \<Rightarrow> bool" where
  created: "qe_action e = ''created'' \<Longrightarrow> qe_version e = 1 \<Longrightarrow> qe_response e = None \<Longrightarrow> history_tells [e] Waiting"
| responded: "history_tells es Waiting \<Longrightarrow> qe_action e = ''responded'' \<Longrightarrow> qe_version e = int (length es) + 1 \<Longrightarrow> qe_response e = Some r \<Longrightarrow>
    history_tells (es @ [e]) (Answered r)"
| reopened: "history_tells es (Answered r) \<Longrightarrow> qe_action e = ''reopened'' \<Longrightarrow> qe_version e = int (length es) + 1 \<Longrightarrow> qe_response e = Some r \<Longrightarrow>
    history_tells (es @ [e]) Waiting"

lemma history_tells_versions: "history_tells es st \<Longrightarrow> map qe_version es = [1..int (length es)]"
  by (induction rule: history_tells.induct) (simp_all add: upto_rec2 add.commute)

definition row_state :: "question_row \<Rightarrow> question_state option" where
  "row_state c = (case qn_latest c of
       None \<Rightarrow> if qn_status c = ''open'' \<and> qn_response c = None \<and> qn_responded_by c = None \<and> qn_responded_at c = None then Some Waiting else None
     | Some i \<Rightarrow> if qn_status c = ''answered'' then Some (Answered i) else None)"

definition events_of :: "question_row \<Rightarrow> question_event list \<Rightarrow> question_event list" where
  "events_of c es = filter (\<lambda>e. qe_question e = qn_id c) es"

definition responses_of :: "question_row \<Rightarrow> response_row list \<Rightarrow> response_row list" where
  "responses_of c rs = filter (\<lambda>r. qr_question r = qn_id c) rs"

text \<open>The responses that a history records, each with the version it made.\<close>

definition recorded_responses :: "question_event list \<Rightarrow> (string option \<times> int) list" where
  "recorded_responses es = map (\<lambda>e. (qe_response e, qe_version e)) (filter (\<lambda>e. qe_action e = ''responded'') es)"

definition shows_response :: "question_row \<Rightarrow> response_row list \<Rightarrow> bool" where
  "shows_response c rs \<longleftrightarrow> (qn_latest c \<noteq> None \<longrightarrow> rs \<noteq> [] \<and> latest_of c (last rs) \<and> qn_response c = Some (qr_response (last rs)) \<and>
     qn_responded_by c = Some (qr_by (last rs)) \<and> qn_responded_at c = Some (qr_at (last rs)))"

definition accounted_for :: "question_row \<Rightarrow> question_event list \<Rightarrow> response_row list \<Rightarrow> bool" where
  "accounted_for c es rs \<longleftrightarrow> (\<exists>st. history_tells es st \<and> row_state c = Some st) \<and> qn_version c = int (length es) \<and>
     map (\<lambda>r. (Some (qr_id r), qr_version r)) rs = recorded_responses es \<and> shows_response c rs"

definition questions_ok :: "'d clarification_db_scheme \<Rightarrow> bool" where
  "questions_ok db \<longleftrightarrow> distinct (map qn_id (kd_questions db)) \<and>
     qe_question ` set (kd_history db) \<subseteq> qn_id ` set (kd_questions db) \<and> qr_question ` set (kd_responses db) \<subseteq> qn_id ` set (kd_questions db) \<and>
     (\<forall>c \<in> set (kd_questions db). internal c \<longrightarrow> accounted_for c (events_of c (kd_history db)) (responses_of c (kd_responses db)))"

lemma entry_simps [simp]:
  "qe_question (history_entry rq n ctx i v a why r) = i" "qe_version (history_entry rq n ctx i v a why r) = v"
  "qe_action (history_entry rq n ctx i v a why r) = a" "qe_response (history_entry rq n ctx i v a why r) = r"
  "qe_id (history_entry rq n ctx i v a why r) = rq_ids rq n"
  by (simp_all add: history_entry_def)

lemma new_response_simps [simp]:
  "qr_id (new_response rq i b ctx v) = rq_ids rq 2" "qr_question (new_response rq i b ctx v) = to_lower i" "qr_version (new_response rq i b ctx v) = v"
  "qr_response (new_response rq i b ctx v) = qs_response b" "qr_by (new_response rq i b ctx v) = ac_user ctx" "qr_at (new_response rq i b ctx v) = rq_now rq"
  "qr_org (new_response rq i b ctx v) = ac_org ctx" "qr_project (new_response rq i b ctx v) = pj_id (ac_project ctx)"
  by (simp_all add: new_response_def)

lemma created_accounted:
  "qe_action e = ''created'' \<Longrightarrow> qe_version e = 1 \<Longrightarrow> qe_response e = None \<Longrightarrow> accounted_for (new_question rq b ctx pin) [e] []"
  by (auto simp: accounted_for_def row_state_def new_question_def recorded_responses_def shows_response_def intro: history_tells.created)

lemma answered_accounted:
  assumes ok: "accounted_for c es rs" and "qn_status c = ''open''" and "in_project ctx (qn_org c) (qn_project c)" and "qn_id c = to_lower i"
  shows "accounted_for (answered_row rq b ctx c) (es @ [history_entry rq 3 ctx (to_lower i) (qn_version c + 1) ''responded'' (qs_reason b) (Some (rq_ids rq 2))])
    (rs @ [new_response rq i b ctx (qn_version c + 1)])"
proof -
  from ok assms(2) have "history_tells es Waiting" by (auto simp: accounted_for_def row_state_def split: option.splits if_splits)
  moreover have "qn_version c = int (length es)" using ok by (simp add: accounted_for_def)
  ultimately have "history_tells (es @ [history_entry rq 3 ctx (to_lower i) (qn_version c + 1) ''responded'' (qs_reason b) (Some (rq_ids rq 2))])
      (Answered (rq_ids rq 2))" by (intro history_tells.responded) simp_all
  with ok assms(3,4) show ?thesis
    by (auto simp: accounted_for_def row_state_def answered_row_def recorded_responses_def shows_response_def latest_of_def in_project_def)
qed

lemma reopened_accounted:
  assumes ok: "accounted_for c es rs" and "qn_status c = ''answered''"
  shows "accounted_for (reopened_row rq c) (es @ [history_entry rq 2 ctx i (qn_version c + 1) ''reopened'' why (qn_latest c)]) rs"
proof -
  from ok assms(2) obtain r where r: "history_tells es (Answered r)" "qn_latest c = Some r"
    by (auto simp: accounted_for_def row_state_def split: option.splits if_splits)
  moreover have "qn_version c = int (length es)" using ok by (simp add: accounted_for_def)
  ultimately have "history_tells (es @ [history_entry rq 2 ctx i (qn_version c + 1) ''reopened'' why (qn_latest c)]) Waiting"
    by (intro history_tells.reopened) simp_all
  with ok show ?thesis
    by (auto simp: accounted_for_def row_state_def reopened_row_def recorded_responses_def shows_response_def)
qed

text \<open>A change of one row, with what is added to the history and the responses of that row.\<close>

lemma update_questions_ok:
  assumes ok: "questions_ok db" and c: "c \<in> set (kd_questions db)" "qn_id c = to_lower i" "in_project ctx (qn_org c) (qn_project c)" "internal c"
    and f: "qn_id (f c) = qn_id c" and e: "qe_question e = to_lower i" and rs: "\<forall>r \<in> set rs. qr_question r = to_lower i"
    and told: "accounted_for (f c) (events_of c (kd_history db) @ [e]) (responses_of c (kd_responses db) @ rs)"
  shows "questions_ok ((update_question ctx i f db)\<lparr>kd_responses := kd_responses db @ rs, kd_history := kd_history db @ [e]\<rparr>)"
proof -
  let ?g = "\<lambda>u. if qn_id u = to_lower i \<and> in_project ctx (qn_org u) (qn_project u) then f u else u"
  have dist: "distinct (map qn_id (kd_questions db))" using ok by (simp add: questions_ok_def)
  have only: "u = c" if "u \<in> set (kd_questions db)" "qn_id u = to_lower i" for u
    using inj_onD [of qn_id "set (kd_questions db)" u c] dist that c(1,2) by (simp add: distinct_map)
  have g: "?g c = f c" using c(2,3) by simp
  have same: "?g u = u" if "u \<in> set (kd_questions db)" "u \<noteq> c" for u using only that by auto
  have ids: "qn_id (?g u) = qn_id u" if "u \<in> set (kd_questions db)" for u
    using g f same that by (cases "u = c") simp_all
  then have maps: "map qn_id (map ?g (kd_questions db)) = map qn_id (kd_questions db)" by simp
  then have sets: "qn_id ` set (map ?g (kd_questions db)) = qn_id ` set (kd_questions db)" by (metis list.set_map)
  have told': "accounted_for (?g u) (events_of (?g u) (kd_history db @ [e])) (responses_of (?g u) (kd_responses db @ rs))"
    if u: "u \<in> set (kd_questions db)" "internal (?g u)" for u
  proof (cases "u = c")
    case True
    have "events_of (f c) (kd_history db @ [e]) = events_of c (kd_history db) @ [e]"
      "responses_of (f c) (kd_responses db @ rs) = responses_of c (kd_responses db) @ rs"
      using f e c(2) rs by (simp_all add: events_of_def responses_of_def)
    with told show ?thesis unfolding True g by simp
  next
    case False
    then have "qn_id u \<noteq> to_lower i" using only u(1) by blast
    then have "events_of u (kd_history db @ [e]) = events_of u (kd_history db)" "responses_of u (kd_responses db @ rs) = responses_of u (kd_responses db)"
      using e rs by (auto simp: events_of_def responses_of_def)
    moreover have "?g u = u" by (rule same [OF u(1) False])
    ultimately show ?thesis using ok u by (simp add: questions_ok_def)
  qed
  have known: "to_lower i \<in> qn_id ` set (kd_questions db)" using c(1,2) by (metis imageI)
  have "\<forall>u \<in> set (map ?g (kd_questions db)). internal u \<longrightarrow>
      accounted_for u (events_of u (kd_history db @ [e])) (responses_of u (kd_responses db @ rs))"
    using told' by (simp only: set_map ball_simps) blast
  moreover have "qe_question ` set (kd_history db @ [e]) \<subseteq> qn_id ` set (map ?g (kd_questions db))"
    and "qr_question ` set (kd_responses db @ rs) \<subseteq> qn_id ` set (map ?g (kd_questions db))"
    unfolding sets using ok known e rs by (auto simp: questions_ok_def)
  moreover have "distinct (map qn_id (map ?g (kd_questions db)))" unfolding maps by (rule dist)
  moreover have tables: "kd_questions ((update_question ctx i f db)\<lparr>kd_responses := kd_responses db @ rs, kd_history := kd_history db @ [e]\<rparr>) = map ?g (kd_questions db)"
    "kd_responses ((update_question ctx i f db)\<lparr>kd_responses := kd_responses db @ rs, kd_history := kd_history db @ [e]\<rparr>) = kd_responses db @ rs"
    "kd_history ((update_question ctx i f db)\<lparr>kd_responses := kd_responses db @ rs, kd_history := kd_history db @ [e]\<rparr>) = kd_history db @ [e]"
    by (simp_all add: update_question_def)
  ultimately show ?thesis unfolding questions_ok_def tables by (intro conjI)
qed

lemma answered_row_simps [simp]:
  "qn_id (answered_row rq b ctx c) = qn_id c" "qn_org (answered_row rq b ctx c) = qn_org c" "qn_project (answered_row rq b ctx c) = qn_project c"
  "internal (answered_row rq b ctx c) = internal c" "qn_requirement (answered_row rq b ctx c) = qn_requirement c"
  "qn_requirement_version (answered_row rq b ctx c) = qn_requirement_version c"
  "qn_requirement_revision (answered_row rq b ctx c) = qn_requirement_revision c"
  by (simp_all add: answered_row_def internal_def)

lemma reopened_row_simps [simp]:
  "qn_id (reopened_row rq c) = qn_id c" "qn_org (reopened_row rq c) = qn_org c" "qn_project (reopened_row rq c) = qn_project c"
  "internal (reopened_row rq c) = internal c" "qn_requirement (reopened_row rq c) = qn_requirement c"
  "qn_requirement_version (reopened_row rq c) = qn_requirement_version c"
  "qn_requirement_revision (reopened_row rq c) = qn_requirement_revision c"
  by (simp_all add: reopened_row_def internal_def)

lemma asked_ok:
  assumes ok: "questions_ok db" and run: "create_question_change rq b db ctx = Inr (db1, m)"
  shows "questions_ok db1"
  using run
proof (rule create_question_changeE)
  fix pin
  let ?c = "new_question rq b ctx pin" and ?e = "history_entry rq 3 ctx (rq_ids rq 2) 1 ''created'' (qc_reason b) None"
  assume fresh: "rq_ids rq 2 \<notin> qn_id ` set (kd_questions db)"
    and db1: "db1 = db\<lparr>kd_questions := kd_questions db @ [?c], kd_history := kd_history db @ [?e]\<rparr>"
  have c: "qn_id ?c = rq_ids rq 2" by (simp add: new_question_def)
  have none: "events_of ?c (kd_history db) = []" "responses_of ?c (kd_responses db) = []"
    unfolding events_of_def responses_of_def filter_empty_conv c using ok fresh unfolding questions_ok_def
    by (metis imageI subsetD)+
  have "events_of ?c (kd_history db @ [?e]) = events_of ?c (kd_history db) @ [?e]" using c by (simp add: events_of_def)
  then have "accounted_for ?c (events_of ?c (kd_history db @ [?e])) (responses_of ?c (kd_responses db))"
    unfolding none by (simp add: created_accounted)
  moreover have "events_of u (kd_history db @ [?e]) = events_of u (kd_history db)" if "u \<in> set (kd_questions db)" for u
    using fresh that by (auto simp: events_of_def)
  ultimately show ?thesis using ok fresh c by (auto simp: questions_ok_def db1)
qed

lemma answered_ok:
  assumes ok: "questions_ok db" and run: "answer_change rq i b db ctx = Inr (db1, m)"
  shows "questions_ok db1"
  using run
proof (rule answer_changeE)
  fix c :: question_row
  let ?e = "history_entry rq 3 ctx (to_lower i) (qn_version c + 1) ''responded'' (qs_reason b) (Some (rq_ids rq 2))"
  let ?r = "new_response rq i b ctx (qn_version c + 1)"
  assume c: "scoped_question db ctx i = Inr c" "qn_status c = ''open''"
    and db1: "db1 = (update_question ctx i (answered_row rq b ctx) db)\<lparr>kd_responses := kd_responses db @ [?r], kd_history := kd_history db @ [?e]\<rparr>"
  note row = scoped_question_Inr [OF c(1)]
  have "accounted_for c (events_of c (kd_history db)) (responses_of c (kd_responses db))" using ok row by (simp add: questions_ok_def)
  then have "accounted_for (answered_row rq b ctx c) (events_of c (kd_history db) @ [?e]) (responses_of c (kd_responses db) @ [?r])"
    using row c(2) by (intro answered_accounted) simp_all
  then show ?thesis unfolding db1 using row ok by (intro update_questions_ok) simp_all
qed

lemma reopened_ok:
  assumes ok: "questions_ok db" and run: "reopen_change rq i b db ctx = Inr (db1, m)"
  shows "questions_ok db1"
  using run
proof (rule reopen_changeE)
  fix c :: question_row
  let ?e = "history_entry rq 2 ctx (to_lower i) (qn_version c + 1) ''reopened'' (qo_reason b) (qn_latest c)"
  assume c: "scoped_question db ctx i = Inr c" "qn_status c = ''answered''"
    and db1: "db1 = (update_question ctx i (reopened_row rq) db)\<lparr>kd_history := kd_history db @ [?e]\<rparr>"
  note row = scoped_question_Inr [OF c(1)]
  have "accounted_for c (events_of c (kd_history db)) (responses_of c (kd_responses db))" using ok row by (simp add: questions_ok_def)
  then have "accounted_for (reopened_row rq c) (events_of c (kd_history db) @ [?e]) (responses_of c (kd_responses db) @ [])"
    using c(2) by (simp add: reopened_accounted)
  then have "questions_ok ((update_question ctx i (reopened_row rq) db)\<lparr>kd_responses := kd_responses db @ [], kd_history := kd_history db @ [?e]\<rparr>)"
    using row ok by (intro update_questions_ok) simp_all
  then show ?thesis unfolding db1 by (simp add: update_question_def)
qed

section \<open>Pinned revisions\<close>

text \<open>A pin names a recorded revision of a recorded requirement of the same project, and its number.\<close>

definition pin_good :: "'d requirement_db_scheme \<Rightarrow> question_row \<Rightarrow> bool" where
  "pin_good db c \<longleftrightarrow> (\<forall>q. qn_requirement c = Some q \<longrightarrow>
     (\<exists>v \<in> set (qd_revisions db). Some (rv_id v) = qn_requirement_revision c \<and> Some (rv_number v) = qn_requirement_version c \<and>
        rv_requirement v = q \<and> rv_org v = qn_org c \<and> rv_project v = qn_project c \<and> rv_provenance v = ''manually_recorded'') \<and>
     (\<exists>r \<in> set (qd_requirements db). rr_id r = q \<and> rr_org r = qn_org c \<and> rr_project r = qn_project c \<and> controlled r))"

definition pins_ok :: "'d clarification_db_scheme \<Rightarrow> bool" where
  "pins_ok db \<longleftrightarrow> (\<forall>c \<in> set (kd_questions db). internal c \<longrightarrow> pin_good db c)"

lemma pin_good_available: "pin_good db c \<Longrightarrow> in_project ctx (qn_org c) (qn_project c) \<Longrightarrow> pin_available db ctx c"
  by (auto simp: pin_good_def pin_available_def in_project_def controlled_def list_ex_iff split: option.splits) (metis)

lemma linked_pin_good:
  assumes ok: "register_ok H db" and link: "link_requirement db ctx (qc_requirement b) = Inr pin"
  shows "pin_good db (new_question rq b ctx pin)"
proof (cases "qc_requirement b")
  case None
  then show ?thesis by (simp add: pin_good_def new_question_def)
next
  case (Some i)
  with link obtain q where q: "linked_requirement db ctx i = Inr q" and pin: "pin = Some q" by (auto simp: link_requirement_def)
  from q have row: "q \<in> set (qd_requirements db)" "rr_id q = to_lower i" "in_project ctx (rr_org q) (rr_project q)" "controlled q"
    by (auto simp: linked_requirement_def controlled_def split: option.splits dest: find_Some_iff_in)
  let ?v = "last (history_of q (qd_revisions db))"
  from ok row(1,4) have t: "told_by H q (history_of q (qd_revisions db))" by (simp add: register_ok_def)
  then have "?v \<in> set (history_of q (qd_revisions db))" by (simp add: told_by_def)
  then have v: "?v \<in> set (qd_revisions db)" "rv_requirement ?v = rr_id q" by (auto simp: history_of_def)
  have facts: "revision_of q ?v" "rv_provenance ?v = ''manually_recorded''" "map rv_number (history_of q (qd_revisions db)) = [1..rr_revision q]"
    "rr_version q = rr_revision q" "history_of q (qd_revisions db) \<noteq> []" using t unfolding told_by_def by blast+
  have "rv_number ?v = rr_revision q"
  proof -
    have "rv_number ?v = last [1..rr_revision q]" using facts(3,5) by (metis last_map)
    moreover have "1 \<le> rr_revision q" using facts(3,5) by (metis list.map_disc_iff upto_empty not_le)
    ultimately show ?thesis by (simp add: upto_rec2)
  qed
  then show ?thesis
    using facts v row Some pin by (auto simp: pin_good_def new_question_def revision_of_def in_project_def)
qed

text \<open>What the intake keeps of the revisions and of the identity of requirements.\<close>

definition extends :: "'d requirement_db_scheme \<Rightarrow> 'd requirement_db_scheme \<Rightarrow> bool" where
  "extends db db' \<longleftrightarrow> (\<exists>vs. qd_revisions db' = qd_revisions db @ vs) \<and>
     (\<forall>r \<in> set (qd_requirements db). \<exists>r' \<in> set (qd_requirements db'). rr_id r' = rr_id r \<and> rr_org r' = rr_org r \<and> rr_project r' = rr_project r \<and>
        controlled r' = controlled r)"

lemma change_extends: "requirement_change H c db ctx = Inr (db1, m) \<Longrightarrow> extends db db1"
proof (cases c)
  case (CreateRequirement rq ref body)
  assume "requirement_change H c db ctx = Inr (db1, m)"
  with CreateRequirement obtain b where "create_requirement_change H rq b db ctx = Inr (db1, m)" by auto
  then show ?thesis by (rule create_requirement_changeE) (auto simp: extends_def)
next
  case (ReviseRequirement rq ref i body)
  assume "requirement_change H c db ctx = Inr (db1, m)"
  with ReviseRequirement obtain b where "revise_requirement_change H rq i b db ctx = Inr (db1, m)" by auto
  then show ?thesis
  proof (rule revise_requirement_changeE)
    fix r :: requirement_row and previous v
    let ?f = "\<lambda>u. if rr_id u = i \<and> in_project ctx (rr_org u) (rr_project u) then revised_row rq (ri_draft b) (rr_revision r + 1) (rr_version r + 1) u else u"
    assume "db1 = db\<lparr>qd_revisions := qd_revisions db @ [v], qd_requirements := map ?f (qd_requirements db)\<rparr>"
    then have tables: "qd_revisions db1 = qd_revisions db @ [v]" "qd_requirements db1 = map ?f (qd_requirements db)" by simp_all
    have same: "rr_id (?f u) = rr_id u \<and> rr_org (?f u) = rr_org u \<and> rr_project (?f u) = rr_project u \<and> controlled (?f u) = controlled u" for u
      by simp
    show ?thesis unfolding extends_def tables set_map using same by blast
  qed
qed

lemma extends_pin: "extends db db' \<Longrightarrow> pin_good db c \<Longrightarrow> pin_good db' c"
  unfolding extends_def pin_good_def by (metis Un_iff set_append)

section \<open>Every reachable state\<close>

definition scope_ok :: "hasher \<Rightarrow> 'd clarification_db_scheme \<Rightarrow> bool" where
  "scope_ok H db \<longleftrightarrow> register_ok H db \<and> questions_ok db \<and> pins_ok db"

lemma clarification_change_tables:
  "clarification_change c db ctx = Inr (db1, m) \<Longrightarrow> qd_requirements db1 = qd_requirements db \<and> qd_revisions db1 = qd_revisions db"
  by (cases c) (auto simp: update_question_def elim!: create_question_changeE answer_changeE reopen_changeE)

lemma pin_good_cong:
  "qn_requirement d = qn_requirement c \<Longrightarrow> qn_requirement_version d = qn_requirement_version c \<Longrightarrow> qn_requirement_revision d = qn_requirement_revision c \<Longrightarrow>
     qn_org d = qn_org c \<Longrightarrow> qn_project d = qn_project c \<Longrightarrow> pin_good db d \<longleftrightarrow> pin_good db c"
  by (simp add: pin_good_def)

lemma pins_ok_tables [simp]:
  "pins_ok (db\<lparr>kd_responses := rs\<rparr>) \<longleftrightarrow> pins_ok db" "pins_ok (db\<lparr>kd_history := es\<rparr>) \<longleftrightarrow> pins_ok db"
  by (simp_all add: pins_ok_def pin_good_def)

lemma pins_ok_update:
  assumes "pins_ok db" and "\<And>c. pin_good db (f c) = pin_good db c" and "\<And>c. internal (f c) = internal c"
  shows "pins_ok (update_question ctx i f db)"
proof -
  have "pin_good (update_question ctx i f db) u \<longleftrightarrow> pin_good db u" for u by (simp add: pin_good_def update_question_def)
  then show ?thesis unfolding pins_ok_def using assms by (auto simp: update_question_def pins_ok_def)
qed

lemma pins_ok_rows:
  "pins_ok db \<Longrightarrow> pins_ok (update_question ctx i (answered_row rq b ctx') db)" "pins_ok db \<Longrightarrow> pins_ok (update_question ctx i (reopened_row rq) db)"
  by (rule pins_ok_update; simp add: pin_good_def)+

lemma clarification_change_ok:
  assumes ok: "scope_ok H db" and run: "clarification_change c db ctx = Inr (db1, m)"
  shows "questions_ok db1 \<and> pins_ok db1"
proof
  show "questions_ok db1"
    using ok run by (cases c) (auto simp: scope_ok_def intro: asked_ok answered_ok reopened_ok)
  have keep: "pin_good db1 u \<longleftrightarrow> pin_good db u" for u
    using clarification_change_tables [OF run] by (simp add: pin_good_def)
  have old: "pin_good db u" if "u \<in> set (kd_questions db)" "internal u" for u
    using ok that by (simp add: scope_ok_def pins_ok_def)
  have pins: "pins_ok db" using ok by (simp add: scope_ok_def)
  show "pins_ok db1"
  proof (cases c)
    case (CreateQuestion rq ref body)
    with run obtain b where "create_question_change rq b db ctx = Inr (db1, m)" by auto
    then show ?thesis
    proof (rule create_question_changeE)
      fix pin
      assume pin: "link_requirement db ctx (qc_requirement b) = Inr pin" and "db1 = db\<lparr>kd_questions := kd_questions db @ [new_question rq b ctx pin],
          kd_history := kd_history db @ [history_entry rq 3 ctx (rq_ids rq 2) 1 ''created'' (qc_reason b) None]\<rparr>"
      then have "kd_questions db1 = kd_questions db @ [new_question rq b ctx pin]" by simp
      moreover have "pin_good db (new_question rq b ctx pin)" using ok pin by (intro linked_pin_good [of H]) (simp_all add: scope_ok_def)
      ultimately show ?thesis using old keep by (auto simp: pins_ok_def)
    qed
  next
    case (AnswerQuestion rq ref i body)
    with run obtain b where "answer_change rq i b db ctx = Inr (db1, m)" by auto
    then show ?thesis by (rule answer_changeE) (simp add: pins_ok_rows pins)
  next
    case (ReopenQuestion rq ref i body)
    with run obtain b where "reopen_change rq i b db ctx = Inr (db1, m)" by auto
    then show ?thesis by (rule reopen_changeE) (simp add: pins_ok_rows pins)
  qed
qed

lemma register_ok_cong:
  "qd_requirements db' = qd_requirements db \<Longrightarrow> qd_revisions db' = qd_revisions db \<Longrightarrow> register_ok H db' \<longleftrightarrow> register_ok H db"
  by (simp add: register_ok_def)

lemma questions_cong:
  assumes "requirement_db.more db' = requirement_db.more db"
  shows "questions_ok db' \<longleftrightarrow> questions_ok db"
  using same_questions [OF assms] by (simp add: questions_ok_def)

lemma requirement_step_scope:
  assumes ok: "scope_ok H db" and "requirement_step H db c = Inr db'"
  shows "scope_ok H db'"
  using assms(2)
proof (cases rule: requirement_stepE)
  case (executed ctx db1 m)
  have "requirement_db.more db1 = requirement_db.more db"
    using executed(1) by (cases c) (auto elim!: create_requirement_changeE revise_requirement_changeE)
  then have more: "requirement_db.more db' = requirement_db.more db" using executed(4) by simp
  have "extends db db'" using change_extends [OF executed(1)] executed(2,3) by (simp add: extends_def)
  then have "pins_ok db'"
    using ok same_questions [OF more] by (auto simp: scope_ok_def pins_ok_def intro: extends_pin)
  moreover have "register_ok H db'" using ok assms(2) by (auto simp: scope_ok_def intro: requirement_step_ok)
  ultimately show ?thesis using ok questions_cong [OF more] by (simp add: scope_ok_def)
qed (simp add: ok)

lemma clarification_step_scope:
  assumes ok: "scope_ok H db" and "clarification_step H db c = Inr db'"
  shows "scope_ok H db'"
  using assms(2)
proof (cases rule: clarification_stepE)
  case (executed ctx db1 m)
  note kept = clarification_change_tables [OF executed(1)] and good = clarification_change_ok [OF ok executed(1)]
  have "register_ok H db' \<longleftrightarrow> register_ok H db" using kept executed(3,4) by (intro register_ok_cong) simp_all
  moreover have "pins_ok db' \<longleftrightarrow> pins_ok db1" using same_questions [OF executed(2)] executed(3,4) by (simp add: pins_ok_def pin_good_def)
  ultimately show ?thesis using ok good questions_cong [OF executed(2)] by (simp add: scope_ok_def)
qed (simp add: ok)

lemma scope_step_ok: "scope_ok H db \<Longrightarrow> scope_step H db c = Inr db' \<Longrightarrow> scope_ok H db'"
  by (auto simp: scope_step_def intro: requirement_step_scope clarification_step_scope split: sum.splits)

interpretation scope_run: guarded_run "scope_step H" "scope_ok H" "\<lambda>_. True" for H
  by unfold_locales (rule scope_step_ok)

text \<open>Both registers without records of their own; there may be records of an earlier system.\<close>

definition nothing_asked :: "'d clarification_db_scheme \<Rightarrow> bool" where
  "nothing_asked db \<longleftrightarrow> nothing_recorded db \<and> distinct (map qn_id (kd_questions db)) \<and>
     qe_question ` set (kd_history db) \<subseteq> qn_id ` set (kd_questions db) \<and> qr_question ` set (kd_responses db) \<subseteq> qn_id ` set (kd_questions db) \<and>
     (\<forall>c \<in> set (kd_questions db). \<not> internal c)"

lemma scope_reached: "nothing_asked db \<Longrightarrow> scope_ok H (attempts (scope_step H) db cs)"
  by (rule scope_run.attempts_inv) (auto simp: nothing_asked_def scope_ok_def questions_ok_def pins_ok_def nothing_recorded_def register_ok_def)

text \<open>
  C7: the register of questions implements its state machine. Whatever commands of both
  registers are attempted, the history of a question leads from its creation through responses
  and reopenings in turn to exactly the state the row is in; the version of the row counts its
  events; the retained responses are those the history records, in order; and an answered row
  shows the last of them.
\<close>

theorem questions_follow_history:
  assumes "nothing_asked db" and "c \<in> set (kd_questions (attempts (scope_step H) db cs))" and "internal c"
    and "es = events_of c (kd_history (attempts (scope_step H) db cs))" and "rs = responses_of c (kd_responses (attempts (scope_step H) db cs))"
  shows "(\<exists>st. history_tells es st \<and> row_state c = Some st) \<and> map qe_version es = [1..qn_version c] \<and>
    map (\<lambda>r. (Some (qr_id r), qr_version r)) rs = recorded_responses es \<and> (qn_latest c \<noteq> None \<longrightarrow> qn_response c = Some (qr_response (last rs)))"
  using scope_reached [OF assms(1), of H cs] assms(2-)
  by (auto simp: scope_ok_def questions_ok_def accounted_for_def shows_response_def dest!: history_tells_versions)

text \<open>What is thrown when the pinned revision of a question is there.\<close>

definition question_codes :: "string list" where
  "question_codes = access_codes @ [''CLARIFICATION_VALIDATION_ERROR'', ''CLARIFICATION_NOT_FOUND'', ''CLARIFICATION_VERSION_CONFLICT'', ''CLARIFICATION_NOT_OPEN'',
    ''CLARIFICATION_NOT_ANSWERED'']"

lemma coded_question_detail [codes]: "coded cs (question_detail db ctx c)"
  unfolding question_detail_def question_summary_def can_clarify_def holds_any_def Let_def by (intro codes)

lemma coded_inserts [codes]: "coded question_codes (insert_history e db)" "coded question_codes (insert_response r db)"
  unfolding insert_history_def insert_response_def by (intro codes; simp add: question_codes_def access_codes_def)+

lemma coded_scoped_question:
  assumes "pins_ok db"
  shows "coded question_codes (scoped_question db ctx i)"
proof (cases "List.find (\<lambda>c. qn_id c = to_lower i \<and> in_project ctx (qn_org c) (qn_project c) \<and> qn_provenance c = ''internal_record'') (kd_questions db)")
  case None
  then show ?thesis by (simp add: scoped_question_def coded_def fail_def question_codes_def)
next
  case (Some c)
  from find_Some_iff_in [OF this] assms have "pin_available db ctx c"
    by (intro pin_good_available) (auto simp: pins_ok_def internal_def)
  with Some show ?thesis by (simp add: scoped_question_def coded_def)
qed

lemma coded_moves:
  assumes pins: "pins_ok db"
  shows "coded question_codes (answer_change rq i b db ctx)" "coded question_codes (reopen_change rq i b' db ctx)"
  unfolding answer_change_def reopen_change_def
  by (intro codes coded_scoped_question; simp add: pins pins_ok_rows question_codes_def)+

lemma coded_known: "pins_ok db \<Longrightarrow> coded question_codes (known_question i db ctx)"
  unfolding known_question_def by (intro codes coded_scoped_question)

lemma coded_parses [codes]: "coded question_codes (parse_answer b)" "coded question_codes (parse_reopen b')"
  unfolding parse_answer_def parse_reopen_def by (intro codes; simp add: question_codes_def)+

lemma coded_question_commands:
  assumes pins: "pins_ok db"
  shows "coded question_codes (answer_question H db rq ref i b)" "coded question_codes (reopen_question H db rq ref i b')"
    "coded question_codes (get_question db rq ref i)"
  unfolding answer_question_def reopen_question_def get_question_def with_access_def
  by (intro codes coded_known coded_moves coded_scoped_question pins; simp add: question_codes_def access_codes_def)+

text \<open>
  C27: the pinned revision of a question stays available. In every state that commands of both
  registers reach, reading, answering and reopening a question is never refused because the
  revision it refers to is gone.
\<close>

theorem pinned_revision_stays:
  assumes "nothing_asked db"
  shows "get_question (attempts (scope_step H) db cs) rq ref i \<noteq> Inl (Thrown ''CLARIFICATION_REQUIREMENT_UNAVAILABLE'' []) \<and>
    answer_question H (attempts (scope_step H) db cs) rq ref i b \<noteq> Inl (Thrown ''CLARIFICATION_REQUIREMENT_UNAVAILABLE'' []) \<and>
    reopen_question H (attempts (scope_step H) db cs) rq ref i b' \<noteq> Inl (Thrown ''CLARIFICATION_REQUIREMENT_UNAVAILABLE'' [])"
proof -
  have pins: "pins_ok (attempts (scope_step H) db cs)" using scope_reached [OF assms] by (simp add: scope_ok_def)
  show ?thesis
    using coded_question_commands(1) [OF pins, of H rq ref i b] coded_question_commands(2) [OF pins, of H rq ref i b']
      coded_question_commands(3) [OF pins, of rq ref i]
    by (auto simp: coded_def question_codes_def access_codes_def)
qed

section \<open>A question is never stuck\<close>

lemma scoped_question_found:
  assumes "pins_ok db" and "c \<in> set (kd_questions db)" and "qn_id c = to_lower i" and "in_project ctx (qn_org c) (qn_project c)" and "internal c"
  shows "\<exists>d. scoped_question db ctx i = Inr d"
proof (cases "List.find (\<lambda>c. qn_id c = to_lower i \<and> in_project ctx (qn_org c) (qn_project c) \<and> qn_provenance c = ''internal_record'') (kd_questions db)")
  case None
  with assms show ?thesis by (auto simp: find_None_iff internal_def)
next
  case (Some d)
  from find_Some_iff_in [OF this] assms(1) have "pin_available db ctx d"
    by (intro pin_good_available) (auto simp: pins_ok_def internal_def)
  with Some show ?thesis by (simp add: scoped_question_def)
qed

lemma access_permitted:
  assumes "check_access db rq reference opts = Inr ctx" and "needed_permissions opts \<noteq> []"
  shows "holds_any ctx (needed_permissions opts) = Inr True"
  using assms by (auto simp: check_access_def Let_def holds_any_def split: option.splits)

lemma question_detail_returns:
  assumes "check_access db\<^sub>0 rq reference clarification_access = Inr ctx"
  shows "\<exists>fields. question_detail db ctx c = Inr fields"
proof -
  have "needed_permissions clarification_access = clarification_permissions" "clarification_permissions \<noteq> []"
    by (simp_all add: needed_permissions_def clarification_access_def clarification_permissions_def)
  with access_permitted [OF assms] have "holds_any ctx clarification_permissions = Inr True" by simp
  then show ?thesis by (auto simp: question_detail_def question_summary_def can_clarify_def Let_def)
qed

lemma accounted_slots:
  assumes "accounted_for c es rs"
  shows "1 \<le> qn_version c" and "e \<in> set es \<Longrightarrow> qe_version e \<le> qn_version c" and "r \<in> set rs \<Longrightarrow> qr_version r \<le> qn_version c"
proof -
  obtain st where st: "history_tells es st" and n: "qn_version c = int (length es)"
    and rs: "map (\<lambda>r. (Some (qr_id r), qr_version r)) rs = recorded_responses es"
    using assms by (auto simp: accounted_for_def)
  have versions: "map qe_version es = [1..qn_version c]" using history_tells_versions [OF st] n by simp
  show "1 \<le> qn_version c" using st n by (cases rule: history_tells.cases) auto
  have upto: "qe_version e \<le> qn_version c" if "e \<in> set es" for e
    using that arg_cong [OF versions, of set] by (auto simp: set_eq_iff image_iff)
  show "e \<in> set es \<Longrightarrow> qe_version e \<le> qn_version c" by (rule upto)
  show "qr_version r \<le> qn_version c" if "r \<in> set rs"
  proof -
    have "(Some (qr_id r), qr_version r) \<in> set (recorded_responses es)" using that unfolding rs [symmetric] by (simp add: image_iff) blast
    with upto show ?thesis by (auto simp: recorded_responses_def)
  qed
qed

lemma accounted_status: "accounted_for c es rs \<Longrightarrow> qn_status c = ''open'' \<or> qn_status c = ''answered''"
  by (auto simp: accounted_for_def row_state_def split: option.splits if_splits)

lemma scoped_row:
  assumes ok: "scope_ok H db" and c: "c \<in> set (kd_questions db)" "internal c" "in_project ctx (qn_org c) (qn_project c)"
    and lower: "to_lower (qn_id c) = qn_id c"
  shows "scoped_question db ctx (qn_id c) = Inr c"
proof -
  have inj: "inj_on qn_id (set (kd_questions db))" using ok by (simp add: scope_ok_def questions_ok_def distinct_map)
  obtain d where d: "scoped_question db ctx (qn_id c) = Inr d"
    using scoped_question_found [of db c "qn_id c" ctx] ok c lower by (auto simp: scope_ok_def)
  from scoped_question_Inr [OF d] lower have "d = c" using inj_onD [OF inj, of d c] c(1) by simp
  with d show ?thesis by simp
qed

text \<open>With an unused key and fresh identifiers, the two changes are possible exactly in their states.\<close>

lemma answer_possible:
  assumes ok: "scope_ok H db" and c: "c \<in> set (kd_questions db)" "internal c" "in_project ctx (qn_org c) (qn_project c)"
    and lower: "to_lower (qn_id c) = qn_id c" and version: "qs_version b = qn_version c"
    and access: "check_access db rq reference clarification_access = Inr ctx"
    and fresh: "rq_ids rq 2 \<notin> qr_id ` set (kd_responses db)" "rq_ids rq 3 \<notin> qe_id ` set (kd_history db)"
  shows "(\<exists>db1 m. answer_change rq (qn_id c) b db ctx = Inr (db1, m)) \<longleftrightarrow> qn_status c = ''open''"
proof
  note row = scoped_row [OF ok c lower]
  show "\<exists>db1 m. answer_change rq (qn_id c) b db ctx = Inr (db1, m) \<Longrightarrow> qn_status c = ''open''"
    by (elim exE answer_changeE) (simp add: row)
  assume "qn_status c = ''open''"
  let ?r = "new_response rq (qn_id c) b ctx (qn_version c + 1)"
  let ?e = "history_entry rq 3 ctx (to_lower (qn_id c)) (qn_version c + 1) ''responded'' (qs_reason b) (Some (rq_ids rq 2))"
  let ?db2 = "(update_question ctx (qn_id c) (answered_row rq b ctx) (db\<lparr>kd_responses := kd_responses db @ [?r]\<rparr>))\<lparr>kd_history := kd_history db @ [?e]\<rparr>"
  have acc: "accounted_for c (events_of c (kd_history db)) (responses_of c (kd_responses db))" using ok c by (simp add: scope_ok_def questions_ok_def)
  have "(qn_id c, qn_version c + 1) \<notin> (\<lambda>r. (qr_question r, qr_version r)) ` set (kd_responses db)"
    using accounted_slots(3) [OF acc] by (force simp: responses_of_def)
  then have r: "insert_response ?r db = Inr (db\<lparr>kd_responses := kd_responses db @ [?r]\<rparr>)"
    using accounted_slots(1) [OF acc] fresh(1) lower by simp
  have "(qn_id c, qn_version c + 1) \<notin> (\<lambda>e. (qe_question e, qe_version e)) ` set (kd_history db)"
    using accounted_slots(2) [OF acc] by (force simp: events_of_def)
  then have e: "insert_history ?e (update_question ctx (qn_id c) (answered_row rq b ctx) (db\<lparr>kd_responses := kd_responses db @ [?r]\<rparr>)) = Inr ?db2"
    using accounted_slots(1) [OF acc] fresh(2) lower by (simp add: update_question_def)
  have "pins_ok ?db2" using ok by (simp add: pins_ok_rows scope_ok_def)
  moreover have "answered_row rq b ctx c \<in> set (kd_questions ?db2)" using c(1,3) lower by (force simp: update_question_def)
  ultimately obtain d where d: "scoped_question ?db2 ctx (qn_id c) = Inr d"
    using scoped_question_found [of ?db2 "answered_row rq b ctx c" "qn_id c" ctx] c lower by auto
  obtain fields where "question_detail ?db2 ctx d = Inr fields" using question_detail_returns [OF access] by blast
  then show "\<exists>db1 m. answer_change rq (qn_id c) b db ctx = Inr (db1, m)"
    unfolding answer_change_def row bind_res_simps r e d using version \<open>qn_status c = ''open''\<close> by (simp add: d)
qed

lemma reopen_possible:
  assumes ok: "scope_ok H db" and c: "c \<in> set (kd_questions db)" "internal c" "in_project ctx (qn_org c) (qn_project c)"
    and lower: "to_lower (qn_id c) = qn_id c" and version: "qo_version b = qn_version c"
    and access: "check_access db rq reference clarification_access = Inr ctx"
    and fresh: "rq_ids rq 2 \<notin> qe_id ` set (kd_history db)"
  shows "(\<exists>db1 m. reopen_change rq (qn_id c) b db ctx = Inr (db1, m)) \<longleftrightarrow> qn_status c = ''answered''"
proof
  note row = scoped_row [OF ok c lower]
  show "\<exists>db1 m. reopen_change rq (qn_id c) b db ctx = Inr (db1, m) \<Longrightarrow> qn_status c = ''answered''"
    by (elim exE reopen_changeE) (simp add: row)
  assume "qn_status c = ''answered''"
  let ?e = "history_entry rq 2 ctx (to_lower (qn_id c)) (qn_version c + 1) ''reopened'' (qo_reason b) (qn_latest c)"
  let ?db2 = "(update_question ctx (qn_id c) (reopened_row rq) db)\<lparr>kd_history := kd_history db @ [?e]\<rparr>"
  have acc: "accounted_for c (events_of c (kd_history db)) (responses_of c (kd_responses db))" using ok c by (simp add: scope_ok_def questions_ok_def)
  have "(qn_id c, qn_version c + 1) \<notin> (\<lambda>e. (qe_question e, qe_version e)) ` set (kd_history db)"
    using accounted_slots(2) [OF acc] by (force simp: events_of_def)
  then have e: "insert_history ?e (update_question ctx (qn_id c) (reopened_row rq) db) = Inr ?db2"
    using accounted_slots(1) [OF acc] fresh lower by (simp add: update_question_def)
  have "pins_ok ?db2" using ok by (simp add: pins_ok_rows scope_ok_def)
  moreover have "reopened_row rq c \<in> set (kd_questions ?db2)" using c(1,3) lower by (force simp: update_question_def)
  ultimately obtain d where d: "scoped_question ?db2 ctx (qn_id c) = Inr d"
    using scoped_question_found [of ?db2 "reopened_row rq c" "qn_id c" ctx] c lower by auto
  obtain fields where "question_detail ?db2 ctx d = Inr fields" using question_detail_returns [OF access] by blast
  then show "\<exists>db1 m. reopen_change rq (qn_id c) b db ctx = Inr (db1, m)"
    unfolding reopen_change_def row bind_res_simps e d using version \<open>qn_status c = ''answered''\<close> by (simp add: d)
qed

text \<open>
  C28: a question is never stuck. In every reachable state, for a request that has access, with
  an unused key, fresh identifiers and valid bodies with the version of the row, exactly one of
  answering and reopening is accepted: answering when the question is open, reopening when it
  is answered.
\<close>

theorem question_always_moves:
  assumes "nothing_asked db\<^sub>0" and db: "db = attempts (scope_step H) db\<^sub>0 cs" and c: "c \<in> set (kd_questions db)" "internal c"
    and access: "check_access db rq ref clarification_access = Inr ctx" "in_project ctx (qn_org c) (qn_project c)"
    and key: "command_key rq = Inr key" "find_receipt db (ac_org ctx) key = None"
    and fresh: "rq_ids rq 0 \<notin> au_id ` set (db_audit db)" "rq_ids rq 1 \<notin> ob_event ` set (db_outbox db)"
      "rq_ids rq 2 \<notin> qr_id ` set (kd_responses db)" "{rq_ids rq 2, rq_ids rq 3} \<inter> qe_id ` set (kd_history db) = {}"
    and id: "uuid_text (qn_id c)" "to_lower (qn_id c) = qn_id c"
    and a: "parse_answer a = Inr a'" "qs_version a' = qn_version c" and r: "parse_reopen r = Inr r'" "qo_version r' = qn_version c"
  shows "(qn_status c = ''open'' \<or> qn_status c = ''answered'') \<and>
    (returns (answer_question H db rq ref (qn_id c) a) \<longleftrightarrow> qn_status c = ''open'') \<and>
    (returns (reopen_question H db rq ref (qn_id c) r) \<longleftrightarrow> qn_status c = ''answered'')"
proof (intro conjI)
  have ok: "scope_ok H db" unfolding db using scope_reached [OF assms(1)] .
  then have "accounted_for c (events_of c (kd_history db)) (responses_of c (kd_responses db))" using c by (simp add: scope_ok_def questions_ok_def)
  then show "qn_status c = ''open'' \<or> qn_status c = ''answered''" by (rule accounted_status)
  have known: "known_question (qn_id c) db ctx = Inr ()" using scoped_row [OF ok c access(2) id(2)] by (simp add: known_question_def)
  note answer = answer_possible [OF ok c access(2) id(2) a(2) access(1) fresh(3)] and reopen = reopen_possible [OF ok c access(2) id(2) r(2) access(1)]
  show "returns (answer_question H db rq ref (qn_id c) a) \<longleftrightarrow> qn_status c = ''open''"
    unfolding answer_question_def using id(1) fresh(4)
    by (simp add: a(1) answering.fresh_command_returns [where authorize = "known_question (qn_id c)", OF key(1) access(1) known key(2) fresh(1,2)] answer)
  show "returns (reopen_question H db rq ref (qn_id c) r) \<longleftrightarrow> qn_status c = ''answered''"
    unfolding reopen_question_def using id(1) fresh(4)
    by (simp add: r(1) reopening.fresh_command_returns [where authorize = "known_question (qn_id c)", OF key(1) access(1) known key(2) fresh(1,2)] reopen)
qed

section \<open>Examples\<close>

definition empty_scope :: clarification_db where
  "empty_scope = \<lparr>db_orgs = db_orgs empty_work, db_users = db_users empty_work, db_sessions = db_sessions empty_work,
     db_memberships = db_memberships empty_work, db_projects = db_projects empty_work, db_grants = db_grants empty_work,
     db_receipts = [], db_audit = [], db_outbox = [], wd_stages = [], wd_packages = [rigging], wd_tasks = [hang_truss],
     sd_edges = [], sd_changes = [], sd_forecasts = [], qd_requirements = [], qd_revisions = [],
     kd_questions = [], kd_responses = [], kd_history = []\<rparr>"

definition power_body :: question_body where
  "power_body = \<lparr>qc_question = ''Power'', qc_attribution = ''site'', qc_owner = uid (CHR ''e''), qc_respondent = None, qc_requirement = None,
     qc_due = None, qc_reason = ''plan''\<rparr>"

definition ask_power :: clarification_command where
  "ask_power = CreateQuestion (example_request ''pm'' ''k1'' ''6789'' 10) ''PRJ-1'' power_body"

definition power_question :: question_row where
  "power_question = new_question (example_request ''pm'' ''k1'' ''6789'' 10) power_body pm_context None"

definition asked_scope :: clarification_db where
  "asked_scope = attempts (scope_step example_hasher) empty_scope [Inr ask_power]"

lemma question_texts [simp]: "trim ''Power'' = ''Power''" "trim ''site'' = ''site''" "trim ''yes'' = ''yes''" "trim ''crew'' = ''crew''"
  by code_simp+

lemma power_question_simps [simp]:
  "qn_id power_question = uid (CHR ''8'')" "qn_org power_question = uid (CHR ''a'')" "qn_project power_question = uid (CHR ''b'')"
  "qn_provenance power_question = ''internal_record''" "qn_requirement power_question = None" "qn_version power_question = 1"
  "qn_status power_question = ''open''" "internal power_question"
  by (simp_all add: power_question_def new_question_def power_body_def internal_def)

lemma uid_8_lower [simp]: "to_lower (uid (CHR ''8'')) = uid (CHR ''8'')"
  by (rule uid_lower) (simp add: lower_char_def)

lemma pm_clarify:
  "check_access empty_scope (example_request ''pm'' key ids 10) ''PRJ-1'' clarification_access = Inr pm_context"
  by (simp add: pm_context_def empty_scope_def clarification_access_def clarification_permissions_def work_eval)

lemma power_authorized: "authorize_question power_body empty_scope pm_context = Inr ()"
  by (simp add: authorize_question_def power_body_def member_or_def link_requirement_def project_member_def pm_context_def empty_scope_def work_eval)

lemma power_parsed: "parse_question power_body = Inr power_body"
  by (simp add: parse_question_def power_body_def sized_def opt_all_def)

lemma power_created:
  "\<exists>m. create_question_change (example_request ''pm'' ''k1'' ''6789'' 10) power_body empty_scope pm_context =
     Inr (empty_scope\<lparr>kd_questions := [power_question],
       kd_history := [history_entry (example_request ''pm'' ''k1'' ''6789'' 10) 3 pm_context (uid (CHR ''8'')) 1 ''created'' ''plan'' None]\<rparr>, m)"
proof -
  let ?rq = "example_request ''pm'' ''k1'' ''6789'' 10"
  let ?db = "empty_scope\<lparr>kd_questions := [power_question], kd_history := [history_entry ?rq 3 pm_context (uid (CHR ''8'')) 1 ''created'' ''plan'' None]\<rparr>"
  have tables: "kd_questions empty_scope = []" "kd_history empty_scope = []" by (simp_all add: empty_scope_def)
  have "in_project pm_context (uid (CHR ''a'')) (uid (CHR ''b''))" by (simp add: in_project_def)
  then have scoped: "scoped_question ?db pm_context (uid (CHR ''8'')) = Inr power_question"
    by (simp add: scoped_question_def pin_available_def)
  obtain fields where detail: "question_detail ?db pm_context power_question = Inr fields"
    using question_detail_returns [OF pm_clarify] by blast
  have body: "qc_requirement power_body = None" "qc_reason power_body = ''plan''" by (simp_all add: power_body_def)
  show ?thesis
    unfolding create_question_change_def Let_def link_requirement_def body option.case bind_res_simps power_question_def [symmetric]
    by (simp add: tables scoped detail)
qed

lemma asked:
  "kd_questions asked_scope = [power_question] \<and>
   kd_history asked_scope = [history_entry (example_request ''pm'' ''k1'' ''6789'' 10) 3 pm_context (uid (CHR ''8'')) 1 ''created'' ''plan'' None] \<and>
   kd_responses asked_scope = [] \<and> map rc_key (db_receipts asked_scope) = [''k1''] \<and> map au_id (db_audit asked_scope) = [uid (CHR ''6'')] \<and>
   map ob_event (db_outbox asked_scope) = [uid (CHR ''7'')] \<and>
   core_db.truncate asked_scope = (core_db.truncate empty_scope)\<lparr>db_receipts := db_receipts asked_scope, db_audit := db_audit asked_scope,
     db_outbox := db_outbox asked_scope\<rparr>"
proof -
  let ?rq = "example_request ''pm'' ''k1'' ''6789'' 10"
  obtain m where m: "create_question_change ?rq power_body empty_scope pm_context = Inr (empty_scope\<lparr>kd_questions := [power_question],
      kd_history := [history_entry ?rq 3 pm_context (uid (CHR ''8'')) 1 ''created'' ''plan'' None]\<rparr>, m)"
    using power_created by blast
  have tables: "db_receipts empty_scope = []" "db_audit empty_scope = []" "db_outbox empty_scope = []" "kd_responses empty_scope = []"
    by (simp_all add: empty_scope_def)
  have "command_key ?rq = Inr ''k1''" by (simp add: command_key_def)
  note run = asking.executed_command [where authorize = "authorize_question power_body", OF this pm_clarify power_authorized _ m]
  let ?c = "\<lparr>cm_operation = ''clarification.create'', cm_action = ''clarification.created'', cm_type = ''clarification'', cm_input = question_input power_body\<rparr>"
  have state: "asked_scope = empty_scope\<lparr>kd_questions := [power_question],
      kd_history := [history_entry ?rq 3 pm_context (uid (CHR ''8'')) 1 ''created'' ''plan'' None],
      db_audit := [audit_of example_hasher empty_scope ?rq pm_context ?c m], db_outbox := [outbox_of ?rq pm_context ?c m],
      db_receipts := [receipt_of example_hasher ?rq ''k1'' pm_context ?c m]\<rparr>"
    unfolding asked_scope_def attempts.simps scope_step_def ask_power_def sum.case clarification_step_def perform_clarification.simps create_question_def
      power_parsed bind_res_simps by (simp add: run find_receipt_def tables)
  show ?thesis unfolding state by (simp add: core_db.truncate_def audit_of_def outbox_of_def receipt_of_def tables)
qed

lemma scope_starts_empty: "nothing_asked empty_scope"
  by (simp add: nothing_asked_def nothing_recorded_def empty_scope_def)

theorem questions_follow_history_witness:
  "\<exists>st. history_tells (kd_history asked_scope) st \<and> row_state power_question = Some st"
proof -
  have "power_question \<in> set (kd_questions asked_scope)" using asked by simp
  from questions_follow_history [OF scope_starts_empty this [unfolded asked_scope_def] _ refl refl] have "\<exists>st. history_tells (events_of power_question (kd_history asked_scope)) st \<and>
      row_state power_question = Some st" unfolding asked_scope_def [symmetric] by simp
  moreover have "events_of power_question (kd_history asked_scope) = kd_history asked_scope" using asked by (simp add: events_of_def)
  ultimately show ?thesis by simp
qed

theorem pinned_revision_stays_witness:
  "get_question (attempts (scope_step example_hasher) empty_scope
       [Inl record_stage, Inr (CreateQuestion (example_request ''pm'' ''k2'' ''1234'' 10) ''PRJ-1'' (power_body\<lparr>qc_requirement := Some (uid (CHR ''8''))\<rparr>))])
     (example_request ''pm'' ''k3'' ''1234'' 10) ''PRJ-1'' (uid (CHR ''3'')) \<noteq> Inl (Thrown ''CLARIFICATION_REQUIREMENT_UNAVAILABLE'' [])"
  using pinned_revision_stays [OF scope_starts_empty] by blast

definition yes_body :: answer_body where
  "yes_body = \<lparr>qs_version = 1, qs_response = ''yes'', qs_respondent = ''crew'', qs_attribution = ''site'', qs_reason = ''plan''\<rparr>"

lemma pm_clarify_later:
  "check_access asked_scope (example_request ''pm'' key ids 10) ''PRJ-1'' clarification_access = Inr pm_context"
proof -
  have "check_access asked_scope (example_request ''pm'' key ids 10) ''PRJ-1'' clarification_access
      = check_access empty_scope (example_request ''pm'' key ids 10) ''PRJ-1'' clarification_access"
    by (rule same_access) (use asked in auto)
  then show ?thesis by (simp add: pm_clarify)
qed

theorem question_always_moves_witness:
  "returns (answer_question example_hasher asked_scope (example_request ''pm'' ''k2'' ''1234'' 10) ''PRJ-1'' (uid (CHR ''8'')) yes_body) \<and>
   \<not> returns (reopen_question example_hasher asked_scope (example_request ''pm'' ''k2'' ''1234'' 10) ''PRJ-1'' (uid (CHR ''8'')) \<lparr>qo_version = 1, qo_reason = ''plan''\<rparr>)"
proof -
  let ?rq = "example_request ''pm'' ''k2'' ''1234'' 10"
  have c: "power_question \<in> set (kd_questions asked_scope)" using asked by simp
  have scope: "in_project pm_context (qn_org power_question) (qn_project power_question)" by (simp add: in_project_def)
  have key: "command_key ?rq = Inr ''k2''" by (simp add: command_key_def)
  have none: "find_receipt asked_scope (ac_org pm_context) ''k2'' = None"
    using asked by (auto simp: find_receipt_def find_None_iff map_eq_Cons_conv)
  have fresh: "rq_ids ?rq 0 \<notin> au_id ` set (db_audit asked_scope)" "rq_ids ?rq 1 \<notin> ob_event ` set (db_outbox asked_scope)"
      "rq_ids ?rq 2 \<notin> qr_id ` set (kd_responses asked_scope)" "{rq_ids ?rq 2, rq_ids ?rq 3} \<inter> qe_id ` set (kd_history asked_scope) = {}"
    using asked by (auto simp: map_eq_Cons_conv)
  have uuid: "uuid_text (qn_id power_question)" unfolding power_question_simps by (rule uid_uuid) (simp add: is_hex_def lower_char_def)
  have answer: "parse_answer yes_body = Inr yes_body" "qs_version yes_body = qn_version power_question"
    by (simp_all add: parse_answer_def yes_body_def sized_def)
  have reopen: "parse_reopen \<lparr>qo_version = 1, qo_reason = ''plan''\<rparr> = Inr \<lparr>qo_version = 1, qo_reason = ''plan''\<rparr>"
    by (simp add: parse_reopen_def sized_def)
  show ?thesis
    using question_always_moves [OF scope_starts_empty asked_scope_def c _ pm_clarify_later scope key none fresh uuid _ answer reopen]
    by simp
qed

end
