(* ===== verification/Request_Guard.thy ===== *)
theory Request_Guard
  imports Project_Access
begin

text \<open>
  The guards in front of the endpoints: \<open>common/tenant.guard.ts\<close>, \<open>common/idempotency.guard.ts\<close>,
  \<open>auth/request-origin.ts\<close> and \<open>auth/local-synthetic-auth.ts\<close> of \<open>apps/api\<close>. A request
  carries its credentials in a header or a cookie. The first guard decides who is asking, the
  second keeps the answers of commands in memory. Requests run at the same time, so the second
  guard is a step relation: a handler has started, or it has answered. The decoding of a cookie
  and the configured web origins are arguments; identities of local development are left out.
\<close>

record http_request =
  hq_method :: string
  hq_base :: string
  hq_path :: string
  hq_authorization :: "string option"
  hq_parsed_cookie :: "string option"
  hq_cookie :: "string option"
  hq_origin :: "string option"
  hq_org :: "string option"
  hq_key :: "string option"
  hq_body :: json
  hq_now :: int

section \<open>Session credentials\<close>

text \<open>\<open>/^Bearer\s+(\S+)$/i\<close>.\<close>

definition bearer_token :: "string \<Rightarrow> string option" where
  "bearer_token s = (let rest = drop 6 s; t = dropWhile is_space rest in
     if to_lower (take 6 s) = ''bearer'' \<and> rest \<noteq> t \<and> t \<noteq> [] \<and> \<not> list_ex is_space t then Some t else None)"

definition cookie_name :: string where
  "cookie_name = ''eos_session=''"

fun split_at :: "char \<Rightarrow> string \<Rightarrow> string list" where
  "split_at c [] = [[]]"
| "split_at c (x # xs) = (if x = c then [] # split_at c xs else (case split_at c xs of [] \<Rightarrow> [[x]] | y # ys \<Rightarrow> (x # y) # ys))"

definition read_session_token :: "(string \<Rightarrow> string option) \<Rightarrow> http_request \<Rightarrow> string option" where
  "read_session_token decode hq = (case hq_authorization hq of
       Some a \<Rightarrow> bearer_token a
     | None \<Rightarrow> if text_given (hq_parsed_cookie hq) then hq_parsed_cookie hq
         else (case hq_cookie hq of None \<Rightarrow> None
           | Some c \<Rightarrow> (case List.find (\<lambda>p. starts_with p cookie_name) (map trim (split_at (CHR '';'') c)) of
               None \<Rightarrow> None
             | Some p \<Rightarrow> (case decode (drop (length cookie_name) p) of None \<Rightarrow> None | Some t \<Rightarrow> if t = [] then None else Some t))))"

text \<open>\<open>/(?:^|;)\s*eos_session=/.test(s)\<close>: at the start or after a semicolon.\<close>

fun has_session_cookie :: "bool \<Rightarrow> string \<Rightarrow> bool" where
  "has_session_cookie start [] = False"
| "has_session_cookie start (x # xs) = ((start \<and> starts_with (dropWhile is_space (x # xs)) cookie_name) \<or> has_session_cookie (x = CHR '';'') xs)"

definition safe_method :: "string \<Rightarrow> bool" where
  "safe_method m \<longleftrightarrow> to_upper m \<in> set [''GET'', ''HEAD'', ''OPTIONS'']"

definition has_cookie :: "http_request \<Rightarrow> bool" where
  "has_cookie hq \<longleftrightarrow> hq_parsed_cookie hq \<noteq> None \<or> has_session_cookie True (case hq_cookie hq of Some c \<Rightarrow> c | None \<Rightarrow> [])"

definition has_bearer :: "http_request \<Rightarrow> bool" where
  "has_bearer hq \<longleftrightarrow> bearer_token (case hq_authorization hq of Some a \<Rightarrow> a | None \<Rightarrow> []) \<noteq> None"

definition assert_request_origin :: "string set \<Rightarrow> http_request \<Rightarrow> unit res" where
  "assert_request_origin allowed hq = (if safe_method (if hq_method hq = [] then ''GET'' else hq_method hq) then Inr ()
     else throw_if ((case hq_origin hq of Some origin \<Rightarrow> origin \<notin> allowed | None \<Rightarrow> False) \<or>
         (has_cookie hq \<and> \<not> has_bearer hq \<and> hq_origin hq = None)) (Thrown ''UNTRUSTED_REQUEST_ORIGIN'' []))"

section \<open>Who is asking\<close>

record endpoint =
  ep_public :: bool
  ep_audiences :: "string list"
  ep_roles :: "string list"
  ep_permissions :: "string list"

record caller =
  cx_user :: string
  cx_org :: string
  cx_role :: string
  cx_audience :: string
  cx_super :: bool

text \<open>The rows of the session's query; memberships are in the order of their creation.\<close>

definition session_rows :: "'d core_db_scheme \<Rightarrow> string \<Rightarrow> http_request \<Rightarrow> caller list" where
  "session_rows db token hq = concat (map (\<lambda>s. concat (map (\<lambda>u.
       map (\<lambda>m. \<lparr>cx_user = us_id u, cx_org = mb_org m, cx_role = mb_role m, cx_audience = mb_audience m, cx_super = us_super u\<rparr>)
         (filter (\<lambda>m. mb_user m = us_id u \<and> \<not> mb_revoked m \<and> (text_given (hq_org hq) \<longrightarrow> Some (mb_org m) = hq_org hq)) (db_memberships db)))
       (filter (\<lambda>u. us_id u = ss_user s) (db_users db))))
     (filter (\<lambda>s. ss_token s = token \<and> hq_now hq < ss_expires s) (db_sessions db)))"

definition session_caller :: "'d core_db_scheme \<Rightarrow> string option \<Rightarrow> http_request \<Rightarrow> caller res" where
  "session_caller db token hq = (if \<not> text_given token then fail ''UNAUTHENTICATED''
     else (case first_row (session_rows db (the token) hq) of
         None \<Rightarrow> fail ''UNAUTHENTICATED''
       | Some c \<Rightarrow> if cx_user c = [] \<or> cx_org c = [] \<or> cx_role c = [] \<or> cx_audience c = [] then fail ''UNAUTHENTICATED'' else Inr c))"

definition role_allowed :: "endpoint \<Rightarrow> caller \<Rightarrow> bool" where
  "role_allowed ep c \<longleftrightarrow> ep_roles ep = [] \<or> cx_super c \<or> normalize_role (cx_role c) = ''super_admin'' \<or>
     (normalize_role (cx_role c) \<noteq> [] \<and> list_ex (\<lambda>r. normalize_role r = normalize_role (cx_role c)) (ep_roles ep))"

fun every_res :: "('a \<Rightarrow> bool res) \<Rightarrow> 'a list \<Rightarrow> bool res" where
  "every_res p [] = Inr True"
| "every_res p (x # xs) = bind_res (p x) (\<lambda>b. if b then every_res p xs else Inr False)"

definition permissions_held :: "endpoint \<Rightarrow> caller \<Rightarrow> bool res" where
  "permissions_held ep c = (if ep_permissions ep = [] \<or> cx_super c \<or> cx_role c = ''super_admin'' then Inr True
     else every_res (\<lambda>p. has_role_permission (cx_role c) p (cx_super c)) (ep_permissions ep))"

definition tenant_guard :: "string set \<Rightarrow> (string \<Rightarrow> string option) \<Rightarrow> 'd core_db_scheme \<Rightarrow> endpoint \<Rightarrow> http_request \<Rightarrow> caller option res" where
  "tenant_guard allowed decode db ep hq = (if ep_public ep then Inr None
     else bind_res (assert_request_origin allowed hq) (\<lambda>_.
     bind_res (session_caller db (read_session_token decode hq) hq) (\<lambda>c.
     bind_res (throw_if (ep_audiences ep \<noteq> [] \<and> cx_audience c \<notin> set (ep_audiences ep)) (Thrown ''FORBIDDEN_AUDIENCE'' [])) (\<lambda>_.
     bind_res (throw_if (\<not> role_allowed ep c) (Thrown ''FORBIDDEN_ROLE'' [])) (\<lambda>_.
     bind_res (permissions_held ep c) (\<lambda>held.
     bind_res (throw_if (\<not> held) (Thrown ''FORBIDDEN_PERMISSION'' [])) (\<lambda>_. Inr (Some c))))))))"

section \<open>Kept answers\<close>

type_synonym answer = "int \<times> json"

datatype guard_result =
    Unkeyed
  | Captured string string
  | Replayed answer

text \<open>What the guard adds to the request: organisation and actor, when the first guard ran.\<close>

definition or_default :: "string \<Rightarrow> string option \<Rightarrow> string" where
  "or_default d v = (case v of Some t \<Rightarrow> if t = [] then d else t | None \<Rightarrow> d)"

definition operation_of :: "http_request \<Rightarrow> string" where
  "operation_of hq = to_upper (hq_method hq) @ '' '' @ hq_base hq @ hq_path hq"

definition cache_key :: "caller option \<Rightarrow> http_request \<Rightarrow> string \<Rightarrow> string" where
  "cache_key c hq key = or_default ''default-org'' (map_option cx_org c) @ '':'' @ or_default ''default-actor'' (map_option cx_user c) @ '':'' @
     operation_of hq @ '':'' @ key"

definition falsy :: "json \<Rightarrow> bool" where
  "falsy v \<longleftrightarrow> v = JUndef \<or> v = JNull \<or> v = JBool False \<or> v = JNum 0 \<or> v = JStr []"

definition payload_hash :: "hasher \<Rightarrow> http_request \<Rightarrow> string" where
  "payload_hash H hq = digest_json H (if falsy (hq_body hq) then JObj [] else hq_body hq)"

type_synonym answer_store = "string \<rightharpoonup> string \<times> answer"

definition idempotency_guard :: "hasher \<Rightarrow> answer_store \<Rightarrow> caller option \<Rightarrow> http_request \<Rightarrow> guard_result res" where
  "idempotency_guard H store c hq = (if to_upper (hq_method hq) \<notin> set [''POST'', ''PUT'', ''PATCH''] then Inr Unkeyed
     else (case hq_key hq of
         None \<Rightarrow> fail ''MISSING_IDEMPOTENCY_KEY''
       | Some key \<Rightarrow> if key = [] then fail ''MISSING_IDEMPOTENCY_KEY''
           else (case store (cache_key c hq key) of
               Some (hash, a) \<Rightarrow> if hash = payload_hash H hq then Inr (Replayed a) else fail ''IDEMPOTENCY_CONFLICT''
             | None \<Rightarrow> Inr (Captured (cache_key c hq key) (payload_hash H hq)))))"

text \<open>\<open>response.json\<close> of a captured request, whoever calls it.\<close>

definition keep_answer :: "string \<Rightarrow> string \<Rightarrow> answer \<Rightarrow> answer_store \<Rightarrow> answer_store" where
  "keep_answer k hash a store = store(k \<mapsto> (hash, if fst a = 0 then 200 else fst a, snd a))"

text \<open>
  What a handler ends with: a value, an exception of the code (status, code, title, message,
  detail) or another error. Exceptions are answered by \<open>ProblemDetailsFilter\<close>, through the same
  \<open>response.json\<close>. Exceptions made from a text alone and the lists of invalid parameters,
  conditions and next actions are left out.
\<close>

datatype handler_end =
    Answered answer
  | HttpError int "string option" "string option" string "string option"
  | DatastoreError string
  | OtherError string

definition problem_document :: "string \<Rightarrow> int \<Rightarrow> string \<Rightarrow> string \<Rightarrow> string option \<Rightarrow> json" where
  "problem_document rid status code title detail = JObj
     [(''type'', JStr (''urn:e3-eos:problem:'' @ map (\<lambda>c. if c = CHR ''_'' then CHR ''-'' else c) (to_lower code))), (''title'', JStr title),
      (''status'', JNum (of_int status)), (''detail'', case detail of Some d \<Rightarrow> JStr d | None \<Rightarrow> JUndef), (''code'', JStr code), (''requestId'', JStr rid)]"

fun answer_of :: "string \<Rightarrow> handler_end \<Rightarrow> answer" where
  "answer_of rid (Answered a) = a"
| "answer_of rid (HttpError status code title message detail) = (status, problem_document rid status
     (or_default (if status = 403 then ''FORBIDDEN_SCOPE'' else if status = 404 then ''NOT_FOUND'' else ''ERROR'') code)
     (or_default (or_default ''HTTP Error'' (Some message)) title) detail)"
| "answer_of rid (DatastoreError message) =
     (503, problem_document rid 503 ''DATASTORE_UNAVAILABLE'' ''Durable Datastore Unavailable'' (Some message))"
| "answer_of rid (OtherError message) = (500, problem_document rid 500 ''INTERNAL_ERROR'' ''An internal server error occurred'' (Some message))"

record guard_server =
  gs_store :: answer_store
  gs_running :: "(string \<times> string) list"
  gs_started :: "(string \<times> string) list"

inductive guard_step :: "hasher \<Rightarrow> guard_server \<Rightarrow> guard_server \<Rightarrow> bool" for H where
  start: "idempotency_guard H (gs_store s) c hq = Inr (Captured k hash) \<Longrightarrow>
    guard_step H s (s\<lparr>gs_running := (k, hash) # gs_running s, gs_started := gs_started s @ [(k, hash)]\<rparr>)"
| replay: "idempotency_guard H (gs_store s) c hq = Inr (Replayed a) \<Longrightarrow> guard_step H s s"
| finish: "(k, hash) \<in> set (gs_running s) \<Longrightarrow>
    guard_step H s (s\<lparr>gs_running := remove1 (k, hash) (gs_running s), gs_store := keep_answer k hash (answer_of rid x) (gs_store s)\<rparr>)"

inductive_cases guard_stepE: "guard_step H s t"

section \<open>Cookies and origins\<close>

lemma split_at_nonempty [simp]: "split_at c s \<noteq> []"
  by (cases s) (auto split: list.splits)

lemma split_at_join: "\<exists>rest. s = hd (split_at c s) @ rest"
  by (induction s) (auto split: list.splits)

lemma starts_with_trim:
  assumes "starts_with (trim p) name" and "name \<noteq> []"
  shows "starts_with (dropWhile is_space (p @ rest)) name"
proof -
  have "prefix (trim p) (dropWhile is_space p)"
    unfolding trim_def by (metis rev_rev_ident suffix_dropWhile suffix_to_prefix)
  with assms have p: "prefix name (dropWhile is_space p)" by (auto simp: starts_with_def intro: prefix_order.trans)
  with assms(2) have "dropWhile is_space p \<noteq> []" by (metis prefix_Nil)
  then have "dropWhile is_space (p @ rest) = dropWhile is_space p @ rest" by (metis dropWhile_append dropWhile_eq_Nil_conv)
  with p show ?thesis by (auto simp: starts_with_def)
qed

lemma session_cookie_seen:
  assumes "(start \<and> starts_with (trim (hd (split_at (CHR '';'') s))) cookie_name) \<or>
    (\<exists>p \<in> set (tl (split_at (CHR '';'') s)). starts_with (trim p) cookie_name)"
  shows "has_session_cookie start s"
  using assms
proof (induction s arbitrary: start)
  case Nil
  then show ?case by (simp add: starts_with_def cookie_name_def trim_def)
next
  case (Cons x s)
  show ?case
  proof (cases "start \<and> starts_with (trim (hd (split_at (CHR '';'') (x # s)))) cookie_name")
    case True
    obtain rest where "x # s = hd (split_at (CHR '';'') (x # s)) @ rest" using split_at_join by blast
    with starts_with_trim [of "hd (split_at (CHR '';'') (x # s))" cookie_name rest] True
    have "starts_with (dropWhile is_space (x # s)) cookie_name" by (simp add: cookie_name_def)
    with True show ?thesis by simp
  next
    case False
    with Cons.prems obtain p where p: "p \<in> set (tl (split_at (CHR '';'') (x # s)))" "starts_with (trim p) cookie_name" by blast
    have "has_session_cookie (x = CHR '';'') s"
    proof (rule Cons.IH)
      show "(x = CHR '';'' \<and> starts_with (trim (hd (split_at (CHR '';'') s))) cookie_name) \<or>
          (\<exists>p \<in> set (tl (split_at (CHR '';'') s)). starts_with (trim p) cookie_name)"
      proof (cases "split_at (CHR '';'') s")
        case (Cons y ys)
        with p show ?thesis by (auto split: if_splits)
      qed simp
    qed
    then show ?thesis by simp
  qed
qed

lemma found_cookie_seen:
  "List.find (\<lambda>p. starts_with p cookie_name) (map trim (split_at (CHR '';'') s)) = Some q \<Longrightarrow> has_session_cookie True s"
proof -
  assume "List.find (\<lambda>p. starts_with p cookie_name) (map trim (split_at (CHR '';'') s)) = Some q"
  from find_Some_iff_in [OF this] obtain p where "p \<in> set (split_at (CHR '';'') s)" "starts_with (trim p) cookie_name"
    by auto
  then show ?thesis by (intro session_cookie_seen) (cases "split_at (CHR '';'') s"; auto)
qed

lemma cookie_needs_origin:
  assumes origin: "assert_request_origin allowed hq = Inr ()" and "\<not> safe_method (hq_method hq)" "hq_method hq \<noteq> []"
    and "hq_authorization hq = None" and token: "read_session_token decode hq = Some t"
  shows "\<exists>origin \<in> allowed. hq_origin hq = Some origin"
proof -
  have "has_cookie hq"
    using token assms(4) found_cookie_seen
    by (auto simp: read_session_token_def has_cookie_def text_given_def split: if_splits option.splits)
  moreover have "\<not> has_bearer hq" using assms(4) by (simp add: has_bearer_def bearer_token_def)
  ultimately show ?thesis using origin assms(2,3) by (auto simp: assert_request_origin_def split: option.splits)
qed

section \<open>Authorised requests\<close>

lemma every_res_True: "every_res p xs = Inr True \<longleftrightarrow> (\<forall>x \<in> set xs. p x = Inr True)"
  by (induction xs) (auto split: if_splits)

lemma super_admin_holds: "has_role_permission ''super_admin'' p s = Inr True"
  by (simp add: has_role_permission_def)

lemma permissions_held_each:
  "permissions_held ep c = Inr True \<Longrightarrow> p \<in> set (ep_permissions ep) \<Longrightarrow> has_role_permission (cx_role c) p (cx_super c) = Inr True"
  by (auto simp: permissions_held_def every_res_True super_admin_holds split: if_splits) (simp add: has_role_permission_def)

text \<open>
  C18: a request reaches a guarded handler only with a live session of a member who has what the
  endpoint asks for. The session is the one named by the request and has not expired; the
  caller is one of its user's memberships that are not revoked; audience, role and every
  permission of the endpoint are met; and a command that is authenticated by a cookie comes
  from a configured web origin.
\<close>

theorem guarded_requests_are_authorised:
  assumes "tenant_guard allowed decode db ep hq = Inr (Some c)"
  shows "\<exists>token s u m. read_session_token decode hq = Some token \<and>
    s \<in> set (db_sessions db) \<and> ss_token s = token \<and> hq_now hq < ss_expires s \<and> u \<in> set (db_users db) \<and> us_id u = ss_user s \<and>
    m \<in> set (db_memberships db) \<and> mb_user m = us_id u \<and> \<not> mb_revoked m \<and>
    c = \<lparr>cx_user = us_id u, cx_org = mb_org m, cx_role = mb_role m, cx_audience = mb_audience m, cx_super = us_super u\<rparr> \<and>
    (ep_audiences ep \<noteq> [] \<longrightarrow> mb_audience m \<in> set (ep_audiences ep)) \<and> role_allowed ep c \<and>
    (\<forall>p \<in> set (ep_permissions ep). has_role_permission (mb_role m) p (us_super u) = Inr True) \<and>
    (\<not> safe_method (hq_method hq) \<and> hq_method hq \<noteq> [] \<and> hq_authorization hq = None \<longrightarrow> (\<exists>origin \<in> allowed. hq_origin hq = Some origin))"
proof -
  from assms have run: "assert_request_origin allowed hq = Inr ()" "session_caller db (read_session_token decode hq) hq = Inr c"
      "ep_audiences ep \<noteq> [] \<longrightarrow> cx_audience c \<in> set (ep_audiences ep)" "role_allowed ep c" "permissions_held ep c = Inr True"
    by (auto simp: tenant_guard_def split: if_splits)
  from run(2) obtain token where token: "read_session_token decode hq = Some token" "first_row (session_rows db token hq) = Some c"
    by (auto simp: session_caller_def text_given_def split: if_splits option.splits)
  from first_row_in [OF token(2)] obtain s u m where rows: "s \<in> set (db_sessions db)" "ss_token s = token" "hq_now hq < ss_expires s"
      "u \<in> set (db_users db)" "us_id u = ss_user s" "m \<in> set (db_memberships db)" "mb_user m = us_id u" "\<not> mb_revoked m"
      and c: "c = \<lparr>cx_user = us_id u, cx_org = mb_org m, cx_role = mb_role m, cx_audience = mb_audience m, cx_super = us_super u\<rparr>"
    by (auto simp: session_rows_def)
  have "\<forall>p \<in> set (ep_permissions ep). has_role_permission (mb_role m) p (us_super u) = Inr True"
    using permissions_held_each [OF run(5)] by (simp add: c)
  moreover have "\<not> safe_method (hq_method hq) \<and> hq_method hq \<noteq> [] \<and> hq_authorization hq = None \<longrightarrow> (\<exists>origin \<in> allowed. hq_origin hq = Some origin)"
    using cookie_needs_origin [OF run(1) _ _ _ token(1)] by blast
  ultimately show ?thesis using token(1) rows run(3,4) c by (intro exI [of _ token] exI [of _ s] exI [of _ u] exI [of _ m]) auto
qed

section \<open>Answers once given\<close>

text \<open>Of a key: what is kept, what runs, what has been started.\<close>

definition settled :: "string \<Rightarrow> string \<times> answer \<Rightarrow> (string \<times> string) list \<Rightarrow> guard_server \<Rightarrow> bool" where
  "settled k e started s \<longleftrightarrow> gs_store s k = Some e \<and> (\<forall>hash. (k, hash) \<notin> set (gs_running s)) \<and> filter (\<lambda>r. fst r = k) (gs_started s) = started"

lemma captured_unknown: "idempotency_guard H store c hq = Inr (Captured k hash) \<Longrightarrow> store k = None"
  by (auto simp: idempotency_guard_def split: if_splits option.splits prod.splits)

lemma step_settled: "guard_step H s t \<Longrightarrow> settled k e started s \<Longrightarrow> settled k e started t"
  by (induction rule: guard_step.induct) (auto simp: settled_def keep_answer_def dest: captured_unknown notin_set_remove1)

text \<open>
  C19: an answer, once kept, is the answer. From a state in which a key has an answer and no
  handler runs for it, whatever requests follow, the answer is not changed and no handler is
  started for the key again: every POST, PUT or PATCH request (the methods the guard treats)
  with the key and the same payload gets it, and one with another payload is refused. The
  answer may be that of an error.
\<close>

theorem kept_answer_is_final:
  assumes "(guard_step H)\<^sup>*\<^sup>* s t" and "gs_store s k = Some (hash, a)" and "\<And>h. (k, h) \<notin> set (gs_running s)"
    and "idempotency_guard H (gs_store t) c hq = r" and "hq_key hq = Some key" "key \<noteq> []" "cache_key c hq key = k"
    and "to_upper (hq_method hq) \<in> set [''POST'', ''PUT'', ''PATCH'']"
  shows "filter (\<lambda>r. fst r = k) (gs_started t) = filter (\<lambda>r. fst r = k) (gs_started s) \<and>
    r = (if hash = payload_hash H hq then Inr (Replayed a) else fail ''IDEMPOTENCY_CONFLICT'')"
proof -
  have "settled k (hash, a) (filter (\<lambda>r. fst r = k) (gs_started s)) s" using assms(2,3) by (simp add: settled_def)
  with assms(1) have "settled k (hash, a) (filter (\<lambda>r. fst r = k) (gs_started s)) t"
    by (induction rule: rtranclp_induct) (auto intro: step_settled)
  then show ?thesis using assms(4-) by (auto simp: settled_def idempotency_guard_def)
qed

text \<open>
  While a handler runs nothing is kept, so a request that arrives again before the first answer
  is captured again: both handlers run, and either answer can be the one that is kept.
\<close>

lemma concurrent_requests_both_run:
  assumes "idempotency_guard H (gs_store s) c hq = Inr (Captured k hash)" and that: "fst a \<noteq> 0"
  shows "\<exists>t. (guard_step H)\<^sup>*\<^sup>* s t \<and> gs_started t = gs_started s @ [(k, hash), (k, hash)] \<and> gs_store t k = Some (hash, a)"
proof -
  let ?r = "\<lambda>s. s\<lparr>gs_running := (k, hash) # gs_running s, gs_started := gs_started s @ [(k, hash)]\<rparr>"
  let ?t = "(?r (?r s))\<lparr>gs_running := remove1 (k, hash) (gs_running (?r (?r s))), gs_store := keep_answer k hash (answer_of [] (Answered a)) (gs_store (?r (?r s)))\<rparr>"
  have "guard_step H s (?r s)" by (rule guard_step.start [OF assms(1)])
  moreover have "guard_step H (?r s) (?r (?r s))" by (rule guard_step.start [of _ _ c hq]) (simp add: assms(1))
  moreover have "guard_step H (?r (?r s)) ?t" by (rule guard_step.finish) simp
  ultimately have "(guard_step H)\<^sup>*\<^sup>* s ?t" by (meson converse_rtranclp_into_rtranclp rtranclp.rtrancl_refl)
  moreover have "gs_started ?t = gs_started s @ [(k, hash), (k, hash)]" "gs_store ?t k = Some (hash, a)"
    using that by (simp_all add: keep_answer_def)
  ultimately show ?thesis by blast
qed

section \<open>Examples\<close>

definition grant_request :: http_request where
  "grant_request = \<lparr>hq_method = ''POST'', hq_base = ''/api'', hq_path = ''/tasks'', hq_authorization = None, hq_parsed_cookie = None,
     hq_cookie = Some ''theme=dark; eos_session=pm'', hq_origin = Some ''https://eos'', hq_org = Some (uid (CHR ''a'')), hq_key = Some ''k1'',
     hq_body = JObj [], hq_now = 10\<rparr>"

definition task_endpoint :: endpoint where
  "task_endpoint = \<lparr>ep_public = False, ep_audiences = [''internal''], ep_roles = [], ep_permissions = [''projects.manage'']\<rparr>"

lemma grant_request_token: "read_session_token Some grant_request = Some ''pm''"
  unfolding grant_request_def by code_simp

lemma grant_request_origin: "assert_request_origin {''https://eos''} grant_request = Inr ()"
  by (simp add: assert_request_origin_def grant_request_def)

lemma grant_request_passes: "\<exists>c. tenant_guard {''https://eos''} Some example_core task_endpoint grant_request = Inr (Some c) \<and> cx_user c = ''u2''"
proof -
  have rows: "session_rows example_core ''pm'' grant_request =
      [\<lparr>cx_user = ''u2'', cx_org = uid (CHR ''a''), cx_role = ''project_manager'', cx_audience = ''internal'', cx_super = False\<rparr>]"
    by (simp add: session_rows_def example_core_def grant_request_def)
  have "uid (CHR ''a'') \<noteq> []" by (simp add: uid_def)
  then show ?thesis
    by (simp add: tenant_guard_def grant_request_origin grant_request_token session_caller_def text_given_def rows first_row_def task_endpoint_def
        role_allowed_def permissions_held_def)
qed

theorem guarded_requests_are_authorised_witness:
  "\<exists>s m. s \<in> set (db_sessions example_core) \<and> hq_now grant_request < ss_expires s \<and> m \<in> set (db_memberships example_core) \<and> \<not> mb_revoked m \<and>
     has_role_permission (mb_role m) ''projects.manage'' False = Inr True"
proof -
  obtain c where c: "tenant_guard {''https://eos''} Some example_core task_endpoint grant_request = Inr (Some c)" "cx_user c = ''u2''"
    using grant_request_passes by blast
  from guarded_requests_are_authorised [OF c(1)] obtain s u m where found: "s \<in> set (db_sessions example_core)" "hq_now grant_request < ss_expires s"
      "u \<in> set (db_users example_core)" "m \<in> set (db_memberships example_core)" "\<not> mb_revoked m" "cx_user c = us_id u"
      "\<forall>p \<in> set (ep_permissions task_endpoint). has_role_permission (mb_role m) p (us_super u) = Inr True"
    by (elim exE conjE) (rule that; simp)
  have "\<forall>u \<in> set (db_users example_core). us_id u = ''u2'' \<longrightarrow> \<not> us_super u" by (simp add: example_core_def)
  with found(3,6) c(2) have "us_super u = False" by metis
  with found show ?thesis by (auto simp: task_endpoint_def)
qed

text \<open>A datastore error, once answered, is what every repetition of the request gets.\<close>

definition failed_server :: guard_server where
  "failed_server = \<lparr>gs_store = keep_answer (cache_key None grant_request ''k1'') (payload_hash example_hasher grant_request)
       (answer_of ''r1'' (DatastoreError ''down'')) Map.empty, gs_running = [], gs_started = []\<rparr>"

theorem kept_answer_is_final_witness:
  "\<exists>body. idempotency_guard example_hasher (gs_store failed_server) None grant_request = Inr (Replayed (503, body))"
proof -
  have "gs_store failed_server (cache_key None grant_request ''k1'') =
      Some (payload_hash example_hasher grant_request, answer_of ''r1'' (DatastoreError ''down''))"
    by (simp add: failed_server_def keep_answer_def)
  from kept_answer_is_final [OF rtranclp.rtrancl_refl this _ refl, where c = None and hq = grant_request and key = "''k1''"] show ?thesis
    by (simp add: failed_server_def grant_request_def to_upper_def upper_char_def)
qed

end
