(* ===== verification/Field_Observation.thy ===== *)
theory Field_Observation
  imports Work
begin

text \<open>
  Observations from the field: \<open>apps/api/src/field-sync/field-observations.service.ts\<close>. A device
  sends a note with an identifier of its own; a repetition is recognised by that identifier,
  whatever key the transport uses, and gets the receipt of the first capture. An observation
  about a task records whether the version the device had seen was still the current one.
\<close>

section \<open>The table\<close>

record observation_row =
  fv_id :: string
  fv_org :: string
  fv_project :: string
  fv_actor :: string
  fv_operation :: string
  fv_device :: string
  fv_captured :: int
  fv_received :: int
  fv_task :: "string option"
  fv_base :: "int option"
  fv_current :: "int option"
  fv_note :: string
  fv_reason :: string
  fv_hash :: string
  fv_status :: string
  fv_audit :: string
  fv_event :: string

record field_db = work_db +
  fd_observations :: "observation_row list"

section \<open>Input\<close>

record observation_body =
  vb_operation :: string
  vb_device :: string
  vb_captured :: int
  vb_task :: "string option"
  vb_base :: "int option"
  vb_note :: string
  vb_reason :: string

definition plain_text :: "string \<Rightarrow> bool" where
  "plain_text s \<longleftrightarrow> sized 1 2000 s \<and> CHR 0x00 \<notin> set (trim s)"

definition validate_observation :: "observation_body \<Rightarrow> observation_body res" where
  "validate_observation b = (if uuid_text (vb_operation b) \<and> uuid_text (vb_device b) \<and> opt_all uuid_text (vb_task b) \<and>
       opt_all (\<lambda>v. 0 < v \<and> v \<le> 2147483647) (vb_base b) \<and> plain_text (vb_note b) \<and> plain_text (vb_reason b) \<and>
       (vb_base b = None \<or> vb_task b \<noteq> None)
     then Inr (b\<lparr>vb_operation := to_lower (vb_operation b), vb_device := to_lower (vb_device b), vb_task := map_option to_lower (vb_task b),
       vb_note := trim (vb_note b), vb_reason := trim (vb_reason b)\<rparr>)
     else fail ''FIELD_OBSERVATION_SCHEMA_REJECTED'')"

definition int_or_null :: "int option \<Rightarrow> json" where
  "int_or_null v = (case v of Some n \<Rightarrow> JNum (of_int n) | None \<Rightarrow> JNull)"

definition observation_fields :: "observation_body \<Rightarrow> (string \<times> json) list" where
  "observation_fields b = [(''clientOperationId'', JStr (vb_operation b)), (''deviceId'', JStr (vb_device b)), (''capturedAt'', JStr (iso_text (vb_captured b))),
     (''taskId'', text_json (vb_task b)), (''baseVersion'', int_or_null (vb_base b)), (''note'', JStr (vb_note b)), (''reason'', JStr (vb_reason b))]"

definition observation_hash :: "hasher \<Rightarrow> access_context \<Rightarrow> observation_body \<Rightarrow> string" where
  "observation_hash H ctx b = digest_json H (JObj ([(''projectId'', JStr (pj_id (ac_project ctx))), (''actorId'', JStr (ac_user ctx))] @ observation_fields b))"

section \<open>The service\<close>

definition observation_receipt :: "observation_row \<Rightarrow> json" where
  "observation_receipt v = JObj [(''id'', JStr (fv_id v)), (''organisationId'', JStr (fv_org v)), (''projectId'', JStr (fv_project v)), (''actorId'', JStr (fv_actor v)),
     (''clientOperationId'', JStr (fv_operation v)), (''deviceId'', JStr (fv_device v)), (''deviceIdClaimed'', JBool True),
     (''capturedAt'', JStr (iso_text (fv_captured v))), (''receivedAt'', JStr (iso_text (fv_received v))), (''clientTimestampClaimed'', JBool True),
     (''taskId'', text_json (fv_task v)), (''baseVersion'', int_or_null (fv_base v)), (''currentTaskVersion'', int_or_null (fv_current v)),
     (''status'', JStr (fv_status v)), (''note'', JStr (fv_note v)), (''reason'', JStr (fv_reason v)), (''payloadHash'', JStr (fv_hash v)),
     (''auditEventId'', JStr (fv_audit v)), (''eventId'', JStr (fv_event v)), (''authorityEffect'', JStr ''observation_only''),
     (''contractVersion'', JStr ''field-observation.v1'')]"

definition observation_response :: "observation_row \<Rightarrow> json" where
  "observation_response v = JObj [(''data'', observation_receipt v),
     (''meta'', JObj [(''requestId'', JStr (fv_audit v)), (''dataAsOf'', JStr (iso_text (fv_received v)))])]"

definition observation_permissions :: "string list" where
  "observation_permissions = [''projects.manage'', ''operations.manage'', ''field.inspect'']"

definition observation_access :: access_options where
  "observation_access = \<lparr>ao_level = Editor, ao_permissions = Some observation_permissions, ao_audiences = Some [''internal'']\<rparr>"

definition capture_operation :: string where
  "capture_operation = ''field.observation.capture''"

definition field_task :: "'d work_db_scheme \<Rightarrow> access_context \<Rightarrow> string option \<Rightarrow> task_row option res" where
  "field_task db ctx i = (case i of None \<Rightarrow> Inr None
     | Some i \<Rightarrow> (case List.find (\<lambda>t. ti_id t = i \<and> in_project ctx (ti_org t) (ti_project t)) (wd_tasks db) of
         None \<Rightarrow> fail ''FIELD_TASK_UNAVAILABLE''
       | Some t \<Rightarrow> if task_in_scope ctx t then Inr (Some t) else fail ''FIELD_TASK_UNAVAILABLE''))"

definition transport_receipt :: "access_context \<Rightarrow> string \<Rightarrow> string \<Rightarrow> json \<Rightarrow> receipt_row" where
  "transport_receipt ctx key hash response = \<lparr>rc_org = ac_org ctx, rc_actor = ac_user ctx, rc_key = key, rc_operation = capture_operation,
     rc_hash = hash, rc_response = response\<rparr>"

definition save_transport :: "receipt_row \<Rightarrow> 'd core_db_scheme \<Rightarrow> 'd core_db_scheme res" where
  "save_transport r db = bind_res (insert_row (\<lambda>r. (rc_org r, rc_key r)) r (db_receipts db)) (\<lambda>rows. Inr (db\<lparr>db_receipts := rows\<rparr>))"

definition find_observation :: "'d field_db_scheme \<Rightarrow> access_context \<Rightarrow> string \<Rightarrow> observation_row option" where
  "find_observation db ctx operation =
     List.find (\<lambda>v. fv_org v = ac_org ctx \<and> fv_actor v = ac_user ctx \<and> fv_operation v = operation) (fd_observations db)"

definition observation_status :: "int option \<Rightarrow> int option \<Rightarrow> string" where
  "observation_status base current = (if base \<noteq> None \<and> base \<noteq> current then ''accepted_as_observation_with_conflict'' else ''accepted'')"

definition new_observation :: "api_request \<Rightarrow> access_context \<Rightarrow> observation_body \<Rightarrow> string \<Rightarrow> int option \<Rightarrow> observation_row" where
  "new_observation rq ctx b hash current = \<lparr>fv_id = rq_ids rq 2, fv_org = ac_org ctx, fv_project = pj_id (ac_project ctx), fv_actor = ac_user ctx,
     fv_operation = vb_operation b, fv_device = vb_device b, fv_captured = vb_captured b, fv_received = rq_now rq, fv_task = vb_task b,
     fv_base = vb_base b, fv_current = current, fv_note = vb_note b, fv_reason = vb_reason b, fv_hash = hash,
     fv_status = observation_status (vb_base b) current, fv_audit = rq_ids rq 0, fv_event = rq_ids rq 1\<rparr>"

definition observation_event :: "observation_row \<Rightarrow> (string \<times> json) list" where
  "observation_event v = [(''observationId'', JStr (fv_id v)), (''projectId'', JStr (fv_project v)), (''clientOperationId'', JStr (fv_operation v)),
     (''taskId'', text_json (fv_task v)), (''baseVersion'', int_or_null (fv_base v)), (''currentTaskVersion'', int_or_null (fv_current v)),
     (''status'', JStr (fv_status v)), (''payloadHash'', JStr (fv_hash v)), (''capturedAt'', JStr (iso_text (fv_captured v))),
     (''receivedAt'', JStr (iso_text (fv_received v))), (''clientTimestampClaimed'', JBool True), (''authorityEffect'', JStr ''observation_only'')]"

definition insert_observation :: "observation_row \<Rightarrow> observation_row list \<Rightarrow> observation_row list res" where
  "insert_observation v rows = bind_res (insert_row (\<lambda>v. (fv_org v, fv_actor v, fv_operation v)) v rows) (\<lambda>_.
     bind_res (insert_row fv_audit v rows) (\<lambda>_. bind_res (insert_row fv_event v rows) (\<lambda>_. insert_row fv_id v rows)))"

definition observation_audit :: "hasher \<Rightarrow> 'd core_db_scheme \<Rightarrow> observation_row \<Rightarrow> audit_row" where
  "observation_audit H db v = \<lparr>au_id = fv_audit v, au_org = fv_org v, au_actor = fv_actor v, au_action = ''field.observation.recorded'',
     au_type = ''field_observation'', au_target = fv_id v, au_version = Some 1, au_digest = digest_json H (JObj (observation_event v)),
     au_previous = latest_digest db (fv_org v), au_at = fv_received v\<rparr>"

definition observation_outbox :: "observation_row \<Rightarrow> outbox_row" where
  "observation_outbox v = \<lparr>ob_event = fv_event v, ob_org = fv_org v, ob_type = ''field.observation.recorded.v1'',
     ob_payload = JObj (observation_event v @ [(''auditEventId'', JStr (fv_audit v))])\<rparr>"

definition capture :: "hasher \<Rightarrow> 'd field_db_scheme \<Rightarrow> api_request \<Rightarrow> access_context \<Rightarrow> observation_body \<Rightarrow> string \<Rightarrow> string \<Rightarrow> int option \<Rightarrow> ('d field_db_scheme \<times> json) res" where
  "capture H db rq ctx b key hash current = (let v = new_observation rq ctx b hash current in
     bind_res (insert_row au_id (observation_audit H db v) (db_audit db)) (\<lambda>audits.
     bind_res (insert_row ob_event (observation_outbox v) (db_outbox db)) (\<lambda>events.
     bind_res (insert_observation v (fd_observations db)) (\<lambda>rows.
     bind_res (save_transport (transport_receipt ctx key hash (observation_response v))
       (db\<lparr>db_audit := audits, db_outbox := events, fd_observations := rows\<rparr>)) (\<lambda>db1. Inr (db1, observation_response v))))))"

definition create_observation :: "hasher \<Rightarrow> 'd field_db_scheme \<Rightarrow> api_request \<Rightarrow> string \<Rightarrow> observation_body \<Rightarrow> ('d field_db_scheme \<times> json) res" where
  "create_observation H db rq reference body = bind_res (validate_observation body) (\<lambda>b. bind_res (command_key rq) (\<lambda>key.
     with_access db rq reference observation_access (\<lambda>db ctx.
     bind_res (field_task db ctx (vb_task b)) (\<lambda>task.
     let hash = observation_hash H ctx b; transport = find_receipt db (ac_org ctx) key in
     bind_res (throw_if (case transport of None \<Rightarrow> False | Some r \<Rightarrow> rc_actor r \<noteq> ac_user ctx \<or> rc_operation r \<noteq> capture_operation \<or> rc_hash r \<noteq> hash)
       (Thrown ''IDEMPOTENCY_CONFLICT'' [])) (\<lambda>_.
     case find_observation db ctx (vb_operation b) of
       Some prior \<Rightarrow>
         bind_res (throw_if (fv_project prior \<noteq> pj_id (ac_project ctx) \<or> fv_hash prior \<noteq> hash) (Thrown ''FIELD_OPERATION_CONFLICT'' [])) (\<lambda>_.
         let response = observation_response prior in
         bind_res (if transport = None then save_transport (transport_receipt ctx key hash response) db else Inr db) (\<lambda>db1. Inr (db1, response)))
     | None \<Rightarrow> bind_res (throw_if (transport \<noteq> None) (Thrown ''FIELD_RECEIPT_INCONSISTENT'' [])) (\<lambda>_.
         capture H db rq ctx b key hash (map_option ti_version task)))))))"

section \<open>Reading\<close>

definition observation_read :: access_options where
  "observation_read = \<lparr>ao_level = Viewer, ao_permissions = Some observation_permissions, ao_audiences = Some [''internal'']\<rparr>"

definition field_only :: "access_context \<Rightarrow> bool" where
  "field_only ctx \<longleftrightarrow> normalize_role (ac_role ctx) = ''field_supervisor''"

definition can_capture :: "access_context \<Rightarrow> bool res" where
  "can_capture ctx = (if ac_level ctx = Editor then holds_any ctx observation_permissions else Inr False)"

definition own_observation :: "'d field_db_scheme \<Rightarrow> access_context \<Rightarrow> observation_row \<Rightarrow> bool" where
  "own_observation db ctx v \<longleftrightarrow> fv_actor v = ac_user ctx \<and> (case fv_task v of None \<Rightarrow> True | Some i \<Rightarrow>
     list_ex (\<lambda>t. ti_id t = i \<and> ti_org t = fv_org v \<and> ti_project t = fv_project v \<and> ti_assignee t = Some (ac_user ctx)) (wd_tasks db))"

definition list_observations :: "'d field_db_scheme \<Rightarrow> api_request \<Rightarrow> string \<Rightarrow> (json list \<times> bool \<times> bool) res" where
  "list_observations db rq reference = bind_res (with_access db rq reference observation_read (\<lambda>db ctx.
     let rows = take 201 (sort_key (\<lambda>v. - fv_received v) (sort_key fv_id
       (filter (\<lambda>v. in_project ctx (fv_org v) (fv_project v) \<and> (\<not> field_only ctx \<or> own_observation db ctx v)) (fd_observations db)))) in
     bind_res (can_capture ctx) (\<lambda>can. Inr (db, (map observation_receipt (take 200 rows), 200 < length rows, can))))) (\<lambda>(_, r). Inr r)"

definition get_observation :: "'d field_db_scheme \<Rightarrow> api_request \<Rightarrow> string \<Rightarrow> string \<Rightarrow> json res" where
  "get_observation db rq reference i =
     bind_res (throw_if (\<not> uuid_text i) (Thrown ''FIELD_OBSERVATION_SCHEMA_REJECTED'' [])) (\<lambda>_.
     bind_res (with_access db rq reference observation_read (\<lambda>db ctx.
       case List.find (\<lambda>v. fv_id v = to_lower i \<and> in_project ctx (fv_org v) (fv_project v)) (fd_observations db) of
         None \<Rightarrow> fail ''FIELD_OBSERVATION_NOT_FOUND''
       | Some v \<Rightarrow> bind_res (throw_if (field_only ctx \<and> fv_actor v \<noteq> ac_user ctx) (Thrown ''FIELD_OBSERVATION_NOT_FOUND'' [])) (\<lambda>_.
           bind_res (if field_only ctx then field_task db ctx (fv_task v) else Inr None) (\<lambda>_. Inr (db, observation_receipt v))))) (\<lambda>(_, r). Inr r))"

record observation_command =
  vc_request :: api_request
  vc_project :: string
  vc_body :: observation_body

definition observation_step :: "hasher \<Rightarrow> 'd field_db_scheme \<Rightarrow> observation_command \<Rightarrow> 'd field_db_scheme res" where
  "observation_step H db c = bind_res (create_observation H db (vc_request c) (vc_project c) (vc_body c)) (\<lambda>(db', _). Inr db')"

section \<open>What a capture leaves\<close>

lemma find_snoc_None: "List.find P xs = None \<Longrightarrow> P x \<Longrightarrow> List.find P (xs @ [x]) = Some x"
  by (induction xs) (auto split: if_splits)

lemma find_append_Some: "List.find P xs = Some x \<Longrightarrow> List.find P (xs @ ys) = Some x"
  by (induction xs) auto

text \<open>Nothing but the observations and the records of the protocol, and only by adding to them.\<close>

definition adds_only :: "'d field_db_scheme \<Rightarrow> 'd field_db_scheme \<Rightarrow> bool" where
  "adds_only db db' \<longleftrightarrow> (\<exists>rs as es os. db' = db\<lparr>db_receipts := db_receipts db @ rs, db_audit := db_audit db @ as, db_outbox := db_outbox db @ es,
     fd_observations := fd_observations db @ os\<rparr>)"

lemma adds_only_refl: "adds_only db db"
  unfolding adds_only_def by (rule exI [of _ "[]"])+ simp

lemma adds_only_trans: "adds_only a b \<Longrightarrow> adds_only b c \<Longrightarrow> adds_only a c"
  unfolding adds_only_def by (elim exE) (rule exI, rule exI, rule exI, rule exI, simp)

text \<open>An accepted request, new or repeated, is answered by the observation that is then found.\<close>

lemma find_receipt_append: "find_receipt db org key = Some r \<Longrightarrow> db_receipts db' = db_receipts db @ rs \<Longrightarrow> find_receipt db' org key = Some r"
  by (simp add: find_receipt_def find_append_Some)

lemma find_receipt_new:
  "find_receipt db org key = None \<Longrightarrow> rc_org r = org \<Longrightarrow> rc_key r = key \<Longrightarrow> db_receipts db' = db_receipts db @ [r] \<Longrightarrow> find_receipt db' org key = Some r"
  by (simp add: find_receipt_def find_snoc_None)

lemma captureE:
  assumes "capture H db rq ctx b key hash current = Inr (db', response)"
  obtains v where "v = new_observation rq ctx b hash current" "response = observation_response v"
    "db' = db\<lparr>db_audit := db_audit db @ [observation_audit H db v], db_outbox := db_outbox db @ [observation_outbox v],
      fd_observations := fd_observations db @ [v], db_receipts := db_receipts db @ [transport_receipt ctx key hash (observation_response v)]\<rparr>"
  using assms by (intro that [OF refl]) (auto simp: capture_def Let_def insert_observation_def save_transport_def)

text \<open>The observation and the receipt that a request is answered by.\<close>

definition answered_by :: "hasher \<Rightarrow> 'd field_db_scheme \<Rightarrow> access_context \<Rightarrow> observation_body \<Rightarrow> string \<Rightarrow> observation_row \<Rightarrow> bool" where
  "answered_by H db ctx b key v \<longleftrightarrow> find_observation db ctx (vb_operation b) = Some v \<and> fv_project v = pj_id (ac_project ctx) \<and>
     fv_hash v = observation_hash H ctx b \<and> (\<exists>r. find_receipt db (ac_org ctx) key = Some r \<and> rc_actor r = ac_user ctx \<and>
       rc_operation r = capture_operation \<and> rc_hash r = observation_hash H ctx b)"

lemma create_observationE:
  assumes "create_observation H db rq reference body = Inr (db', response)"
  obtains b key ctx task v where "validate_observation body = Inr b" "command_key rq = Inr key"
    "check_access db rq reference observation_access = Inr ctx" "field_task db ctx (vb_task b) = Inr task"
    "answered_by H db' ctx b key v" "response = observation_response v" "adds_only db db'"
proof -
  from assms obtain b key ctx task where pre: "validate_observation body = Inr b" "command_key rq = Inr key"
      "check_access db rq reference observation_access = Inr ctx" "field_task db ctx (vb_task b) = Inr task"
    and transport: "\<not> (case find_receipt db (ac_org ctx) key of None \<Rightarrow> False
        | Some r \<Rightarrow> rc_actor r \<noteq> ac_user ctx \<or> rc_operation r \<noteq> capture_operation \<or> rc_hash r \<noteq> observation_hash H ctx b)"
    and rest: "(case find_observation db ctx (vb_operation b) of
       Some prior \<Rightarrow>
         bind_res (throw_if (fv_project prior \<noteq> pj_id (ac_project ctx) \<or> fv_hash prior \<noteq> observation_hash H ctx b) (Thrown ''FIELD_OPERATION_CONFLICT'' [])) (\<lambda>_.
         bind_res (if find_receipt db (ac_org ctx) key = None
           then save_transport (transport_receipt ctx key (observation_hash H ctx b) (observation_response prior)) db else Inr db)
           (\<lambda>db1. Inr (db1, observation_response prior)))
     | None \<Rightarrow> bind_res (throw_if (find_receipt db (ac_org ctx) key \<noteq> None) (Thrown ''FIELD_RECEIPT_INCONSISTENT'' [])) (\<lambda>_.
         capture H db rq ctx b key (observation_hash H ctx b) (map_option ti_version task))) = Inr (db', response)"
    unfolding create_observation_def with_access_def Let_def by (auto simp del: split_paired_Ex)
  let ?hash = "observation_hash H ctx b"
  show ?thesis
  proof (cases "find_observation db ctx (vb_operation b)")
    case None
    from rest None have none: "find_receipt db (ac_org ctx) key = None"
      and run: "capture H db rq ctx b key ?hash (map_option ti_version task) = Inr (db', response)" by auto
    from run show ?thesis
    proof (rule captureE)
      fix v
      assume v: "v = new_observation rq ctx b ?hash (map_option ti_version task)" and response: "response = observation_response v"
        and db': "db' = db\<lparr>db_audit := db_audit db @ [observation_audit H db v], db_outbox := db_outbox db @ [observation_outbox v],
          fd_observations := fd_observations db @ [v], db_receipts := db_receipts db @ [transport_receipt ctx key ?hash (observation_response v)]\<rparr>"
      have new: "fv_org v = ac_org ctx" "fv_actor v = ac_user ctx" "fv_operation v = vb_operation b" "fv_project v = pj_id (ac_project ctx)" "fv_hash v = ?hash"
        by (simp_all add: v new_observation_def)
      have "find_observation db' ctx (vb_operation b) = Some v"
        using None by (simp add: find_observation_def db' find_snoc_None new)
      moreover have "find_receipt db' (ac_org ctx) key = Some (transport_receipt ctx key ?hash (observation_response v))"
        using none by (rule find_receipt_new) (simp_all add: transport_receipt_def db')
      ultimately have "answered_by H db' ctx b key v"
        by (simp add: answered_by_def transport_receipt_def new)
      moreover have "adds_only db db'" unfolding adds_only_def db'
        by (rule exI [of _ "[transport_receipt ctx key ?hash (observation_response v)]"], rule exI [of _ "[observation_audit H db v]"], rule exI [of _ "[observation_outbox v]"], rule exI [of _ "[v]"]) simp
      ultimately show ?thesis using pre response by (intro that)
    qed
  next
    case (Some v)
    with rest have v: "fv_project v = pj_id (ac_project ctx)" "fv_hash v = ?hash" and response: "response = observation_response v"
      by (auto split: if_splits)
    show ?thesis
    proof (cases "find_receipt db (ac_org ctx) key")
      case None
      let ?r = "transport_receipt ctx key ?hash (observation_response v)"
      from rest Some None have db': "db' = db\<lparr>db_receipts := db_receipts db @ [?r]\<rparr>" by (auto simp: save_transport_def)
      have "find_receipt db' (ac_org ctx) key = Some ?r"
        using None by (rule find_receipt_new) (simp_all add: transport_receipt_def db')
      with Some v have "answered_by H db' ctx b key v" by (simp add: answered_by_def transport_receipt_def) (simp add: find_observation_def db')
      moreover have "adds_only db db'" unfolding adds_only_def db'
        by (rule exI [of _ "[?r]"], rule exI [of _ "[]"], rule exI [of _ "[]"], rule exI [of _ "[]"]) simp
      ultimately show ?thesis using pre response by (intro that)
    next
      case found: (Some r)
      with rest Some have "db' = db" by (auto split: if_splits)
      moreover have "answered_by H db ctx b key v" using transport found Some v by (simp add: answered_by_def)
      ultimately show ?thesis using pre response adds_only_refl [of db] by (intro that) simp_all
    qed
  qed
qed

lemma adds_only_answered: "adds_only db db' \<Longrightarrow> answered_by H db ctx b key v \<Longrightarrow> answered_by H db' ctx b key v"
proof -
  assume "adds_only db db'" and v: "answered_by H db ctx b key v"
  then obtain rs os where rows: "db_receipts db' = db_receipts db @ rs" "fd_observations db' = fd_observations db @ os"
    by (auto simp: adds_only_def)
  have "find_observation db' ctx (vb_operation b) = Some v"
    using v by (simp add: answered_by_def find_observation_def rows(2) find_append_Some)
  moreover have "find_receipt db' org key = Some r" if "find_receipt db org key = Some r" for org key r
    using that rows(1) by (rule find_receipt_append)
  ultimately show ?thesis using v by (auto simp: answered_by_def)
qed

lemma captures_add_only: "adds_only db (attempts (observation_step H) db cs)"
proof (induction cs arbitrary: db)
  case (Cons c cs)
  show ?case
  proof (cases "observation_step H db c")
    case (Inr db1)
    then obtain response where "create_observation H db (vc_request c) (vc_project c) (vc_body c) = Inr (db1, response)"
      by (auto simp: observation_step_def)
    then have "adds_only db db1" by (rule create_observationE)
    with Cons.IH [of db1] Inr show ?thesis by (simp add: adds_only_trans)
  qed (simp add: Cons.IH)
qed (simp add: adds_only_refl)

text \<open>The constraint of the table on task, versions and status is met by every row.\<close>

lemma observation_meets_check:
  assumes "validate_observation body = Inr b" "field_task db ctx (vb_task b) = Inr task" "v = new_observation rq ctx b hash (map_option ti_version task)"
  shows "(fv_task v = None \<and> fv_base v = None \<and> fv_current v = None \<and> fv_status v = ''accepted'') \<or>
    (fv_task v \<noteq> None \<and> fv_current v \<noteq> None \<and> (if fv_base v = None \<or> fv_base v = fv_current v then fv_status v = ''accepted''
       else fv_status v = ''accepted_as_observation_with_conflict''))"
proof -
  have fields: "fv_task v = vb_task b" "fv_base v = vb_base b" "fv_current v = map_option ti_version task"
      "fv_status v = observation_status (vb_base b) (map_option ti_version task)"
    by (simp_all add: assms(3) new_observation_def)
  have task: "task = None \<longleftrightarrow> vb_task b = None" using assms(2) by (cases task) (auto simp: field_task_def split: option.splits if_splits)
  have "vb_task b = None \<longrightarrow> vb_base b = None" using assms(1) by (auto simp: validate_observation_def split: if_splits)
  with task show ?thesis by (cases "vb_task b = None") (auto simp: fields observation_status_def)
qed

text \<open>
  C20: an observation sent again gets the first receipt. Whatever captures of any device come in
  between, a repetition of an accepted capture by the same session while it lives is accepted
  with the same response and records no further observation, under the same transport key or
  under one that has not been used; and no capture has changed a task.
\<close>

theorem observation_sent_again:
  assumes first: "create_observation H db rq reference body = Inr (db1, response)" and db2: "db2 = attempts (observation_step H) db1 cs"
    and rq: "rq_org rq' = rq_org rq" "rq_token rq' = rq_token rq"
    and alive: "\<forall>s \<in> set (db_sessions db). Some (ss_token s) = rq_token rq \<longrightarrow> (rq_now rq < ss_expires s \<longleftrightarrow> rq_now rq' < ss_expires s)"
    and key: "command_key rq' = Inr key" "command_key rq = Inr key \<or> (\<forall>r \<in> set (db_receipts db2). rc_key r \<noteq> key)"
  shows "\<exists>db3. create_observation H db2 rq' reference body = Inr (db3, response) \<and> fd_observations db3 = fd_observations db2 \<and> wd_tasks db3 = wd_tasks db"
  using first
proof (rule create_observationE)
  fix b key1 ctx task v
  assume pre: "validate_observation body = Inr b" "command_key rq = Inr key1" "check_access db rq reference observation_access = Inr ctx"
      "field_task db ctx (vb_task b) = Inr task"
    and v: "answered_by H db1 ctx b key1 v" "response = observation_response v" "adds_only db db1"
  have add: "adds_only db db2" unfolding db2 using v(3) captures_add_only by (rule adds_only_trans)
  have found: "answered_by H db2 ctx b key1 v" unfolding db2 using captures_add_only v(1) by (rule adds_only_answered)
  have core: "core_db.truncate db2 = (core_db.truncate db)\<lparr>db_receipts := db_receipts db2, db_audit := db_audit db2, db_outbox := db_outbox db2\<rparr>"
    and tasks: "wd_tasks db2 = wd_tasks db"
    using add by (auto simp: adds_only_def core_db.truncate_def)
  have access: "check_access db2 rq' reference observation_access = Inr ctx"
    using same_access [OF core rq] alive pre(3) by auto
  have task: "field_task db2 ctx (vb_task b) = Inr task" using pre(4) unfolding field_task_def tasks .
  have org: "ac_org ctx \<in> set (db_orgs db2)" using access by (auto simp: check_access_def Let_def split: option.splits)
  show ?thesis
  proof (cases "key = key1")
    case True
    with found obtain r where "find_receipt db2 (ac_org ctx) key = Some r" "rc_actor r = ac_user ctx" "rc_operation r = capture_operation"
        "rc_hash r = observation_hash H ctx b" by (auto simp: answered_by_def)
    with found v(2) pre(1) key(1) access task org tasks show ?thesis
      by (simp add: create_observation_def with_access_def answered_by_def)
  next
    case False
    with key(2) pre(2) have "\<forall>r \<in> set (db_receipts db2). rc_key r \<noteq> key" by auto
    then have "find_receipt db2 (ac_org ctx) key = None" "(ac_org ctx, key) \<notin> (\<lambda>r. (rc_org r, rc_key r)) ` set (db_receipts db2)"
      by (auto simp: find_receipt_def find_None_iff)
    with found v(2) pre(1) key(1) access task org tasks show ?thesis
      by (simp add: create_observation_def with_access_def answered_by_def save_transport_def insert_row_def transport_receipt_def Let_def)
  qed
qed

section \<open>Examples\<close>

definition example_field :: field_db where
  "example_field = work_db.extend example_work \<lparr>fd_observations = []\<rparr>"

definition damaged_shackle :: observation_body where
  "damaged_shackle = \<lparr>vb_operation = uid (CHR ''6''), vb_device = uid (CHR ''7''), vb_captured = 5, vb_task = Some (uid (CHR ''d'')),
     vb_base = Some 1, vb_note = ''shackle'', vb_reason = ''damage''\<rparr>"

definition second_note :: observation_body where
  "second_note = damaged_shackle\<lparr>vb_operation := uid (CHR ''8''), vb_task := None, vb_base := None\<rparr>"

lemma field_texts [simp]: "trim ''shackle'' = ''shackle''" "trim ''damage'' = ''damage''" "trim ''k4'' = ''k4''"
  by code_simp+

lemma field_uuids [simp]: "uuid_text (uid (CHR ''6''))" "uuid_text (uid (CHR ''7''))" "uuid_text (uid (CHR ''8''))"
  by (rule uid_uuid; simp add: is_hex_def lower_char_def)+

lemma field_lowers [simp]: "to_lower (uid (CHR ''6'')) = uid (CHR ''6'')" "to_lower (uid (CHR ''7'')) = uid (CHR ''7'')" "to_lower (uid (CHR ''8'')) = uid (CHR ''8'')"
  by (rule uid_lower; simp add: lower_char_def)+

lemmas field_eval = create_observation_def validate_observation_def plain_text_def damaged_shackle_def second_note_def example_field_def work_db.extend_def
  observation_access_def observation_permissions_def field_task_def find_observation_def capture_def insert_observation_def save_transport_def
  transport_receipt_def observation_audit_def observation_outbox_def new_observation_def

lemma capture_example: "\<exists>db1 response. create_observation example_hasher example_field (example_request ''pm'' ''k3'' ''345'' 20) ''PRJ-1'' damaged_shackle = Inr (db1, response) \<and>
    map fv_status (fd_observations db1) = [''accepted''] \<and> map rc_key (db_receipts db1) = [''k3'']"
  by (simp add: field_eval observation_status_def work_run_eval)

theorem observation_sent_again_witness:
  "\<exists>db1 response db3. create_observation example_hasher example_field (example_request ''pm'' ''k3'' ''345'' 20) ''PRJ-1'' damaged_shackle = Inr (db1, response) \<and>
     create_observation example_hasher (attempts (observation_step example_hasher) db1
       [\<lparr>vc_request = example_request ''pm'' ''k4'' ''89f'' 25, vc_project = ''PRJ-1'', vc_body = second_note\<rparr>])
       (example_request ''pm'' ''k3'' ''345'' 20\<lparr>rq_now := 30\<rparr>) ''PRJ-1'' damaged_shackle = Inr (db3, response)"
proof -
  let ?rq = "example_request ''pm'' ''k3'' ''345'' 20"
  obtain db1 response where run: "create_observation example_hasher example_field ?rq ''PRJ-1'' damaged_shackle = Inr (db1, response)"
    using capture_example by blast
  have rq: "rq_org (?rq\<lparr>rq_now := 30\<rparr>) = rq_org ?rq" "rq_token (?rq\<lparr>rq_now := 30\<rparr>) = rq_token ?rq"
    and key: "command_key (?rq\<lparr>rq_now := 30\<rparr>) = Inr ''k3''" "command_key ?rq = Inr ''k3''"
    and alive: "\<forall>s \<in> set (db_sessions example_field). Some (ss_token s) = rq_token ?rq \<longrightarrow>
      (rq_now ?rq < ss_expires s \<longleftrightarrow> rq_now (?rq\<lparr>rq_now := 30\<rparr>) < ss_expires s)"
    by (simp_all add: example_field_def work_db.extend_def work_eval)
  from observation_sent_again [OF run refl rq alive key(1) disjI1 [OF key(2)]] run show ?thesis by blast
qed

end
