(* ===== verification/Spec2Isabelle.thy ===== *)
theory Spec2Isabelle
  imports Time_Util Stage_Graph Finance Variations Policy_Compiler Approval_Policy Inventory Three_Way_Match
    Procurement Gantt Operations Governance Shift_Plan Boq Run_Sheet Schedule Membership Clarification_Register
    Request_Guard Field_Observation
begin

text \<open>
  E3-EOS: a platform for the delivery of events, written in TypeScript. The domain logic is
  the package \<open>packages/domain\<close>, the rules are \<open>packages/policy\<close>, and \<open>apps/api\<close> has the
  endpoints. Older endpoints keep their state in maps in memory and call the domain
  functions; newer ones (\<open>*.service.ts\<close>) keep it in a database and run every command through
  one protocol. The theories follow this structure.

  Values and rules. \<open>Money\<close>, \<open>Finance\<close>, \<open>Variations\<close> (files \<open>money.ts\<close>, \<open>finance.ts\<close>,
  \<open>variations.ts\<close>): amounts of the decimal package, whose contract is the locale of
  \<open>Decimals\<close>; \<open>Half_Up\<close> is an instance of it with the configuration of the code (24 significant
  digits, half up). \<open>Boq\<close> is the pricing of bills of quantities. \<open>Crypto_Util\<close> is the text of a
  JSON value and its digest. \<open>Policy_Engine\<close>, \<open>Policy_Compiler\<close> and \<open>Approval_Policy\<close> are the
  policy language, its evaluation in three values, the compiler and the approval bands.
  \<open>Rbac\<close> has the roles. \<open>Constraints\<close> and \<open>Shift_Plan\<close> are the life cycle of operational
  constraints and the shift plan that reads them.

  Processes. \<open>Procurement\<close> and \<open>Three_Way_Match\<close> (vendors, orders, receipts, framework
  contracts, invoices), \<open>Inventory\<close> (reservations, holds, allocations), \<open>Operations\<close>
  (readiness, opening, rest of crews), \<open>Governance\<close> (approvals, exceptions and policy
  publication), \<open>Gantt\<close> (critical path), \<open>Stage_Graph\<close> (stages and the acyclicity check),
  \<open>Run_Sheet\<close> (propagation of delays in a live show).

  Durable commands. \<open>Project_Access\<close> has the tables and the check of every request,
  \<open>Durable_Command\<close> the protocol (receipt of a key, change, audit event with the digest of the
  one before, outbox event), \<open>Work\<close> the packages and tasks and \<open>Schedule\<close> the forecasts and
  dependencies; \<open>Membership\<close> has the role changes, restorations and revocations of members,
  on the same tables; \<open>Requirement_Register\<close> has the drafts of requirements with their hashed
  revisions, \<open>Quantity\<close> the texts of their quantities, and \<open>Clarification_Register\<close> the questions
  that pin those revisions; \<open>Field_Observation\<close> has the notes that devices send, and send again.
  \<open>Request_Guard\<close> has what stands in front of the endpoints: the origin and the session of a
  request, and the answers kept per key. A theory extends the record of the tables it builds on
  (access, work, schedule, requirements, questions; access, work, observations), so the commands
  of the lower theories are steps on the state of the higher ones.

  Errors. What the code throws is a value of a sum (\<open>res\<close> of \<open>Prelude\<close>), each throw with its
  code; what it returns as a result object is a record or another sum. A sequence of
  requests whose failures are caught is \<open>attempts\<close>: a failed step keeps the state.

  Interfaces. \<open>guarded_run\<close> and \<open>conserving_run\<close> (\<open>Prelude\<close>): steps that keep an invariant, or
  a total; interpreted by each component that has state. \<open>project_mutation\<close>
  (\<open>Durable_Command\<close>): what a register promises the protocol, and in return when a command is
  executed, answered from a receipt, or retried; interpreted by the commands of \<open>Work\<close>,
  \<open>Schedule\<close>, \<open>Requirement_Register\<close> and \<open>Clarification_Register\<close>. \<open>idempotent_consumer\<close>: a
  consumer that recognises what it has taken.

  What the lemmas show. Finance and variations: postings of amounts that are not negative and
  fit the stored precision keep the estimate, while the endpoint for accruals also takes
  amounts that break it; the import ledger of a project never counts a batch twice; only
  approved variations change a baseline. Policy: the evaluator is
  Kleene logic, hashes do not depend on the order of keys. Inventory: no double booking.
  Procurement: an order is not sent twice without reconciliation, receipts stay within the
  order. Gantt: the passes are feasible schedules whatever the types of the dependencies, and
  the least and the greatest one when all are finish-to-start. Governance: from the seeded
  state on, nobody approves their own request. Work and schedule: at most one effect per key,
  completed tasks are final under every command of both, the audit trail is a chain, the plan
  refines a planner that refuses a dependency exactly when it is there or closes a loop.
  Memberships: an organisation keeps an administrator, a restored member starts without access.
  Requirements: the revisions of a draft account for its row, equal quantities have one text.
  Clarifications: a row follows the state machine of its history, and never gets stuck.
  Observations: a note that is sent again gets the first receipt and is not recorded twice.
  Guards: only a live session of a member with the permissions gets through, a kept answer stays.
  Some properties state what the code does although it was not meant to; these are the
  findings listed beside the development.

  Termination. Every loop is total: structural recursion or a measure (the unvisited nodes
  for the searches of \<open>Stage_Graph\<close>, \<open>Run_Sheet\<close> and \<open>Schedule\<close>); no fuel is used.

  Bounds. Counts, minutes and instants in milliseconds are integers, fractions are rational
  numbers: the IEEE rounding of the language is not modelled, except where the code rounds
  (\<open>Math.round\<close>, \<open>toFixed\<close>, the decimal package), and integers are exact below 2^53.

  Arguments. SHA-256, the text of a number, \<open>Date.parse\<close> of free text, \<open>parseFloat\<close>, the names
  of time zones, the clock and fresh identifiers are arguments of the definitions. Database
  transactions of an organisation are serial, since each locks the row of its organisation;
  a lost connection and the row-level security policies are not modelled.

  Not modelled: the web client; the parsing of scope documents, prompts of language models
  and calls of external services, whose results the repository does not determine; fixed
  catalogues (stage activities, seeded constraint profiles, country packs); reading
  endpoints that only select and project rows; the second life cycle of constraints that
  \<open>constraints.controller.ts\<close> keeps beside the one of the domain package; registers of impacts, allocations,
  designs and documents, portfolio and rollout.
\<close>

end
